(* ===== verification/Prelude.thy ===== *)
theory Prelude
  imports
    Main
    "HOL-Library.AList"
    "HOL-Library.Char_ord"
    "HOL-Library.List_Lexorder"
    "HOL-Library.Product_Lexorder"
    "HOL-Library.Sublist"
    "HOL-Library.Word"
begin

text \<open>
  What every component of the model shares: the Go standard library operations the source
  uses (byte strings, \<open>strings.TrimSpace\<close>, \<open>strings.ToLower\<close>, \<open>strings.EqualFold\<close>,
  \<open>time.Time\<close>, wrapping 64-bit arithmetic, slices, maps that are ranged over), the error
  values of the program, and the generic lemmas on them.

  Strings are byte strings (\<open>char list\<close>), as in Go, so \<open>length\<close> is Go's \<open>len\<close>.
  \<open>ToLower\<close> and \<open>EqualFold\<close> are modelled on their ASCII path: a byte above 127 is left
  as it is. Instants are nanoseconds since the Unix epoch (\<open>int\<close>), durations are
  nanoseconds.
\<close>

named_theorems inv_intros \<open>preservation facts of the components' invariants\<close>
named_theorems frame_simps \<open>what an operation leaves unchanged\<close>

section \<open>Go strings\<close>

text \<open>The white space runes of \<open>unicode.IsSpace\<close>, in UTF-8.\<close>

definition ws_runes :: "string list" where
  "ws_runes =
    [[CHR 0x20], [CHR 0x09], [CHR 0x0A], [CHR 0x0B], [CHR 0x0C], [CHR 0x0D],
     [CHR 0xC2, CHR 0x85], [CHR 0xC2, CHR 0xA0], [CHR 0xE1, CHR 0x9A, CHR 0x80],
     [CHR 0xE2, CHR 0x80, CHR 0x80], [CHR 0xE2, CHR 0x80, CHR 0x81],
     [CHR 0xE2, CHR 0x80, CHR 0x82], [CHR 0xE2, CHR 0x80, CHR 0x83],
     [CHR 0xE2, CHR 0x80, CHR 0x84], [CHR 0xE2, CHR 0x80, CHR 0x85],
     [CHR 0xE2, CHR 0x80, CHR 0x86], [CHR 0xE2, CHR 0x80, CHR 0x87],
     [CHR 0xE2, CHR 0x80, CHR 0x88], [CHR 0xE2, CHR 0x80, CHR 0x89],
     [CHR 0xE2, CHR 0x80, CHR 0x8A], [CHR 0xE2, CHR 0x80, CHR 0xA8],
     [CHR 0xE2, CHR 0x80, CHR 0xA9], [CHR 0xE2, CHR 0x80, CHR 0xAF],
     [CHR 0xE2, CHR 0x81, CHR 0x9F], [CHR 0xE3, CHR 0x80, CHR 0x80]]"

lemma ws_runes_nonempty: "p \<in> set ws_runes \<Longrightarrow> p \<noteq> []"
  by (auto simp: ws_runes_def)

text \<open>Strip the patterns \<open>ps\<close> from the front as long as one matches.\<close>

function strip_front :: "string list \<Rightarrow> string \<Rightarrow> string" where
  "strip_front ps s =
     (case List.find (\<lambda>p. p \<noteq> [] \<and> prefix p s) ps of
        None \<Rightarrow> s
      | Some p \<Rightarrow> strip_front ps (drop (length p) s))"
  by pat_completeness auto
termination
  by (relation "measure (\<lambda>(ps, s). length s)")
    (auto simp: find_Some_iff prefix_def)

declare strip_front.simps [simp del]

definition trimLeft :: "string \<Rightarrow> string" where
  "trimLeft s = strip_front ws_runes s"

definition trimRight :: "string \<Rightarrow> string" where
  "trimRight s = rev (strip_front (map rev ws_runes) (rev s))"

definition trimSpace :: "string \<Rightarrow> string" where
  "trimSpace s = trimRight (trimLeft s)"

definition no_front :: "string list \<Rightarrow> string \<Rightarrow> bool" where
  "no_front ps s \<longleftrightarrow> (\<forall>p \<in> set ps. p \<noteq> [] \<longrightarrow> \<not> prefix p s)"

lemma strip_front_id: "no_front ps s \<Longrightarrow> strip_front ps s = s"
proof -
  assume "no_front ps s"
  then have "List.find (\<lambda>p. p \<noteq> [] \<and> prefix p s) ps = None"
    by (auto simp: find_None_iff no_front_def)
  then show ?thesis by (subst strip_front.simps) simp
qed

lemma strip_front_suffix: "suffix (strip_front ps s) s"
proof (induction ps s rule: strip_front.induct)
  case (1 ps s)
  show ?case
  proof (cases "List.find (\<lambda>p. p \<noteq> [] \<and> prefix p s) ps")
    case None
    then show ?thesis by (subst strip_front.simps) simp
  next
    case (Some p)
    with "1" have "suffix (strip_front ps (drop (length p) s)) (drop (length p) s)" by simp
    then have "suffix (strip_front ps (drop (length p) s)) s"
      using suffix_drop suffix_order.trans by blast
    with Some show ?thesis by (subst strip_front.simps) simp
  qed
qed

lemma strip_front_none: "no_front ps (strip_front ps s)"
proof (induction ps s rule: strip_front.induct)
  case (1 ps s)
  show ?case
  proof (cases "List.find (\<lambda>p. p \<noteq> [] \<and> prefix p s) ps")
    case None
    then have "no_front ps s" by (auto simp: find_None_iff no_front_def)
    then show ?thesis by (simp add: strip_front_id)
  next
    case (Some p)
    with "1" have "no_front ps (strip_front ps (drop (length p) s))" by simp
    with Some show ?thesis by (subst strip_front.simps) simp
  qed
qed

lemma no_front_prefix: "no_front ps s \<Longrightarrow> prefix t s \<Longrightarrow> no_front ps t"
  unfolding no_front_def using prefix_order.trans by blast

lemma no_front_Nil [simp]: "no_front ps []"
  by (auto simp: no_front_def)

text \<open>A trimmed string: no white space rune at either end.\<close>

definition trimmed :: "string \<Rightarrow> bool" where
  "trimmed s \<longleftrightarrow> no_front ws_runes s \<and> no_front (map rev ws_runes) (rev s)"

lemma trimmed_id: "trimmed s \<Longrightarrow> trimSpace s = s"
  by (simp add: trimmed_def trimSpace_def trimLeft_def trimRight_def strip_front_id)

lemma prefix_rev_suffix: "suffix (strip_front ps (rev s)) (rev s) \<Longrightarrow> prefix (rev (strip_front ps (rev s))) s"
  by (simp add: suffix_to_prefix)

lemma trimmed_trimSpace [simp]: "trimmed (trimSpace s)"
proof -
  let ?l = "strip_front ws_runes s"
  have "prefix (rev (strip_front (map rev ws_runes) (rev ?l))) ?l"
    by (rule prefix_rev_suffix [OF strip_front_suffix])
  then have "no_front ws_runes (rev (strip_front (map rev ws_runes) (rev ?l)))"
    using no_front_prefix strip_front_none by blast
  moreover have "no_front (map rev ws_runes) (strip_front (map rev ws_runes) (rev ?l))"
    by (rule strip_front_none)
  ultimately show ?thesis
    by (simp add: trimmed_def trimSpace_def trimLeft_def trimRight_def)
qed

lemma trimSpace_idem [simp]: "trimSpace (trimSpace s) = trimSpace s"
  by (rule trimmed_id) simp

lemma trimmed_Nil [simp]: "trimmed []"
  by (simp add: trimmed_def)

lemma trimSpace_Nil [simp]: "trimSpace [] = []"
  by (rule trimmed_id) simp

lemma trimSpace_sublist: "sublist (trimSpace s) s"
proof -
  have "prefix (trimRight (trimLeft s)) (trimLeft s)"
    unfolding trimRight_def by (rule prefix_rev_suffix [OF strip_front_suffix])
  moreover have "suffix (trimLeft s) s"
    unfolding trimLeft_def by (rule strip_front_suffix)
  ultimately show ?thesis
    unfolding trimSpace_def using prefix_imp_sublist suffix_imp_sublist sublist_order.order_trans by blast
qed

lemma set_trimSpace: "set (trimSpace s) \<subseteq> set s"
  by (rule set_mono_sublist [OF trimSpace_sublist])

lemma length_trimSpace: "length (trimSpace s) \<le> length s"
  by (rule sublist_length_le [OF trimSpace_sublist])

text \<open>Bytes that no white space rune contains, and strings built around such a separator.\<close>

definition plain_byte :: "char \<Rightarrow> bool" where
  "plain_byte c \<longleftrightarrow> (\<forall>p \<in> set ws_runes. c \<notin> set p)"

lemma no_front_plain_hd: "s \<noteq> [] \<Longrightarrow> plain_byte (hd s) \<Longrightarrow> no_front ws_runes s"
  unfolding no_front_def plain_byte_def
  by (cases s) (auto simp: prefix_Cons)

lemma trimmed_sep_append:
  assumes x: "trimmed x" and a: "a \<noteq> []" "plain_byte (hd a)" and c: "plain_byte c" and ne: "x \<noteq> []"
  shows "trimmed (a @ c # x)"
proof -
  have "no_front ws_runes (a @ c # x)"
    using a by (intro no_front_plain_hd) auto
  moreover have "no_front (map rev ws_runes) (rev (a @ c # x))"
    unfolding no_front_def
  proof (intro ballI impI notI)
    fix q assume q: "q \<in> set (map rev ws_runes)" "q \<noteq> []" "prefix q (rev (a @ c # x))"
    then have pre: "prefix q (rev x @ c # rev a)" by simp
    from x q(1,2) have nx: "\<not> prefix q (rev x)"
      by (auto simp: trimmed_def no_front_def)
    have "c \<notin> set q" using c q(1) by (auto simp: plain_byte_def)
    with pre nx show False
      by (auto simp: prefix_append prefix_Cons)
  qed
  ultimately show ?thesis by (simp add: trimmed_def)
qed

subsection \<open>ToLower, EqualFold and the normalisations built from them\<close>

definition lower_char :: "char \<Rightarrow> char" where
  "lower_char c =
     (if CHR ''A'' \<le> c \<and> c \<le> CHR ''Z'' then char_of (of_char c + (32 :: nat)) else c)"

definition toLower :: "string \<Rightarrow> string" where
  "toLower s = map lower_char s"

definition equalFold :: "string \<Rightarrow> string \<Rightarrow> bool" where
  "equalFold s t \<longleftrightarrow> toLower s = toLower t"

text \<open>\<open>strings.TrimSpace(strings.ToLower(x))\<close>, which the source writes in many places.\<close>

definition lowerTrim :: "string \<Rightarrow> string" where
  "lowerTrim s = trimSpace (toLower s)"

lemma lower_char_idem [simp]: "lower_char (lower_char c) = lower_char c"
proof (cases "CHR ''A'' \<le> c \<and> c \<le> CHR ''Z''")
  case True
  then have r: "65 \<le> (of_char c :: nat)" "(of_char c :: nat) \<le> 90"
    by (auto simp: less_eq_char_def)
  then have "(of_char (lower_char c) :: nat) = of_char c + 32"
    using True by (simp add: lower_char_def of_char_of)
  with r have "\<not> (lower_char c \<le> CHR ''Z'')" by (simp add: less_eq_char_def)
  then show ?thesis by (simp add: lower_char_def [of "lower_char c"])
next
  case False
  then have "lower_char c = c" by (auto simp: lower_char_def)
  then show ?thesis by simp
qed

lemma toLower_idem [simp]: "toLower (toLower s) = toLower s"
  by (simp add: toLower_def)

lemma toLower_Nil [simp]: "toLower [] = []"
  by (simp add: toLower_def)

lemma length_toLower [simp]: "length (toLower s) = length s"
  by (simp add: toLower_def)

lemma toLower_fix: "(\<And>c. c \<in> set s \<Longrightarrow> lower_char c = c) \<Longrightarrow> toLower s = s"
  by (simp add: toLower_def map_idI)

lemma toLower_lowerTrim [simp]: "toLower (lowerTrim s) = lowerTrim s"
proof (rule toLower_fix)
  fix c assume "c \<in> set (lowerTrim s)"
  then have "c \<in> set (toLower s)" unfolding lowerTrim_def using set_trimSpace by blast
  then show "lower_char c = c" by (auto simp: toLower_def)
qed

lemma trimSpace_lowerTrim [simp]: "trimSpace (lowerTrim s) = lowerTrim s"
  by (simp add: lowerTrim_def)

lemma lowerTrim_idem [simp]: "lowerTrim (lowerTrim s) = lowerTrim s"
  by (metis lowerTrim_def toLower_lowerTrim trimSpace_lowerTrim)

lemma trimmed_lowerTrim [simp]: "trimmed (lowerTrim s)"
  by (simp add: lowerTrim_def)

section \<open>Instants, durations and 64-bit integers\<close>

type_synonym gtime = int
type_synonym gduration = int

definition millisecond :: gduration where "millisecond = 1000000"
definition second :: gduration where "second = 1000000000"
definition minute :: gduration where "minute = 60 * second"
definition hour :: gduration where "hour = 3600 * second"

lemmas duration_defs = millisecond_def second_def minute_def hour_def

text \<open>\<open>time.Time{}\<close> is 1 January of year 1; \<open>UnixMilli\<close> rounds down, as the seconds and
  the non-negative nanoseconds of Go's representation make it do.\<close>

definition zeroTime :: gtime where "zeroTime = - 62135596800 * 1000000000"

definition isZeroTime :: "gtime \<Rightarrow> bool" where "isZeroTime t \<longleftrightarrow> t = zeroTime"

definition unixMilli :: "gtime \<Rightarrow> int" where "unixMilli t = t div 1000000"

definition timeOfMilli :: "int \<Rightarrow> gtime" where "timeOfMilli ms = ms * 1000000"

text \<open>\<open>Duration.Milliseconds\<close> truncates towards zero.\<close>

definition durMillis :: "gduration \<Rightarrow> int" where
  "durMillis d = sgn d * (\<bar>d\<bar> div 1000000)"

lemma unixMilli_timeOfMilli [simp]: "unixMilli (timeOfMilli ms) = ms"
  by (simp add: unixMilli_def timeOfMilli_def)

lemma unixMilli_mono: "a \<le> b \<Longrightarrow> unixMilli a \<le> unixMilli b"
  by (simp add: unixMilli_def zdiv_mono1)

text \<open>\<open>int\<close> and \<open>int64\<close> arithmetic wraps around.\<close>

definition wrap64 :: "int \<Rightarrow> int" where
  "wrap64 x = (x + 2 ^ 63) mod 2 ^ 64 - 2 ^ 63"

definition wrap32 :: "int \<Rightarrow> int" where
  "wrap32 x = (x + 2 ^ 31) mod 2 ^ 32 - 2 ^ 31"

lemma wrap64_id: "- (2 ^ 63) \<le> x \<Longrightarrow> x < 2 ^ 63 \<Longrightarrow> wrap64 x = x"
  by (simp add: wrap64_def)

lemma wrap64_range: "- (2 ^ 63) \<le> wrap64 x \<and> wrap64 x < 2 ^ 63"
  by (simp add: wrap64_def)

text \<open>Go's slice expression \<open>xs[lo:hi]\<close> panics out of range.\<close>

definition go_slice :: "'a list \<Rightarrow> int \<Rightarrow> int \<Rightarrow> 'a list option" where
  "go_slice xs lo hi =
     (if 0 \<le> lo \<and> lo \<le> hi \<and> hi \<le> int (length xs)
      then Some (take (nat (hi - lo)) (drop (nat lo) xs)) else None)"

section \<open>Maps that are ranged over\<close>

text \<open>
  A Go map whose entries the source loops over is an association list with distinct keys;
  lookup is \<open>map_of\<close>, assignment \<open>AList.update\<close>, \<open>delete\<close> is \<open>AList.delete\<close>. Go's
  iteration order is unspecified: the model goes through the list in order.
\<close>

abbreviation keys_distinct :: "('k \<times> 'v) list \<Rightarrow> bool" where
  "keys_distinct m \<equiv> distinct (map fst m)"

lemma map_of_put [simp]: "map_of (AList.update k v m) = (map_of m)(k \<mapsto> v)"
  by (rule AList.update_conv')

lemma map_of_del [simp]: "map_of (AList.delete k m) = (map_of m)(k := None)"
  by (rule AList.delete_conv')

lemma keys_put [simp]: "keys_distinct m \<Longrightarrow> keys_distinct (AList.update k v m)"
  by (rule AList.distinct_update)

lemma keys_del [simp]: "keys_distinct m \<Longrightarrow> keys_distinct (AList.delete k m)"
  by (simp add: AList.distinct_delete)

lemma put_fresh: "map_of m k = None \<Longrightarrow> AList.update k v m = m @ [(k, v)]"
  by (induction m) (auto split: if_splits)

lemma set_put_subset: "set (AList.update k v m) \<subseteq> insert (k, v) (set m)"
  by (induction m) auto

lemma set_del: "set (AList.delete k m) = {(k', v) \<in> set m. k' \<noteq> k}"
  by (auto simp: AList.delete_eq)

declare map_of_eq_Some_iff [simp del] Some_eq_map_of_iff [simp del]

text \<open>\<open>for k, v := range m { if P(k, v) { delete(m, k) } }\<close>\<close>

definition delete_where :: "('k \<Rightarrow> 'v \<Rightarrow> bool) \<Rightarrow> ('k \<times> 'v) list \<Rightarrow> ('k \<times> 'v) list" where
  "delete_where P m = fold (\<lambda>(k, v) m'. if P k v then AList.delete k m' else m') m m"

lemma fold_delete_filter:
  "fold (\<lambda>(k, v) m'. if P k v then AList.delete k m' else m') ps m =
     filter (\<lambda>(k, _). \<forall>(k', v') \<in> set ps. P k' v' \<longrightarrow> k \<noteq> k') m"
proof (induction ps arbitrary: m)
  case Nil
  then show ?case by (simp add: case_prod_beta)
next
  case (Cons p ps)
  obtain k v where p: "p = (k, v)" by (cases p)
  let ?f = "\<lambda>(k, v) m'. if P k v then AList.delete k m' else m'"
  have "fold ?f (p # ps) m = fold ?f ps (if P k v then AList.delete k m else m)"
    by (simp add: p)
  also have "\<dots> = filter (\<lambda>(k, _). \<forall>(k', v') \<in> set ps. P k' v' \<longrightarrow> k \<noteq> k')
      (if P k v then AList.delete k m else m)"
    by (rule Cons.IH)
  also have "\<dots> = filter (\<lambda>(k, _). \<forall>(k', v') \<in> set (p # ps). P k' v' \<longrightarrow> k \<noteq> k') m"
    by (auto simp: p AList.delete_eq case_prod_beta intro!: filter_cong)
  finally show ?case .
qed

lemma delete_where_filter:
  assumes "keys_distinct m"
  shows "delete_where P m = filter (\<lambda>(k, v). \<not> P k v) m"
  unfolding delete_where_def fold_delete_filter
proof (rule filter_cong [OF refl])
  fix e assume e: "e \<in> set m"
  obtain k v where kv: "e = (k, v)" by (cases e)
  have "\<And>v'. (k, v') \<in> set m \<Longrightarrow> v' = v"
    using assms e kv by (meson eq_key_imp_eq_value)
  then have "(\<forall>(k', v') \<in> set m. P k' v' \<longrightarrow> k \<noteq> k') = (\<not> P k v)"
    using e kv by fastforce
  then show "(case e of (k, _) \<Rightarrow> \<forall>(k', v') \<in> set m. P k' v' \<longrightarrow> k \<noteq> k') = (case e of (k, v) \<Rightarrow> \<not> P k v)"
    by (simp add: kv)
qed

lemma keys_filter [simp]: "keys_distinct m \<Longrightarrow> keys_distinct (filter P m)"
  by (simp add: distinct_map_filter)

lemma map_of_filter_distinct:
  "keys_distinct m \<Longrightarrow> map_of (filter (\<lambda>(k, v). Q k v) m) k =
     (case map_of m k of None \<Rightarrow> None | Some v \<Rightarrow> if Q k v then Some v else None)"
  by (induction m) (auto simp: map_of_eq_None_iff dest: map_of_SomeD split: option.splits)

lemma map_of_delete_where:
  "keys_distinct m \<Longrightarrow> map_of (delete_where P m) k =
     (case map_of m k of None \<Rightarrow> None | Some v \<Rightarrow> if P k v then None else Some v)"
  by (simp add: delete_where_filter map_of_filter_distinct split: option.splits)

lemma keys_delete_where [simp]: "keys_distinct m \<Longrightarrow> keys_distinct (delete_where P m)"
  by (simp add: delete_where_filter)

lemma trimmed_plain_ends:
  assumes "s \<noteq> []" "plain_byte (hd s)" "plain_byte (last s)"
  shows "trimmed s"
proof -
  have "no_front (map rev ws_runes) (rev s)"
    unfolding no_front_def
  proof (intro ballI impI notI)
    fix q assume q: "q \<in> set (map rev ws_runes)" "q \<noteq> []" "prefix q (rev s)"
    then obtain zs where "rev s = q @ zs" by (auto simp: prefix_def)
    with q(2) assms(1) have "hd q = last s" by (metis hd_append2 hd_rev)
    moreover obtain p where "p \<in> set ws_runes" "q = rev p" using q(1) by auto
    moreover have "hd q \<in> set q" using q(2) by (rule hd_in_set)
    ultimately have "last s \<in> set p" "p \<in> set ws_runes" by simp_all
    with assms(3) show False unfolding plain_byte_def by blast
  qed
  then show ?thesis using no_front_plain_hd [OF assms(1,2)] by (simp add: trimmed_def)
qed

section \<open>Error values\<close>

datatype grpc_code =
    InvalidArgument | Unauthenticated | PermissionDenied | NotFound | FailedPrecondition
  | Unavailable | Internal | DeadlineExceededCode | CanceledCode

text \<open>The sentinel errors of the packages, the context errors, gRPC status errors,
  \<open>CommandExecutionError\<close>, constraint violations of the database and any other error.\<close>

datatype go_error =
    ErrNodeNotFound | ErrSessionMismatch
  | ErrTaskNotFound | ErrTaskTerminal | ErrTaskTransitionNotApplied | ErrTaskRequestInProgress
  | ErrNoEchoWorker | ErrEchoTimeout | ErrNoCapabilityWorker | ErrNoWorkerCapacity
  | ErrInvalidWorkerType | ErrWorkerSysAlreadyExists
  | CtxDeadlineExceeded | CtxCanceled | ErrNoRows
  | StatusError grpc_code string
  | CommandExecutionError string string
  | ErrConstraint string
  | OtherError string

text \<open>What \<open>Error()\<close> says.\<close>

definition commandExecutionErrorString :: "string \<Rightarrow> string \<Rightarrow> string" where
  "commandExecutionErrorString code message =
     (let trimmedCode = trimSpace code; trimmedMessage = trimSpace message
      in if trimmedCode = [] \<and> trimmedMessage = [] then ''command execution failed''
         else if trimmedCode = [] then trimmedMessage
         else if trimmedMessage = [] then trimmedCode
         else trimmedCode @ '': '' @ trimmedMessage)"

definition codeName :: "grpc_code \<Rightarrow> string" where
  "codeName c = (case c of
     InvalidArgument \<Rightarrow> ''InvalidArgument'' | Unauthenticated \<Rightarrow> ''Unauthenticated''
   | PermissionDenied \<Rightarrow> ''PermissionDenied'' | NotFound \<Rightarrow> ''NotFound''
   | FailedPrecondition \<Rightarrow> ''FailedPrecondition'' | Unavailable \<Rightarrow> ''Unavailable''
   | Internal \<Rightarrow> ''Internal'' | DeadlineExceededCode \<Rightarrow> ''DeadlineExceeded''
   | CanceledCode \<Rightarrow> ''Canceled'')"

definition errorText :: "go_error \<Rightarrow> string" where
  "errorText err = (case err of
     ErrNodeNotFound \<Rightarrow> ''worker node not found''
   | ErrSessionMismatch \<Rightarrow> ''worker session mismatch''
   | ErrTaskNotFound \<Rightarrow> ''task not found''
   | ErrTaskTerminal \<Rightarrow> ''task already completed''
   | ErrTaskTransitionNotApplied \<Rightarrow> ''task state transition was not applied''
   | ErrTaskRequestInProgress \<Rightarrow> ''task request already in progress''
   | ErrNoEchoWorker \<Rightarrow> ''no online worker supports echo''
   | ErrEchoTimeout \<Rightarrow> ''echo command timed out''
   | ErrNoCapabilityWorker \<Rightarrow> ''no online worker supports capability''
   | ErrNoWorkerCapacity \<Rightarrow> ''no online worker capacity for capability''
   | ErrInvalidWorkerType \<Rightarrow> ''invalid worker type''
   | ErrWorkerSysAlreadyExists \<Rightarrow> ''worker-sys already exists for owner''
   | CtxDeadlineExceeded \<Rightarrow> ''context deadline exceeded''
   | CtxCanceled \<Rightarrow> ''context canceled''
   | ErrNoRows \<Rightarrow> ''sql: no rows in result set''
   | StatusError c m \<Rightarrow> ''rpc error: code = '' @ codeName c @ '' desc = '' @ m
   | CommandExecutionError c m \<Rightarrow> commandExecutionErrorString c m
   | ErrConstraint m \<Rightarrow> ''constraint failed: '' @ m
   | OtherError m \<Rightarrow> m)"

end
