(* ===== verification/TerminalRoutes.thy ===== *)
theory TerminalRoutes
  imports Prelude
begin

text \<open>
  \<open>console/internal/grpcserver/terminal_session_routes.go\<close>: which worker node a terminal
  session lives on. The service keeps the route of each session and, per node, the set of
  its sessions; the invariant \<open>routes_wf\<close> says that the second table is exactly the inverse
  of the first, and the abstraction \<open>routeMap\<close> (session id to route) is what the operations
  implement. \<open>wall\<close> is the answer of \<open>time.Now()\<close>, used where \<open>now\<close> is the zero time.
\<close>

record terminalSessionRoute =
  rt_node :: string
  rt_last_used :: int

record routes =
  terminalSessionToNode :: "(string \<times> terminalSessionRoute) list"
  terminalNodeToSessionIDIndex :: "(string \<times> string list) list"
  terminalRouteTTL :: gduration
  lastTerminalRoutePruneUnixMs :: int

definition terminalRoutePruneMinInterval :: gduration where
  "terminalRoutePruneMinInterval = 1 * minute"

definition defaultTerminalRouteTTL :: gduration where
  "defaultTerminalRouteTTL = 30 * minute"

definition emptyRoutes :: routes where
  "emptyRoutes = \<lparr>terminalSessionToNode = [], terminalNodeToSessionIDIndex = [],
     terminalRouteTTL = defaultTerminalRouteTTL, lastTerminalRoutePruneUnixMs = 0\<rparr>"

definition routeNowUnixMs :: "gtime \<Rightarrow> gtime \<Rightarrow> int" where
  "routeNowUnixMs wall now = (if isZeroTime now then unixMilli wall else unixMilli now)"

text \<open>The two ways the code changes a node's session set.\<close>

definition indexAdd :: "string \<Rightarrow> string \<Rightarrow> (string \<times> string list) list \<Rightarrow> (string \<times> string list) list" where
  "indexAdd node sid idx =
     AList.update node (List.insert sid (case map_of idx node of None \<Rightarrow> [] | Some s \<Rightarrow> s)) idx"

definition indexRemove :: "string \<Rightarrow> string \<Rightarrow> (string \<times> string list) list \<Rightarrow> (string \<times> string list) list" where
  "indexRemove node sid idx =
     (case map_of idx node of
        None \<Rightarrow> idx
      | Some s \<Rightarrow> let s' = removeAll sid s
                  in if s' = [] then AList.delete node idx else AList.update node s' idx)"

definition bindTerminalSessionRoute :: "gtime \<Rightarrow> string \<Rightarrow> string \<Rightarrow> gtime \<Rightarrow> routes \<Rightarrow> routes" where
  "bindTerminalSessionRoute wall sessionID nodeID now r =
     (let sid = trimSpace sessionID; node = trimSpace nodeID
      in if sid = [] \<or> node = [] then r
         else let nowUnixMs = routeNowUnixMs wall now;
                  idx = (case map_of (terminalSessionToNode r) sid of
                           None \<Rightarrow> terminalNodeToSessionIDIndex r
                         | Some existing \<Rightarrow>
                             if rt_node existing \<noteq> node
                             then indexRemove (rt_node existing) sid (terminalNodeToSessionIDIndex r)
                             else terminalNodeToSessionIDIndex r)
              in r\<lparr>terminalSessionToNode := AList.update sid
                     \<lparr>rt_node = node, rt_last_used = nowUnixMs\<rparr> (terminalSessionToNode r),
                   terminalNodeToSessionIDIndex := indexAdd node sid idx\<rparr>)"

definition reserveTerminalSessionRoute ::
  "gtime \<Rightarrow> string \<Rightarrow> string \<Rightarrow> gtime \<Rightarrow> routes \<Rightarrow> (string \<times> bool) \<times> routes" where
  "reserveTerminalSessionRoute wall sessionID preferredNodeID now r =
     (let sid = trimSpace sessionID; node = trimSpace preferredNodeID
      in if sid = [] \<or> node = [] then (([], False), r)
         else let nowUnixMs = routeNowUnixMs wall now
              in case map_of (terminalSessionToNode r) sid of
                   Some existing \<Rightarrow>
                     ((rt_node existing, False),
                      r\<lparr>terminalSessionToNode := AList.update sid
                          (existing\<lparr>rt_last_used := nowUnixMs\<rparr>) (terminalSessionToNode r)\<rparr>)
                 | None \<Rightarrow>
                     ((node, True),
                      r\<lparr>terminalSessionToNode := AList.update sid
                          \<lparr>rt_node = node, rt_last_used = nowUnixMs\<rparr> (terminalSessionToNode r),
                        terminalNodeToSessionIDIndex :=
                          indexAdd node sid (terminalNodeToSessionIDIndex r)\<rparr>))"

definition touchTerminalSessionRoute ::
  "gtime \<Rightarrow> string \<Rightarrow> gtime \<Rightarrow> routes \<Rightarrow> string option \<times> routes" where
  "touchTerminalSessionRoute wall sessionID now r =
     (let sid = trimSpace sessionID
      in if sid = [] then (None, r)
         else let nowUnixMs = routeNowUnixMs wall now
              in case map_of (terminalSessionToNode r) sid of
                   None \<Rightarrow> (None, r)
                 | Some route \<Rightarrow>
                     if trimSpace (rt_node route) = [] then (None, r)
                     else (Some (rt_node route),
                           r\<lparr>terminalSessionToNode := AList.update sid
                               (route\<lparr>rt_last_used := nowUnixMs\<rparr>) (terminalSessionToNode r)\<rparr>))"

definition clearTerminalSessionRoute :: "string \<Rightarrow> string \<Rightarrow> routes \<Rightarrow> routes" where
  "clearTerminalSessionRoute sessionID expectedNodeID r =
     (let sid = trimSpace sessionID; expected = trimSpace expectedNodeID
      in if sid = [] then r
         else case map_of (terminalSessionToNode r) sid of
                None \<Rightarrow> r
              | Some route \<Rightarrow>
                  if expected \<noteq> [] \<and> rt_node route \<noteq> expected then r
                  else r\<lparr>terminalSessionToNode := AList.delete sid (terminalSessionToNode r),
                         terminalNodeToSessionIDIndex :=
                           indexRemove (rt_node route) sid (terminalNodeToSessionIDIndex r)\<rparr>)"

definition clearTerminalSessionRoutesByNode :: "string \<Rightarrow> routes \<Rightarrow> routes" where
  "clearTerminalSessionRoutesByNode nodeID r =
     (let node = trimSpace nodeID
      in if node = [] then r
         else case map_of (terminalNodeToSessionIDIndex r) node of
                None \<Rightarrow> r
              | Some index \<Rightarrow>
                  r\<lparr>terminalSessionToNode :=
                      fold (\<lambda>sid m. case map_of m sid of
                                      None \<Rightarrow> m
                                    | Some route \<Rightarrow>
                                        if rt_node route \<noteq> node then m else AList.delete sid m)
                        index (terminalSessionToNode r),
                    terminalNodeToSessionIDIndex :=
                      AList.delete node (terminalNodeToSessionIDIndex r)\<rparr>)"

definition pruneRoute :: "int \<Rightarrow> string \<times> terminalSessionRoute \<Rightarrow> routes \<times> int \<Rightarrow> routes \<times> int" where
  "pruneRoute expireBefore entry acc =
     (case (entry, acc) of ((sid, route), (r, removed)) \<Rightarrow>
        if rt_last_used route > expireBefore then (r, removed)
        else (r\<lparr>terminalSessionToNode := AList.delete sid (terminalSessionToNode r),
                terminalNodeToSessionIDIndex :=
                  indexRemove (rt_node route) sid (terminalNodeToSessionIDIndex r)\<rparr>,
              removed + 1))"

definition pruneExpiredTerminalSessionRoutes :: "gtime \<Rightarrow> gtime \<Rightarrow> routes \<Rightarrow> int \<times> routes" where
  "pruneExpiredTerminalSessionRoutes wall now r =
     (let ttl = terminalRouteTTL r
      in if ttl \<le> 0 then (0, r)
         else let expireBefore = routeNowUnixMs wall now - durMillis ttl;
                  res = fold (pruneRoute expireBefore) (terminalSessionToNode r) (r, 0)
              in (snd res, fst res))"

text \<open>The load and the compare-and-swap of the last prune time are one atomic step here.\<close>

definition maybePruneTerminalSessionRoutes :: "gtime \<Rightarrow> gtime \<Rightarrow> routes \<Rightarrow> routes" where
  "maybePruneTerminalSessionRoutes wall now r =
     (let nowUnixMs = routeNowUnixMs wall now;
          minIntervalMs = durMillis terminalRoutePruneMinInterval;
          last = lastTerminalRoutePruneUnixMs r
      in if last > 0 \<and> nowUnixMs - last < minIntervalMs then r
         else snd (pruneExpiredTerminalSessionRoutes wall now
                (r\<lparr>lastTerminalRoutePruneUnixMs := nowUnixMs\<rparr>)))"

section \<open>The index is the inverse of the route table\<close>

definition idxHas :: "(string \<times> string list) list \<Rightarrow> string \<Rightarrow> string \<Rightarrow> bool" where
  "idxHas idx node sid \<longleftrightarrow> (\<exists>s. map_of idx node = Some s \<and> sid \<in> set s)"

definition idxOk :: "(string \<times> string list) list \<Rightarrow> bool" where
  "idxOk idx \<longleftrightarrow> keys_distinct idx \<and> (\<forall>node s. map_of idx node = Some s \<longrightarrow> s \<noteq> [] \<and> distinct s)"

definition routeMap :: "routes \<Rightarrow> string \<rightharpoonup> terminalSessionRoute" where
  "routeMap r = map_of (terminalSessionToNode r)"

definition routeNode :: "routes \<Rightarrow> string \<Rightarrow> string option" where
  "routeNode r sid = map_option rt_node (routeMap r sid)"

definition routes_wf :: "routes \<Rightarrow> bool" where
  "routes_wf r \<longleftrightarrow>
     keys_distinct (terminalSessionToNode r) \<and> idxOk (terminalNodeToSessionIDIndex r) \<and>
     (\<forall>node sid. idxHas (terminalNodeToSessionIDIndex r) node sid \<longleftrightarrow> routeNode r sid = Some node) \<and>
     (\<forall>sid node. routeNode r sid = Some node \<longrightarrow> node \<noteq> [] \<and> trimmed node)"

lemma routes_wf_iff:
  "routes_wf r \<Longrightarrow>
     idxHas (terminalNodeToSessionIDIndex r) node sid \<longleftrightarrow> routeNode r sid = Some node"
  by (simp add: routes_wf_def)

lemma idxHas_add [simp]:
  "idxHas (indexAdd n s idx) n' s' \<longleftrightarrow> (n' = n \<and> s' = s) \<or> idxHas idx n' s'"
  by (auto simp: idxHas_def indexAdd_def split: option.splits)

lemma idxHas_remove [simp]:
  "idxHas (indexRemove n s idx) n' s' \<longleftrightarrow> idxHas idx n' s' \<and> \<not> (n' = n \<and> s' = s)"
proof (cases "map_of idx n")
  case None
  then show ?thesis by (auto simp: idxHas_def indexRemove_def)
next
  case (Some S)
  have "removeAll s S = [] \<longleftrightarrow> set S \<subseteq> {s}"
    by (metis Diff_eq_empty_iff set_empty set_removeAll)
  with Some show ?thesis
    by (auto simp: idxHas_def indexRemove_def Let_def)
qed

lemma idxHas_delete [simp]: "idxHas (AList.delete n idx) n' s' \<longleftrightarrow> n' \<noteq> n \<and> idxHas idx n' s'"
  by (auto simp: idxHas_def)

lemma idxOk_add [simp]: "idxOk idx \<Longrightarrow> idxOk (indexAdd n s idx)"
  by (simp add: idxOk_def indexAdd_def List.insert_def split: option.split)

lemma idxOk_remove [simp]: "idxOk idx \<Longrightarrow> idxOk (indexRemove n s idx)"
  by (simp add: idxOk_def indexRemove_def Let_def distinct_removeAll split: option.split)

lemma idxOk_delete [simp]: "idxOk idx \<Longrightarrow> idxOk (AList.delete n idx)"
  by (auto simp: idxOk_def)

text \<open>The changes of the pair of tables that keep them inverse to each other.\<close>

lemma routes_wf_add:
  assumes "routes_wf r" and "routeMap r sid = None" and "rt_node rt \<noteq> []" and "trimmed (rt_node rt)"
  shows "routes_wf (r\<lparr>terminalSessionToNode := AList.update sid rt (terminalSessionToNode r),
     terminalNodeToSessionIDIndex := indexAdd (rt_node rt) sid (terminalNodeToSessionIDIndex r)\<rparr>)"
  using assms by (auto simp: routes_wf_def routeNode_def routeMap_def split: if_splits)

lemma routes_wf_remove:
  assumes "routes_wf r" and "routeMap r sid = Some rt"
  shows "routes_wf (r\<lparr>terminalSessionToNode := AList.delete sid (terminalSessionToNode r),
     terminalNodeToSessionIDIndex := indexRemove (rt_node rt) sid (terminalNodeToSessionIDIndex r)\<rparr>)"
  using assms by (auto simp: routes_wf_def routeNode_def routeMap_def split: if_splits)

lemma routes_wf_refresh:
  assumes "routes_wf r" and "routeMap r sid = Some rt" and "rt_node rt' = rt_node rt"
  shows "routes_wf (r\<lparr>terminalSessionToNode := AList.update sid rt' (terminalSessionToNode r)\<rparr>)"
    (is "routes_wf ?r")
proof -
  have "routeNode ?r = routeNode r"
    using assms(2,3) by (auto simp: routeNode_def routeMap_def fun_eq_iff)
  with assms(1) show ?thesis by (simp add: routes_wf_def)
qed

lemma routes_wf_empty [simp]: "routes_wf emptyRoutes"
  by (simp add: routes_wf_def emptyRoutes_def idxOk_def idxHas_def routeNode_def routeMap_def)

lemma routes_wf_prunetime [simp]:
  "routes_wf (r\<lparr>lastTerminalRoutePruneUnixMs := t\<rparr>) = routes_wf r"
  by (simp add: routes_wf_def routeNode_def routeMap_def)

lemma reserve_wf [inv_intros]:
  "routes_wf r \<Longrightarrow> routes_wf (snd (reserveTerminalSessionRoute wall s n now r))"
  by (auto simp: reserveTerminalSessionRoute_def Let_def routeMap_def
      intro: routes_wf_add [where rt = "\<lparr>rt_node = a, rt_last_used = b\<rparr>" for a b, simplified]
        routes_wf_refresh split: option.splits)

lemma route_touch_wf [inv_intros]:
  "routes_wf r \<Longrightarrow> routes_wf (snd (touchTerminalSessionRoute wall s now r))"
  by (auto simp: touchTerminalSessionRoute_def Let_def routeMap_def
      intro: routes_wf_refresh split: option.splits)

lemma clear_wf [inv_intros]: "routes_wf r \<Longrightarrow> routes_wf (clearTerminalSessionRoute s n r)"
  by (auto simp: clearTerminalSessionRoute_def Let_def routeMap_def
      dest: routes_wf_remove split: option.splits)

lemma bind_wf [inv_intros]:
  assumes wf: "routes_wf r"
  shows "routes_wf (bindTerminalSessionRoute wall s n now r)"
proof (cases "trimSpace s = [] \<or> trimSpace n = []")
  case True
  with wf show ?thesis by (auto simp: bindTerminalSessionRoute_def)
next
  case False
  then have ne: "trimSpace s \<noteq> []" "trimSpace n \<noteq> []" by auto
  have wfs: "idxOk (terminalNodeToSessionIDIndex r)" "keys_distinct (terminalSessionToNode r)"
    and inv: "\<And>node sid. idxHas (terminalNodeToSessionIDIndex r) node sid \<longleftrightarrow> routeNode r sid = Some node"
    and nodes: "\<And>sid node. routeNode r sid = Some node \<Longrightarrow> node \<noteq> [] \<and> trimmed node"
    using wf by (auto simp: routes_wf_def)
  let ?r = "bindTerminalSessionRoute wall s n now r"
  have node': "routeNode ?r = (routeNode r)(trimSpace s \<mapsto> trimSpace n)"
    using ne by (auto simp: bindTerminalSessionRoute_def Let_def routeNode_def routeMap_def)
  have "idxHas (terminalNodeToSessionIDIndex ?r) node sid \<longleftrightarrow> routeNode ?r sid = Some node" for node sid
    using ne inv [of node sid]
    by (auto simp: node' bindTerminalSessionRoute_def Let_def routeNode_def routeMap_def
        split: option.splits if_splits)
  moreover have "idxOk (terminalNodeToSessionIDIndex ?r)" "keys_distinct (terminalSessionToNode ?r)"
    using ne wfs by (auto simp: bindTerminalSessionRoute_def Let_def split: option.splits)
  moreover have "node \<noteq> [] \<and> trimmed node" if "routeNode ?r sid = Some node" for sid node
    using that ne nodes [of sid node] by (auto simp: node' split: if_splits)
  ultimately show ?thesis unfolding routes_wf_def by blast
qed

lemma clear_fold:
  "map_of (fold (\<lambda>sid m. case map_of m sid of None \<Rightarrow> m
       | Some route \<Rightarrow> if rt_node route \<noteq> node then m else AList.delete sid m) sids m) k =
     (case map_of m k of None \<Rightarrow> None
      | Some route \<Rightarrow> if k \<in> set sids \<and> rt_node route = node then None else Some route)"
  by (induction sids arbitrary: m) (auto split: option.splits)

lemma clear_fold_keys:
  "keys_distinct m \<Longrightarrow> keys_distinct (fold (\<lambda>sid m. case map_of m sid of None \<Rightarrow> m
       | Some route \<Rightarrow> if rt_node route \<noteq> node then m else AList.delete sid m) sids m)"
  by (induction sids arbitrary: m) (auto split: option.splits)

text \<open>What \<open>clearTerminalSessionRoutesByNode\<close> computes through the index: exactly the routes
  of the node are gone.\<close>

lemma clearByNode_map:
  assumes wf: "routes_wf r" and ne: "trimSpace n \<noteq> []"
  shows "routeMap (clearTerminalSessionRoutesByNode n r) sid =
     (case routeMap r sid of None \<Rightarrow> None
      | Some rt \<Rightarrow> if rt_node rt = trimSpace n then None else Some rt)"
proof (cases "map_of (terminalNodeToSessionIDIndex r) (trimSpace n)")
  case None
  then have "\<not> idxHas (terminalNodeToSessionIDIndex r) (trimSpace n) sid"
    by (simp add: idxHas_def)
  then have "routeNode r sid \<noteq> Some (trimSpace n)"
    using wf by (simp add: routes_wf_def)
  with None show ?thesis
    by (auto simp: clearTerminalSessionRoutesByNode_def Let_def routeNode_def split: option.splits)
next
  case (Some index)
  have "sid \<in> set index \<longleftrightarrow> routeNode r sid = Some (trimSpace n)"
    using routes_wf_iff [OF wf, of "trimSpace n" sid] Some by (simp add: idxHas_def)
  with Some ne show ?thesis
    by (auto simp: clearTerminalSessionRoutesByNode_def Let_def routeMap_def routeNode_def clear_fold
        split: option.splits)
qed

lemma clearByNode_wf [inv_intros]:
  assumes wf: "routes_wf r"
  shows "routes_wf (clearTerminalSessionRoutesByNode n r)"
proof (cases "trimSpace n = []")
  case True
  with wf show ?thesis by (simp add: clearTerminalSessionRoutesByNode_def Let_def)
next
  case False
  let ?r = "clearTerminalSessionRoutesByNode n r"
  have node': "routeNode ?r sid = (if routeNode r sid = Some (trimSpace n) then None else routeNode r sid)" for sid
    using clearByNode_map [OF wf False, of sid] by (auto simp: routeNode_def split: option.splits)
  have "idxHas (terminalNodeToSessionIDIndex ?r) node sid \<longleftrightarrow> routeNode ?r sid = Some node" for node sid
    using routes_wf_iff [OF wf, of node sid] routes_wf_iff [OF wf, of "trimSpace n" sid] unfolding node'
    by (auto simp: clearTerminalSessionRoutesByNode_def Let_def False idxHas_def split: option.splits)
  moreover have "idxOk (terminalNodeToSessionIDIndex ?r)" "keys_distinct (terminalSessionToNode ?r)"
    using wf by (auto simp: routes_wf_def clearTerminalSessionRoutesByNode_def Let_def False clear_fold_keys
        split: option.splits)
  moreover have "node \<noteq> [] \<and> trimmed node" if "routeNode ?r sid = Some node" for sid node
    using that wf by (auto simp: node' routes_wf_def split: if_splits)
  ultimately show ?thesis unfolding routes_wf_def by blast
qed

text \<open>The pruning loop.\<close>

lemma prune_fold:
  assumes "routes_wf r" and "keys_distinct entries"
    and "\<And>sid rt. (sid, rt) \<in> set entries \<Longrightarrow> routeMap r sid = Some rt"
  shows "routes_wf (fst (fold (pruneRoute eb) entries (r, k))) \<and>
    routeMap (fst (fold (pruneRoute eb) entries (r, k))) =
      (\<lambda>sid. case routeMap r sid of None \<Rightarrow> None
         | Some rt \<Rightarrow> if sid \<in> fst ` set entries \<and> rt_last_used rt \<le> eb then None else Some rt) \<and>
    snd (fold (pruneRoute eb) entries (r, k)) =
      k + int (length (filter (\<lambda>e. rt_last_used (snd e) \<le> eb) entries))"
  using assms
proof (induction entries arbitrary: r k)
  case Nil
  then show ?case by (auto simp: fun_eq_iff split: option.splits)
next
  case (Cons e es)
  obtain sid rt where e: "e = (sid, rt)" by (cases e)
  have look: "routeMap r sid = Some rt" using Cons.prems(3) e by simp
  have others: "routeMap r s = Some t" "s \<noteq> sid" if "(s, t) \<in> set es" for s t
    using Cons.prems(2,3) e that by (force)+
  show ?case
  proof (cases "rt_last_used rt > eb")
    case True
    then have "fold (pruneRoute eb) (e # es) (r, k) = fold (pruneRoute eb) es (r, k)"
      by (simp add: e pruneRoute_def)
    with Cons.IH [of r k] Cons.prems(1,2) others True look show ?thesis
      by (auto simp: e fun_eq_iff split: option.splits)
  next
    case False
    let ?r = "r\<lparr>terminalSessionToNode := AList.delete sid (terminalSessionToNode r),
      terminalNodeToSessionIDIndex := indexRemove (rt_node rt) sid (terminalNodeToSessionIDIndex r)\<rparr>"
    have f: "fold (pruneRoute eb) (e # es) (r, k) = fold (pruneRoute eb) es (?r, k + 1)"
      using False by (simp add: e pruneRoute_def)
    have wf: "routes_wf ?r" by (rule routes_wf_remove [OF Cons.prems(1) look])
    have m: "routeMap ?r = (routeMap r)(sid := None)" by (simp add: routeMap_def)
    have "routeMap ?r s = Some t" if "(s, t) \<in> set es" for s t
      using others [OF that] by (simp add: m)
    with Cons.IH [OF wf, of "k + 1"] Cons.prems(2) show ?thesis
      unfolding f using False look by (auto simp: e m fun_eq_iff split: option.splits)
  qed
qed

lemma prune_all:
  assumes wf: "routes_wf r"
  shows "routes_wf (snd (pruneExpiredTerminalSessionRoutes wall now r))"
    and "0 < terminalRouteTTL r \<Longrightarrow>
      routeMap (snd (pruneExpiredTerminalSessionRoutes wall now r)) =
        (\<lambda>sid. case routeMap r sid of None \<Rightarrow> None
           | Some rt \<Rightarrow> if rt_last_used rt \<le> routeNowUnixMs wall now - durMillis (terminalRouteTTL r)
                       then None else Some rt)"
proof -
  have kd: "keys_distinct (terminalSessionToNode r)" using wf by (simp add: routes_wf_def)
  have look: "routeMap r sid = Some rt" if "(sid, rt) \<in> set (terminalSessionToNode r)" for sid rt
    using that kd by (simp add: routeMap_def)
  note pf = prune_fold [OF wf kd look, where k = 0]
  show "routes_wf (snd (pruneExpiredTerminalSessionRoutes wall now r))"
    using wf pf by (simp add: pruneExpiredTerminalSessionRoutes_def Let_def)
  have mem: "routeMap r sid = Some rt \<Longrightarrow> sid \<in> fst ` set (terminalSessionToNode r)" for sid rt
    unfolding routeMap_def by (rule map_of_SomeD [THEN imageI, of _ _ _ fst, simplified])
  show "0 < terminalRouteTTL r \<Longrightarrow>
      routeMap (snd (pruneExpiredTerminalSessionRoutes wall now r)) =
        (\<lambda>sid. case routeMap r sid of None \<Rightarrow> None
           | Some rt \<Rightarrow> if rt_last_used rt \<le> routeNowUnixMs wall now - durMillis (terminalRouteTTL r)
                       then None else Some rt)"
    using pf mem
    by (auto simp: pruneExpiredTerminalSessionRoutes_def Let_def fun_eq_iff split: option.splits)
qed

lemma maybePrune_wf [inv_intros]:
  "routes_wf r \<Longrightarrow> routes_wf (maybePruneTerminalSessionRoutes wall now r)"
  by (simp add: maybePruneTerminalSessionRoutes_def Let_def prune_all(1))

section \<open>The contract the dispatcher relies on\<close>

text \<open>
  What \<open>dispatchTerminalExec\<close> uses: \<open>reserve\<close> names the node of a session, creating the route
  on the caller's node when there is none; \<open>touch\<close> names it without creating; \<open>clear\<close> drops it
  when the expected node still owns it. \<open>'t\<close> is the clock of a call.
\<close>

locale terminal_router =
  fixes inv :: "'s \<Rightarrow> bool"
    and node_of :: "'s \<Rightarrow> string \<Rightarrow> string option"
    and reserve :: "'t \<Rightarrow> string \<Rightarrow> string \<Rightarrow> 's \<Rightarrow> (string \<times> bool) \<times> 's"
    and touch :: "'t \<Rightarrow> string \<Rightarrow> 's \<Rightarrow> string option \<times> 's"
    and clear :: "string \<Rightarrow> string \<Rightarrow> 's \<Rightarrow> 's"
  assumes reserve_inv: "inv s \<Longrightarrow> inv (snd (reserve t sid n s))"
    and touch_inv: "inv s \<Longrightarrow> inv (snd (touch t sid s))"
    and clear_inv: "inv s \<Longrightarrow> inv (clear sid n s)"
    and reserve_free: "\<lbrakk>trimSpace sid \<noteq> []; trimSpace n \<noteq> []; node_of s (trimSpace sid) = None\<rbrakk> \<Longrightarrow>
        fst (reserve t sid n s) = (trimSpace n, True) \<and>
        node_of (snd (reserve t sid n s)) = (node_of s)(trimSpace sid \<mapsto> trimSpace n)"
    and reserve_taken: "\<lbrakk>trimSpace sid \<noteq> []; trimSpace n \<noteq> []; node_of s (trimSpace sid) = Some m\<rbrakk> \<Longrightarrow>
        fst (reserve t sid n s) = (m, False) \<and> node_of (snd (reserve t sid n s)) = node_of s"
    and touch_reads: "\<lbrakk>inv s; trimSpace sid \<noteq> []\<rbrakk> \<Longrightarrow>
        fst (touch t sid s) = node_of s (trimSpace sid) \<and> node_of (snd (touch t sid s)) = node_of s"
    and clear_drops: "\<lbrakk>trimSpace sid \<noteq> []; trimSpace n \<noteq> []\<rbrakk> \<Longrightarrow>
        node_of (clear sid n s) =
          (if node_of s (trimSpace sid) = Some (trimSpace n)
           then (node_of s)(trimSpace sid := None) else node_of s)"
begin

definition reserveAll :: "('t \<times> string) list \<Rightarrow> string \<Rightarrow> 's \<Rightarrow> (string \<times> bool) list \<times> 's" where
  "reserveAll calls sid s =
     fold (\<lambda>(t, n) (out, s). (out @ [fst (reserve t sid n s)], snd (reserve t sid n s))) calls ([], s)"

lemma reserveAll_snoc:
  "reserveAll (cs @ [(t, n)]) sid s =
     (case reserveAll cs sid s of (out, s') \<Rightarrow>
        (out @ [fst (reserve t sid n s')], snd (reserve t sid n s')))"
  by (simp add: reserveAll_def split: prod.splits)

text \<open>However many callers race for a session, they are all sent to one node, and exactly the
  first of them is told that it created the route.\<close>

lemma reservers_agree:
  assumes sid: "trimSpace sid \<noteq> []" and ns: "\<And>t n. (t, n) \<in> set calls \<Longrightarrow> trimSpace n \<noteq> []"
    and free: "node_of s (trimSpace sid) = None" and some: "calls \<noteq> []"
  shows "\<exists>m. fst (reserveAll calls sid s) = (m, True) # replicate (length calls - 1) (m, False) \<and>
     m = trimSpace (snd (hd calls)) \<and>
     node_of (snd (reserveAll calls sid s)) = (node_of s)(trimSpace sid \<mapsto> m)"
  using ns some
proof (induction calls rule: rev_induct)
  case Nil
  then show ?case by simp
next
  case (snoc c cs)
  obtain t n where c: "c = (t, n)" by (cases c)
  have n: "trimSpace n \<noteq> []" using snoc.prems(1) c by force
  show ?case
  proof (cases "cs = []")
    case True
    have "reserveAll [(t, n)] sid s = ([fst (reserve t sid n s)], snd (reserve t sid n s))"
      by (simp add: reserveAll_def)
    with reserve_free [OF sid n free, of t] True c show ?thesis by simp
  next
    case False
    have "\<exists>m. fst (reserveAll cs sid s) = (m, True) # replicate (length cs - 1) (m, False) \<and>
      m = trimSpace (snd (hd cs)) \<and> node_of (snd (reserveAll cs sid s)) = (node_of s)(trimSpace sid \<mapsto> m)"
      by (rule snoc.IH) (use snoc.prems(1) False in auto)
    then obtain m where IH: "fst (reserveAll cs sid s) = (m, True) # replicate (length cs - 1) (m, False)"
      "m = trimSpace (snd (hd cs))" "node_of (snd (reserveAll cs sid s)) = (node_of s)(trimSpace sid \<mapsto> m)"
      by blast
    let ?s = "snd (reserveAll cs sid s)"
    have "node_of ?s (trimSpace sid) = Some m" by (simp add: IH(3))
    note tk = reserve_taken [OF sid n this, of t]
    have rep: "replicate (length cs - 1) (m, False) @ [(m, False)] = replicate (length cs) (m, False)"
      using False by (cases cs) (simp_all add: replicate_append_same)
    show ?thesis
      using IH tk False rep by (simp add: c reserveAll_snoc split_beta)
  qed
qed

text \<open>A clear by a node that is not (or no longer) the owner changes nothing.\<close>

lemma foreign_clear_harmless:
  assumes "trimSpace sid \<noteq> []" and "trimSpace n \<noteq> []" and "node_of s (trimSpace sid) \<noteq> Some (trimSpace n)"
  shows "node_of (clear sid n s) = node_of s"
  using assms by (simp add: clear_drops)

end

lemma reserve_nodes:
  assumes "trimSpace sid \<noteq> []" and "trimSpace n \<noteq> []"
  shows "routeNode r (trimSpace sid) = None \<Longrightarrow>
      fst (reserveTerminalSessionRoute wall sid n now r) = (trimSpace n, True) \<and>
      routeNode (snd (reserveTerminalSessionRoute wall sid n now r)) =
        (routeNode r)(trimSpace sid \<mapsto> trimSpace n)"
    and "routeNode r (trimSpace sid) = Some m \<Longrightarrow>
      fst (reserveTerminalSessionRoute wall sid n now r) = (m, False) \<and>
      routeNode (snd (reserveTerminalSessionRoute wall sid n now r)) = routeNode r"
  using assms
  by (auto simp: reserveTerminalSessionRoute_def Let_def routeNode_def routeMap_def fun_eq_iff)

lemma touch_nodes:
  assumes wf: "routes_wf r" and sid: "trimSpace sid \<noteq> []"
  shows "fst (touchTerminalSessionRoute wall sid now r) = routeNode r (trimSpace sid) \<and>
    routeNode (snd (touchTerminalSessionRoute wall sid now r)) = routeNode r"
proof (cases "routeMap r (trimSpace sid)")
  case None
  with sid show ?thesis by (simp add: touchTerminalSessionRoute_def Let_def routeNode_def routeMap_def)
next
  case (Some rt)
  then have "rt_node rt \<noteq> [] \<and> trimmed (rt_node rt)"
    using wf unfolding routes_wf_def routeNode_def by (metis option.simps(9))
  then have "trimSpace (rt_node rt) \<noteq> []" by (simp add: trimmed_id)
  with Some sid show ?thesis
    by (auto simp: touchTerminalSessionRoute_def Let_def routeNode_def routeMap_def fun_eq_iff)
qed

lemma clear_nodes:
  assumes "trimSpace sid \<noteq> []" and "trimSpace n \<noteq> []"
  shows "routeNode (clearTerminalSessionRoute sid n r) =
    (if routeNode r (trimSpace sid) = Some (trimSpace n)
     then (routeNode r)(trimSpace sid := None) else routeNode r)"
  using assms
  by (auto simp: clearTerminalSessionRoute_def Let_def routeNode_def routeMap_def fun_eq_iff split: option.split)

interpretation router: terminal_router routes_wf routeNode
  "\<lambda>(wall, now) sid n r. reserveTerminalSessionRoute wall sid n now r"
  "\<lambda>(wall, now) sid r. touchTerminalSessionRoute wall sid now r"
  clearTerminalSessionRoute
  by unfold_locales
    (simp_all add: split_beta reserve_wf route_touch_wf clear_wf reserve_nodes touch_nodes clear_nodes)

section \<open>The guarantees\<close>

text \<open>C34: The route table and its per-node index describe each other: every operation keeps the invariant that
  a session is in a node's set exactly when it is routed to the node, that sets are neither empty nor
  repetitive, and that nodes are trimmed and not blank; and a new table has it.\<close>

theorem routes_invariant:
  "routes_wf emptyRoutes \<and>
   (routes_wf r \<longrightarrow>
      routes_wf (bindTerminalSessionRoute wall sid n now r) \<and>
      routes_wf (snd (reserveTerminalSessionRoute wall sid n now r)) \<and>
      routes_wf (snd (touchTerminalSessionRoute wall sid now r)) \<and>
      routes_wf (clearTerminalSessionRoute sid n r) \<and>
      routes_wf (clearTerminalSessionRoutesByNode n r) \<and>
      routes_wf (snd (pruneExpiredTerminalSessionRoutes wall now r)) \<and>
      routes_wf (maybePruneTerminalSessionRoutes wall now r))"
  by (simp add: bind_wf reserve_wf route_touch_wf clear_wf clearByNode_wf prune_all(1) maybePrune_wf)

text \<open>The wf table of the witnesses: one session on each of two nodes.\<close>

definition demoRoutes :: routes where
  "demoRoutes = bindTerminalSessionRoute 0 ''s2'' ''n2'' (timeOfMilli 9)
     (bindTerminalSessionRoute 0 ''s1'' ''n1'' (timeOfMilli 5) emptyRoutes)"

lemma demoRoutes_wf: "routes_wf demoRoutes"
  by (simp add: demoRoutes_def bind_wf)

theorem routes_invariant_witness:
  "routes_wf (clearTerminalSessionRoutesByNode ''n1'' demoRoutes)"
  using routes_invariant [of demoRoutes] demoRoutes_wf by blast

text \<open>However many submissions race to open one terminal session, all of them are sent to one worker,
  the preferred one of the first, and exactly the first is told that it created the route, so that only it
  undoes it when its command fails.\<close>

theorem reservers_one_node:
  assumes "trimSpace sid \<noteq> []" and "\<forall>(c, n) \<in> set calls. trimSpace n \<noteq> []"
    and "routeNode r (trimSpace sid) = None" and "calls \<noteq> []"
  shows "\<exists>m. fst (router.reserveAll calls sid r) = (m, True) # replicate (length calls - 1) (m, False) \<and>
    m = trimSpace (snd (hd calls)) \<and>
    routeNode (snd (router.reserveAll calls sid r)) = (routeNode r)(trimSpace sid \<mapsto> m)"
  by (rule router.reservers_agree) (use assms in auto)

theorem reservers_one_node_witness:
  "\<exists>m. fst (router.reserveAll [((0, 5), ''n1''), ((0, 6), ''n2'')] ''s3'' demoRoutes) = [(m, True), (m, False)]"
proof -
  have "trimSpace ''s3'' \<noteq> []" "\<forall>(c, n) \<in> set [((0::int, 5::int), ''n1''), ((0, 6), ''n2'')]. trimSpace n \<noteq> []"
    by code_simp+
  moreover have "routeNode demoRoutes (trimSpace ''s3'') = None" by code_simp
  ultimately show ?thesis
    using reservers_one_node [of "''s3''" "[((0, 5), ''n1''), ((0, 6), ''n2'')]" demoRoutes] by auto
qed

text \<open>When a worker goes away its routes go with it and no others: after
  \<open>clearTerminalSessionRoutesByNode\<close>, which only visits the sessions the index names, no session is routed
  to the node and every other route is unchanged; and pruning drops exactly the routes unused for the TTL.\<close>

theorem routes_cleared_exactly:
  assumes "routes_wf r" and "trimSpace n \<noteq> []" and "0 < terminalRouteTTL r"
  shows "routeMap (clearTerminalSessionRoutesByNode n r) =
      (\<lambda>sid. if routeNode r sid = Some (trimSpace n) then None else routeMap r sid) \<and>
    routeMap (snd (pruneExpiredTerminalSessionRoutes wall now r)) =
      (\<lambda>sid. case routeMap r sid of None \<Rightarrow> None
         | Some rt \<Rightarrow> if rt_last_used rt \<le> routeNowUnixMs wall now - durMillis (terminalRouteTTL r)
                     then None else Some rt)"
proof
  show "routeMap (clearTerminalSessionRoutesByNode n r) =
      (\<lambda>sid. if routeNode r sid = Some (trimSpace n) then None else routeMap r sid)"
    by (rule ext) (simp add: clearByNode_map [OF assms(1,2)] routeNode_def split: option.split)
qed (rule prune_all(2) [OF assms(1,3)])

theorem routes_cleared_exactly_witness:
  "routeMap (clearTerminalSessionRoutesByNode '' n1'' demoRoutes) ''s1'' = None \<and>
   routeNode (clearTerminalSessionRoutesByNode '' n1'' demoRoutes) ''s2'' = Some ''n2''"
proof -
  have "trimSpace '' n1'' \<noteq> []" "0 < terminalRouteTTL demoRoutes" "trimSpace '' n1'' = ''n1''"
    "routeNode demoRoutes ''s1'' = Some ''n1''" "routeNode demoRoutes ''s2'' = Some ''n2''" by code_simp+
  then show ?thesis
    using routes_cleared_exactly [OF demoRoutes_wf, of "'' n1''"] by (auto simp: routeNode_def)
qed

end
