(* ===== verification/Json.thy ===== *)
theory Json
  imports Prelude
begin

text \<open>
  \<open>encoding/json\<close> as the program uses it. A byte slice that crosses the wire is either the
  text of a JSON document, represented by the document's syntax tree, or some other bytes.
  \<open>json.Unmarshal\<close> into a struct goes through the object's entries in order, matches a key
  with a field by its name up to case, ignores unknown keys and \<open>null\<close>, lets a later entry
  win, and fails when a value has the wrong type. \<open>json.Marshal\<close> of a map sorts the keys.
  Numbers are exact here (Go's \<open>any\<close> holds a \<open>float64\<close>, exact up to 53 bits).
\<close>

datatype json =
    JNull | JBool bool | JInt int | JReal string | JStr string
  | JArr "json list" | JObj "(string \<times> json) list"

datatype payload = RawBytes string | Document json

definition emptyBytes :: payload where "emptyBytes = RawBytes []"

definition bytesEmpty :: "payload \<Rightarrow> bool" where
  "bytesEmpty p \<longleftrightarrow> p = RawBytes []"

fun jsonValid :: "payload \<Rightarrow> bool" where
  "jsonValid (RawBytes _) = False"
| "jsonValid (Document _) = True"

text \<open>The entries of the object a struct is decoded from; \<open>null\<close> leaves the struct alone.\<close>

fun objectEntries :: "payload \<Rightarrow> (string \<times> json) list option" where
  "objectEntries (Document (JObj es)) = Some es"
| "objectEntries (Document JNull) = Some []"
| "objectEntries _ = None"

fun storeStr :: "string option \<Rightarrow> json \<Rightarrow> string option" where
  "storeStr None _ = None"
| "storeStr (Some _) (JStr t) = Some t"
| "storeStr (Some s) JNull = Some s"
| "storeStr (Some _) _ = None"

fun storeBool :: "bool option \<Rightarrow> json \<Rightarrow> bool option" where
  "storeBool None _ = None"
| "storeBool (Some _) (JBool b) = Some b"
| "storeBool (Some b) JNull = Some b"
| "storeBool (Some _) _ = None"

text \<open>A \<open>*int\<close> field: \<open>null\<close> makes the pointer nil, a number must fit in 64 bits.\<close>

fun storeIntPtr :: "int option option \<Rightarrow> json \<Rightarrow> int option option" where
  "storeIntPtr None _ = None"
| "storeIntPtr (Some _) (JInt n) =
     (if - (2 ^ 63) \<le> n \<and> n < 2 ^ 63 then Some (Some n) else None)"
| "storeIntPtr (Some _) JNull = Some None"
| "storeIntPtr (Some _) _ = None"

text \<open>An \<open>int64\<close> field.\<close>

fun storeInt :: "int option \<Rightarrow> json \<Rightarrow> int option" where
  "storeInt None _ = None"
| "storeInt (Some _) (JInt n) = (if - (2 ^ 63) \<le> n \<and> n < 2 ^ 63 then Some n else None)"
| "storeInt (Some n) JNull = Some n"
| "storeInt (Some _) _ = None"

definition decodeField ::
  "('a option \<Rightarrow> json \<Rightarrow> 'a option) \<Rightarrow> 'a \<Rightarrow> string \<Rightarrow> (string \<times> json) list \<Rightarrow> 'a option" where
  "decodeField store zero name es =
     fold (\<lambda>(k, v) acc. if equalFold k name then store acc v else acc) es (Some zero)"

abbreviation "fieldStr \<equiv> decodeField storeStr []"
abbreviation "fieldBool \<equiv> decodeField storeBool False"
abbreviation "fieldIntPtr \<equiv> decodeField storeIntPtr None"
abbreviation "fieldInt \<equiv> decodeField storeInt 0"

lemma decodeField_Nil [simp]: "decodeField store z n [] = Some z"
  by (simp add: decodeField_def)

lemma decodeField_other:
  assumes "\<forall>(k, v) \<in> set es. \<not> equalFold k name"
  shows "decodeField store z name es = Some z"
proof -
  have "fold (\<lambda>(k, v) acc. if equalFold k name then store acc v else acc) es acc = acc" for acc
    using assms by (induction es arbitrary: acc) auto
  then show ?thesis by (simp add: decodeField_def)
qed

lemma decodeField_Cons:
  "decodeField store z n ((k, v) # es) =
     fold (\<lambda>(k, v) acc. if equalFold k n then store acc v else acc) es
       (if equalFold k n then store (Some z) v else Some z)"
  by (simp add: decodeField_def)

text \<open>\<open>omitempty\<close>: a field that is left out when its value is the zero value.\<close>

definition omitempty :: "bool \<Rightarrow> string \<Rightarrow> json \<Rightarrow> (string \<times> json) list" where
  "omitempty isZero name v = (if isZero then [] else [(name, v)])"

text \<open>\<open>map[string]any\<close>: the last entry of a key wins, and the keys come out sorted, at every
  level.\<close>

definition dedupEntries :: "(string \<times> json) list \<Rightarrow> (string \<times> json) list" where
  "dedupEntries es = fold (\<lambda>(k, v) m. AList.update k v m) es []"

definition sortEntries :: "(string \<times> json) list \<Rightarrow> (string \<times> json) list" where
  "sortEntries es = sort_key fst es"

lemma size_entry: "e \<in> set es \<Longrightarrow> size (snd e) \<le> size_list (\<lambda>x. Suc (size (snd x))) es"
  by (induction es) auto

function anyOf :: "json \<Rightarrow> json" where
  "anyOf (JArr xs) = JArr (map anyOf xs)"
| "anyOf (JObj es) = JObj (sortEntries (dedupEntries (map (\<lambda>e. (fst e, anyOf (snd e))) es)))"
| "anyOf JNull = JNull"
| "anyOf (JBool b) = JBool b"
| "anyOf (JInt n) = JInt n"
| "anyOf (JReal s) = JReal s"
| "anyOf (JStr s) = JStr s"
  by pat_completeness auto
termination
  by (relation "measure size") (auto simp: less_Suc_eq_le size_list_estimation' dest: size_entry)

lemma map_of_dedup_fold:
  "map_of (fold (\<lambda>(k, v) m. AList.update k v m) es m) k =
     (case map_of (rev es) k of Some v \<Rightarrow> Some v | None \<Rightarrow> map_of m k)"
  by (induction es arbitrary: m) (auto simp: map_add_def split: option.splits)

lemma map_of_dedup: "map_of (dedupEntries es) k = map_of (rev es) k"
  by (simp add: dedupEntries_def map_of_dedup_fold split: option.splits)

lemma keys_dedup [simp]: "keys_distinct (dedupEntries es)"
proof -
  have "keys_distinct m \<Longrightarrow> keys_distinct (fold (\<lambda>(k, v) m. AList.update k v m) es m)" for m :: "(string \<times> json) list"
    by (induction es arbitrary: m) auto
  then show ?thesis by (simp add: dedupEntries_def)
qed

lemma keys_sortEntries [simp]: "keys_distinct es \<Longrightarrow> keys_distinct (sortEntries es)"
  unfolding sortEntries_def by (simp add: distinct_map)

lemma map_of_sortEntries [simp]: "keys_distinct es \<Longrightarrow> map_of (sortEntries es) = map_of es"
  using keys_sortEntries [of es] unfolding sortEntries_def
  by (intro map_of_inject_set [THEN iffD2]) auto

end
