(* ===== verification/Database.thy ===== *)
theory Database
  imports Json
begin

text \<open>
  The console's SQLite database (\<open>console/internal/persistence\<close>): the rows of every table
  (\<open>sqlc/models.go\<close>, \<open>db/migrations\<close>), a query as a function on the tables, and
  transactions (\<open>DB.WithTx\<close>). The source opens one connection, so queries are serialised
  and each is one atomic step.

  Any query can fail for a reason outside the program (disk, lock, cancellation). The field
  \<open>db_faults\<close> scripts these failures: each query takes the next entry, \<open>Some e\<close> makes it
  fail with the error of \<open>e\<close> and no effect. The theorems hold for every script. A failure is
  never \<open>sql.ErrNoRows\<close> or a constraint violation, which only the query's own result is.
\<close>

section \<open>Rows\<close>

datatype task_status = Queued | Dispatched | Running | Succeeded | Failed | Timeout | Canceled

record task_row =
  t_task_id :: string
  t_owner_id :: string
  t_request_id :: string
  t_capability :: string
  t_input_json :: payload
  t_status :: task_status
  t_command_id :: string
  t_result_json :: payload
  t_error_code :: string
  t_error_message :: string
  t_created_at :: int
  t_updated_at :: int
  t_deadline_at :: int
  t_completed_at :: int
  t_expires_at :: int

record worker_node =
  n_node_id :: string
  n_session_id :: string
  n_provisioned :: int
  n_node_name :: string
  n_executor_kind :: string
  n_version :: string
  n_registered_at :: int
  n_last_seen_at :: int

record worker_capability =
  c_node_id :: string
  c_capability_name :: string
  c_max_inflight :: int

record worker_label =
  l_node_id :: string
  l_label_key :: string
  l_label_value :: string

record worker_credential =
  w_node_id :: string
  w_secret_hash :: string
  w_hash_algo :: string
  w_created_at :: int
  w_updated_at :: int

record worker_sys_owner_claim =
  m_owner_id :: string
  m_node_id :: string
  m_claimed_at :: int

record account =
  a_account_id :: string
  a_username :: string
  a_username_key :: string
  a_password_hash :: string
  a_hash_algo :: string
  a_is_admin :: int
  a_created_at :: int
  a_updated_at :: int

record trusted_token =
  k_token_id :: string
  k_account_id :: string
  k_name :: string
  k_name_key :: string
  k_token_hash :: string
  k_token_masked :: string
  k_generated :: int
  k_created_at :: int
  k_updated_at :: int

datatype db_fault = EngineFault string | CanceledFault | DeadlineFault

primrec faultError :: "db_fault \<Rightarrow> go_error" where
  "faultError (EngineFault m) = OtherError m"
| "faultError CanceledFault = CtxCanceled"
| "faultError DeadlineFault = CtxDeadlineExceeded"

lemma faultError_neq [simp]:
  "faultError e \<noteq> ErrNoRows" "faultError e \<noteq> ErrConstraint m"
  "ErrNoRows \<noteq> faultError e" "ErrConstraint m \<noteq> faultError e"
  by (cases e; simp)+

record db =
  db_tasks :: "task_row list"
  db_nodes :: "worker_node list"
  db_caps :: "worker_capability list"
  db_labels :: "worker_label list"
  db_creds :: "worker_credential list"
  db_claims :: "worker_sys_owner_claim list"
  db_accounts :: "account list"
  db_tokens :: "trusted_token list"
  db_faults :: "db_fault option list"

definition emptyDB :: db where
  "emptyDB = \<lparr>db_tasks = [], db_nodes = [], db_caps = [], db_labels = [], db_creds = [],
     db_claims = [], db_accounts = [], db_tokens = [], db_faults = []\<rparr>"

section \<open>Queries and transactions\<close>

type_synonym 'a query = "db \<Rightarrow> (go_error + 'a) \<times> db"

definition dbRun :: "'a query \<Rightarrow> 'a query" where
  "dbRun f d =
     (case db_faults d of
        [] \<Rightarrow> f d
      | None # fs \<Rightarrow> f (d\<lparr>db_faults := fs\<rparr>)
      | Some e # fs \<Rightarrow> (Inl (faultError e), d\<lparr>db_faults := fs\<rparr>))"

text \<open>\<open>BeginTx\<close> and \<open>Commit\<close> can fail too; a failed function or commit rolls back.\<close>

definition withTx :: "'a query \<Rightarrow> 'a query" where
  "withTx f d =
     (case dbRun (\<lambda>d. (Inr (), d)) d of
        (Inl e, d1) \<Rightarrow> (Inl e, d1)
      | (Inr _, d1) \<Rightarrow>
          (case f d1 of
             (Inl e, d2) \<Rightarrow> (Inl e, d1\<lparr>db_faults := db_faults d2\<rparr>)
           | (Inr x, d2) \<Rightarrow>
               (case dbRun (\<lambda>d. (Inr (), d)) d2 of
                  (Inl e, d3) \<Rightarrow> (Inl e, d1\<lparr>db_faults := db_faults d3\<rparr>)
                | (Inr _, d3) \<Rightarrow> (Inr x, d3))))"

text \<open>SQL \<open>UPDATE\<close> and \<open>DELETE\<close> over a table: the new rows and the affected count.\<close>

definition updateWhere :: "('r \<Rightarrow> bool) \<Rightarrow> ('r \<Rightarrow> 'r) \<Rightarrow> 'r list \<Rightarrow> 'r list" where
  "updateWhere P f rows = map (\<lambda>r. if P r then f r else r) rows"

definition countWhere :: "('r \<Rightarrow> bool) \<Rightarrow> 'r list \<Rightarrow> int" where
  "countWhere P rows = int (length (filter P rows))"

definition deleteRows :: "('r \<Rightarrow> bool) \<Rightarrow> 'r list \<Rightarrow> 'r list" where
  "deleteRows P rows = filter (\<lambda>r. \<not> P r) rows"

lemma updateWhere_Nil [simp]: "updateWhere P f [] = []"
  by (simp add: updateWhere_def)

lemma updateWhere_Cons [simp]:
  "updateWhere P f (r # rs) = (if P r then f r else r) # updateWhere P f rs"
  by (simp add: updateWhere_def)

lemma deleteRows_Nil [simp]: "deleteRows P [] = []"
  by (simp add: deleteRows_def)

lemma deleteRows_Cons [simp]:
  "deleteRows P (r # rs) = (if P r then deleteRows P rs else r # deleteRows P rs)"
  by (simp add: deleteRows_def)

lemma map_key_updateWhere [simp]:
  "(\<And>r. key (f r) = key r) \<Longrightarrow> map key (updateWhere P f rows) = map key rows"
  by (induction rows) auto

lemma in_updateWhere:
  "r' \<in> set (updateWhere P f rows) \<longleftrightarrow> (\<exists>r \<in> set rows. r' = (if P r then f r else r))"
  by (auto simp: updateWhere_def)

lemma in_deleteRows [simp]: "r \<in> set (deleteRows P rows) \<longleftrightarrow> r \<in> set rows \<and> \<not> P r"
  by (auto simp: deleteRows_def)

lemma distinct_deleteRows [simp]: "distinct (map key rows) \<Longrightarrow> distinct (map key (deleteRows P rows))"
  by (simp add: deleteRows_def distinct_map_filter)

lemma countWhere_pos: "countWhere P rows = 0 \<longleftrightarrow> (\<forall>r \<in> set rows. \<not> P r)"
  by (auto simp: countWhere_def filter_empty_conv)

lemma updateWhere_none: "\<forall>r \<in> set rows. \<not> P r \<Longrightarrow> updateWhere P f rows = rows"
  by (induction rows) auto

lemma deleteRows_none: "\<forall>r \<in> set rows. \<not> P r \<Longrightarrow> deleteRows P rows = rows"
  by (induction rows) auto

text \<open>How a fact about the tables passes through a query that may fail.\<close>

lemma faults_self [simp]: "db_faults d = fs \<Longrightarrow> d\<lparr>db_faults := fs\<rparr> = d"
  by (cases d) simp

lemma dbRun_cases:
  assumes "dbRun f d = (res, d')"
  obtains (fault) e fs where "res = Inl (faultError e)" "d' = d\<lparr>db_faults := fs\<rparr>"
  | (ran) fs where "f (d\<lparr>db_faults := fs\<rparr>) = (res, d')"
proof (cases "db_faults d")
  case Nil
  with assms have "f (d\<lparr>db_faults := db_faults d\<rparr>) = (res, d')" by (simp add: dbRun_def)
  then show ?thesis by (rule ran)
next
  case (Cons x fs)
  with assms fault ran show ?thesis by (cases x) (auto simp: dbRun_def)
qed

lemma dbRun_preserves:
  assumes fault: "\<And>fs. P (d\<lparr>db_faults := fs\<rparr>)"
    and ran: "\<And>fs. P (snd (f (d\<lparr>db_faults := fs\<rparr>)))"
  shows "P (snd (dbRun f d))"
proof (cases "db_faults d")
  case Nil
  have "P (snd (f (d\<lparr>db_faults := db_faults d\<rparr>)))" by (rule ran)
  with Nil show ?thesis by (simp add: dbRun_def)
next
  case (Cons x fs)
  with fault ran show ?thesis by (cases x) (auto simp: dbRun_def)
qed

lemma dbRun_nofault [simp]: "db_faults d = [] \<Longrightarrow> dbRun f d = f d"
  by (simp add: dbRun_def)

text \<open>A transaction keeps what its function keeps.\<close>

lemma withTx_preserves:
  assumes pd: "P d" and fault: "\<And>d fs. P d \<Longrightarrow> P (d\<lparr>db_faults := fs\<rparr>)"
    and run: "\<And>d. P d \<Longrightarrow> P (snd (f d))"
  shows "P (snd (withTx f d))"
proof -
  have step: "P d \<Longrightarrow> P (snd (dbRun (\<lambda>d. (Inr (), d)) d))" for d
    by (rule dbRun_preserves) (simp_all add: fault)
  have "P (snd (dbRun (\<lambda>d. (Inr (), d)) d))" using pd by (rule step)
  then show ?thesis
    using run step fault
    by (auto simp: withTx_def split: prod.splits sum.splits) (metis snd_conv)+
qed

text \<open>Go's \<open>if err := q(); err != nil { return err }\<close>, in sequence and in a loop.\<close>

definition andThen :: "'a query \<Rightarrow> ('a \<Rightarrow> 'b query) \<Rightarrow> 'b query" where
  "andThen q k d = (case q d of (Inl e, d') \<Rightarrow> (Inl e, d') | (Inr x, d') \<Rightarrow> k x d')"

primrec forEach :: "('x \<Rightarrow> unit query) \<Rightarrow> 'x list \<Rightarrow> unit query" where
  "forEach body [] = (\<lambda>d. (Inr (), d))"
| "forEach body (x # xs) = andThen (body x) (\<lambda>_. forEach body xs)"

lemma andThen_preserves:
  assumes "P d" and "\<And>d. P d \<Longrightarrow> P (snd (q d))" and "\<And>x d. P d \<Longrightarrow> P (snd (k x d))"
  shows "P (snd (andThen q k d))"
  using assms(2) [OF assms(1)] assms(3)
  by (auto simp: andThen_def split: prod.split sum.split)

lemma forEach_preserves:
  assumes "P d" and "\<And>x d. P d \<Longrightarrow> P (snd (body x d))"
  shows "P (snd (forEach body xs d))"
  using assms(1)
proof (induction xs arbitrary: d)
  case (Cons x xs)
  have "P (snd (andThen (body x) (\<lambda>_. forEach body xs) d))"
    by (rule andThen_preserves) (use Cons assms(2) in auto)
  then show ?case by simp
qed simp

lemma andThen_Inr:
  assumes "andThen q k d = (Inr x, d')"
  obtains y d1 where "q d = (Inr y, d1)" "k y d1 = (Inr x, d')"
  using assms by (auto simp: andThen_def split: prod.splits sum.splits)

lemma dbRun_skip:
  assumes "dbRun (\<lambda>d. (Inr (), d)) d = (res, d')"
  obtains fs where "d' = d\<lparr>db_faults := fs\<rparr>"
  using assms by (cases rule: dbRun_cases) auto

text \<open>A transaction either ran to its end, or left every table as it was.\<close>

lemma withTx_cases:
  assumes "withTx f d = (res, d')"
  obtains (rollback) e fs where "res = Inl e" "d' = d\<lparr>db_faults := fs\<rparr>"
  | (commit) x fs d2 fs' where "res = Inr x" "f (d\<lparr>db_faults := fs\<rparr>) = (Inr x, d2)" "d' = d2\<lparr>db_faults := fs'\<rparr>"
proof -
  obtain r1 d1 where b: "dbRun (\<lambda>d. (Inr (), d)) d = (r1, d1)"
    by (cases "dbRun (\<lambda>d. (Inr (), d)) d :: (go_error + unit) \<times> db")
  obtain fs where d1: "d1 = d\<lparr>db_faults := fs\<rparr>" by (rule dbRun_skip [OF b])
  show thesis
  proof (cases r1)
    case (Inl e)
    with assms b d1 have "res = Inl e" "d' = d\<lparr>db_faults := fs\<rparr>" by (auto simp: withTx_def)
    then show thesis by (rule rollback)
  next
    case (Inr u)
    obtain r2 d2 where f: "f d1 = (r2, d2)" by (cases "f d1")
    show thesis
    proof (cases r2)
      case (Inl e)
      with assms b f Inr d1 have "res = Inl e" "d' = d\<lparr>db_faults := db_faults d2\<rparr>"
        by (auto simp: withTx_def)
      then show thesis by (rule rollback)
    next
      case x: (Inr x)
      obtain r3 d3 where c: "dbRun (\<lambda>d. (Inr (), d)) d2 = (r3, d3)"
        by (cases "dbRun (\<lambda>d. (Inr (), d)) d2 :: (go_error + unit) \<times> db")
      obtain fs' where d3: "d3 = d2\<lparr>db_faults := fs'\<rparr>" by (rule dbRun_skip [OF c])
      show thesis
      proof (cases r3)
        case (Inl e)
        with assms b f \<open>r1 = Inr u\<close> x c d1 have "res = Inl e" "d' = d\<lparr>db_faults := db_faults d3\<rparr>"
          by (auto simp: withTx_def)
        then show thesis by (rule rollback)
      next
        case (Inr u')
        with assms b f \<open>r1 = Inr u\<close> x c have "res = Inr x" "d' = d3" by (simp_all add: withTx_def)
        with f x d1 d3 commit show thesis by blast
      qed
    qed
  qed
qed

end
