(* ===== verification/TaskStore.thy ===== *)
theory TaskStore
  imports Database
begin

text \<open>
  The task table: \<open>sqlc/tasks.sql.go\<close> and \<open>sqlc/maintenance.sql.go\<close>. The queries, the
  relation \<open>tasks_step\<close> of everything any query sequence can do to the table, and what
  every such step keeps: ids and (owner, request id) pairs stay unique, an unfinished task
  carries no result, and a finished task is frozen until its expiry deletes it.
\<close>

fun isTaskTerminal :: "task_status \<Rightarrow> bool" where
  "isTaskTerminal Succeeded = True"
| "isTaskTerminal Failed = True"
| "isTaskTerminal Timeout = True"
| "isTaskTerminal Canceled = True"
| "isTaskTerminal _ = False"

text \<open>The life cycle as a partial order: queued, dispatched, running, one final state.\<close>

fun status_rank :: "task_status \<Rightarrow> nat" where
  "status_rank Queued = 0"
| "status_rank Dispatched = 1"
| "status_rank Running = 2"
| "status_rank _ = 3"

instantiation task_status :: order
begin

definition less_eq_task_status :: "task_status \<Rightarrow> task_status \<Rightarrow> bool" where
  "less_eq_task_status a b \<longleftrightarrow> a = b \<or> status_rank a < status_rank b"

definition less_task_status :: "task_status \<Rightarrow> task_status \<Rightarrow> bool" where
  "less_task_status a b \<longleftrightarrow> status_rank a < status_rank b"

instance
proof
  fix x y z :: task_status
  show "x < y \<longleftrightarrow> x \<le> y \<and> \<not> y \<le> x"
    by (auto simp: less_eq_task_status_def less_task_status_def)
  show "x \<le> x" by (simp add: less_eq_task_status_def)
  show "x \<le> y \<Longrightarrow> y \<le> z \<Longrightarrow> x \<le> z"
    by (auto simp: less_eq_task_status_def)
  show "x \<le> y \<Longrightarrow> y \<le> x \<Longrightarrow> x = y"
    by (auto simp: less_eq_task_status_def)
qed

end

section \<open>Queries\<close>

definition taskIDConflict :: string where
  "taskIDConflict = ''UNIQUE constraint failed: tasks.task_id''"

definition taskRequestConflict :: string where
  "taskRequestConflict = ''UNIQUE constraint failed: tasks.owner_id, tasks.request_id''"

definition taskUnfinished :: "task_row \<Rightarrow> bool" where
  "taskUnfinished r \<longleftrightarrow> t_status r \<in> {Queued, Dispatched, Running}"

definition taskActive :: "string \<Rightarrow> task_row \<Rightarrow> bool" where
  "taskActive i r \<longleftrightarrow> t_task_id r = i \<and> taskUnfinished r"

definition taskExpired :: "int \<Rightarrow> task_row \<Rightarrow> bool" where
  "taskExpired nowMS r \<longleftrightarrow> t_status r \<in> {Succeeded, Failed, Timeout, Canceled}
     \<and> t_expires_at r > 0 \<and> t_expires_at r \<le> nowMS"

definition insertTask :: "task_row \<Rightarrow> unit query" where
  "insertTask row = dbRun (\<lambda>d.
     if \<exists>r \<in> set (db_tasks d). t_task_id r = t_task_id row
     then (Inl (ErrConstraint taskIDConflict), d)
     else if t_request_id row \<noteq> [] \<and>
       (\<exists>r \<in> set (db_tasks d). t_owner_id r = t_owner_id row \<and> t_request_id r = t_request_id row)
     then (Inl (ErrConstraint taskRequestConflict), d)
     else (Inr (), d\<lparr>db_tasks := db_tasks d @ [row]\<rparr>))"

definition queryGetTaskByID :: "string \<Rightarrow> task_row query" where
  "queryGetTaskByID taskID = dbRun (\<lambda>d.
     (case List.find (\<lambda>r. t_task_id r = taskID) (db_tasks d) of
        None \<Rightarrow> Inl ErrNoRows | Some r \<Rightarrow> Inr r, d))"

definition queryGetTaskByOwnerAndRequest :: "string \<Rightarrow> string \<Rightarrow> task_row query" where
  "queryGetTaskByOwnerAndRequest ownerID requestID = dbRun (\<lambda>d.
     (case List.find (\<lambda>r. t_owner_id r = ownerID \<and> t_request_id r = requestID) (db_tasks d) of
        None \<Rightarrow> Inl ErrNoRows | Some r \<Rightarrow> Inr r, d))"

definition dispatchedUpdate :: "int \<Rightarrow> task_row \<Rightarrow> task_row" where
  "dispatchedUpdate updatedAt r = r\<lparr>t_status := Dispatched, t_updated_at := updatedAt\<rparr>"

definition queryMarkTaskDispatched :: "int \<Rightarrow> string \<Rightarrow> int query" where
  "queryMarkTaskDispatched updatedAt taskID = dbRun (\<lambda>d.
     (Inr (countWhere (taskActive taskID) (db_tasks d)),
      d\<lparr>db_tasks := updateWhere (taskActive taskID) (dispatchedUpdate updatedAt) (db_tasks d)\<rparr>))"

definition runningUpdate :: "string \<Rightarrow> int \<Rightarrow> task_row \<Rightarrow> task_row" where
  "runningUpdate commandID updatedAt r =
     r\<lparr>t_status := Running, t_command_id := commandID, t_updated_at := updatedAt\<rparr>"

definition queryMarkTaskRunning :: "string \<Rightarrow> int \<Rightarrow> string \<Rightarrow> int query" where
  "queryMarkTaskRunning commandID updatedAt taskID = dbRun (\<lambda>d.
     (Inr (countWhere (taskActive taskID) (db_tasks d)),
      d\<lparr>db_tasks := updateWhere (taskActive taskID) (runningUpdate commandID updatedAt) (db_tasks d)\<rparr>))"

record terminal_params =
  p_status :: task_status
  p_result_json :: payload
  p_error_code :: string
  p_error_message :: string
  p_updated_at :: int
  p_completed_at :: int
  p_expires_at :: int

definition terminalUpdate :: "terminal_params \<Rightarrow> task_row \<Rightarrow> task_row" where
  "terminalUpdate p r = r\<lparr>t_status := p_status p, t_result_json := p_result_json p,
     t_error_code := p_error_code p, t_error_message := p_error_message p,
     t_updated_at := p_updated_at p, t_completed_at := p_completed_at p,
     t_expires_at := p_expires_at p\<rparr>"

definition queryMarkTaskTerminal :: "terminal_params \<Rightarrow> string \<Rightarrow> int query" where
  "queryMarkTaskTerminal p taskID = dbRun (\<lambda>d.
     (Inr (countWhere (taskActive taskID) (db_tasks d)),
      d\<lparr>db_tasks := updateWhere (taskActive taskID) (terminalUpdate p) (db_tasks d)\<rparr>))"

definition queryDeleteExpiredTerminalTasks :: "int \<Rightarrow> int query" where
  "queryDeleteExpiredTerminalTasks nowMS = dbRun (\<lambda>d.
     (Inr (countWhere (taskExpired nowMS) (db_tasks d)),
      d\<lparr>db_tasks := deleteRows (taskExpired nowMS) (db_tasks d)\<rparr>))"

definition restartUpdate :: "int \<Rightarrow> int \<Rightarrow> int \<Rightarrow> task_row \<Rightarrow> task_row" where
  "restartUpdate updatedAt completedAt expiresAt r = r\<lparr>t_status := Failed,
     t_error_code := ''console_restarted'',
     t_error_message := ''task interrupted by console restart'',
     t_updated_at := updatedAt, t_completed_at := completedAt, t_expires_at := expiresAt\<rparr>"

definition markNonTerminalTasksFailedOnStartup :: "int \<Rightarrow> int \<Rightarrow> int \<Rightarrow> int query" where
  "markNonTerminalTasksFailedOnStartup updatedAt completedAt expiresAt = dbRun (\<lambda>d.
     (Inr (countWhere taskUnfinished (db_tasks d)),
      d\<lparr>db_tasks := updateWhere taskUnfinished (restartUpdate updatedAt completedAt expiresAt) (db_tasks d)\<rparr>))"

section \<open>What any sequence of queries can do to the table\<close>

inductive tasks_step :: "task_row list \<Rightarrow> task_row list \<Rightarrow> bool" where
  step_insert: "\<lbrakk>\<forall>r \<in> set ts. t_task_id r \<noteq> t_task_id row;
      t_request_id row = [] \<or>
        (\<forall>r \<in> set ts. t_owner_id r = t_owner_id row \<longrightarrow> t_request_id r \<noteq> t_request_id row);
      t_status row = Queued; t_result_json row = emptyBytes; t_completed_at row = 0;
      t_expires_at row = 0\<rbrakk> \<Longrightarrow> tasks_step ts (ts @ [row])"
| step_dispatched: "tasks_step ts (updateWhere (taskActive i) (dispatchedUpdate u) ts)"
| step_running: "tasks_step ts (updateWhere (taskActive i) (runningUpdate c u) ts)"
| step_terminal: "isTaskTerminal (p_status p) \<Longrightarrow>
      tasks_step ts (updateWhere (taskActive i) (terminalUpdate p) ts)"
| step_expire: "tasks_step ts (deleteRows (taskExpired n) ts)"
| step_restart: "tasks_step ts (updateWhere taskUnfinished (restartUpdate u c e) ts)"

inductive_cases tasks_stepE: "tasks_step ts ts'"

definition unfinishedClean :: "task_row \<Rightarrow> bool" where
  "unfinishedClean r \<longleftrightarrow> isTaskTerminal (t_status r) \<or>
     (t_result_json r = emptyBytes \<and> t_completed_at r = 0 \<and> t_expires_at r = 0)"

definition requestsUnique :: "task_row list \<Rightarrow> bool" where
  "requestsUnique ts \<longleftrightarrow> (\<forall>r \<in> set ts. \<forall>r' \<in> set ts. t_request_id r \<noteq> [] \<longrightarrow>
     t_owner_id r = t_owner_id r' \<longrightarrow> t_request_id r = t_request_id r' \<longrightarrow> t_task_id r = t_task_id r')"

definition tasks_wf :: "task_row list \<Rightarrow> bool" where
  "tasks_wf ts \<longleftrightarrow> distinct (map t_task_id ts) \<and> requestsUnique ts \<and> (\<forall>r \<in> set ts. unfinishedClean r)"

text \<open>The columns no query writes after the insert.\<close>

definition frozen :: "task_row \<Rightarrow> string \<times> string \<times> string \<times> string \<times> payload \<times> int \<times> int" where
  "frozen r = (t_task_id r, t_owner_id r, t_request_id r, t_capability r, t_input_json r,
     t_created_at r, t_deadline_at r)"

lemma taskUnfinished_iff: "taskUnfinished r \<longleftrightarrow> \<not> isTaskTerminal (t_status r)"
  by (cases "t_status r") (auto simp: taskUnfinished_def)

lemma taskActive_iff: "taskActive i r \<longleftrightarrow> t_task_id r = i \<and> \<not> isTaskTerminal (t_status r)"
  by (simp add: taskActive_def taskUnfinished_iff)

lemma terminal_iff: "isTaskTerminal s \<longleftrightarrow> s \<in> {Succeeded, Failed, Timeout, Canceled}"
  by (cases s) auto

lemma taskExpired_terminal: "taskExpired n r \<Longrightarrow> isTaskTerminal (t_status r)"
  by (auto simp: taskExpired_def terminal_iff)

lemma frozen_eqD:
  assumes "frozen r' = frozen r"
  shows "t_task_id r' = t_task_id r" "t_owner_id r' = t_owner_id r"
    "t_request_id r' = t_request_id r" "t_capability r' = t_capability r"
    "t_input_json r' = t_input_json r" "t_created_at r' = t_created_at r"
    "t_deadline_at r' = t_deadline_at r"
  using assms by (simp_all add: frozen_def)

lemma update_status [simp]:
  "t_status (dispatchedUpdate u r) = Dispatched"
  "t_status (runningUpdate c u r) = Running"
  "t_status (terminalUpdate p r) = p_status p"
  "t_status (restartUpdate u m e r) = Failed"
  by (simp_all add: dispatchedUpdate_def runningUpdate_def terminalUpdate_def restartUpdate_def)

lemma update_frozen [simp]:
  "frozen (dispatchedUpdate u r) = frozen r"
  "frozen (runningUpdate c u r) = frozen r"
  "frozen (terminalUpdate p r) = frozen r"
  "frozen (restartUpdate u m e r) = frozen r"
  by (simp_all add: dispatchedUpdate_def runningUpdate_def terminalUpdate_def restartUpdate_def
      frozen_def)

lemmas update_keys [simp] =
  frozen_eqD [OF update_frozen(1)] frozen_eqD [OF update_frozen(2)]
  frozen_eqD [OF update_frozen(3)] frozen_eqD [OF update_frozen(4)]

lemma update_clean:
  "unfinishedClean r \<Longrightarrow> \<not> isTaskTerminal (t_status r) \<Longrightarrow> unfinishedClean (dispatchedUpdate u r)"
  "unfinishedClean r \<Longrightarrow> \<not> isTaskTerminal (t_status r) \<Longrightarrow> unfinishedClean (runningUpdate c u r)"
  "isTaskTerminal (p_status p) \<Longrightarrow> unfinishedClean (terminalUpdate p r)"
  "unfinishedClean (restartUpdate u m e r)"
  by (simp_all add: unfinishedClean_def dispatchedUpdate_def runningUpdate_def terminalUpdate_def
      restartUpdate_def)

text \<open>Every step is an insert, an expiry, or an update of unfinished rows that keeps the
  frozen columns.\<close>

lemma tasks_step_shape:
  assumes "tasks_step ts ts'"
  obtains (ins) row where "ts' = ts @ [row]" "\<forall>r \<in> set ts. t_task_id r \<noteq> t_task_id row"
      "t_request_id row = [] \<or>
        (\<forall>r \<in> set ts. t_owner_id r = t_owner_id row \<longrightarrow> t_request_id r \<noteq> t_request_id row)"
      "unfinishedClean row" "\<not> isTaskTerminal (t_status row)"
  | (expire) n where "ts' = deleteRows (taskExpired n) ts"
  | (upd) P f where "ts' = updateWhere P f ts" "\<And>r. frozen (f r) = frozen r"
      "\<And>r. P r \<Longrightarrow> \<not> isTaskTerminal (t_status r)"
      "\<And>r. P r \<Longrightarrow> unfinishedClean r \<Longrightarrow> unfinishedClean (f r)"
  using assms
proof cases
  case (step_insert row)
  then show ?thesis by (intro ins [of row]) (auto simp: unfinishedClean_def)
next
  case (step_dispatched i u)
  show ?thesis
    by (rule upd [OF step_dispatched]) (auto simp: taskActive_iff intro: update_clean)
next
  case (step_running i c u)
  show ?thesis
    by (rule upd [OF step_running]) (auto simp: taskActive_iff intro: update_clean)
next
  case (step_terminal p i)
  show ?thesis
    by (rule upd [OF step_terminal(1)])
      (auto simp: taskActive_iff intro: update_clean step_terminal(2))
next
  case (step_expire n)
  then show ?thesis by (rule expire)
next
  case (step_restart u c e)
  show ?thesis
    by (rule upd [OF step_restart]) (auto simp: taskUnfinished_iff intro: update_clean)
qed

lemma requestsUnique_update:
  assumes "requestsUnique ts" and f: "\<And>r. frozen (f r) = frozen r"
  shows "requestsUnique (updateWhere P f ts)"
  unfolding requestsUnique_def
proof (intro ballI impI)
  fix a b
  assume "a \<in> set (updateWhere P f ts)" "b \<in> set (updateWhere P f ts)"
  then obtain ra rb where in_ts: "ra \<in> set ts" "rb \<in> set ts"
      and "a = (if P ra then f ra else ra)" "b = (if P rb then f rb else rb)"
    by (auto simp: in_updateWhere)
  then have keys: "frozen a = frozen ra" "frozen b = frozen rb" using f by auto
  note k = keys [THEN frozen_eqD(1)] keys [THEN frozen_eqD(2)] keys [THEN frozen_eqD(3)]
  assume "t_request_id a \<noteq> []" "t_owner_id a = t_owner_id b" "t_request_id a = t_request_id b"
  then have "t_task_id ra = t_task_id rb"
    using assms(1) in_ts unfolding requestsUnique_def k by blast
  then show "t_task_id a = t_task_id b" unfolding k .
qed

lemma requestsUnique_subset: "requestsUnique ts \<Longrightarrow> set ts' \<subseteq> set ts \<Longrightarrow> requestsUnique ts'"
  unfolding requestsUnique_def by blast

lemma requestsUnique_insert:
  assumes ts: "requestsUnique ts"
    and row: "t_request_id row = [] \<or>
      (\<forall>r \<in> set ts. t_owner_id r = t_owner_id row \<longrightarrow> t_request_id r \<noteq> t_request_id row)"
  shows "requestsUnique (ts @ [row])"
  unfolding requestsUnique_def
proof (intro ballI impI)
  fix a b
  assume ab: "a \<in> set (ts @ [row])" "b \<in> set (ts @ [row])" "t_request_id a \<noteq> []"
    "t_owner_id a = t_owner_id b" "t_request_id a = t_request_id b"
  show "t_task_id a = t_task_id b"
  proof (cases "a = row \<or> b = row")
    case True
    with ab row have "a = row \<and> b = row" by (metis Un_iff empty_iff empty_set set_append set_ConsD)
    then show ?thesis by simp
  next
    case False
    with ab have "a \<in> set ts" "b \<in> set ts" by auto
    with ts ab(3-5) show ?thesis unfolding requestsUnique_def by blast
  qed
qed

lemma tasks_wf_update:
  assumes wf: "tasks_wf ts" and f: "\<And>r. frozen (f r) = frozen r"
    and clean: "\<And>r. P r \<Longrightarrow> unfinishedClean r \<Longrightarrow> unfinishedClean (f r)"
  shows "tasks_wf (updateWhere P f ts)"
proof -
  have "map t_task_id (updateWhere P f ts) = map t_task_id ts"
    by (rule map_key_updateWhere) (use f in \<open>simp add: frozen_def\<close>)
  moreover have "requestsUnique (updateWhere P f ts)"
    using wf f by (auto simp: tasks_wf_def intro: requestsUnique_update)
  ultimately show ?thesis
    using wf clean by (auto simp: tasks_wf_def in_updateWhere)
qed

lemma tasks_wf_Nil [simp]: "tasks_wf []"
  by (simp add: tasks_wf_def requestsUnique_def)

lemma tasks_step_wf [inv_intros]:
  assumes "tasks_step ts ts'" and wf: "tasks_wf ts"
  shows "tasks_wf ts'"
  using assms(1)
proof (cases rule: tasks_step_shape)
  case (ins row)
  with wf show ?thesis
    unfolding ins(1) tasks_wf_def by (intro conjI requestsUnique_insert) auto
next
  case (expire n)
  have "requestsUnique (deleteRows (taskExpired n) ts)"
    using wf by (auto simp: tasks_wf_def intro: requestsUnique_subset)
  with wf show ?thesis unfolding expire tasks_wf_def by auto
next
  case (upd P f)
  show ?thesis unfolding upd(1) by (rule tasks_wf_update [OF wf upd(2) upd(4)])
qed

lemma tasks_steps_wf: "tasks_step\<^sup>*\<^sup>* ts ts' \<Longrightarrow> tasks_wf ts \<Longrightarrow> tasks_wf ts'"
  by (induction rule: rtranclp_induct) (auto intro: tasks_step_wf)

text \<open>One step leaves a row as it is, changes it without touching the frozen columns while it
  is unfinished, or deletes it after its expiry.\<close>

definition row_evolves :: "task_row \<Rightarrow> task_row \<Rightarrow> bool" where
  "row_evolves r r' \<longleftrightarrow> frozen r' = frozen r \<and> (isTaskTerminal (t_status r) \<longrightarrow> r' = r)"

lemma row_evolves_refl [simp]: "row_evolves r r"
  by (simp add: row_evolves_def)

lemma row_evolves_trans: "row_evolves a b \<Longrightarrow> row_evolves b c \<Longrightarrow> row_evolves a c"
  by (auto simp: row_evolves_def)

lemma update_evolves:
  assumes "r \<in> set ts" and "\<And>r. frozen (f r) = frozen r" and "\<And>r. P r \<Longrightarrow> \<not> isTaskTerminal (t_status r)"
  shows "\<exists>r' \<in> set (updateWhere P f ts). row_evolves r r'"
  using assms by (intro bexI [of _ "if P r then f r else r"]) (auto simp: row_evolves_def in_updateWhere)

lemma tasks_step_row:
  assumes "tasks_step ts ts'" and r: "r \<in> set ts"
  shows "(\<exists>r' \<in> set ts'. row_evolves r r') \<or>
    (\<exists>n. ts' = deleteRows (taskExpired n) ts \<and> taskExpired n r)"
  using assms(1)
proof (cases rule: tasks_step_shape)
  case (ins row)
  with r show ?thesis by (intro disjI1 bexI [of _ r]) auto
next
  case (expire n)
  with r show ?thesis by (cases "taskExpired n r") (auto intro!: bexI [of _ r])
next
  case (upd P f)
  then show ?thesis using update_evolves [OF r, of f P] by blast
qed

lemma distinct_key_unique:
  "distinct (map key xs) \<Longrightarrow> a \<in> set xs \<Longrightarrow> b \<in> set xs \<Longrightarrow> key a = key b \<Longrightarrow> a = b"
  by (induction xs) (auto simp: image_iff)

text \<open>As long as the row exists: any interleaving of queries by any goroutines.\<close>

definition taskIDs :: "task_row list \<Rightarrow> string set" where
  "taskIDs ts = t_task_id ` set ts"

definition step_keeping :: "string \<Rightarrow> task_row list \<Rightarrow> task_row list \<Rightarrow> bool" where
  "step_keeping i ts ts' \<longleftrightarrow> tasks_step ts ts' \<and> i \<in> taskIDs ts'"

lemma step_keeping_row:
  assumes st: "step_keeping (t_task_id r) ts ts'" and wf: "tasks_wf ts" and r: "r \<in> set ts"
  shows "\<exists>r' \<in> set ts'. row_evolves r r'"
proof -
  have "tasks_step ts ts'" and mem: "t_task_id r \<in> taskIDs ts'"
    using st by (auto simp: step_keeping_def)
  then consider "\<exists>r' \<in> set ts'. row_evolves r r'"
    | n where "ts' = deleteRows (taskExpired n) ts" "taskExpired n r"
    using tasks_step_row r by blast
  then show ?thesis
  proof cases
    case 2
    then obtain x where "x \<in> set ts" "\<not> taskExpired n x" "t_task_id x = t_task_id r"
      using mem by (auto simp: taskIDs_def)
    with wf r 2(2) show ?thesis by (auto simp: tasks_wf_def dest: distinct_key_unique)
  qed
qed

lemma steps_keeping_row:
  assumes "(step_keeping i)\<^sup>*\<^sup>* ts ts'" and "tasks_wf ts" and "r \<in> set ts" and "t_task_id r = i"
  shows "\<exists>r' \<in> set ts'. row_evolves r r'"
  using assms(1)
proof (induction rule: rtranclp_induct)
  case base
  then show ?case using assms(3) by (intro bexI [of _ r]) auto
next
  case (step ts1 ts2)
  then obtain r1 where r1: "r1 \<in> set ts1" "row_evolves r r1" by blast
  have "(tasks_step)\<^sup>*\<^sup>* ts ts1"
    using step.hyps(1) by (rule rtranclp_mono [THEN predicate2D, rotated]) (auto simp: step_keeping_def)
  then have "tasks_wf ts1" using assms(2) by (rule tasks_steps_wf)
  moreover have "t_task_id r1 = i" using r1(2) assms(4) by (auto simp: row_evolves_def frozen_def)
  ultimately obtain r2 where "r2 \<in> set ts2" "row_evolves r1 r2"
    using step_keeping_row step.hyps(2) r1(1) by blast
  then show ?case using r1(2) row_evolves_trans by blast
qed

section \<open>The queries are steps\<close>

lemma tasks_faults [simp]: "db_tasks (d\<lparr>db_faults := fs\<rparr>) = db_tasks d"
  by simp

lemma insertTask_step:
  assumes "t_status row = Queued" "t_result_json row = emptyBytes"
    "t_completed_at row = 0" "t_expires_at row = 0"
  shows "tasks_step\<^sup>*\<^sup>* (db_tasks d) (db_tasks (snd (insertTask row d)))"
  unfolding insertTask_def
  by (rule dbRun_preserves) (auto intro: step_insert assms)

lemma getTask_same [simp]: "db_tasks (snd (queryGetTaskByID i d)) = db_tasks d"
  unfolding queryGetTaskByID_def by (rule dbRun_preserves) auto

lemma getTaskByRequest_same [simp]: "db_tasks (snd (queryGetTaskByOwnerAndRequest ow q d)) = db_tasks d"
  unfolding queryGetTaskByOwnerAndRequest_def by (rule dbRun_preserves) auto

lemma markDispatched_step:
  "tasks_step\<^sup>*\<^sup>* (db_tasks d) (db_tasks (snd (queryMarkTaskDispatched u i d)))"
  unfolding queryMarkTaskDispatched_def
  by (rule dbRun_preserves) (auto intro: step_dispatched)

lemma markRunning_step:
  "tasks_step\<^sup>*\<^sup>* (db_tasks d) (db_tasks (snd (queryMarkTaskRunning c u i d)))"
  unfolding queryMarkTaskRunning_def
  by (rule dbRun_preserves) (auto intro: step_running)

lemma markTerminal_step:
  "isTaskTerminal (p_status p) \<Longrightarrow>
     tasks_step\<^sup>*\<^sup>* (db_tasks d) (db_tasks (snd (queryMarkTaskTerminal p i d)))"
  unfolding queryMarkTaskTerminal_def
  by (rule dbRun_preserves) (auto intro: step_terminal)

lemma deleteExpired_step:
  "tasks_step\<^sup>*\<^sup>* (db_tasks d) (db_tasks (snd (queryDeleteExpiredTerminalTasks n d)))"
  unfolding queryDeleteExpiredTerminalTasks_def
  by (rule dbRun_preserves) (auto intro: step_expire)

lemma restart_step:
  "tasks_step\<^sup>*\<^sup>* (db_tasks d) (db_tasks (snd (markNonTerminalTasksFailedOnStartup u c e d)))"
  unfolding markNonTerminalTasksFailedOnStartup_def
  by (rule dbRun_preserves) (auto intro: step_restart)

lemmas query_steps = insertTask_step markDispatched_step markRunning_step markTerminal_step
  deleteExpired_step restart_step

end
