(* ===== verification/OwnerScope.thy ===== *)
theory OwnerScope
  imports Json
begin

text \<open>
  \<open>console/internal/grpcserver/task_owner_scope.go\<close>: terminal session ids are stored and
  dispatched under their owner (\<open>obx:<owner>:<session>\<close>), so that one account can neither
  name nor read another account's terminal session.
\<close>

definition taskOwnerScopePrefix :: string where "taskOwnerScopePrefix = ''obx''"
definition taskCapabilityTerminalExec :: string where "taskCapabilityTerminalExec = ''terminalexec''"
definition taskCapabilityTerminalResource :: string where
  "taskCapabilityTerminalResource = ''terminalresource''"

record terminalExecScopedPayload =
  te_command :: string
  te_session_id :: string
  te_create_if_missing :: bool
  te_lease_ttl_sec :: "int option"

record terminalResourceScopedPayload =
  tr_session_id :: string
  tr_file_path :: string
  tr_action :: string

definition decodeTerminalExec :: "payload \<Rightarrow> terminalExecScopedPayload option" where
  "decodeTerminalExec p =
     (case objectEntries p of
        None \<Rightarrow> None
      | Some es \<Rightarrow>
          (case (fieldStr ''command'' es, fieldStr ''session_id'' es,
                 fieldBool ''create_if_missing'' es, fieldIntPtr ''lease_ttl_sec'' es) of
             (Some c, Some s, Some b, Some l) \<Rightarrow>
               Some \<lparr>te_command = c, te_session_id = s, te_create_if_missing = b, te_lease_ttl_sec = l\<rparr>
           | _ \<Rightarrow> None))"

definition encodeTerminalExec :: "terminalExecScopedPayload \<Rightarrow> payload" where
  "encodeTerminalExec t =
     Document (JObj
       ([(''command'', JStr (te_command t))]
        @ omitempty (te_session_id t = []) ''session_id'' (JStr (te_session_id t))
        @ omitempty (\<not> te_create_if_missing t) ''create_if_missing'' (JBool (te_create_if_missing t))
        @ (case te_lease_ttl_sec t of None \<Rightarrow> [] | Some n \<Rightarrow> [(''lease_ttl_sec'', JInt n)])))"

definition decodeTerminalResource :: "payload \<Rightarrow> terminalResourceScopedPayload option" where
  "decodeTerminalResource p =
     (case objectEntries p of
        None \<Rightarrow> None
      | Some es \<Rightarrow>
          (case (fieldStr ''session_id'' es, fieldStr ''file_path'' es, fieldStr ''action'' es) of
             (Some s, Some f, Some a) \<Rightarrow>
               Some \<lparr>tr_session_id = s, tr_file_path = f, tr_action = a\<rparr>
           | _ \<Rightarrow> None))"

definition encodeTerminalResource :: "terminalResourceScopedPayload \<Rightarrow> payload" where
  "encodeTerminalResource t =
     Document (JObj
       ([(''session_id'', JStr (tr_session_id t)), (''file_path'', JStr (tr_file_path t))]
        @ omitempty (tr_action t = []) ''action'' (JStr (tr_action t))))"

definition normalizeTaskOwnerID :: "string \<Rightarrow> string" where
  "normalizeTaskOwnerID ownerID = trimSpace ownerID"

definition taskRequestScopeKey :: "string \<Rightarrow> string \<Rightarrow> string" where
  "taskRequestScopeKey ownerID requestID =
     normalizeTaskOwnerID ownerID @ [CHR 0x00] @ trimSpace requestID"

definition scopeTerminalSessionID :: "string \<Rightarrow> string \<Rightarrow> string" where
  "scopeTerminalSessionID ownerID externalSessionID =
     (let normalizedOwnerID = normalizeTaskOwnerID ownerID;
          normalizedSessionID = trimSpace externalSessionID
      in if normalizedOwnerID = [] \<or> normalizedSessionID = [] then normalizedSessionID
         else taskOwnerScopePrefix @ '':'' @ normalizedOwnerID @ '':'' @ normalizedSessionID)"

definition unscopeTerminalSessionID :: "string \<Rightarrow> string \<Rightarrow> string option" where
  "unscopeTerminalSessionID ownerID scopedSessionID =
     (let normalizedOwnerID = normalizeTaskOwnerID ownerID;
          normalizedSessionID = trimSpace scopedSessionID
      in if normalizedSessionID = [] then None
         else if normalizedOwnerID = [] then Some normalizedSessionID
         else let prefx = taskOwnerScopePrefix @ '':'' @ normalizedOwnerID @ '':''
              in if \<not> prefix prefx normalizedSessionID then None
                 else let externalSessionID = trimSpace (drop (length prefx) normalizedSessionID)
                      in if externalSessionID = [] then None else Some externalSessionID)"

text \<open>\<open>newID\<close> is the answer of \<open>newTerminalSessionIDFn\<close> if the operation asks for one.\<close>

definition scopeTaskInputByOwner ::
  "(go_error + string) \<Rightarrow> string \<Rightarrow> string \<Rightarrow> payload \<Rightarrow> go_error + payload" where
  "scopeTaskInputByOwner newID capability ownerID inputJSON =
     (let normalizedOwnerID = normalizeTaskOwnerID ownerID
      in if normalizedOwnerID = [] \<or> bytesEmpty inputJSON then Inr inputJSON
         else if capability = taskCapabilityTerminalExec then
           (case decodeTerminalExec inputJSON of
              None \<Rightarrow> Inr inputJSON
            | Some pl \<Rightarrow>
                let sessionID = trimSpace (te_session_id pl)
                in if sessionID = [] then
                     (case newID of
                        Inl _ \<Rightarrow> Inl (StatusError Internal ''failed to create session_id'')
                      | Inr created \<Rightarrow>
                          if trimSpace created = []
                          then Inl (StatusError Internal ''failed to create session_id'')
                          else Inr (encodeTerminalExec
                                 (pl\<lparr>te_create_if_missing := True,
                                     te_session_id := scopeTerminalSessionID normalizedOwnerID (trimSpace created)\<rparr>)))
                   else Inr (encodeTerminalExec
                          (pl\<lparr>te_session_id := scopeTerminalSessionID normalizedOwnerID sessionID\<rparr>)))
         else if capability = taskCapabilityTerminalResource then
           (case decodeTerminalResource inputJSON of
              None \<Rightarrow> Inr inputJSON
            | Some pl \<Rightarrow>
                let sessionID = trimSpace (tr_session_id pl)
                in if sessionID = [] then Inr inputJSON
                   else Inr (encodeTerminalResource
                          (pl\<lparr>tr_session_id := scopeTerminalSessionID normalizedOwnerID sessionID\<rparr>)))
         else Inr inputJSON)"

text \<open>The second component of the Go result is \<open>False\<close> exactly for \<open>None\<close> here.\<close>

definition restoreTaskResultOwnerScope :: "string \<Rightarrow> string \<Rightarrow> payload \<Rightarrow> payload option" where
  "restoreTaskResultOwnerScope ownerID capability resultJSON =
     (let normalizedOwnerID = normalizeTaskOwnerID ownerID
      in if normalizedOwnerID = [] \<or> bytesEmpty resultJSON then Some resultJSON
         else if capability \<noteq> taskCapabilityTerminalExec \<and> capability \<noteq> taskCapabilityTerminalResource
         then Some resultJSON
         else case objectEntries resultJSON of
           None \<Rightarrow> Some resultJSON
         | Some es \<Rightarrow>
             (case anyOf (JObj es) of
                JObj decoded \<Rightarrow>
                  (case map_of decoded ''session_id'' of
                     Some (JStr sessionID) \<Rightarrow>
                       (case unscopeTerminalSessionID normalizedOwnerID sessionID of
                          None \<Rightarrow> None
                        | Some externalSessionID \<Rightarrow>
                            Some (Document (JObj
                              (AList.update ''session_id'' (JStr externalSessionID) decoded))))
                   | _ \<Rightarrow> Some resultJSON)
              | _ \<Rightarrow> Some resultJSON))"

text \<open>\<open>terminalSessionIDFromPayload\<close> of \<open>service_dispatch.go\<close> reads the id back.\<close>

definition terminalSessionIDFromPayload :: "string \<Rightarrow> payload \<Rightarrow> string" where
  "terminalSessionIDFromPayload capability p =
     (if bytesEmpty p then []
      else if capability = taskCapabilityTerminalExec then
        (case decodeTerminalExec p of None \<Rightarrow> [] | Some d \<Rightarrow> trimSpace (te_session_id d))
      else if capability = taskCapabilityTerminalResource then
        (case decodeTerminalResource p of None \<Rightarrow> [] | Some d \<Rightarrow> trimSpace (tr_session_id d))
      else [])"

section \<open>Scoped ids\<close>

lemma plain_byte_colon [simp]: "plain_byte (CHR '':'')"
  by (simp add: plain_byte_def ws_runes_def)

lemma plain_byte_o [simp]: "plain_byte (CHR ''o'')"
  by (simp add: plain_byte_def ws_runes_def)

lemma normalizeTaskOwnerID_idem [simp]:
  "normalizeTaskOwnerID (normalizeTaskOwnerID x) = normalizeTaskOwnerID x"
  by (simp add: normalizeTaskOwnerID_def)

lemma scopeTerminalSessionID_trimmed:
  "trimmed x \<Longrightarrow> x \<noteq> [] \<Longrightarrow> trimmed (taskOwnerScopePrefix @ '':'' @ ow @ '':'' @ x)"
  using trimmed_sep_append [of x "taskOwnerScopePrefix @ '':'' @ ow" "CHR '':''"]
  by (simp add: taskOwnerScopePrefix_def)

lemma trimSpace_scoped [simp]:
  "trimmed x \<Longrightarrow> x \<noteq> [] \<Longrightarrow>
     trimSpace (taskOwnerScopePrefix @ CHR '':'' # ow @ CHR '':'' # x) =
     taskOwnerScopePrefix @ CHR '':'' # ow @ CHR '':'' # x"
  using scopeTerminalSessionID_trimmed [of x ow] by (simp add: trimmed_id)

lemma scope_nonblank:
  assumes "normalizeTaskOwnerID ow \<noteq> []" and "trimSpace sid \<noteq> []"
  shows "scopeTerminalSessionID ow sid =
           taskOwnerScopePrefix @ '':'' @ normalizeTaskOwnerID ow @ '':'' @ trimSpace sid"
    and "trimSpace (scopeTerminalSessionID ow sid) = scopeTerminalSessionID ow sid"
proof -
  show eq: "scopeTerminalSessionID ow sid =
           taskOwnerScopePrefix @ '':'' @ normalizeTaskOwnerID ow @ '':'' @ trimSpace sid"
    using assms by (simp add: scopeTerminalSessionID_def Let_def)
  show "trimSpace (scopeTerminalSessionID ow sid) = scopeTerminalSessionID ow sid"
    unfolding eq by (rule trimmed_id [OF scopeTerminalSessionID_trimmed]) (use assms in auto)
qed

lemma unscope_scope:
  assumes "normalizeTaskOwnerID ow \<noteq> []" and "trimSpace sid \<noteq> []"
  shows "unscopeTerminalSessionID ow (scopeTerminalSessionID ow sid) = Some (trimSpace sid)"
proof -
  have "scopeTerminalSessionID ow sid \<noteq> []"
    using assms by (simp add: scope_nonblank taskOwnerScopePrefix_def)
  moreover have "prefix (taskOwnerScopePrefix @ '':'' @ normalizeTaskOwnerID ow @ '':'')
      (scopeTerminalSessionID ow sid)"
    using assms by (simp add: scope_nonblank)
  ultimately show ?thesis
    using assms by (simp add: unscopeTerminalSessionID_def Let_def scope_nonblank)
qed

lemma sep_unique:
  assumes "c \<notin> set xs" and "c \<notin> set ys" and "xs @ c # r = ys @ c # s"
  shows "xs = ys"
proof -
  have "takeWhile (\<lambda>x. x \<noteq> c) (zs @ c # t) = zs" if "c \<notin> set zs" for zs t
    using that by (subst takeWhile_append2) auto
  from this [OF assms(1), of r] this [OF assms(2), of s] assms(3) show ?thesis by simp
qed

lemma unscope_foreign:
  assumes "normalizeTaskOwnerID o1 \<noteq> []" and "normalizeTaskOwnerID o2 \<noteq> []"
    and "normalizeTaskOwnerID o1 \<noteq> normalizeTaskOwnerID o2"
    and "CHR '':'' \<notin> set o1" and "CHR '':'' \<notin> set o2"
  shows "unscopeTerminalSessionID o2 (scopeTerminalSessionID o1 sid) = None"
proof (cases "trimSpace sid = []")
  case True
  then show ?thesis
    by (simp add: unscopeTerminalSessionID_def scopeTerminalSessionID_def Let_def)
next
  case False
  have c1: "CHR '':'' \<notin> set (normalizeTaskOwnerID o1)" and c2: "CHR '':'' \<notin> set (normalizeTaskOwnerID o2)"
    using assms(4,5) set_trimSpace by (auto simp: normalizeTaskOwnerID_def)
  have "\<not> prefix (taskOwnerScopePrefix @ '':'' @ normalizeTaskOwnerID o2 @ '':'')
      (scopeTerminalSessionID o1 sid)"
    using assms(1,3) False c1 c2
    by (auto simp: scope_nonblank prefix_def dest: sep_unique)
  then show ?thesis
    using assms(1,2) False by (simp add: unscopeTerminalSessionID_def Let_def scope_nonblank)
qed

section \<open>Payload codecs\<close>

lemma equalFold_refl [simp]: "equalFold s s"
  by (simp add: equalFold_def)

lemmas field_names_differ = equalFold_def toLower_def lower_char_def less_eq_char_def

lemma decode_encode_terminalExec:
  assumes "te_lease_ttl_sec t = None \<or> (\<exists>n. te_lease_ttl_sec t = Some n \<and> - (2 ^ 63) \<le> n \<and> n < 2 ^ 63)"
  shows "decodeTerminalExec (encodeTerminalExec t) = Some t"
  using assms
  by (auto simp: decodeTerminalExec_def encodeTerminalExec_def decodeField_def omitempty_def
      field_names_differ split: option.splits)

lemma decode_encode_terminalResource: "decodeTerminalResource (encodeTerminalResource t) = Some t"
  by (auto simp: decodeTerminalResource_def encodeTerminalResource_def decodeField_def omitempty_def
      field_names_differ)

section \<open>Sessions stay with their owner\<close>

text \<open>A decoded lease fits in 64 bits, so that encoding it again loses nothing.\<close>

lemma fieldIntPtr_range:
  assumes "fieldIntPtr n es = Some (Some k)"
  shows "- (2 ^ 63) \<le> k \<and> k < 2 ^ 63"
proof -
  let ?ok = "\<lambda>acc. \<forall>k. acc = Some (Some k) \<longrightarrow> - (2 ^ 63) \<le> k \<and> k < (2 ^ 63 :: int)"
  have store: "?ok (storeIntPtr acc v)" if "?ok acc" for acc v
    using that by (cases "(acc, v)" rule: storeIntPtr.cases) (auto split: if_splits)
  have "?ok acc \<Longrightarrow> ?ok (fold (\<lambda>(k, v) acc. if equalFold k n then storeIntPtr acc v else acc) es acc)" for acc
  proof (induction es arbitrary: acc)
    case (Cons e es)
    have "?ok (if equalFold (fst e) n then storeIntPtr acc (snd e) else acc)"
      using store [OF Cons.prems] Cons.prems by (simp only: split: if_split) blast
    from Cons.IH [OF this] show ?case by (simp only: fold.simps o_apply case_prod_beta)
  qed simp
  from this [of "Some None"] assms show ?thesis by (simp add: decodeField_def)
qed

lemma decode_lease:
  "decodeTerminalExec p = Some t \<Longrightarrow>
     te_lease_ttl_sec t = None \<or> (\<exists>n. te_lease_ttl_sec t = Some n \<and> - (2 ^ 63) \<le> n \<and> n < 2 ^ 63)"
  using fieldIntPtr_range
  by (cases "te_lease_ttl_sec t") (auto simp: decodeTerminalExec_def split: option.splits)

lemma encode_nonempty [simp]: "\<not> bytesEmpty (encodeTerminalExec t)" "\<not> bytesEmpty (encodeTerminalResource u)"
  by (simp_all add: bytesEmpty_def encodeTerminalExec_def encodeTerminalResource_def)

lemma scope_normalize [simp]: "scopeTerminalSessionID (normalizeTaskOwnerID ow) sid = scopeTerminalSessionID ow sid"
  by (simp add: scopeTerminalSessionID_def)

lemma scoped_exec_id:
  assumes "decodeTerminalExec p = Some pl" "te_lease_ttl_sec t = te_lease_ttl_sec pl"
    and "te_session_id t = scopeTerminalSessionID ow sid" "normalizeTaskOwnerID ow \<noteq> []" "trimSpace sid \<noteq> []"
  shows "terminalSessionIDFromPayload taskCapabilityTerminalExec (encodeTerminalExec t) = scopeTerminalSessionID ow sid"
proof -
  have "decodeTerminalExec (encodeTerminalExec t) = Some t"
    by (rule decode_encode_terminalExec) (use decode_lease [OF assms(1)] assms(2) in simp)
  then show ?thesis
    using assms(3) scope_nonblank(2) [OF assms(4,5)] by (simp add: terminalSessionIDFromPayload_def)
qed

lemma scoped_resource_id:
  assumes "tr_session_id t = scopeTerminalSessionID ow sid" "normalizeTaskOwnerID ow \<noteq> []" "trimSpace sid \<noteq> []"
  shows "terminalSessionIDFromPayload taskCapabilityTerminalResource (encodeTerminalResource t) =
    scopeTerminalSessionID ow sid"
  using assms(1) scope_nonblank(2) [OF assms(2,3)]
  by (simp add: terminalSessionIDFromPayload_def decode_encode_terminalResource
      taskCapabilityTerminalResource_def taskCapabilityTerminalExec_def)

text \<open>What scoping makes of an input: the worker is named no session, or the codec is given a scoped one.\<close>

lemma scoped_exec_input:
  assumes "scopeTaskInputByOwner newID taskCapabilityTerminalExec ow inp = Inr scoped" "normalizeTaskOwnerID ow \<noteq> []"
  obtains (blank) "terminalSessionIDFromPayload taskCapabilityTerminalExec scoped = []"
  | (session) pl t sid where "decodeTerminalExec inp = Some pl" "te_lease_ttl_sec t = te_lease_ttl_sec pl"
      "te_session_id t = scopeTerminalSessionID ow sid" "trimSpace sid \<noteq> []" "scoped = encodeTerminalExec t"
proof (cases "decodeTerminalExec inp")
  case None
  with assms blank show thesis
    by (auto simp: scopeTaskInputByOwner_def Let_def terminalSessionIDFromPayload_def split: if_splits)
next
  case (Some pl)
  show thesis
  proof (cases "bytesEmpty inp")
    case True
    with assms blank show thesis by (simp add: scopeTaskInputByOwner_def Let_def terminalSessionIDFromPayload_def)
  next
    case False
    show thesis
    proof (cases "trimSpace (te_session_id pl) = []")
      case True
      with assms False Some obtain x where x: "trimSpace x \<noteq> []" "scoped = encodeTerminalExec (pl\<lparr>te_create_if_missing := True,
          te_session_id := scopeTerminalSessionID ow (trimSpace x)\<rparr>)"
        by (auto simp: scopeTaskInputByOwner_def Let_def split: if_splits sum.splits)
      show thesis by (rule session [OF Some _ _ _ x(2)]) (use x(1) in \<open>simp_all add: scopeTerminalSessionID_def\<close>)
    next
      case sid: False
      with assms False Some show thesis
        by (auto simp: scopeTaskInputByOwner_def Let_def
            intro: session [OF Some, of "pl\<lparr>te_session_id := scopeTerminalSessionID ow (trimSpace (te_session_id pl))\<rparr>"])
    qed
  qed
qed

lemma scoped_resource_input:
  assumes "scopeTaskInputByOwner newID taskCapabilityTerminalResource ow inp = Inr scoped" "normalizeTaskOwnerID ow \<noteq> []"
  obtains (blank) "terminalSessionIDFromPayload taskCapabilityTerminalResource scoped = []"
  | (session) t sid where "tr_session_id t = scopeTerminalSessionID ow sid" "trimSpace sid \<noteq> []"
      "scoped = encodeTerminalResource t"
proof -
  have differ: "taskCapabilityTerminalResource \<noteq> taskCapabilityTerminalExec"
    by (simp add: taskCapabilityTerminalResource_def taskCapabilityTerminalExec_def)
  show thesis
  proof (cases "bytesEmpty inp \<or> (case decodeTerminalResource inp of None \<Rightarrow> True | Some pl \<Rightarrow> trimSpace (tr_session_id pl) = [])")
    case True
    with assms differ blank show thesis
      by (auto simp: scopeTaskInputByOwner_def Let_def terminalSessionIDFromPayload_def split: if_splits option.splits)
  next
    case False
    then obtain pl where pl: "decodeTerminalResource inp = Some pl" "trimSpace (tr_session_id pl) \<noteq> []" "\<not> bytesEmpty inp"
      by (auto split: option.splits)
    show thesis
      by (rule session [of "pl\<lparr>tr_session_id := scopeTerminalSessionID ow (trimSpace (tr_session_id pl))\<rparr>"
          "trimSpace (tr_session_id pl)"])
        (use assms differ pl in \<open>simp_all add: scopeTaskInputByOwner_def Let_def\<close>)
  qed
qed

lemma scoped_input_owner:
  assumes "scopeTaskInputByOwner newID capability ownerID inputJSON = Inr scoped"
    and "normalizeTaskOwnerID ownerID \<noteq> []"
  shows "terminalSessionIDFromPayload capability scoped = [] \<or>
    (\<exists>sid. trimSpace sid \<noteq> [] \<and> terminalSessionIDFromPayload capability scoped = scopeTerminalSessionID ownerID sid)"
proof -
  consider (exec) "capability = taskCapabilityTerminalExec" | (resource) "capability = taskCapabilityTerminalResource"
    | (other) "capability \<noteq> taskCapabilityTerminalExec" "capability \<noteq> taskCapabilityTerminalResource" by blast
  then show ?thesis
  proof cases
    case exec
    from assms(1) [unfolded exec] assms(2) show ?thesis unfolding exec
      by (rule scoped_exec_input) (use scoped_exec_id assms(2) in blast)+
  next
    case resource
    from assms(1) [unfolded resource] assms(2) show ?thesis unfolding resource
      by (rule scoped_resource_input) (use scoped_resource_id assms(2) in blast)+
  qed (simp add: terminalSessionIDFromPayload_def)
qed

text \<open>Whatever an account submits, the terminal session a worker is asked for is one of that account:
  the session id the dispatcher reads from the scoped input is empty or carries the account's prefix,
  also when the input names a foreign scoped id, has duplicate or oddly cased keys, or is malformed.\<close>

theorem scoped_input_names_owner:
  assumes "scopeTaskInputByOwner newID capability ownerID inputJSON = Inr scoped"
    and "normalizeTaskOwnerID ownerID \<noteq> []"
  shows "terminalSessionIDFromPayload capability scoped = [] \<or>
    (\<exists>sid. trimSpace sid \<noteq> [] \<and> terminalSessionIDFromPayload capability scoped = scopeTerminalSessionID ownerID sid)"
  using assms by (rule scoped_input_owner)

theorem scoped_input_names_owner_witness:
  "terminalSessionIDFromPayload ''terminalexec'' (encodeTerminalExec \<lparr>te_command = ''ls'',
     te_session_id = ''obx:alice:obx:bob:x'', te_create_if_missing = False, te_lease_ttl_sec = None\<rparr>) =
   scopeTerminalSessionID ''alice'' ''obx:bob:x''"
proof -
  let ?in = "Document (JObj [(''command'', JStr ''ls''), (''Session_ID'', JStr '' obx:bob:x '')])"
  let ?out = "encodeTerminalExec \<lparr>te_command = ''ls'',
     te_session_id = ''obx:alice:obx:bob:x'', te_create_if_missing = False, te_lease_ttl_sec = None\<rparr>"
  have "scopeTaskInputByOwner (Inr ''new'') ''terminalexec'' ''alice'' ?in = Inr ?out" by code_simp
  moreover have "normalizeTaskOwnerID ''alice'' \<noteq> []" by code_simp
  moreover have "terminalSessionIDFromPayload ''terminalexec'' ?out \<noteq> []" by code_simp
  ultimately have "\<exists>sid. trimSpace sid \<noteq> [] \<and>
      terminalSessionIDFromPayload ''terminalexec'' ?out = scopeTerminalSessionID ''alice'' sid"
    using scoped_input_names_owner [of "Inr ''new''" "''terminalexec''" "''alice''" ?in ?out] by blast
  moreover have "terminalSessionIDFromPayload ''terminalexec'' ?out = scopeTerminalSessionID ''alice'' ''obx:bob:x''"
    by code_simp
  ultimately show ?thesis by blast
qed

text \<open>A session id survives the trip to the worker and back for its owner, and is refused for every
  other owner; account ids contain no colon.\<close>

theorem session_id_roundtrip:
  assumes "normalizeTaskOwnerID o1 \<noteq> []" and "normalizeTaskOwnerID o2 \<noteq> []" and "trimSpace sid \<noteq> []"
    and "CHR '':'' \<notin> set o1" and "CHR '':'' \<notin> set o2"
  shows "unscopeTerminalSessionID o2 (scopeTerminalSessionID o1 sid) =
    (if normalizeTaskOwnerID o1 = normalizeTaskOwnerID o2 then Some (trimSpace sid) else None)"
proof (cases "normalizeTaskOwnerID o1 = normalizeTaskOwnerID o2")
  case True
  then have "scopeTerminalSessionID o1 sid = scopeTerminalSessionID o2 sid" by (simp add: scopeTerminalSessionID_def)
  with True unscope_scope [OF assms(2,3)] show ?thesis by simp
next
  case False
  with unscope_foreign [OF assms(1,2) _ assms(4,5)] show ?thesis by simp
qed

theorem session_id_roundtrip_witness:
  "unscopeTerminalSessionID ''alice'' (scopeTerminalSessionID '' alice'' '' s1 '') = Some ''s1'' \<and>
   unscopeTerminalSessionID ''bob'' (scopeTerminalSessionID ''alice'' ''s1'') = None"
proof -
  have n: "normalizeTaskOwnerID ''alice'' = ''alice''" "normalizeTaskOwnerID '' alice'' = ''alice''"
    "normalizeTaskOwnerID ''bob'' = ''bob''" "trimSpace ''s1'' = ''s1''" "trimSpace '' s1 '' = ''s1''"
    by code_simp+
  show ?thesis
    using session_id_roundtrip [of "'' alice''" "''alice''" "'' s1 ''"] session_id_roundtrip [of "''alice''" "''bob''" "''s1''"]
    by (simp add: n)
qed

end
