(* ===== verification/WorkerSession.thy ===== *)
theory WorkerSession
  imports OwnerScope
begin

text \<open>
  \<open>console/internal/grpcserver/session_runtime.go\<close>: one live worker connection. A session
  holds, per capability, how many commands are in flight against a limit, and the commands
  that wait for a result, each with a result channel of capacity one. The pending commands are
  objects shared between the session and the dispatcher that waits, so they live in a store
  (\<open>as_objects\<close>) and \<open>pending\<close> maps a command id to an address in it. An operation that
  would panic (a send on or a second close of a closed channel) returns \<open>None\<close>; the step
  relation and its invariant show that this never happens, that the in-flight count is exact,
  and that closing a session wakes every waiter.
\<close>

section \<open>Data\<close>

definition defaultCloseMessage :: string where "defaultCloseMessage = ''session closed''"
definition defaultCapabilityMaxInflight :: int where "defaultCapabilityMaxInflight = 4"
definition controlOutboundBufferSize :: nat where "controlOutboundBufferSize = 32"
definition commandOutboundBufferSize :: nat where "commandOutboundBufferSize = 128"

definition normalizeCapability :: "string \<Rightarrow> string" where
  "normalizeCapability capability = trimSpace (toLower capability)"

lemma normalizeCapability_idem [simp]:
  "normalizeCapability (normalizeCapability c) = normalizeCapability c"
  using lowerTrim_idem [of c] by (simp add: normalizeCapability_def lowerTrim_def)

record commandOutcome =
  co_payloadJSON :: payload
  co_message :: string
  co_err :: "go_error option"
  co_completedAt :: gtime

definition emptyOutcome :: commandOutcome where
  "emptyOutcome = \<lparr>co_payloadJSON = emptyBytes, co_message = [], co_err = None, co_completedAt = zeroTime\<rparr>"

text \<open>The channel's buffer and whether it is closed, and whether \<open>closeOnce\<close> has run.\<close>

record pendingCommand =
  pc_buffer :: "commandOutcome list"
  pc_closed :: bool
  pc_once :: bool
  pc_capability :: string

record sessionCapability =
  sc_maxInflight :: int
  sc_inflight :: int

text \<open>The frames of \<open>registry.proto\<close> that cross a session.\<close>

record commandDispatch =
  cd_commandId :: string
  cd_capability :: string
  cd_payloadJson :: payload
  cd_deadlineUnixMs :: int

datatype connectResponse =
    ConnectAck string int
  | HeartbeatAck int
  | CommandDispatch commandDispatch

record commandResult =
  cr_commandId :: string
  cr_error :: "(string \<times> string) option"
  cr_payloadJson :: payload
  cr_completedUnixMs :: int

record capabilityDeclaration =
  cap_name :: string
  cap_maxInflight :: int

record connectHello =
  ch_nodeId :: string
  ch_nodeName :: string
  ch_executorKind :: string
  ch_labels :: "(string \<times> string) list"
  ch_version :: string
  ch_capabilities :: "capabilityDeclaration option list"
  ch_workerSecret :: string

record activeSession =
  as_nodeID :: string
  as_sessionID :: string
  as_capabilities :: "(string \<times> sessionCapability) list"
  as_controlOutbound :: "connectResponse list"
  as_commandOutbound :: "connectResponse list"
  as_done :: bool
  as_pending :: "(string \<times> nat) list"
  as_objects :: "pendingCommand list"
  as_closeOnce :: bool
  as_closedErr :: "go_error option"

section \<open>Operations\<close>

definition capabilitiesFromHello :: "connectHello option \<Rightarrow> (string \<times> sessionCapability) list" where
  "capabilitiesFromHello hello =
     (case hello of None \<Rightarrow> []
      | Some h \<Rightarrow>
          fold (\<lambda>capability capabilitySet. case capability of None \<Rightarrow> capabilitySet
              | Some c \<Rightarrow>
                  let name = normalizeCapability (cap_name c)
                  in if name = [] then capabilitySet
                     else AList.update name
                       \<lparr>sc_maxInflight = (if cap_maxInflight c \<le> 0 then defaultCapabilityMaxInflight
                                          else cap_maxInflight c),
                        sc_inflight = 0\<rparr> capabilitySet)
            (ch_capabilities h) [])"

definition newActiveSession :: "string \<Rightarrow> string \<Rightarrow> connectHello option \<Rightarrow> activeSession" where
  "newActiveSession nodeID sessionID hello =
     \<lparr>as_nodeID = nodeID, as_sessionID = sessionID,
      as_capabilities = capabilitiesFromHello hello,
      as_controlOutbound = [], as_commandOutbound = [], as_done = False,
      as_pending = [], as_objects = [], as_closeOnce = False, as_closedErr = None\<rparr>"

definition hasCapability :: "string \<Rightarrow> activeSession \<Rightarrow> bool" where
  "hasCapability capability s =
     (let normalized = normalizeCapability capability
      in if normalized = [] then False
         else map_of (as_capabilities s) normalized \<noteq> None)"

definition inflightSnapshot :: "string \<Rightarrow> activeSession \<Rightarrow> (int \<times> int) option \<times> activeSession" where
  "inflightSnapshot capability s =
     (let normalized = normalizeCapability capability
      in if normalized = [] then (None, s)
         else case map_of (as_capabilities s) normalized of
                None \<Rightarrow> (None, s)
              | Some state \<Rightarrow>
                  if sc_maxInflight state \<le> 0
                  then (Some (sc_inflight state, defaultCapabilityMaxInflight),
                        s\<lparr>as_capabilities := AList.update normalized
                            (state\<lparr>sc_maxInflight := defaultCapabilityMaxInflight\<rparr>) (as_capabilities s)\<rparr>)
                  else (Some (sc_inflight state, sc_maxInflight state), s))"

definition allCapabilitiesSnapshot :: "activeSession \<Rightarrow> (string \<times> int \<times> int) list" where
  "allCapabilitiesSnapshot s =
     map (\<lambda>(name, state). (name, sc_inflight state,
            if sc_maxInflight state \<le> 0 then defaultCapabilityMaxInflight else sc_maxInflight state))
       (as_capabilities s)"

definition tryAcquireCapability :: "string \<Rightarrow> activeSession \<Rightarrow> bool \<times> activeSession" where
  "tryAcquireCapability capability s =
     (let normalized = normalizeCapability capability
      in if normalized = [] then (False, s)
         else case map_of (as_capabilities s) normalized of
                None \<Rightarrow> (False, s)
              | Some state \<Rightarrow>
                  let state = (if sc_maxInflight state \<le> 0
                               then state\<lparr>sc_maxInflight := defaultCapabilityMaxInflight\<rparr> else state)
                  in if sc_inflight state \<ge> sc_maxInflight state
                     then (False, s\<lparr>as_capabilities := AList.update normalized state (as_capabilities s)\<rparr>)
                     else (True, s\<lparr>as_capabilities := AList.update normalized
                             (state\<lparr>sc_inflight := sc_inflight state + 1\<rparr>) (as_capabilities s)\<rparr>))"

definition releaseCapability :: "string \<Rightarrow> activeSession \<Rightarrow> activeSession" where
  "releaseCapability capability s =
     (let normalized = normalizeCapability capability
      in if normalized = [] then s
         else case map_of (as_capabilities s) normalized of
                None \<Rightarrow> s
              | Some state \<Rightarrow>
                  if sc_inflight state > 0
                  then s\<lparr>as_capabilities := AList.update normalized
                           (state\<lparr>sc_inflight := sc_inflight state - 1\<rparr>) (as_capabilities s)\<rparr>
                  else s)"

definition sessionError :: "activeSession \<Rightarrow> go_error" where
  "sessionError s = (case as_closedErr s of Some e \<Rightarrow> e | None \<Rightarrow> OtherError defaultCloseMessage)"

text \<open>\<open>enqueue\<close>: the first \<open>select\<close> refuses on a closed session; the second takes any ready
  case, which the scheduler (\<open>pick\<close>) chooses. \<open>None\<close>: no case is ready, the caller waits.\<close>

datatype enqueue_case = CaseDone | CaseCtx go_error | CaseSend

definition readyCases :: "nat \<Rightarrow> connectResponse list \<Rightarrow> go_error option \<Rightarrow> bool \<Rightarrow> enqueue_case list" where
  "readyCases bufferSize outbound ctxErr doneClosed =
     (if doneClosed then [CaseDone] else []) @
     (case ctxErr of None \<Rightarrow> [] | Some e \<Rightarrow> [CaseCtx e]) @
     (if length outbound < bufferSize then [CaseSend] else [])"

definition enqueue ::
  "nat \<Rightarrow> nat \<Rightarrow> go_error option \<Rightarrow> connectResponse \<Rightarrow> connectResponse list \<Rightarrow> activeSession \<Rightarrow>
   ((go_error + unit) \<times> connectResponse list) option" where
  "enqueue bufferSize pick ctxErr response outbound s =
     (if as_done s then Some (Inl (sessionError s), outbound)
      else let ready = readyCases bufferSize outbound ctxErr (as_done s)
           in if ready = [] then None
              else case ready ! (pick mod length ready) of
                     CaseDone \<Rightarrow> Some (Inl (sessionError s), outbound)
                   | CaseCtx e \<Rightarrow> Some (Inl e, outbound)
                   | CaseSend \<Rightarrow> Some (Inr (), outbound @ [response]))"

definition enqueueCommand ::
  "nat \<Rightarrow> go_error option \<Rightarrow> connectResponse \<Rightarrow> activeSession \<Rightarrow> ((go_error + unit) \<times> activeSession) option" where
  "enqueueCommand pick ctxErr response s =
     map_option (\<lambda>(r, out). (r, s\<lparr>as_commandOutbound := out\<rparr>))
       (enqueue commandOutboundBufferSize pick ctxErr response (as_commandOutbound s) s)"

definition enqueueControl ::
  "nat \<Rightarrow> go_error option \<Rightarrow> connectResponse \<Rightarrow> activeSession \<Rightarrow> ((go_error + unit) \<times> activeSession) option" where
  "enqueueControl pick ctxErr response s =
     map_option (\<lambda>(r, out). (r, s\<lparr>as_controlOutbound := out\<rparr>))
       (enqueue controlOutboundBufferSize pick ctxErr response (as_controlOutbound s) s)"

text \<open>A send that finds the buffer full is dropped (\<open>default:\<close>); a send on a closed channel and
  a second close panic.\<close>

definition closeResult :: "commandOutcome option \<Rightarrow> pendingCommand \<Rightarrow> pendingCommand option" where
  "closeResult outcome p =
     (if pc_once p then Some p
      else case outcome of
             None \<Rightarrow> if pc_closed p then None else Some (p\<lparr>pc_once := True, pc_closed := True\<rparr>)
           | Some out \<Rightarrow>
               if pc_closed p then None
               else Some (p\<lparr>pc_once := True, pc_closed := True,
                            pc_buffer := (if length (pc_buffer p) < 1 then pc_buffer p @ [out]
                                          else pc_buffer p)\<rparr>))"

definition registerPending :: "string \<Rightarrow> string \<Rightarrow> activeSession \<Rightarrow> (go_error + nat) \<times> activeSession" where
  "registerPending commandID capability s =
     (let commandID = trimSpace commandID
      in if commandID = [] then (Inl (OtherError ''command_id is required''), s)
         else if as_done s then (Inl (sessionError s), s)
         else let addr = length (as_objects s);
                  p = \<lparr>pc_buffer = [], pc_closed = False, pc_once = False,
                       pc_capability = normalizeCapability capability\<rparr>
              in (Inr addr, s\<lparr>as_objects := as_objects s @ [p],
                              as_pending := AList.update commandID addr (as_pending s)\<rparr>))"

text \<open>\<open>pending.closeResult\<close> of the object at an address, after \<open>releaseCapability\<close>.\<close>

definition settle :: "commandOutcome option \<Rightarrow> nat \<Rightarrow> activeSession \<Rightarrow> activeSession option" where
  "settle outcome addr s =
     (let p = as_objects s ! addr; s = releaseCapability (pc_capability p) s
      in case closeResult outcome p of
           None \<Rightarrow> None
         | Some p' \<Rightarrow> Some (s\<lparr>as_objects := (as_objects s)[addr := p']\<rparr>))"

definition unregisterPending :: "string \<Rightarrow> activeSession \<Rightarrow> activeSession option" where
  "unregisterPending commandID s =
     (let commandID = trimSpace commandID
      in if commandID = [] then Some s
         else case map_of (as_pending s) commandID of
                None \<Rightarrow> Some s
              | Some addr \<Rightarrow> settle None addr (s\<lparr>as_pending := AList.delete commandID (as_pending s)\<rparr>))"

definition parseEchoPayload :: "payload \<Rightarrow> string option" where
  "parseEchoPayload p =
     (if bytesEmpty p then None
      else case objectEntries p of
             None \<Rightarrow> None
           | Some es \<Rightarrow>
               case fieldStr ''message'' es of
                 None \<Rightarrow> None
               | Some message \<Rightarrow> if trimSpace message = [] then None else Some message)"

definition outcomeOfResult :: "gtime \<Rightarrow> commandResult \<Rightarrow> commandOutcome" where
  "outcomeOfResult wall result =
     (let outcome =
        (case cr_error result of
           Some (code, message) \<Rightarrow> emptyOutcome\<lparr>co_err := Some (CommandExecutionError code message)\<rparr>
         | None \<Rightarrow>
             if \<not> bytesEmpty (cr_payloadJson result)
             then emptyOutcome\<lparr>co_payloadJSON := cr_payloadJson result,
                    co_message := (case parseEchoPayload (cr_payloadJson result) of
                                     Some message \<Rightarrow> message | None \<Rightarrow> [])\<rparr>
             else emptyOutcome\<lparr>co_err := Some (CommandExecutionError ''empty_result''
                    ''worker returned empty command result'')\<rparr>)
      in outcome\<lparr>co_completedAt :=
           (if cr_completedUnixMs result > 0 then timeOfMilli (cr_completedUnixMs result) else wall)\<rparr>)"

definition resolvePending :: "gtime \<Rightarrow> commandResult option \<Rightarrow> activeSession \<Rightarrow> activeSession option" where
  "resolvePending wall result s =
     (case result of
        None \<Rightarrow> Some s
      | Some result \<Rightarrow>
          let commandID = trimSpace (cr_commandId result)
          in if commandID = [] then Some s
             else case map_of (as_pending s) commandID of
                    None \<Rightarrow> Some s
                  | Some addr \<Rightarrow>
                      settle (Some (outcomeOfResult wall result)) addr
                        (s\<lparr>as_pending := AList.delete commandID (as_pending s)\<rparr>))"

text \<open>
  \<open>close\<close> has two observable phases: it publishes the error and closes \<open>done\<close>, then takes the
  pending table under its lock and settles the entries. Other operations run between the two.
\<close>

definition close_begin :: "go_error option \<Rightarrow> activeSession \<Rightarrow> activeSession" where
  "close_begin err s =
     (if as_closeOnce s then s
      else s\<lparr>as_closeOnce := True, as_done := True,
             as_closedErr := Some (case err of Some e \<Rightarrow> e | None \<Rightarrow> OtherError defaultCloseMessage)\<rparr>)"

definition close_drain :: "activeSession \<Rightarrow> activeSession option" where
  "close_drain s =
     fold (\<lambda>(_, addr) acc. case acc of None \<Rightarrow> None
             | Some s \<Rightarrow> settle (Some (emptyOutcome\<lparr>co_err := as_closedErr s\<rparr>)) addr s)
       (as_pending s) (Some (s\<lparr>as_pending := []\<rparr>))"

definition closeSession :: "go_error option \<Rightarrow> activeSession \<Rightarrow> activeSession option" where
  "closeSession err s = (if as_closeOnce s then Some s else close_drain (close_begin err s))"

text \<open>The dispatcher's \<open>outcome, ok := <-resultCh\<close>: \<open>None\<close> while it would block.\<close>

definition receiveResult :: "nat \<Rightarrow> activeSession \<Rightarrow> (commandOutcome option \<times> activeSession) option" where
  "receiveResult addr s =
     (let p = as_objects s ! addr
      in case pc_buffer p of
           out # rest \<Rightarrow> Some (Some out, s\<lparr>as_objects := (as_objects s)[addr := p\<lparr>pc_buffer := rest\<rparr>]\<rparr>)
         | [] \<Rightarrow> if pc_closed p then Some (None, s) else None)"

section \<open>Exact accounting\<close>

text \<open>\<open>caps_ok caps tok\<close>: each capability's in-flight count is its number of tokens, between
  zero and the limit, and tokens exist for declared capabilities only.\<close>

definition caps_ok :: "(string \<times> sessionCapability) list \<Rightarrow> (string \<Rightarrow> nat) \<Rightarrow> bool" where
  "caps_ok caps tok \<longleftrightarrow> keys_distinct caps \<and>
     (\<forall>c st. map_of caps c = Some st \<longrightarrow>
        c \<noteq> [] \<and> normalizeCapability c = c \<and> 0 < sc_maxInflight st \<and>
        sc_inflight st = int (tok c) \<and> int (tok c) \<le> sc_maxInflight st) \<and>
     (\<forall>c. 0 < tok c \<longrightarrow> map_of caps c \<noteq> None)"

lemma caps_okD:
  assumes "caps_ok caps tok" and "map_of caps c = Some st"
  shows "c \<noteq> []" "normalizeCapability c = c" "0 < sc_maxInflight st"
    "sc_inflight st = int (tok c)" "sc_inflight st \<le> sc_maxInflight st"
  using assms unfolding caps_ok_def by auto

lemma caps_ok_token:
  assumes "caps_ok caps tok" and "0 < tok c"
  obtains st where "map_of caps c = Some st" "normalizeCapability c = c" "c \<noteq> []"
  using assms unfolding caps_ok_def by blast

definition freshObject :: "pendingCommand \<Rightarrow> bool" where
  "freshObject p \<longleftrightarrow> pc_buffer p = [] \<and> \<not> pc_closed p \<and> \<not> pc_once p"

definition settledObject :: "pendingCommand \<Rightarrow> bool" where
  "settledObject p \<longleftrightarrow> length (pc_buffer p) \<le> 1 \<and> pc_closed p \<and> pc_once p"

definition objects_ok :: "pendingCommand list \<Rightarrow> nat set \<Rightarrow> bool" where
  "objects_ok objs live \<longleftrightarrow> live \<subseteq> {..<length objs} \<and>
     (\<forall>a < length objs. if a \<in> live then freshObject (objs ! a) else settledObject (objs ! a))"

definition entriesOf :: "pendingCommand list \<Rightarrow> (string \<times> nat) list \<Rightarrow> string \<Rightarrow> nat" where
  "entriesOf objs es c = length (filter (\<lambda>(_, a). pc_capability (objs ! a) = c) es)"

lemma entriesOf_simps [simp]:
  "entriesOf objs [] c = 0"
  "entriesOf objs ((k, a) # es) c = (if pc_capability (objs ! a) = c then 1 else 0) + entriesOf objs es c"
  by (simp_all add: entriesOf_def)

definition session_ok :: "activeSession \<Rightarrow> (string \<Rightarrow> nat) \<Rightarrow> bool" where
  "session_ok s held \<longleftrightarrow>
     keys_distinct (as_pending s) \<and> distinct (map snd (as_pending s)) \<and>
     objects_ok (as_objects s) (snd ` set (as_pending s)) \<and>
     caps_ok (as_capabilities s) (\<lambda>c. held c + entriesOf (as_objects s) (as_pending s) c) \<and>
     (as_done s \<longleftrightarrow> as_closeOnce s) \<and> (as_closeOnce s \<longleftrightarrow> as_closedErr s \<noteq> None)"

lemma caps_ok_acquire:
  assumes ok: "caps_ok (as_capabilities s) tok"
    and acq: "tryAcquireCapability c s = (True, s')"
  shows "caps_ok (as_capabilities s') (tok(normalizeCapability c := Suc (tok (normalizeCapability c))))"
    "s' = s\<lparr>as_capabilities := as_capabilities s'\<rparr>"
proof -
  let ?c = "normalizeCapability c"
  obtain st where st: "map_of (as_capabilities s) ?c = Some st"
    using acq by (auto simp: tryAcquireCapability_def Let_def split: if_splits option.splits)
  note d = caps_okD [OF ok st]
  have s': "s' = s\<lparr>as_capabilities :=
      AList.update ?c (st\<lparr>sc_inflight := sc_inflight st + 1\<rparr>) (as_capabilities s)\<rparr>"
    and lt: "sc_inflight st < sc_maxInflight st"
    using acq st d by (auto simp: tryAcquireCapability_def Let_def split: if_splits)
  show "caps_ok (as_capabilities s') (tok(?c := Suc (tok ?c)))"
    using ok d lt by (auto simp: s' caps_ok_def)
  show "s' = s\<lparr>as_capabilities := as_capabilities s'\<rparr>" by (simp add: s')
qed

lemma caps_ok_reject:
  assumes ok: "caps_ok (as_capabilities s) tok" and rej: "tryAcquireCapability c s = (False, s')"
  shows "caps_ok (as_capabilities s') tok" "s' = s\<lparr>as_capabilities := as_capabilities s'\<rparr>"
proof -
  show "caps_ok (as_capabilities s') tok"
  proof (cases "map_of (as_capabilities s) (normalizeCapability c)")
    case None
    with ok rej show ?thesis by (auto simp: tryAcquireCapability_def Let_def split: if_splits)
  next
    case (Some st)
    note d = caps_okD [OF ok Some]
    have "map_of (as_capabilities s') = map_of (as_capabilities s)"
      "keys_distinct (as_capabilities s) \<Longrightarrow> keys_distinct (as_capabilities s')"
      using rej Some d by (auto simp: tryAcquireCapability_def Let_def split: if_splits)
    with ok show ?thesis by (simp add: caps_ok_def)
  qed
  show "s' = s\<lparr>as_capabilities := as_capabilities s'\<rparr>"
    using rej by (auto simp: tryAcquireCapability_def Let_def split: if_splits option.splits)
qed

lemma caps_ok_release:
  assumes ok: "caps_ok (as_capabilities s) tok" and held: "0 < tok (normalizeCapability c)"
  shows "caps_ok (as_capabilities (releaseCapability c s))
      (tok(normalizeCapability c := tok (normalizeCapability c) - 1))"
proof -
  let ?c = "normalizeCapability c"
  obtain st where st: "map_of (as_capabilities s) ?c = Some st"
    using caps_ok_token [OF ok held] by blast
  note d = caps_okD [OF ok st]
  have "as_capabilities (releaseCapability c s) =
      AList.update ?c (st\<lparr>sc_inflight := sc_inflight st - 1\<rparr>) (as_capabilities s)"
    using st d held by (simp add: releaseCapability_def Let_def)
  with ok d held show ?thesis by (auto simp: caps_ok_def)
qed

lemma release_frame [frame_simps, simp]:
  "as_pending (releaseCapability c s) = as_pending s"
  "as_objects (releaseCapability c s) = as_objects s"
  "as_done (releaseCapability c s) = as_done s"
  "as_closeOnce (releaseCapability c s) = as_closeOnce s"
  "as_closedErr (releaseCapability c s) = as_closedErr s"
  "as_nodeID (releaseCapability c s) = as_nodeID s"
  "as_sessionID (releaseCapability c s) = as_sessionID s"
  "as_commandOutbound (releaseCapability c s) = as_commandOutbound s"
  "as_controlOutbound (releaseCapability c s) = as_controlOutbound s"
  by (simp_all add: releaseCapability_def Let_def split: option.split)

lemma closeResult_fresh:
  "freshObject p \<Longrightarrow> \<exists>p'. closeResult out p = Some p' \<and> settledObject p' \<and>
     pc_capability p' = pc_capability p \<and> pc_buffer p' = (case out of None \<Rightarrow> [] | Some r \<Rightarrow> [r])"
  by (auto simp: freshObject_def settledObject_def closeResult_def split: option.split)

text \<open>Settling one entry whose token is still counted.\<close>

lemma settle_ok:
  assumes objs: "objects_ok (as_objects s) live" and a: "a \<in> live"
    and caps: "caps_ok (as_capabilities s) tok"
    and cap: "0 < tok (pc_capability (as_objects s ! a))"
  obtains s' where "settle out a s = Some s'"
    "objects_ok (as_objects s') (live - {a})"
    "caps_ok (as_capabilities s') (tok(pc_capability (as_objects s ! a) := tok (pc_capability (as_objects s ! a)) - 1))"
    "length (as_objects s') = length (as_objects s)"
    "\<And>b. pc_capability (as_objects s' ! b) = pc_capability (as_objects s ! b)"
    "\<And>b. b \<noteq> a \<Longrightarrow> as_objects s' ! b = as_objects s ! b"
    "pc_buffer (as_objects s' ! a) = (case out of None \<Rightarrow> [] | Some r \<Rightarrow> [r])"
    "as_pending s' = as_pending s" "as_done s' = as_done s" "as_closeOnce s' = as_closeOnce s"
    "as_closedErr s' = as_closedErr s"
proof -
  have len: "a < length (as_objects s)" and fresh: "freshObject (as_objects s ! a)"
    using objs a by (auto simp: objects_ok_def)
  obtain p' where p': "closeResult out (as_objects s ! a) = Some p'" "settledObject p'"
    "pc_capability p' = pc_capability (as_objects s ! a)"
    "pc_buffer p' = (case out of None \<Rightarrow> [] | Some r \<Rightarrow> [r])"
    using closeResult_fresh [OF fresh] by blast
  let ?c = "pc_capability (as_objects s ! a)"
  have norm: "normalizeCapability ?c = ?c"
    using caps_ok_token [OF caps cap] by blast
  let ?s = "(releaseCapability ?c s)\<lparr>as_objects := (as_objects s)[a := p']\<rparr>"
  show thesis
  proof (rule that [of ?s])
    show "settle out a s = Some ?s" by (simp add: settle_def Let_def p'(1))
    show "objects_ok (as_objects ?s) (live - {a})"
      using objs a len p'(2) by (auto simp: objects_ok_def nth_list_update)
    show "caps_ok (as_capabilities ?s) (tok(?c := tok ?c - 1))"
      using caps_ok_release [OF caps, of ?c] cap norm by simp
    show "pc_capability (as_objects ?s ! b) = pc_capability (as_objects s ! b)" for b
      using p'(3) len by (cases "b = a") auto
  qed (use p'(4) len in \<open>auto\<close>)
qed

section \<open>The steps of a session\<close>

text \<open>
  What the goroutines that share a session do to it, in any order: the ghost \<open>held\<close> counts, per
  capability, the tokens that a dispatcher has acquired and not yet turned into a pending
  command or given back. A dispatcher registers under an unused command id (ids are fresh
  UUIDs). The drain of \<open>close\<close> may run at any time after \<open>close_begin\<close>.
\<close>

inductive session_step ::
  "activeSession \<times> (string \<Rightarrow> nat) \<Rightarrow> activeSession \<times> (string \<Rightarrow> nat) \<Rightarrow> bool" where
  step_acquire: "tryAcquireCapability c s = (True, s') \<Longrightarrow>
     session_step (s, held)
       (s', held(normalizeCapability c := Suc (held (normalizeCapability c))))"
| step_reject: "tryAcquireCapability c s = (False, s') \<Longrightarrow> session_step (s, held) (s', held)"
| step_snapshot: "session_step (s, held) (snd (inflightSnapshot c s), held)"
| step_release: "0 < held (normalizeCapability c) \<Longrightarrow>
     session_step (s, held)
       (releaseCapability c s, held(normalizeCapability c := held (normalizeCapability c) - 1))"
| step_register: "\<lbrakk>registerPending i c s = (Inr addr, s'); map_of (as_pending s) (trimSpace i) = None;
     0 < held (normalizeCapability c)\<rbrakk> \<Longrightarrow>
     session_step (s, held) (s', held(normalizeCapability c := held (normalizeCapability c) - 1))"
| step_unregister: "unregisterPending i s = Some s' \<Longrightarrow> session_step (s, held) (s', held)"
| step_resolve: "resolvePending wall result s = Some s' \<Longrightarrow> session_step (s, held) (s', held)"
| step_receive: "\<lbrakk>addr < length (as_objects s); receiveResult addr s = Some (r, s')\<rbrakk> \<Longrightarrow>
     session_step (s, held) (s', held)"
| step_command: "enqueueCommand pick ctx response s = Some (r, s') \<Longrightarrow> session_step (s, held) (s', held)"
| step_control: "enqueueControl pick ctx response s = Some (r, s') \<Longrightarrow> session_step (s, held) (s', held)"
| step_close: "session_step (s, held) (close_begin err s, held)"
| step_drain: "\<lbrakk>as_closeOnce s; close_drain s = Some s'\<rbrakk> \<Longrightarrow> session_step (s, held) (s', held)"

lemma entriesOf_delete:
  assumes "keys_distinct es" and "map_of es k = Some a"
  shows "entriesOf objs es c =
     (if pc_capability (objs ! a) = c then 1 else 0) + entriesOf objs (AList.delete k es) c"
  using assms
proof (induction es)
  case (Cons e es)
  obtain k' a' where e: "e = (k', a')" by (cases e)
  show ?case
  proof (cases "k' = k")
    case True
    with Cons.prems e have "AList.delete k es = es"
      by (auto simp: AList.delete_idem)
    with True Cons.prems e show ?thesis by simp
  next
    case False
    with Cons.prems e Cons.IH show ?thesis by simp
  qed
qed simp

lemma entriesOf_cong:
  "(\<And>k a. (k, a) \<in> set es \<Longrightarrow> pc_capability (objs' ! a) = pc_capability (objs ! a)) \<Longrightarrow>
     entriesOf objs' es c = entriesOf objs es c"
  unfolding entriesOf_def by (rule arg_cong [where f = length], rule filter_cong) auto

lemma snd_delete:
  assumes "keys_distinct es" and "distinct (map snd es)" and "map_of es k = Some a"
  shows "snd ` set (AList.delete k es) = snd ` set es - {a}"
  using assms
proof (induction es)
  case (Cons e es)
  obtain k' a' where e: "e = (k', a')" by (cases e)
  show ?case
  proof (cases "k' = k")
    case True
    with Cons.prems e have "AList.delete k es = es" by (auto simp: AList.delete_idem)
    with True Cons.prems e show ?thesis by auto
  next
    case False
    with Cons.prems e have "a \<in> snd ` set es" by (force dest: map_of_SomeD)
    with False Cons.prems e Cons.IH show ?thesis by auto
  qed
qed simp

lemma distinct_snd_delete: "distinct (map snd es) \<Longrightarrow> distinct (map snd (AList.delete k es))"
  by (simp add: AList.delete_eq distinct_map_filter)

text \<open>Taking a pending entry out of the table and settling it.\<close>

lemma take_settle_ok:
  assumes ok: "session_ok s held" and look: "map_of (as_pending s) k = Some a"
  obtains s' where "settle out a (s\<lparr>as_pending := AList.delete k (as_pending s)\<rparr>) = Some s'"
    "session_ok s' held" "as_pending s' = AList.delete k (as_pending s)"
    "pc_buffer (as_objects s' ! a) = (case out of None \<Rightarrow> [] | Some r \<Rightarrow> [r])"
    "pc_closed (as_objects s' ! a)"
proof -
  let ?s = "s\<lparr>as_pending := AList.delete k (as_pending s)\<rparr>"
  let ?c = "pc_capability (as_objects s ! a)"
  let ?tok = "\<lambda>c. held c + entriesOf (as_objects s) (as_pending s) c"
  have kd: "keys_distinct (as_pending s)" "distinct (map snd (as_pending s))"
    and objs: "objects_ok (as_objects ?s) (snd ` set (as_pending s))"
    and caps: "caps_ok (as_capabilities ?s) ?tok"
    using ok by (auto simp: session_ok_def)
  have a: "a \<in> snd ` set (as_pending s)" using look by (force dest: map_of_SomeD)
  note del = entriesOf_delete [OF kd(1) look, of "as_objects s"]
  have pos: "0 < ?tok (pc_capability (as_objects ?s ! a))" by (simp add: del)
  obtain s' where s': "settle out a ?s = Some s'"
    "objects_ok (as_objects s') (snd ` set (as_pending s) - {a})"
    "caps_ok (as_capabilities s') (?tok(?c := ?tok ?c - 1))"
    "length (as_objects s') = length (as_objects s)"
    "\<And>b. pc_capability (as_objects s' ! b) = pc_capability (as_objects s ! b)"
    "pc_buffer (as_objects s' ! a) = (case out of None \<Rightarrow> [] | Some r \<Rightarrow> [r])"
    "as_pending s' = AList.delete k (as_pending s)" "as_done s' = as_done s" "as_closeOnce s' = as_closeOnce s"
    "as_closedErr s' = as_closedErr s"
    by (rule settle_ok [OF objs a caps pos, of out]) simp
  have tok: "?tok(?c := ?tok ?c - 1) =
      (\<lambda>c. held c + entriesOf (as_objects s') (as_pending s') c)"
    using entriesOf_cong [of "as_pending s'" "as_objects s'" "as_objects s"] s'(5)
    by (auto simp: fun_eq_iff del s'(7))
  have "a < length (as_objects s')"
    using objs a s'(4) by (auto simp: objects_ok_def)
  with s'(2) have cl: "pc_closed (as_objects s' ! a)" by (auto simp: objects_ok_def settledObject_def)
  have "objects_ok (as_objects s') (snd ` set (as_pending s'))"
    using s'(2) snd_delete [OF kd look] by (simp only: s'(7))
  moreover have "caps_ok (as_capabilities s') (\<lambda>c. held c + entriesOf (as_objects s') (as_pending s') c)"
    using s'(3) by (simp only: tok)
  moreover have "keys_distinct (as_pending s')" "distinct (map snd (as_pending s'))"
    using kd by (simp_all add: s'(7) distinct_snd_delete)
  ultimately have "session_ok s' held"
    using ok by (simp add: session_ok_def s'(8,9,10))
  from that [OF s'(1) this s'(7,6) cl] show thesis .
qed

text \<open>The drain settles every entry of the table it took.\<close>

lemma drain_fold_ok:
  assumes "objects_ok (as_objects s) (snd ` set es)" and "distinct (map snd es)"
    and "caps_ok (as_capabilities s) (\<lambda>c. held c + entriesOf (as_objects s) es c)"
  obtains s' where
    "fold (\<lambda>(_, addr) acc. case acc of None \<Rightarrow> None
       | Some s \<Rightarrow> settle (Some (emptyOutcome\<lparr>co_err := as_closedErr s\<rparr>)) addr s) es (Some s) = Some s'"
    "objects_ok (as_objects s') {}" "caps_ok (as_capabilities s') held"
    "length (as_objects s') = length (as_objects s)"
    "\<And>a. a \<in> snd ` set es \<Longrightarrow>
       pc_buffer (as_objects s' ! a) = [emptyOutcome\<lparr>co_err := as_closedErr s\<rparr>]"
    "\<And>a. a \<notin> snd ` set es \<Longrightarrow> as_objects s' ! a = as_objects s ! a"
    "as_pending s' = as_pending s" "as_done s' = as_done s" "as_closeOnce s' = as_closeOnce s"
    "as_closedErr s' = as_closedErr s"
  using assms
proof (induction es arbitrary: s thesis)
  case Nil
  show ?case by (rule Nil.prems(1) [of s]) (use Nil.prems(2,4) in auto)
next
  case (Cons e es)
  obtain k a where e: "e = (k, a)" by (cases e)
  let ?c = "pc_capability (as_objects s ! a)"
  let ?tok = "\<lambda>c. held c + entriesOf (as_objects s) (e # es) c"
  let ?out = "emptyOutcome\<lparr>co_err := as_closedErr s\<rparr>"
  have a: "a \<in> snd ` set (e # es)" and pos: "0 < ?tok ?c" by (simp_all add: e)
  obtain s1 where s1: "settle (Some ?out) a s = Some s1"
    "objects_ok (as_objects s1) (snd ` set (e # es) - {a})"
    "caps_ok (as_capabilities s1) (?tok(?c := ?tok ?c - 1))"
    "length (as_objects s1) = length (as_objects s)"
    "\<And>b. pc_capability (as_objects s1 ! b) = pc_capability (as_objects s ! b)"
    "\<And>b. b \<noteq> a \<Longrightarrow> as_objects s1 ! b = as_objects s ! b"
    "pc_buffer (as_objects s1 ! a) = [?out]"
    "as_pending s1 = as_pending s" "as_done s1 = as_done s" "as_closeOnce s1 = as_closeOnce s"
    "as_closedErr s1 = as_closedErr s"
    by (rule settle_ok [OF Cons.prems(2) a Cons.prems(4) pos, of "Some ?out"]) auto
  have notin: "a \<notin> snd ` set es" and dist: "distinct (map snd es)"
    using Cons.prems(3) by (auto simp: e)
  have live: "snd ` set (e # es) - {a} = snd ` set es" using notin by (auto simp: e)
  have tok: "?tok(?c := ?tok ?c - 1) = (\<lambda>c. held c + entriesOf (as_objects s1) es c)"
    using entriesOf_cong [of es "as_objects s1" "as_objects s"] s1(5) by (auto simp: fun_eq_iff e)
  show ?case
  proof (rule Cons.IH [OF _ _ dist])
    show "objects_ok (as_objects s1) (snd ` set es)" using s1(2) live by simp
    show "caps_ok (as_capabilities s1) (\<lambda>c. held c + entriesOf (as_objects s1) es c)"
      using s1(3) tok by simp
  next
    fix s'
    assume s': "fold (\<lambda>(_, addr) acc. case acc of None \<Rightarrow> None
         | Some s \<Rightarrow> settle (Some (emptyOutcome\<lparr>co_err := as_closedErr s\<rparr>)) addr s) es (Some s1) = Some s'"
      "objects_ok (as_objects s') {}" "caps_ok (as_capabilities s') held"
      "length (as_objects s') = length (as_objects s1)"
      "\<And>a. a \<in> snd ` set es \<Longrightarrow>
         pc_buffer (as_objects s' ! a) = [emptyOutcome\<lparr>co_err := as_closedErr s1\<rparr>]"
      "\<And>a. a \<notin> snd ` set es \<Longrightarrow> as_objects s' ! a = as_objects s1 ! a"
      "as_pending s' = as_pending s1" "as_done s' = as_done s1" "as_closeOnce s' = as_closeOnce s1"
      "as_closedErr s' = as_closedErr s1"
    show ?case
    proof (rule Cons.prems(1) [of s'])
      show "pc_buffer (as_objects s' ! b) = [?out]" if "b \<in> snd ` set (e # es)" for b
        using that s'(5) [of b] s'(6) [OF notin] s1(7,11) by (auto simp: e)
      show "as_objects s' ! b = as_objects s ! b" if "b \<notin> snd ` set (e # es)" for b
        using that s'(6) [of b] s1(6) [of b] by (auto simp: e)
    qed (use s' s1 e in auto)
  qed
qed

lemma close_drain_ok:
  assumes ok: "session_ok s held"
  obtains s' where "close_drain s = Some s'" "session_ok s' held" "as_pending s' = []"
    "\<forall>k a. (k, a) \<in> set (as_pending s) \<longrightarrow>
       receiveResult a s' = Some (Some (emptyOutcome\<lparr>co_err := as_closedErr s\<rparr>),
         s'\<lparr>as_objects := (as_objects s')[a := (as_objects s' ! a)\<lparr>pc_buffer := []\<rparr>]\<rparr>)"
    "\<forall>a < length (as_objects s'). pc_closed (as_objects s' ! a)"
    "as_closedErr s' = as_closedErr s"
    "length (as_objects s') = length (as_objects s)"
proof -
  let ?s = "s\<lparr>as_pending := []\<rparr>"
  have pre: "objects_ok (as_objects ?s) (snd ` set (as_pending s))" "distinct (map snd (as_pending s))"
    "caps_ok (as_capabilities ?s) (\<lambda>c. held c + entriesOf (as_objects ?s) (as_pending s) c)"
    using ok by (simp_all add: session_ok_def)
  obtain s' where s': "close_drain s = Some s'"
    "objects_ok (as_objects s') {}" "caps_ok (as_capabilities s') held"
    "\<And>a. a \<in> snd ` set (as_pending s) \<Longrightarrow>
       pc_buffer (as_objects s' ! a) = [emptyOutcome\<lparr>co_err := as_closedErr s\<rparr>]"
    "as_pending s' = []" "as_done s' = as_done s" "as_closeOnce s' = as_closeOnce s"
    "as_closedErr s' = as_closedErr s" "length (as_objects s') = length (as_objects s)"
    by (rule drain_fold_ok [OF pre]) (simp add: close_drain_def)
  have done': "session_ok s' held"
    using ok s' by (simp add: session_ok_def)
  have "receiveResult a s' = Some (Some (emptyOutcome\<lparr>co_err := as_closedErr s\<rparr>),
         s'\<lparr>as_objects := (as_objects s')[a := (as_objects s' ! a)\<lparr>pc_buffer := []\<rparr>]\<rparr>)"
    if "(k, a) \<in> set (as_pending s)" for k a
  proof -
    have "a \<in> snd ` set (as_pending s)" using that by force
    from s'(4) [OF this] show ?thesis by (simp add: receiveResult_def Let_def)
  qed
  moreover have "\<forall>a < length (as_objects s'). pc_closed (as_objects s' ! a)"
    using s'(2) by (simp add: objects_ok_def settledObject_def)
  ultimately show thesis using that s'(1,5,8,9) done' by blast
qed

lemma unregister_ok:
  assumes "session_ok s held"
  obtains s' where "unregisterPending i s = Some s'" "session_ok s' held"
proof (cases "trimSpace i = [] \<or> map_of (as_pending s) (trimSpace i) = None")
  case True
  then have "unregisterPending i s = Some s" by (auto simp: unregisterPending_def Let_def)
  with assms that show thesis by blast
next
  case False
  then obtain a where a: "map_of (as_pending s) (trimSpace i) = Some a" by blast
  obtain s' where "settle None a (s\<lparr>as_pending := AList.delete (trimSpace i) (as_pending s)\<rparr>) = Some s'"
    "session_ok s' held"
    by (rule take_settle_ok [OF assms a])
  with a False that show thesis by (simp add: unregisterPending_def Let_def)
qed

lemma resolve_ok:
  assumes "session_ok s held"
  obtains s' where "resolvePending wall result s = Some s'" "session_ok s' held"
proof (cases result)
  case None
  with assms that show thesis by (simp add: resolvePending_def)
next
  case (Some r)
  show thesis
  proof (cases "trimSpace (cr_commandId r) = [] \<or> map_of (as_pending s) (trimSpace (cr_commandId r)) = None")
    case True
    with Some have "resolvePending wall result s = Some s" by (auto simp: resolvePending_def Let_def)
    with assms that show thesis by blast
  next
    case False
    then obtain a where a: "map_of (as_pending s) (trimSpace (cr_commandId r)) = Some a" by blast
    obtain s' where "settle (Some (outcomeOfResult wall r)) a
        (s\<lparr>as_pending := AList.delete (trimSpace (cr_commandId r)) (as_pending s)\<rparr>) = Some s'"
      "session_ok s' held"
      by (rule take_settle_ok [OF assms a])
    with a False Some that show thesis by (simp add: resolvePending_def Let_def)
  qed
qed

lemma inflightSnapshot_ok:
  assumes "caps_ok (as_capabilities s) tok"
  shows "snd (inflightSnapshot c s) = s"
  using caps_okD(3) [OF assms] by (fastforce simp: inflightSnapshot_def Let_def split: option.split)

lemma register_ok:
  assumes ok: "session_ok s held" and reg: "registerPending i c s = (Inr addr, s')"
    and fresh: "map_of (as_pending s) (trimSpace i) = None"
    and held: "0 < held (normalizeCapability c)"
  shows "session_ok s' (held(normalizeCapability c := held (normalizeCapability c) - 1))"
proof -
  let ?c = "normalizeCapability c"
  let ?p = "\<lparr>pc_buffer = [], pc_closed = False, pc_once = False, pc_capability = ?c\<rparr>"
  have addr: "addr = length (as_objects s)"
    and s': "s' = s\<lparr>as_objects := as_objects s @ [?p], as_pending := AList.update (trimSpace i) addr (as_pending s)\<rparr>"
    using reg by (auto simp: registerPending_def Let_def split: if_splits)
  have up: "AList.update (trimSpace i) (length (as_objects s)) (as_pending s) =
      as_pending s @ [(trimSpace i, length (as_objects s))]"
    using fresh by (rule put_fresh)
  have bound: "a < length (as_objects s)" if "(k, a) \<in> set (as_pending s)" for k a
    using ok that by (force simp: session_ok_def objects_ok_def)
  have ent: "entriesOf (as_objects s @ [?p]) (as_pending s) d = entriesOf (as_objects s) (as_pending s) d" for d
    by (rule entriesOf_cong) (auto dest: bound simp: nth_append)
  have ent2: "entriesOf objs (es @ [(k, a)]) d = entriesOf objs es d + (if pc_capability (objs ! a) = d then 1 else 0)"
    for objs es k a d by (simp add: entriesOf_def)
  have tok: "(\<lambda>d. (held(?c := held ?c - 1)) d + entriesOf (as_objects s') (as_pending s') d) =
      (\<lambda>d. held d + entriesOf (as_objects s) (as_pending s) d)"
    using held by (auto simp: fun_eq_iff s' up ent2 ent addr)
  have "caps_ok (as_capabilities s') (\<lambda>d. (held(?c := held ?c - 1)) d + entriesOf (as_objects s') (as_pending s') d)"
    unfolding tok using ok by (simp add: session_ok_def s')
  moreover have "objects_ok (as_objects s') (snd ` set (as_pending s'))"
    unfolding objects_ok_def
  proof (intro conjI allI impI)
    show "snd ` set (as_pending s') \<subseteq> {..<length (as_objects s')}"
      using bound by (force simp: s' addr up)
  next
    fix a assume a: "a < length (as_objects s')"
    show "if a \<in> snd ` set (as_pending s') then freshObject (as_objects s' ! a)
          else settledObject (as_objects s' ! a)"
    proof (cases "a = length (as_objects s)")
      case True
      then show ?thesis by (simp add: s' addr up freshObject_def)
    next
      case False
      with a ok show ?thesis
        by (simp add: session_ok_def objects_ok_def s' addr up nth_append)
    qed
  qed
  moreover have "length (as_objects s) \<notin> snd ` set (as_pending s)"
    using bound by fastforce
  then have "distinct (map snd (as_pending s'))"
    using ok by (simp add: session_ok_def s' addr up)
  ultimately show ?thesis
    using ok by (simp add: session_ok_def s')
qed

lemma receive_ok:
  assumes ok: "session_ok s held" and rcv: "receiveResult a s = Some (r, s')"
    and a: "a < length (as_objects s)"
  shows "session_ok s' held"
proof (cases "pc_buffer (as_objects s ! a)")
  case Nil
  with ok rcv show ?thesis by (simp add: receiveResult_def Let_def split: if_splits)
next
  case (Cons out rest)
  let ?p = "(as_objects s ! a)\<lparr>pc_buffer := rest\<rparr>"
  have s': "s' = s\<lparr>as_objects := (as_objects s)[a := ?p]\<rparr>"
    using rcv Cons by (auto simp: receiveResult_def Let_def)
  have "entriesOf (as_objects s') (as_pending s') c = entriesOf (as_objects s) (as_pending s) c" for c
    using a by (auto simp: s' nth_list_update intro: entriesOf_cong)
  moreover have "a \<notin> snd ` set (as_pending s)" "settledObject (as_objects s ! a)"
    using ok a Cons by (auto simp: session_ok_def objects_ok_def freshObject_def split: if_splits)
  then have "objects_ok (as_objects s') (snd ` set (as_pending s'))"
    using ok a Cons by (auto simp: s' session_ok_def objects_ok_def nth_list_update settledObject_def)
  ultimately show ?thesis
    using ok by (simp add: session_ok_def s')
qed

lemma session_ok_acquire:
  assumes ok: "session_ok s held" and acq: "tryAcquireCapability c s = (True, s')"
  shows "session_ok s' (held(normalizeCapability c := Suc (held (normalizeCapability c))))"
proof -
  let ?c = "normalizeCapability c"
  let ?tok = "\<lambda>c. held c + entriesOf (as_objects s) (as_pending s) c"
  have "caps_ok (as_capabilities s) ?tok" using ok by (simp add: session_ok_def)
  note acq' = caps_ok_acquire [OF this acq]
  have frame: "as_pending s' = as_pending s" "as_objects s' = as_objects s" "as_done s' = as_done s"
    "as_closeOnce s' = as_closeOnce s" "as_closedErr s' = as_closedErr s"
    by (subst acq'(2), simp)+
  have "?tok(?c := Suc (?tok ?c)) =
      (\<lambda>d. (held(?c := Suc (held ?c))) d + entriesOf (as_objects s') (as_pending s') d)"
    by (auto simp: fun_eq_iff frame)
  with acq'(1) ok show ?thesis by (simp only: session_ok_def frame)
qed

lemma session_ok_reject:
  assumes ok: "session_ok s held" and rej: "tryAcquireCapability c s = (False, s')"
  shows "session_ok s' held"
proof -
  let ?tok = "\<lambda>c. held c + entriesOf (as_objects s) (as_pending s) c"
  have "caps_ok (as_capabilities s) ?tok" using ok by (simp add: session_ok_def)
  note rej' = caps_ok_reject [OF this rej]
  have frame: "as_pending s' = as_pending s" "as_objects s' = as_objects s" "as_done s' = as_done s"
    "as_closeOnce s' = as_closeOnce s" "as_closedErr s' = as_closedErr s"
    by (subst rej'(2), simp)+
  from rej'(1) ok show ?thesis by (simp only: session_ok_def frame)
qed

lemma session_ok_release:
  assumes ok: "session_ok s held" and pos: "0 < held (normalizeCapability c)"
  shows "session_ok (releaseCapability c s)
    (held(normalizeCapability c := held (normalizeCapability c) - 1))"
proof -
  let ?c = "normalizeCapability c"
  let ?tok = "\<lambda>c. held c + entriesOf (as_objects s) (as_pending s) c"
  have "caps_ok (as_capabilities s) ?tok" using ok by (simp add: session_ok_def)
  from caps_ok_release [OF this, of c] pos
  have "caps_ok (as_capabilities (releaseCapability c s)) (?tok(?c := ?tok ?c - 1))" by simp
  moreover have "?tok(?c := ?tok ?c - 1) =
      (\<lambda>d. (held(?c := held ?c - 1)) d + entriesOf (as_objects s) (as_pending s) d)"
    using pos by (auto simp: fun_eq_iff)
  ultimately show ?thesis using ok by (simp only: session_ok_def release_frame)
qed

lemma session_ok_enqueue [inv_intros]:
  "session_ok s held \<Longrightarrow> enqueueCommand pick ctx resp s = Some (r, s') \<Longrightarrow> session_ok s' held"
  "session_ok s held \<Longrightarrow> enqueueControl pick ctx resp s = Some (r, s') \<Longrightarrow> session_ok s' held"
  by (auto simp: enqueueCommand_def enqueueControl_def session_ok_def)

lemma session_ok_close [inv_intros]: "session_ok s held \<Longrightarrow> session_ok (close_begin err s) held"
  by (simp add: close_begin_def session_ok_def)

lemma caps_ok_declare:
  assumes "caps_ok m (\<lambda>_. 0)" and "name \<noteq> []" "normalizeCapability name = name" "0 < k"
  shows "caps_ok (AList.update name \<lparr>sc_maxInflight = k, sc_inflight = 0\<rparr> m) (\<lambda>_. 0)"
  using assms by (auto simp: caps_ok_def)

lemma caps_ok_hello: "caps_ok (capabilitiesFromHello hello) (\<lambda>_. 0)"
proof (cases hello)
  case None
  then show ?thesis by (simp add: capabilitiesFromHello_def caps_ok_def)
next
  case (Some h)
  let ?f = "\<lambda>capability capabilitySet. case capability of None \<Rightarrow> capabilitySet
        | Some c \<Rightarrow> let name = normalizeCapability (cap_name c)
            in if name = [] then capabilitySet
               else AList.update name
                 \<lparr>sc_maxInflight = (if cap_maxInflight c \<le> 0 then defaultCapabilityMaxInflight
                                    else cap_maxInflight c), sc_inflight = 0\<rparr> capabilitySet"
  have step: "caps_ok (?f c m) (\<lambda>_. 0)" if "caps_ok m (\<lambda>_. 0)" for c m
    using that by (auto simp: Let_def defaultCapabilityMaxInflight_def caps_ok_declare split: option.split)
  have "caps_ok (fold ?f cs m) (\<lambda>_. 0)" if "caps_ok m (\<lambda>_. 0)" for cs m
    using that by (induction cs arbitrary: m) (simp_all add: step del: option.case)
  from this [of "[]"] Some show ?thesis by (simp add: capabilitiesFromHello_def caps_ok_def)
qed

lemma session_ok_new [simp, intro]: "session_ok (newActiveSession n i hello) (\<lambda>_. 0)"
  using caps_ok_hello [of hello] by (simp add: session_ok_def newActiveSession_def objects_ok_def)

lemma session_step_ok:
  assumes "session_step a b" and "session_ok (fst a) (snd a)"
  shows "session_ok (fst b) (snd b)"
  using assms
proof (induction rule: session_step.induct)
  case (step_acquire c s s' held)
  then show ?case unfolding fst_conv snd_conv by (intro session_ok_acquire)
next
  case (step_release held c s)
  then show ?case unfolding fst_conv snd_conv by (intro session_ok_release)
next
  case (step_register i c s addr s' held)
  then show ?case unfolding fst_conv snd_conv by (intro register_ok)
next
  case (step_snapshot s held c)
  then have "caps_ok (as_capabilities s) (\<lambda>c. held c + entriesOf (as_objects s) (as_pending s) c)"
    by (simp add: session_ok_def)
  from inflightSnapshot_ok [OF this, of c] step_snapshot show ?case by simp
next
  case (step_unregister i s s' held)
  then show ?case using unregister_ok [of s held i] by auto
next
  case (step_resolve wall result s s' held)
  then show ?case using resolve_ok [of s held wall result] by auto
next
  case (step_drain s s' held)
  then show ?case using close_drain_ok [of s held] by auto
qed (auto intro: session_ok_reject receive_ok inv_intros)

lemma session_steps_ok:
  assumes "session_step\<^sup>*\<^sup>* (s, held) (s', held')" and "session_ok s held"
  shows "session_ok s' held'"
  using assms(1)
  by (induction rule: rtranclp_induct2) (use assms(2) session_step_ok in auto)

section \<open>A capability's slots as a capacity pool\<close>

text \<open>What the dispatcher relies on when it places commands: a slot is granted exactly while the
  pool is below its limit, and giving a slot back undoes taking it.\<close>

locale capacity_pool =
  fixes ok :: "'s \<Rightarrow> bool"
    and used :: "'s \<Rightarrow> int"
    and limit :: "'s \<Rightarrow> int"
    and acquire :: "'s \<Rightarrow> bool \<times> 's"
    and release :: "'s \<Rightarrow> 's"
  assumes used_range: "ok s \<Longrightarrow> 0 \<le> used s \<and> used s \<le> limit s"
    and acquire_law: "ok s \<Longrightarrow>
        ok (snd (acquire s)) \<and> fst (acquire s) = (used s < limit s) \<and>
        used (snd (acquire s)) = (if used s < limit s then used s + 1 else used s) \<and>
        limit (snd (acquire s)) = limit s"
    and release_law: "ok s \<Longrightarrow>
        ok (release s) \<and> used (release s) = (if 0 < used s then used s - 1 else 0) \<and>
        limit (release s) = limit s"
begin

definition acquires :: "nat \<Rightarrow> 's \<Rightarrow> nat \<times> 's" where
  "acquires n s = ((\<lambda>(k, s). (if fst (acquire s) then Suc k else k, snd (acquire s))) ^^ n) (0, s)"

lemma acquires_Suc:
  "acquires (Suc n) s =
     (case acquires n s of (k, s') \<Rightarrow> (if fst (acquire s') then Suc k else k, snd (acquire s')))"
  by (simp add: acquires_def)

text \<open>Of \<open>n\<close> attempts exactly as many succeed as there are free slots.\<close>

lemma acquires_grants:
  assumes "ok s"
  shows "ok (snd (acquires n s)) \<and>
    int (fst (acquires n s)) = min (int n) (limit s - used s) \<and>
    used (snd (acquires n s)) = used s + int (fst (acquires n s)) \<and>
    limit (snd (acquires n s)) = limit s"
proof (induction n)
  case 0
  with used_range [OF assms] assms show ?case by (simp add: acquires_def)
next
  case (Suc n)
  with acquire_law [of "snd (acquires n s)"] show ?case
    by (auto simp: acquires_Suc split_beta)
qed

lemma release_undoes_acquire:
  assumes "ok s" and "fst (acquire s)"
  shows "used (release (snd (acquire s))) = used s"
  using acquire_law [OF assms(1)] release_law [of "snd (acquire s)"] used_range [OF assms(1)] assms(2)
  by auto

end

definition inflightOf :: "string \<Rightarrow> activeSession \<Rightarrow> int" where
  "inflightOf c s = (case map_of (as_capabilities s) (normalizeCapability c) of
     None \<Rightarrow> 0 | Some st \<Rightarrow> sc_inflight st)"

definition maxInflightOf :: "string \<Rightarrow> activeSession \<Rightarrow> int" where
  "maxInflightOf c s = (case map_of (as_capabilities s) (normalizeCapability c) of
     None \<Rightarrow> 0 | Some st \<Rightarrow> sc_maxInflight st)"

definition slots_ok :: "string \<Rightarrow> activeSession \<Rightarrow> bool" where
  "slots_ok c s \<longleftrightarrow> normalizeCapability c \<noteq> [] \<and>
     (case map_of (as_capabilities s) (normalizeCapability c) of None \<Rightarrow> False
      | Some st \<Rightarrow> 0 < sc_maxInflight st \<and> 0 \<le> sc_inflight st \<and> sc_inflight st \<le> sc_maxInflight st)"

interpretation slots: capacity_pool "slots_ok c" "inflightOf c" "maxInflightOf c"
  "tryAcquireCapability c" "releaseCapability c" for c
  by unfold_locales
    (auto simp: slots_ok_def inflightOf_def maxInflightOf_def tryAcquireCapability_def
      releaseCapability_def Let_def split: option.splits)

lemma session_ok_slots:
  assumes "session_ok s held" and "hasCapability c s"
  shows "slots_ok c s"
proof -
  obtain st where st: "map_of (as_capabilities s) (normalizeCapability c) = Some st"
    "normalizeCapability c \<noteq> []"
    using assms(2) by (auto simp: hasCapability_def Let_def split: if_splits)
  have "caps_ok (as_capabilities s) (\<lambda>c. held c + entriesOf (as_objects s) (as_pending s) c)"
    using assms(1) by (simp add: session_ok_def)
  from caps_okD [OF this st(1)] st show ?thesis by (simp add: slots_ok_def)
qed

section \<open>Properties\<close>

lemma try_frame [frame_simps]:
  "as_pending (snd (tryAcquireCapability c s)) = as_pending s"
  "as_objects (snd (tryAcquireCapability c s)) = as_objects s"
  "as_done (snd (tryAcquireCapability c s)) = as_done s"
  "as_closeOnce (snd (tryAcquireCapability c s)) = as_closeOnce s"
  "as_closedErr (snd (tryAcquireCapability c s)) = as_closedErr s"
  "as_nodeID (snd (tryAcquireCapability c s)) = as_nodeID s"
  "as_sessionID (snd (tryAcquireCapability c s)) = as_sessionID s"
  by (simp_all add: tryAcquireCapability_def Let_def split: option.split)

lemma done_stays:
  "session_step a b \<Longrightarrow> as_closeOnce (fst a) \<Longrightarrow> session_ok (fst a) (snd a) \<Longrightarrow>
     as_closeOnce (fst b) \<and> as_closedErr (fst b) = as_closedErr (fst a) \<and>
     set (as_pending (fst b)) \<subseteq> set (as_pending (fst a))"
proof (induction rule: session_step.induct)
  case (step_acquire c s s' held)
  with try_frame [of c s] show ?case by simp
next
  case (step_reject c s s' held)
  with try_frame [of c s] show ?case by simp
next
  case (step_snapshot s held c)
  then have "caps_ok (as_capabilities s) (\<lambda>c. held c + entriesOf (as_objects s) (as_pending s) c)"
    by (simp add: session_ok_def)
  from inflightSnapshot_ok [OF this, of c] step_snapshot show ?case by simp
next
  case (step_register i c s addr s' held)
  then show ?case by (simp add: registerPending_def session_ok_def Let_def split: if_splits)
next
  case (step_unregister i s s' held)
  then show ?case by (auto simp: unregisterPending_def settle_def Let_def set_del split: if_splits option.splits)
next
  case (step_resolve wall result s s' held)
  then show ?case by (auto simp: resolvePending_def settle_def Let_def set_del split: if_splits option.splits)
next
  case (step_receive addr s r s' held)
  then show ?case by (auto simp: receiveResult_def Let_def split: list.splits if_splits)
next
  case (step_drain s s' held)
  then have "session_ok s held" by simp
  obtain s1 where "close_drain s = Some s1" "session_ok s1 held" "as_pending s1 = []"
    "as_closedErr s1 = as_closedErr s"
    by (rule close_drain_ok [OF \<open>session_ok s held\<close>])
  with step_drain show ?case by (simp add: session_ok_def)
next
  case (step_command pick ctx response s r s' held)
  then show ?case by (clarsimp simp: enqueueCommand_def)
next
  case (step_control pick ctx response s r s' held)
  then show ?case by (clarsimp simp: enqueueControl_def)
qed (simp_all add: close_begin_def)

lemma done_stays_steps:
  assumes "session_step\<^sup>*\<^sup>* a b" and "as_closeOnce (fst a)" and "session_ok (fst a) (snd a)"
  shows "as_closeOnce (fst b) \<and> as_closedErr (fst b) = as_closedErr (fst a) \<and>
     set (as_pending (fst b)) \<subseteq> set (as_pending (fst a)) \<and> session_ok (fst b) (snd b)"
  using assms(1)
proof (induction rule: rtranclp_induct)
  case base
  with assms(2,3) show ?case by simp
next
  case (step b c)
  from done_stays [OF step.hyps(2)] session_step_ok [OF step.hyps(2)] step.IH show ?case by auto
qed

text \<open>C4: At every moment of a session's life, whatever the goroutines that share it have done, the in-flight counter of each
  declared capability equals the number of slots held by dispatchers plus the pending commands
  of that capability, and it never exceeds the declared limit.\<close>

theorem session_accounting:
  assumes "session_step\<^sup>*\<^sup>* (newActiveSession n i hello, \<lambda>_. 0) (s, held)"
    and "map_of (as_capabilities s) c = Some st"
  shows "sc_inflight st = int (held c + entriesOf (as_objects s) (as_pending s) c) \<and>
    sc_inflight st \<le> sc_maxInflight st"
proof -
  have "session_ok s held" by (rule session_steps_ok [OF assms(1)]) simp
  then have "caps_ok (as_capabilities s) (\<lambda>c. held c + entriesOf (as_objects s) (as_pending s) c)"
    by (simp add: session_ok_def)
  from caps_okD [OF this assms(2)] show ?thesis by simp
qed

definition demoHello :: connectHello where
  "demoHello = \<lparr>ch_nodeId = ''n1'', ch_nodeName = ''n'', ch_executorKind = ''docker'', ch_labels = [],
     ch_version = ''1'', ch_capabilities = [Some \<lparr>cap_name = ''Echo'', cap_maxInflight = 2\<rparr>],
     ch_workerSecret = ''s''\<rparr>"

definition demoAcquired :: activeSession where
  "demoAcquired = snd (tryAcquireCapability ''echo'' (newActiveSession ''n1'' ''s1'' (Some demoHello)))"

definition demoPending :: activeSession where
  "demoPending = snd (registerPending ''c1'' ''echo'' demoAcquired)"

lemma demo_steps:
  "session_step\<^sup>*\<^sup>* (newActiveSession ''n1'' ''s1'' (Some demoHello), \<lambda>_. 0) (demoPending, \<lambda>_. 0)"
proof -
  have norm: "normalizeCapability ''echo'' = ''echo''" by code_simp
  have acq: "tryAcquireCapability ''echo'' (newActiveSession ''n1'' ''s1'' (Some demoHello)) = (True, demoAcquired)"
    by code_simp
  have reg: "registerPending ''c1'' ''echo'' demoAcquired = (Inr 0, demoPending)" by code_simp
  have fresh: "map_of (as_pending demoAcquired) (trimSpace ''c1'') = None" by code_simp
  have "session_step (newActiveSession ''n1'' ''s1'' (Some demoHello), \<lambda>_. 0)
      (demoAcquired, (\<lambda>_. 0)(''echo'' := 1))"
    using step_acquire [OF acq, of "\<lambda>_. 0"] by (simp add: norm)
  moreover have "session_step (demoAcquired, (\<lambda>_. 0)(''echo'' := 1))
      (demoPending, ((\<lambda>_. 0)(''echo'' := 1))(''echo'' := 0))"
    using step_register [OF reg fresh, of "(\<lambda>_. 0)(''echo'' := 1)"] by (simp add: norm)
  moreover have "((\<lambda>_. 0::nat)(''echo'' := 1))(''echo'' := 0) = (\<lambda>_. 0)" by auto
  ultimately show ?thesis
    by (auto intro: rtranclp.rtrancl_into_rtrancl simp del: fun_upd_apply fun_upd_upd)
qed

theorem session_accounting_witness:
  "map_of (as_capabilities demoPending) ''echo'' = Some \<lparr>sc_maxInflight = 2, sc_inflight = 1\<rparr> \<and>
   (1::int) = int (0 + entriesOf (as_objects demoPending) (as_pending demoPending) ''echo'')"
proof
  show st: "map_of (as_capabilities demoPending) ''echo'' = Some \<lparr>sc_maxInflight = 2, sc_inflight = 1\<rparr>"
    by code_simp
  from session_accounting [OF demo_steps st]
  show "(1::int) = int (0 + entriesOf (as_objects demoPending) (as_pending demoPending) ''echo'')"
    by simp
qed

text \<open>C5: No interleaving of a session's operations panics: an in-flight command can always be
  unregistered or resolved and the session can always be drained, without a send on a closed
  channel or a channel closed twice.\<close>

theorem session_never_panics:
  assumes "session_step\<^sup>*\<^sup>* (newActiveSession n i hello, \<lambda>_. 0) (s, held)"
  shows "unregisterPending cid s \<noteq> None \<and> resolvePending wall result s \<noteq> None \<and>
    close_drain (close_begin err s) \<noteq> None \<and> closeSession err s \<noteq> None"
proof -
  have ok: "session_ok s held" by (rule session_steps_ok [OF assms]) simp
  obtain s1 where "close_drain (close_begin err s) = Some s1"
    by (rule close_drain_ok [OF session_ok_close [OF ok]])
  moreover obtain s2 where "unregisterPending cid s = Some s2"
    by (rule unregister_ok [OF ok])
  moreover obtain s3 where "resolvePending wall result s = Some s3"
    by (rule resolve_ok [OF ok])
  ultimately show ?thesis by (simp add: closeSession_def)
qed

theorem session_never_panics_witness:
  "unregisterPending ''c1'' demoPending \<noteq> None \<and> resolvePending 0 None demoPending \<noteq> None"
  using session_never_panics [OF demo_steps, of "''c1''" 0 None] by blast

text \<open>C6: Closing a session wakes every waiter: once \<open>close\<close> has drained, every command that was
  pending finds the close error in its result channel, nothing is pending, every channel is
  closed, and from then on no interleaving of steps can make a command pending again.\<close>

theorem session_close_wakes:
  assumes "session_step\<^sup>*\<^sup>* (newActiveSession n i hello, \<lambda>_. 0) (s, held)"
    and "\<not> as_closeOnce s"
  obtains s' where "closeSession (Some err) s = Some s'" "as_pending s' = []"
    "\<forall>(k, a) \<in> set (as_pending s).
       map_option fst (receiveResult a s') = Some (Some (emptyOutcome\<lparr>co_err := Some err\<rparr>))"
    "\<forall>a < length (as_objects s'). pc_closed (as_objects s' ! a)"
    "\<forall>t held'. session_step\<^sup>*\<^sup>* (s', held) (t, held') \<longrightarrow>
       as_pending t = [] \<and> (\<forall>cid cap. trimSpace cid \<noteq> [] \<longrightarrow> registerPending cid cap t = (Inl err, t))"
proof -
  have ok: "session_ok s held" by (rule session_steps_ok [OF assms(1)]) simp
  let ?b = "close_begin (Some err) s"
  have b: "as_closeOnce ?b" "as_closedErr ?b = Some err" "as_pending ?b = as_pending s"
    using assms(2) by (simp_all add: close_begin_def)
  obtain s' where s': "close_drain ?b = Some s'" "session_ok s' held" "as_pending s' = []"
    "\<forall>k a. (k, a) \<in> set (as_pending ?b) \<longrightarrow>
       receiveResult a s' = Some (Some (emptyOutcome\<lparr>co_err := as_closedErr ?b\<rparr>),
         s'\<lparr>as_objects := (as_objects s')[a := (as_objects s' ! a)\<lparr>pc_buffer := []\<rparr>]\<rparr>)"
    "\<forall>a < length (as_objects s'). pc_closed (as_objects s' ! a)"
    "as_closedErr s' = as_closedErr ?b"
    by (rule close_drain_ok [OF session_ok_close [OF ok], of "Some err"])
  have closed: "as_closeOnce s'" using s'(2,6) b(2) by (simp add: session_ok_def)
  have later: "as_pending t = [] \<and> (\<forall>cid cap. trimSpace cid \<noteq> [] \<longrightarrow> registerPending cid cap t = (Inl err, t))"
    if "session_step\<^sup>*\<^sup>* (s', held) (t, held')" for t held'
  proof -
    have t: "as_closeOnce t" "as_closedErr t = Some err" "as_pending t = []" "session_ok t held'"
      using done_stays_steps [OF that] closed s'(2,3,6) b(2) by auto
    then have "as_done t" by (simp add: session_ok_def)
    with t show ?thesis by (simp add: registerPending_def Let_def sessionError_def)
  qed
  show thesis
  proof (rule that [of s'])
    show "closeSession (Some err) s = Some s'" using s'(1) assms(2) by (simp add: closeSession_def)
    show "as_pending s' = []" by (rule s'(3))
    show "\<forall>(k, a) \<in> set (as_pending s).
       map_option fst (receiveResult a s') = Some (Some (emptyOutcome\<lparr>co_err := Some err\<rparr>))"
    proof
      fix e assume e: "e \<in> set (as_pending s)"
      obtain k a where ka: "e = (k, a)" by (cases e)
      with e b(3) have "(k, a) \<in> set (as_pending ?b)" by simp
      from s'(4) [rule_format, OF this] show "case e of (k, a) \<Rightarrow>
        map_option fst (receiveResult a s') = Some (Some (emptyOutcome\<lparr>co_err := Some err\<rparr>))"
        by (simp add: ka b(2))
    qed
    show "\<forall>a < length (as_objects s'). pc_closed (as_objects s' ! a)" using s'(5) by blast
    show "\<forall>t held'. session_step\<^sup>*\<^sup>* (s', held) (t, held') \<longrightarrow>
       as_pending t = [] \<and> (\<forall>cid cap. trimSpace cid \<noteq> [] \<longrightarrow> registerPending cid cap t = (Inl err, t))"
      using later by blast
  qed
qed

theorem session_close_wakes_witness:
  "\<exists>s'. closeSession (Some CtxCanceled) demoPending = Some s' \<and> as_pending s' = [] \<and>
     map_option fst (receiveResult 0 s') = Some (Some (emptyOutcome\<lparr>co_err := Some CtxCanceled\<rparr>))"
proof -
  have op: "\<not> as_closeOnce demoPending" by code_simp
  have mem: "(''c1'', 0) \<in> set (as_pending demoPending)" by code_simp
  show ?thesis
    by (rule session_close_wakes [OF demo_steps op, of CtxCanceled]) (use mem in fastforce)
qed

text \<open>Of any number of attempts to take a slot of a capability, exactly as many succeed as
  there are free slots.\<close>

theorem slots_granted:
  assumes "slots_ok c s"
  shows "int (fst (((\<lambda>(k, s). (if fst (tryAcquireCapability c s) then Suc k else k,
      snd (tryAcquireCapability c s))) ^^ n) (0, s))) = min (int n) (maxInflightOf c s - inflightOf c s)"
  using slots.acquires_grants [OF assms, of n] by (simp add: slots.acquires_def)

theorem slots_granted_witness:
  "int (fst (((\<lambda>(k, s). (if fst (tryAcquireCapability ''echo'' s) then Suc k else k,
      snd (tryAcquireCapability ''echo'' s))) ^^ 5) (0, demoPending))) = 1"
proof -
  have "slots_ok ''echo'' demoPending" "maxInflightOf ''echo'' demoPending = 2"
    "inflightOf ''echo'' demoPending = 1" by code_simp+
  with slots_granted [of "''echo''" demoPending 5] show ?thesis by simp
qed

end
