(* ===== verification/WorkerStore.thy ===== *)
theory WorkerStore
  imports Database WorkerSession
begin

text \<open>
  The worker registry: \<open>console/internal/registry/store*.go\<close> over the queries of
  \<open>sqlc/workers.sql.go\<close> and the schema of \<open>db/migrations\<close> (primary keys, and the foreign
  keys to \<open>worker_nodes\<close> with \<open>ON DELETE CASCADE\<close>). The invariant \<open>workers_wf\<close> is what
  the schema's keys say; every operation keeps it, also when a query fails.
  The nil-receiver guards of the source have no counterpart: the store always exists here.
\<close>

section \<open>Queries\<close>

definition clearAllWorkerSessions :: "int query" where
  "clearAllWorkerSessions = dbRun (\<lambda>d.
     (Inr (countWhere (\<lambda>n. n_session_id n \<noteq> []) (db_nodes d)),
      d\<lparr>db_nodes := updateWhere (\<lambda>n. n_session_id n \<noteq> []) (n_session_id_update (\<lambda>_. [])) (db_nodes d)\<rparr>))"

definition clearWorkerSessionByNode :: "string \<Rightarrow> int query" where
  "clearWorkerSessionByNode nodeID = dbRun (\<lambda>d.
     (Inr (countWhere (\<lambda>n. n_node_id n = nodeID) (db_nodes d)),
      d\<lparr>db_nodes := updateWhere (\<lambda>n. n_node_id n = nodeID) (n_session_id_update (\<lambda>_. [])) (db_nodes d)\<rparr>))"

definition clearWorkerSessionByNodeAndSession :: "string \<Rightarrow> string \<Rightarrow> int query" where
  "clearWorkerSessionByNodeAndSession nodeID sessionID = dbRun (\<lambda>d.
     (Inr (countWhere (\<lambda>n. n_node_id n = nodeID \<and> n_session_id n = sessionID) (db_nodes d)),
      d\<lparr>db_nodes := updateWhere (\<lambda>n. n_node_id n = nodeID \<and> n_session_id n = sessionID)
          (n_session_id_update (\<lambda>_. [])) (db_nodes d)\<rparr>))"

definition labelOwnerIDKey :: string where "labelOwnerIDKey = ''obx.owner_id''"
definition labelWorkerTypeKey :: string where "labelWorkerTypeKey = ''obx.worker_type''"
definition workerTypeNormal :: string where "workerTypeNormal = ''normal''"
definition workerTypeSys :: string where "workerTypeSys = ''worker-sys''"

text \<open>The joins of the label tables: one result per pair of matching rows.\<close>

definition nodesByOwnerAndType :: "string \<Rightarrow> string \<Rightarrow> db \<Rightarrow> string list" where
  "nodesByOwnerAndType owner typ d =
     [n_node_id n. n \<leftarrow> db_nodes d, ol \<leftarrow> db_labels d, ty \<leftarrow> db_labels d,
        l_node_id ol = n_node_id n \<and> l_label_key ol = labelOwnerIDKey \<and>
        l_node_id ty = n_node_id n \<and> l_label_key ty = labelWorkerTypeKey \<and>
        l_label_value ol = owner \<and> l_label_value ty = typ]"

definition countWorkerNodesByOwnerAndType :: "string \<Rightarrow> string \<Rightarrow> int query" where
  "countWorkerNodesByOwnerAndType owner typ = dbRun (\<lambda>d.
     (Inr (int (length (nodesByOwnerAndType owner typ d))), d))"

definition listWorkerNodeIDsByOwnerAndType :: "string \<Rightarrow> string \<Rightarrow> string list query" where
  "listWorkerNodeIDsByOwnerAndType owner typ = dbRun (\<lambda>d.
     (Inr (sort (nodesByOwnerAndType owner typ d)), d))"

text \<open>\<open>DELETE FROM worker_nodes\<close>, with the cascade to the child tables.\<close>

definition deleteNodesCascade :: "(worker_node \<Rightarrow> bool) \<Rightarrow> db \<Rightarrow> db" where
  "deleteNodesCascade P d =
     (let gone = map n_node_id (filter P (db_nodes d))
      in d\<lparr>db_nodes := deleteRows P (db_nodes d),
           db_caps := deleteRows (\<lambda>c. c_node_id c \<in> set gone) (db_caps d),
           db_labels := deleteRows (\<lambda>l. l_node_id l \<in> set gone) (db_labels d),
           db_creds := deleteRows (\<lambda>w. w_node_id w \<in> set gone) (db_creds d),
           db_claims := deleteRows (\<lambda>m. m_node_id m \<in> set gone) (db_claims d)\<rparr>)"

definition deleteOfflineRuntimeWorkers :: "int \<Rightarrow> int query" where
  "deleteOfflineRuntimeWorkers before = dbRun (\<lambda>d.
     (Inr (countWhere (\<lambda>n. n_provisioned n = 0 \<and> n_last_seen_at n < before) (db_nodes d)),
      deleteNodesCascade (\<lambda>n. n_provisioned n = 0 \<and> n_last_seen_at n < before) d))"

definition deleteWorkerNodeByID :: "string \<Rightarrow> int query" where
  "deleteWorkerNodeByID nodeID = dbRun (\<lambda>d.
     (Inr (countWhere (\<lambda>n. n_node_id n = nodeID) (db_nodes d)),
      deleteNodesCascade (\<lambda>n. n_node_id n = nodeID) d))"

definition deleteWorkerCapabilitiesByNode :: "string \<Rightarrow> unit query" where
  "deleteWorkerCapabilitiesByNode nodeID = dbRun (\<lambda>d.
     (Inr (), d\<lparr>db_caps := deleteRows (\<lambda>c. c_node_id c = nodeID) (db_caps d)\<rparr>))"

definition deleteWorkerLabelsByNode :: "string \<Rightarrow> unit query" where
  "deleteWorkerLabelsByNode nodeID = dbRun (\<lambda>d.
     (Inr (), d\<lparr>db_labels := deleteRows (\<lambda>l. l_node_id l = nodeID) (db_labels d)\<rparr>))"

definition deleteWorkerCredentialByNode :: "string \<Rightarrow> int query" where
  "deleteWorkerCredentialByNode nodeID = dbRun (\<lambda>d.
     (Inr (countWhere (\<lambda>w. w_node_id w = nodeID) (db_creds d)),
      d\<lparr>db_creds := deleteRows (\<lambda>w. w_node_id w = nodeID) (db_creds d)\<rparr>))"

definition getWorkerCredentialByNode :: "string \<Rightarrow> worker_credential query" where
  "getWorkerCredentialByNode nodeID = dbRun (\<lambda>d.
     (case List.find (\<lambda>w. w_node_id w = nodeID) (db_creds d) of
        None \<Rightarrow> Inl ErrNoRows | Some w \<Rightarrow> Inr w, d))"

definition getWorkerNodeByID :: "string \<Rightarrow> worker_node query" where
  "getWorkerNodeByID nodeID = dbRun (\<lambda>d.
     (case List.find (\<lambda>n. n_node_id n = nodeID) (db_nodes d) of
        None \<Rightarrow> Inl ErrNoRows | Some n \<Rightarrow> Inr n, d))"

definition nodeExists :: "string \<Rightarrow> db \<Rightarrow> bool" where
  "nodeExists nodeID d \<longleftrightarrow> nodeID \<in> n_node_id ` set (db_nodes d)"

definition foreignKeyFailed :: go_error where
  "foreignKeyFailed = ErrConstraint ''FOREIGN KEY constraint failed''"

definition insertProvisionedWorkerNodeIfAbsent :: "string \<Rightarrow> string \<Rightarrow> int \<Rightarrow> int \<Rightarrow> int query" where
  "insertProvisionedWorkerNodeIfAbsent nodeID nodeName registeredAt lastSeenAt = dbRun (\<lambda>d.
     if nodeExists nodeID d then (Inr 0, d)
     else (Inr 1, d\<lparr>db_nodes := db_nodes d @
       [\<lparr>n_node_id = nodeID, n_session_id = [], n_provisioned = 1, n_node_name = nodeName,
         n_executor_kind = [], n_version = [], n_registered_at = registeredAt,
         n_last_seen_at = lastSeenAt\<rparr>]\<rparr>))"

definition upsertWorkerNode :: "worker_node \<Rightarrow> unit query" where
  "upsertWorkerNode row = dbRun (\<lambda>d.
     if nodeExists (n_node_id row) d
     then (Inr (), d\<lparr>db_nodes := updateWhere (\<lambda>n. n_node_id n = n_node_id row) (\<lambda>_. row) (db_nodes d)\<rparr>)
     else (Inr (), d\<lparr>db_nodes := db_nodes d @ [row]\<rparr>))"

definition insertWorkerCapability :: "worker_capability \<Rightarrow> unit query" where
  "insertWorkerCapability row = dbRun (\<lambda>d.
     if \<exists>c \<in> set (db_caps d). c_node_id c = c_node_id row \<and> c_capability_name c = c_capability_name row
     then (Inr (), d\<lparr>db_caps := updateWhere
       (\<lambda>c. c_node_id c = c_node_id row \<and> c_capability_name c = c_capability_name row)
       (c_max_inflight_update (\<lambda>_. c_max_inflight row)) (db_caps d)\<rparr>)
     else if nodeExists (c_node_id row) d then (Inr (), d\<lparr>db_caps := db_caps d @ [row]\<rparr>)
     else (Inl foreignKeyFailed, d))"

definition insertWorkerLabel :: "worker_label \<Rightarrow> unit query" where
  "insertWorkerLabel row = dbRun (\<lambda>d.
     if \<exists>l \<in> set (db_labels d). l_node_id l = l_node_id row \<and> l_label_key l = l_label_key row
     then (Inr (), d\<lparr>db_labels := updateWhere
       (\<lambda>l. l_node_id l = l_node_id row \<and> l_label_key l = l_label_key row)
       (l_label_value_update (\<lambda>_. l_label_value row)) (db_labels d)\<rparr>)
     else if nodeExists (l_node_id row) d then (Inr (), d\<lparr>db_labels := db_labels d @ [row]\<rparr>)
     else (Inl foreignKeyFailed, d))"

definition insertWorkerCredentialIfAbsent :: "worker_credential \<Rightarrow> int query" where
  "insertWorkerCredentialIfAbsent row = dbRun (\<lambda>d.
     if \<exists>w \<in> set (db_creds d). w_node_id w = w_node_id row then (Inr 0, d)
     else if nodeExists (w_node_id row) d then (Inr 1, d\<lparr>db_creds := db_creds d @ [row]\<rparr>)
     else (Inl foreignKeyFailed, d))"

text \<open>The claim's \<open>node_id\<close> is \<open>UNIQUE\<close> as well, and only a conflict on \<open>owner_id\<close> is ignored.\<close>

definition insertWorkerSysOwnerClaimIfAbsent :: "worker_sys_owner_claim \<Rightarrow> int query" where
  "insertWorkerSysOwnerClaimIfAbsent row = dbRun (\<lambda>d.
     if \<exists>m \<in> set (db_claims d). m_owner_id m = m_owner_id row then (Inr 0, d)
     else if \<exists>m \<in> set (db_claims d). m_node_id m = m_node_id row
     then (Inl (ErrConstraint ''UNIQUE constraint failed: worker_sys_owner_claims.node_id''), d)
     else if nodeExists (m_node_id row) d then (Inr 1, d\<lparr>db_claims := db_claims d @ [row]\<rparr>)
     else (Inl foreignKeyFailed, d))"

definition onlineNode :: "int \<Rightarrow> worker_node \<Rightarrow> bool" where
  "onlineNode since n \<longleftrightarrow> n_last_seen_at n \<ge> since \<and> n_session_id n \<noteq> []"

definition listOnlineWorkerNodeIDsByCapability :: "string \<Rightarrow> int \<Rightarrow> string list query" where
  "listOnlineWorkerNodeIDsByCapability capability since = dbRun (\<lambda>d.
     (Inr (sort [n_node_id n. n \<leftarrow> db_nodes d, c \<leftarrow> db_caps d,
        c_node_id c = n_node_id n \<and> toLower (c_capability_name c) = capability \<and> onlineNode since n]), d))"

definition listOnlineWorkerNodeIDsByOwnerTypeAndCapability ::
  "string \<Rightarrow> string \<Rightarrow> string \<Rightarrow> int \<Rightarrow> string list query" where
  "listOnlineWorkerNodeIDsByOwnerTypeAndCapability capability owner typ since = dbRun (\<lambda>d.
     (Inr (sort [n_node_id n. n \<leftarrow> db_nodes d, c \<leftarrow> db_caps d, ol \<leftarrow> db_labels d, ty \<leftarrow> db_labels d,
        c_node_id c = n_node_id n \<and>
        l_node_id ol = n_node_id n \<and> l_label_key ol = labelOwnerIDKey \<and>
        l_node_id ty = n_node_id n \<and> l_label_key ty = labelWorkerTypeKey \<and>
        toLower (c_capability_name c) = capability \<and> l_label_value ol = owner \<and>
        l_label_value ty = typ \<and> onlineNode since n]), d))"

definition listWorkerCapabilitiesAll :: "worker_capability list query" where
  "listWorkerCapabilitiesAll = dbRun (\<lambda>d.
     (Inr (sort_key (\<lambda>c. (c_node_id c, c_capability_name c)) (db_caps d)), d))"

definition listWorkerCapabilitiesByNode :: "string \<Rightarrow> worker_capability list query" where
  "listWorkerCapabilitiesByNode nodeID = dbRun (\<lambda>d.
     (Inr (sort_key c_capability_name (filter (\<lambda>c. c_node_id c = nodeID) (db_caps d))), d))"

definition listWorkerLabelsAll :: "worker_label list query" where
  "listWorkerLabelsAll = dbRun (\<lambda>d.
     (Inr (sort_key (\<lambda>l. (l_node_id l, l_label_key l)) (db_labels d)), d))"

definition listWorkerLabelsByNode :: "string \<Rightarrow> worker_label list query" where
  "listWorkerLabelsByNode nodeID = dbRun (\<lambda>d.
     (Inr (sort_key l_label_key (filter (\<lambda>l. l_node_id l = nodeID) (db_labels d))), d))"

definition listWorkerCredentials :: "worker_credential list query" where
  "listWorkerCredentials = dbRun (\<lambda>d. (Inr (sort_key w_node_id (db_creds d)), d))"

definition listWorkerNodesOrdered :: "worker_node list query" where
  "listWorkerNodesOrdered = dbRun (\<lambda>d.
     (Inr (sort_key (\<lambda>n. (n_registered_at n, n_node_id n)) (db_nodes d)), d))"

definition updateWorkerHeartbeatBySession :: "int \<Rightarrow> string \<Rightarrow> string \<Rightarrow> int query" where
  "updateWorkerHeartbeatBySession lastSeenAt nodeID sessionID = dbRun (\<lambda>d.
     (Inr (countWhere (\<lambda>n. n_node_id n = nodeID \<and> n_session_id n = sessionID) (db_nodes d)),
      d\<lparr>db_nodes := updateWhere (\<lambda>n. n_node_id n = nodeID \<and> n_session_id n = sessionID)
          (n_last_seen_at_update (\<lambda>_. lastSeenAt)) (db_nodes d)\<rparr>))"

section \<open>Registry operations\<close>

datatype workerStatus = StatusAll | StatusOnline | StatusOffline

record workerView =
  v_nodeID :: string
  v_sessionID :: string
  v_provisioned :: bool
  v_nodeName :: string
  v_executorKind :: string
  v_capabilities :: "(string \<times> int) list"
  v_labels :: "(string \<times> string) list"
  v_version :: string
  v_registeredAt :: gtime
  v_lastSeenAt :: gtime
  v_status :: workerStatus

record workerStats =
  st_total :: int
  st_online :: int
  st_offline :: int
  st_stale :: int

definition statusOf :: "gtime \<Rightarrow> gtime \<Rightarrow> gduration \<Rightarrow> workerStatus" where
  "statusOf lastSeenAt now offlineTTL =
     (if now - lastSeenAt \<le> offlineTTL then StatusOnline else StatusOffline)"

definition cloneProtoCapabilities :: "capabilityDeclaration option list \<Rightarrow> (string \<times> int) list" where
  "cloneProtoCapabilities capabilities =
     concat (map (\<lambda>capability. case capability of None \<Rightarrow> []
       | Some c \<Rightarrow> let name = trimSpace (cap_name c) in if name = [] then [] else [(name, cap_maxInflight c)])
       capabilities)"

definition mergeLabels :: "(string \<times> string) list \<Rightarrow> (string \<times> string) list \<Rightarrow> (string \<times> string) list" where
  "mergeLabels base override = fold (\<lambda>(key, value) merged. AList.update key value merged) override base"

definition mergeLabelsPreserveKeys ::
  "(string \<times> string) list \<Rightarrow> (string \<times> string) list \<Rightarrow> string list \<Rightarrow> (string \<times> string) list" where
  "mergeLabelsPreserveKeys base override protectedKeys =
     fold (\<lambda>key merged. let trimmedKey = trimSpace key
             in if trimmedKey = [] then merged
                else case map_of base trimmedKey of
                       None \<Rightarrow> merged
                     | Some baseValue \<Rightarrow> AList.update trimmedKey baseValue merged)
       protectedKeys (mergeLabels base override)"

definition shortNodeID :: "string \<Rightarrow> string" where
  "shortNodeID nodeID = (if length nodeID \<le> 8 then nodeID else take 8 nodeID)"

definition normalizeWorkerType :: "string \<Rightarrow> string" where
  "normalizeWorkerType workerType = trimSpace (toLower workerType)"

definition resolveWorkerType :: "(string \<times> string) list \<Rightarrow> string" where
  "resolveWorkerType labels =
     normalizeWorkerType (case map_of labels labelWorkerTypeKey of None \<Rightarrow> [] | Some v \<Rightarrow> v)"

definition rowsToLabels :: "worker_label list \<Rightarrow> (string \<times> string) list" where
  "rowsToLabels rows = fold (\<lambda>row m. AList.update (l_label_key row) (l_label_value row) m) rows []"

text \<open>The labels and the \<open>provisioned\<close> column of an upsert: a provisioned node keeps its label
  rows under the worker's, and its owner and type labels whatever the worker sends.\<close>

definition upsertLabelsOf :: "string \<Rightarrow> connectHello \<Rightarrow> worker_node option \<Rightarrow> (int \<times> (string \<times> string) list) query" where
  "upsertLabelsOf nodeID req existing =
     (if existing \<noteq> None \<and> n_provisioned (the existing) \<noteq> 0
      then andThen (listWorkerLabelsByNode nodeID) (\<lambda>rows d.
        (Inr (1, mergeLabelsPreserveKeys (rowsToLabels rows) (ch_labels req)
                   [labelOwnerIDKey, labelWorkerTypeKey]), d))
      else (\<lambda>d. (Inr (0, ch_labels req), d)))"

definition upsertTx :: "worker_node \<Rightarrow> (string \<times> int) list \<Rightarrow> (string \<times> string) list \<Rightarrow> unit query" where
  "upsertTx row capabilities labels =
     withTx (andThen (upsertWorkerNode row) (\<lambda>_.
       andThen (deleteWorkerCapabilitiesByNode (n_node_id row)) (\<lambda>_.
       andThen (forEach (\<lambda>(name, maxInflight). insertWorkerCapability
           \<lparr>c_node_id = n_node_id row, c_capability_name = name, c_max_inflight = maxInflight\<rparr>) capabilities) (\<lambda>_.
       andThen (deleteWorkerLabelsByNode (n_node_id row)) (\<lambda>_.
       forEach (\<lambda>(key, value). insertWorkerLabel
           \<lparr>l_node_id = n_node_id row, l_label_key = key, l_label_value = value\<rparr>) labels)))))"

definition upsert :: "connectHello option \<Rightarrow> string \<Rightarrow> gtime \<Rightarrow> unit query" where
  "upsert req sessionID now d =
     (case req of
        None \<Rightarrow> (Inl (OtherError ''connect hello is required''), d)
      | Some req \<Rightarrow>
          let nodeID = trimSpace (ch_nodeId req); sessionID = trimSpace sessionID;
              nodeName = trimSpace (ch_nodeName req)
          in if nodeID = [] then (Inl (OtherError ''node_id is required''), d)
             else if sessionID = [] then (Inl (OtherError ''session_id is required''), d)
             else case getWorkerNodeByID nodeID d of
                    (res, d) \<Rightarrow>
                      let existing = (case res of Inl _ \<Rightarrow> None | Inr node \<Rightarrow> Some node)
                      in if existing = None \<and> res \<noteq> Inl ErrNoRows
                         then (case res of Inl e \<Rightarrow> (Inl e, d) | Inr _ \<Rightarrow> (Inr (), d))
                         else andThen (upsertLabelsOf nodeID req existing) (\<lambda>(provisioned, labels).
                           upsertTx \<lparr>n_node_id = nodeID, n_session_id = sessionID, n_provisioned = provisioned,
                             n_node_name = (if nodeName = [] \<and> existing \<noteq> None then n_node_name (the existing)
                                            else nodeName),
                             n_executor_kind = ch_executorKind req, n_version = ch_version req,
                             n_registered_at = unixMilli now, n_last_seen_at = unixMilli now\<rparr>
                             (cloneProtoCapabilities (ch_capabilities req)) labels) d)"

text \<open>\<open>SeedProvisionedWorkers\<close>: one transaction per worker.\<close>

definition seedTx :: "string \<Rightarrow> string \<Rightarrow> (string \<times> string) list \<Rightarrow> int \<Rightarrow> int \<Rightarrow> int query" where
  "seedTx nodeID nodeName labels registeredMS lastSeenMS =
     withTx (andThen (insertProvisionedWorkerNodeIfAbsent nodeID nodeName registeredMS lastSeenMS) (\<lambda>rows.
       if rows = 0 then (\<lambda>d. (Inr rows, d))
       else andThen (forEach (\<lambda>(key, value). insertWorkerLabel
           \<lparr>l_node_id = nodeID, l_label_key = key, l_label_value = value\<rparr>) labels) (\<lambda>_ d. (Inr rows, d))))"

definition seedProvisionedWorkers ::
  "(string \<times> (string \<times> string) list) list \<Rightarrow> gtime \<Rightarrow> gduration \<Rightarrow> db \<Rightarrow> int \<times> db" where
  "seedProvisionedWorkers workers now offlineTTL d =
     (let lastSeenAt = (if offlineTTL > 0 then now - (offlineTTL + second) else now - second)
      in fold (\<lambda>(workerNodeID, labels) (added, d).
           let nodeID = trimSpace workerNodeID
           in if nodeID = [] then (added, d)
              else case seedTx nodeID (''worker-'' @ shortNodeID nodeID) labels
                          (unixMilli now) (unixMilli lastSeenAt) d of
                     (res, d') \<Rightarrow> (if res = Inr 1 then added + 1 else added, d'))
         workers (0, d))"

definition storeDelete :: "string \<Rightarrow> db \<Rightarrow> bool \<times> db" where
  "storeDelete nodeID d =
     (let trimmedNodeID = trimSpace nodeID
      in if trimmedNodeID = [] then (False, d)
         else case deleteWorkerNodeByID trimmedNodeID d of
                (Inl _, d') \<Rightarrow> (False, d')
              | (Inr rows, d') \<Rightarrow> (rows > 0, d'))"

definition touchWithSession :: "string \<Rightarrow> string \<Rightarrow> gtime \<Rightarrow> unit query" where
  "touchWithSession nodeID sessionID now d =
     (case updateWorkerHeartbeatBySession (unixMilli now) (trimSpace nodeID) (trimSpace sessionID) d of
        (Inl e, d1) \<Rightarrow> (Inl e, d1)
      | (Inr rows, d1) \<Rightarrow>
          if rows > 0 then (Inr (), d1)
          else case getWorkerNodeByID (trimSpace nodeID) d1 of
                 (Inl e, d2) \<Rightarrow> (Inl (if e = ErrNoRows then ErrNodeNotFound else e), d2)
               | (Inr node, d2) \<Rightarrow>
                   if n_session_id node \<noteq> trimSpace sessionID then (Inl ErrSessionMismatch, d2)
                   else (Inr (), d2))"

definition clearSession :: "string \<Rightarrow> string \<Rightarrow> unit query" where
  "clearSession nodeID sessionID =
     andThen (clearWorkerSessionByNodeAndSession (trimSpace nodeID) (trimSpace sessionID)) (\<lambda>_ d. (Inr (), d))"

definition clearSessionByNode :: "string \<Rightarrow> unit query" where
  "clearSessionByNode nodeID =
     andThen (clearWorkerSessionByNode (trimSpace nodeID)) (\<lambda>_ d. (Inr (), d))"

definition getCredentialHash :: "string \<Rightarrow> db \<Rightarrow> string option \<times> db" where
  "getCredentialHash nodeID d =
     (let trimmedNodeID = trimSpace nodeID
      in if trimmedNodeID = [] then (None, d)
         else case getWorkerCredentialByNode trimmedNodeID d of
                (Inl _, d') \<Rightarrow> (None, d')
              | (Inr credential, d') \<Rightarrow>
                  let secretHash = trimSpace (w_secret_hash credential)
                  in (if secretHash = [] then None else Some secretHash, d'))"

definition putCredentialHashIfAbsent :: "string \<Rightarrow> string \<Rightarrow> string \<Rightarrow> gtime \<Rightarrow> db \<Rightarrow> bool \<times> db" where
  "putCredentialHashIfAbsent nodeID secretHash hashAlgo now d =
     (let trimmedNodeID = trimSpace nodeID; trimmedHash = trimSpace secretHash;
          trimmedHashAlgo = trimSpace hashAlgo
      in if trimmedNodeID = [] \<or> trimmedHash = [] \<or> trimmedHashAlgo = [] then (False, d)
         else case insertWorkerCredentialIfAbsent
                \<lparr>w_node_id = trimmedNodeID, w_secret_hash = trimmedHash, w_hash_algo = trimmedHashAlgo,
                 w_created_at = unixMilli now, w_updated_at = unixMilli now\<rparr> d of
                (Inl _, d') \<Rightarrow> (False, d')
              | (Inr inserted, d') \<Rightarrow> (inserted = 1, d'))"

definition storeDeleteCredential :: "string \<Rightarrow> db \<Rightarrow> bool \<times> db" where
  "storeDeleteCredential nodeID d =
     (let trimmedNodeID = trimSpace nodeID
      in if trimmedNodeID = [] then (False, d)
         else case deleteWorkerCredentialByNode trimmedNodeID d of
                (Inl _, d') \<Rightarrow> (False, d')
              | (Inr deleted, d') \<Rightarrow> (deleted = 1, d'))"

definition listCredentialHashes :: "db \<Rightarrow> (string \<times> string) list \<times> db" where
  "listCredentialHashes d =
     (case listWorkerCredentials d of
        (Inl _, d') \<Rightarrow> ([], d')
      | (Inr credentials, d') \<Rightarrow>
          (fold (\<lambda>credential values.
             let nodeID = trimSpace (w_node_id credential); secretHash = trimSpace (w_secret_hash credential)
             in if nodeID = [] \<or> secretHash = [] then values else AList.update nodeID secretHash values)
            credentials [], d'))"

section \<open>Views\<close>

definition nodeView :: "gtime \<Rightarrow> gduration \<Rightarrow> worker_capability list \<Rightarrow> (string \<times> string) list \<Rightarrow> worker_node \<Rightarrow> workerView" where
  "nodeView now offlineTTL capabilityRows labels node =
     (let lastSeenAt = timeOfMilli (n_last_seen_at node)
      in \<lparr>v_nodeID = n_node_id node, v_sessionID = n_session_id node,
          v_provisioned = (n_provisioned node \<noteq> 0), v_nodeName = n_node_name node,
          v_executorKind = n_executor_kind node,
          v_capabilities = map (\<lambda>row. (c_capability_name row, wrap32 (c_max_inflight row))) capabilityRows,
          v_labels = labels, v_version = n_version node,
          v_registeredAt = timeOfMilli (n_registered_at node), v_lastSeenAt = lastSeenAt,
          v_status = statusOf lastSeenAt now offlineTTL\<rparr>)"

definition labelValueOf :: "string \<Rightarrow> (string \<times> string) list \<Rightarrow> string" where
  "labelValueOf key labels = (case map_of labels key of None \<Rightarrow> [] | Some v \<Rightarrow> v)"

definition viewMatches :: "workerStatus \<Rightarrow> string \<Rightarrow> string \<Rightarrow> workerView \<Rightarrow> bool" where
  "viewMatches status ownerID workerType v \<longleftrightarrow>
     (status = StatusAll \<or> status = v_status v) \<and>
     (trimSpace ownerID \<noteq> [] \<longrightarrow>
        trimSpace (labelValueOf labelOwnerIDKey (v_labels v)) = trimSpace ownerID \<and>
        (normalizeWorkerType workerType \<noteq> [] \<longrightarrow>
           resolveWorkerType (v_labels v) = normalizeWorkerType workerType))"

text \<open>The label and capability rows are grouped by node in the order of the query, so the group
  of a node is the sublist of its rows.\<close>

definition listFilteredViews ::
  "workerStatus \<Rightarrow> gtime \<Rightarrow> gduration \<Rightarrow> string \<Rightarrow> string \<Rightarrow> db \<Rightarrow> workerView list \<times> db" where
  "listFilteredViews status now offlineTTL ownerID workerType d =
     (case listWorkerNodesOrdered d of
        (Inl _, d1) \<Rightarrow> ([], d1)
      | (Inr nodes, d1) \<Rightarrow>
          (case listWorkerCapabilitiesAll d1 of
             (Inl _, d2) \<Rightarrow> ([], d2)
           | (Inr capabilityRows, d2) \<Rightarrow>
               (case listWorkerLabelsAll d2 of
                  (Inl _, d3) \<Rightarrow> ([], d3)
                | (Inr labelRows, d3) \<Rightarrow>
                    (filter (viewMatches status ownerID workerType)
                       (map (\<lambda>node. nodeView now offlineTTL
                          (filter (\<lambda>row. c_node_id row = n_node_id node) capabilityRows)
                          (rowsToLabels (filter (\<lambda>row. l_node_id row = n_node_id node) labelRows)) node)
                        nodes), d3))))"

text \<open>\<open>page\<close> and \<open>pageSize\<close> are Go \<open>int\<close>s; \<open>None\<close> is the panic of a slice out of range.\<close>

definition paginate :: "int \<Rightarrow> int \<Rightarrow> 'v list \<Rightarrow> ('v list \<times> int) option" where
  "paginate page pageSize filtered =
     (let total = int (length filtered);
          page = (if page \<le> 0 then 1 else page);
          pageSize = (if pageSize \<le> 0 then 20 else pageSize);
          start = wrap64 (wrap64 (page - 1) * pageSize)
      in if start \<ge> total then Some ([], total)
         else let end' = wrap64 (start + pageSize);
                  end' = (if end' > total then total else end')
              in map_option (\<lambda>xs. (xs, total)) (go_slice filtered start end'))"

definition listScoped ::
  "workerStatus \<Rightarrow> int \<Rightarrow> int \<Rightarrow> gtime \<Rightarrow> gduration \<Rightarrow> string \<Rightarrow> string \<Rightarrow> db \<Rightarrow>
   (workerView list \<times> int) option \<times> db" where
  "listScoped status page pageSize now offlineTTL ownerID workerType d =
     (case listFilteredViews status now offlineTTL ownerID workerType d of
        (filtered, d') \<Rightarrow> (paginate page pageSize filtered, d'))"

definition statsScoped :: "gtime \<Rightarrow> gduration \<Rightarrow> gduration \<Rightarrow> string \<Rightarrow> string \<Rightarrow> db \<Rightarrow> workerStats \<times> db" where
  "statsScoped now offlineTTL staleAfter ownerID workerType d =
     (case listFilteredViews StatusAll now offlineTTL ownerID workerType d of
        (workers, d') \<Rightarrow>
          (fold (\<lambda>worker stats.
             let stats = stats\<lparr>st_total := st_total stats + 1\<rparr>;
                 stats = (if v_status worker = StatusOnline then stats\<lparr>st_online := st_online stats + 1\<rparr>
                          else stats\<lparr>st_offline := st_offline stats + 1\<rparr>)
             in if now - v_lastSeenAt worker > staleAfter
                then stats\<lparr>st_stale := st_stale stats + 1\<rparr> else stats)
            workers \<lparr>st_total = 0, st_online = 0, st_offline = 0, st_stale = 0\<rparr>, d'))"

definition getByNodeID :: "string \<Rightarrow> gtime \<Rightarrow> gduration \<Rightarrow> db \<Rightarrow> workerView option \<times> db" where
  "getByNodeID nodeID now offlineTTL d =
     (let trimmedNodeID = trimSpace nodeID
      in if trimmedNodeID = [] then (None, d)
         else case andThen (getWorkerNodeByID trimmedNodeID) (\<lambda>node.
                   andThen (listWorkerCapabilitiesByNode trimmedNodeID) (\<lambda>capabilityRows.
                   andThen (listWorkerLabelsByNode trimmedNodeID) (\<lambda>labelRows d.
                     (Inr (nodeView now offlineTTL capabilityRows (rowsToLabels labelRows) node), d)))) d of
                (Inl _, d') \<Rightarrow> (None, d')
              | (Inr v, d') \<Rightarrow> (Some v, d'))"

definition labelsByNodeID :: "string \<Rightarrow> db \<Rightarrow> (string \<times> string) list \<times> db" where
  "labelsByNodeID nodeID d =
     (let trimmedNodeID = trimSpace nodeID
      in if trimmedNodeID = [] then ([], d)
         else case listWorkerLabelsByNode trimmedNodeID d of
                (Inl _, d') \<Rightarrow> ([], d')
              | (Inr labelRows, d') \<Rightarrow> (rowsToLabels labelRows, d'))"

definition workerTypeByNodeID :: "string \<Rightarrow> db \<Rightarrow> string \<times> db" where
  "workerTypeByNodeID nodeID d =
     (case labelsByNodeID nodeID d of (labels, d') \<Rightarrow> (resolveWorkerType labels, d'))"

text \<open>The answers of the listing operations, empty when the query fails.\<close>

definition orEmpty :: "'a \<Rightarrow> (go_error + 'a) \<times> db \<Rightarrow> 'a \<times> db" where
  "orEmpty z r = (case r of (Inl _, d) \<Rightarrow> (z, d) | (Inr x, d) \<Rightarrow> (x, d))"

definition listNodeIDsByOwnerAndType :: "string \<Rightarrow> string \<Rightarrow> db \<Rightarrow> string list \<times> db" where
  "listNodeIDsByOwnerAndType ownerID workerType d =
     (if trimSpace ownerID = [] \<or> normalizeWorkerType workerType = [] then ([], d)
      else orEmpty [] (listWorkerNodeIDsByOwnerAndType (trimSpace ownerID) (normalizeWorkerType workerType) d))"

definition countWorkersByOwnerAndType :: "string \<Rightarrow> string \<Rightarrow> db \<Rightarrow> int \<times> db" where
  "countWorkersByOwnerAndType ownerID workerType d =
     (if trimSpace ownerID = [] \<or> normalizeWorkerType workerType = [] then (0, d)
      else orEmpty 0 (countWorkerNodesByOwnerAndType (trimSpace ownerID) (normalizeWorkerType workerType) d))"

definition claimWorkerSysOwner :: "string \<Rightarrow> string \<Rightarrow> gtime \<Rightarrow> bool query" where
  "claimWorkerSysOwner ownerID nodeID now d =
     (if trimSpace ownerID = [] \<or> trimSpace nodeID = []
      then (Inl (OtherError ''owner_id and node_id are required''), d)
      else andThen (insertWorkerSysOwnerClaimIfAbsent
             \<lparr>m_owner_id = trimSpace ownerID, m_node_id = trimSpace nodeID, m_claimed_at = unixMilli now\<rparr>)
           (\<lambda>rows d. (Inr (rows = 1), d)) d)"

definition listOnlineNodeIDsByOwnerTypeAndCapability ::
  "string \<Rightarrow> string \<Rightarrow> string \<Rightarrow> gtime \<Rightarrow> gduration \<Rightarrow> db \<Rightarrow> string list \<times> db" where
  "listOnlineNodeIDsByOwnerTypeAndCapability ownerID workerType capability now offlineTTL d =
     (if trimSpace ownerID = [] \<or> normalizeWorkerType workerType = [] \<or> normalizeCapability capability = []
      then ([], d)
      else orEmpty [] (listOnlineWorkerNodeIDsByOwnerTypeAndCapability (normalizeCapability capability)
             (trimSpace ownerID) (normalizeWorkerType workerType) (unixMilli (now - offlineTTL)) d))"

definition listOnlineNodeIDsByCapability :: "string \<Rightarrow> gtime \<Rightarrow> gduration \<Rightarrow> db \<Rightarrow> string list \<times> db" where
  "listOnlineNodeIDsByCapability capability now offlineTTL d =
     (if normalizeCapability capability = [] then ([], d)
      else orEmpty [] (listOnlineWorkerNodeIDsByCapability (normalizeCapability capability)
             (unixMilli (now - offlineTTL)) d))"

definition pruneOffline :: "gtime \<Rightarrow> gduration \<Rightarrow> db \<Rightarrow> int \<times> db" where
  "pruneOffline now offlineTTL d =
     orEmpty 0 (deleteOfflineRuntimeWorkers (unixMilli (now - offlineTTL)) d)"

section \<open>The schema's invariant\<close>

definition workers_wf :: "db \<Rightarrow> bool" where
  "workers_wf d \<longleftrightarrow>
     distinct (map n_node_id (db_nodes d)) \<and>
     distinct (map (\<lambda>c. (c_node_id c, c_capability_name c)) (db_caps d)) \<and>
     distinct (map (\<lambda>l. (l_node_id l, l_label_key l)) (db_labels d)) \<and>
     distinct (map w_node_id (db_creds d)) \<and>
     distinct (map m_owner_id (db_claims d)) \<and> distinct (map m_node_id (db_claims d)) \<and>
     set (map c_node_id (db_caps d)) \<subseteq> set (map n_node_id (db_nodes d)) \<and>
     set (map l_node_id (db_labels d)) \<subseteq> set (map n_node_id (db_nodes d)) \<and>
     set (map w_node_id (db_creds d)) \<subseteq> set (map n_node_id (db_nodes d)) \<and>
     set (map m_node_id (db_claims d)) \<subseteq> set (map n_node_id (db_nodes d))"

lemma workers_wf_faults [simp]: "workers_wf (d\<lparr>db_faults := fs\<rparr>) = workers_wf d"
  by (simp add: workers_wf_def)

lemma map_key_where:
  "(\<And>r. P r \<Longrightarrow> key (f r) = key r) \<Longrightarrow> map key (updateWhere P f rows) = map key rows"
  by (induction rows) auto

lemma workers_wf_nodes:
  assumes "workers_wf d" and "map n_node_id nodes = map n_node_id (db_nodes d)"
  shows "workers_wf (d\<lparr>db_nodes := nodes\<rparr>)"
  using assms unfolding workers_wf_def by simp

lemma workers_wf_newNode:
  assumes "workers_wf d" and "\<not> nodeExists (n_node_id row) d"
  shows "workers_wf (d\<lparr>db_nodes := db_nodes d @ [row]\<rparr>)"
  using assms unfolding workers_wf_def nodeExists_def by auto

lemma workers_wf_children:
  "workers_wf d \<Longrightarrow> workers_wf (d\<lparr>db_caps := deleteRows P (db_caps d)\<rparr>)"
  "workers_wf d \<Longrightarrow> workers_wf (d\<lparr>db_labels := deleteRows Q (db_labels d)\<rparr>)"
  "workers_wf d \<Longrightarrow> workers_wf (d\<lparr>db_creds := deleteRows R (db_creds d)\<rparr>)"
  unfolding workers_wf_def by (auto simp: distinct_deleteRows)

lemma cascade_child:
  assumes sub: "key ` set rows \<subseteq> n_node_id ` set nodes"
  shows "key ` set (deleteRows (\<lambda>r. key r \<in> set (map n_node_id (filter P nodes))) rows)
    \<subseteq> n_node_id ` set (deleteRows P nodes)"
proof
  fix i
  assume "i \<in> key ` set (deleteRows (\<lambda>r. key r \<in> set (map n_node_id (filter P nodes))) rows)"
  then have i: "i \<in> key ` set rows" "i \<notin> n_node_id ` {n \<in> set nodes. P n}" by auto
  with sub obtain n where n: "n \<in> set nodes" "i = n_node_id n" by blast
  with i(2) have "\<not> P n" by blast
  with n show "i \<in> n_node_id ` set (deleteRows P nodes)" by simp
qed

lemma workers_wf_cascade: "workers_wf d \<Longrightarrow> workers_wf (deleteNodesCascade P d)"
  unfolding workers_wf_def deleteNodesCascade_def Let_def set_map
  by (simp add: distinct_deleteRows cascade_child [simplified])

lemma read_wf:
  assumes "\<And>d. snd (f d) = d" and "workers_wf d"
  shows "workers_wf (snd (dbRun f d))"
  by (rule dbRun_preserves) (simp_all add: assms)

lemma worker_reads_wf [inv_intros]:
  "workers_wf d \<Longrightarrow> workers_wf (snd (countWorkerNodesByOwnerAndType a b d))"
  "workers_wf d \<Longrightarrow> workers_wf (snd (listWorkerNodeIDsByOwnerAndType a b d))"
  "workers_wf d \<Longrightarrow> workers_wf (snd (getWorkerCredentialByNode a d))"
  "workers_wf d \<Longrightarrow> workers_wf (snd (getWorkerNodeByID a d))"
  "workers_wf d \<Longrightarrow> workers_wf (snd (listOnlineWorkerNodeIDsByCapability a k d))"
  "workers_wf d \<Longrightarrow> workers_wf (snd (listOnlineWorkerNodeIDsByOwnerTypeAndCapability a b c k d))"
  "workers_wf d \<Longrightarrow> workers_wf (snd (listWorkerCapabilitiesAll d))"
  "workers_wf d \<Longrightarrow> workers_wf (snd (listWorkerCapabilitiesByNode a d))"
  "workers_wf d \<Longrightarrow> workers_wf (snd (listWorkerLabelsAll d))"
  "workers_wf d \<Longrightarrow> workers_wf (snd (listWorkerLabelsByNode a d))"
  "workers_wf d \<Longrightarrow> workers_wf (snd (listWorkerCredentials d))"
  "workers_wf d \<Longrightarrow> workers_wf (snd (listWorkerNodesOrdered d))"
  unfolding countWorkerNodesByOwnerAndType_def listWorkerNodeIDsByOwnerAndType_def
    getWorkerCredentialByNode_def getWorkerNodeByID_def listOnlineWorkerNodeIDsByCapability_def
    listOnlineWorkerNodeIDsByOwnerTypeAndCapability_def listWorkerCapabilitiesAll_def
    listWorkerCapabilitiesByNode_def listWorkerLabelsAll_def listWorkerLabelsByNode_def
    listWorkerCredentials_def listWorkerNodesOrdered_def
  by (rule read_wf; simp)+

lemma clear_sessions_wf [inv_intros]:
  "workers_wf d \<Longrightarrow> workers_wf (snd (clearAllWorkerSessions d))"
  "workers_wf d \<Longrightarrow> workers_wf (snd (clearWorkerSessionByNode i d))"
  "workers_wf d \<Longrightarrow> workers_wf (snd (clearWorkerSessionByNodeAndSession i s d))"
  "workers_wf d \<Longrightarrow> workers_wf (snd (updateWorkerHeartbeatBySession k i s d))"
  unfolding clearAllWorkerSessions_def clearWorkerSessionByNode_def
    clearWorkerSessionByNodeAndSession_def updateWorkerHeartbeatBySession_def
  by (rule dbRun_preserves; simp; rule workers_wf_nodes [where d = "d\<lparr>db_faults := fs\<rparr>" for fs, simplified]; simp)+

lemma delete_nodes_wf [inv_intros]:
  "workers_wf d \<Longrightarrow> workers_wf (snd (deleteOfflineRuntimeWorkers k d))"
  "workers_wf d \<Longrightarrow> workers_wf (snd (deleteWorkerNodeByID i d))"
  unfolding deleteOfflineRuntimeWorkers_def deleteWorkerNodeByID_def
  by (rule dbRun_preserves; simp add: workers_wf_cascade)+

lemma delete_children_wf [inv_intros]:
  "workers_wf d \<Longrightarrow> workers_wf (snd (deleteWorkerCapabilitiesByNode i d))"
  "workers_wf d \<Longrightarrow> workers_wf (snd (deleteWorkerLabelsByNode i d))"
  "workers_wf d \<Longrightarrow> workers_wf (snd (deleteWorkerCredentialByNode i d))"
  unfolding deleteWorkerCapabilitiesByNode_def deleteWorkerLabelsByNode_def deleteWorkerCredentialByNode_def
  by (rule dbRun_preserves; simp;
      use workers_wf_children [where d = "d\<lparr>db_faults := fs\<rparr>" for fs, simplified] in blast)+

lemma insertNode_wf [inv_intros]:
  assumes "workers_wf d"
  shows "workers_wf (snd (insertProvisionedWorkerNodeIfAbsent i n r l d))"
  unfolding insertProvisionedWorkerNodeIfAbsent_def
  by (rule dbRun_preserves; simp add: assms Let_def)
    (use workers_wf_newNode [where d = "d\<lparr>db_faults := fs\<rparr>" for fs, simplified] assms in
      \<open>auto simp: nodeExists_def\<close>)

lemma upsertNode_wf [inv_intros]:
  assumes "workers_wf d"
  shows "workers_wf (snd (upsertWorkerNode row d))"
  unfolding upsertWorkerNode_def
proof (rule dbRun_preserves)
  fix fs
  let ?d = "d\<lparr>db_faults := fs\<rparr>"
  have wf: "workers_wf ?d" using assms by simp
  show "workers_wf ?d" by (rule wf)
  show "workers_wf (snd (if nodeExists (n_node_id row) ?d
     then (Inr (), ?d\<lparr>db_nodes := updateWhere (\<lambda>n. n_node_id n = n_node_id row) (\<lambda>_. row) (db_nodes ?d)\<rparr>)
     else (Inr (), ?d\<lparr>db_nodes := db_nodes ?d @ [row]\<rparr>)))"
    using workers_wf_newNode [OF wf, of row] workers_wf_nodes [OF wf]
      map_key_where [of "\<lambda>n. n_node_id n = n_node_id row" n_node_id "\<lambda>_. row" "db_nodes ?d"]
    by auto
qed

lemma dbRun_wf:
  assumes "workers_wf d" and "\<And>d. workers_wf d \<Longrightarrow> workers_wf (snd (f d))"
  shows "workers_wf (snd (dbRun f d))"
  by (rule dbRun_preserves) (simp_all add: assms)

lemma insertCapability_wf [inv_intros]:
  "workers_wf d \<Longrightarrow> workers_wf (snd (insertWorkerCapability row d))"
  unfolding insertWorkerCapability_def
proof (erule dbRun_wf)
  fix d
  assume wf: "workers_wf d"
  let ?P = "\<lambda>c. c_node_id c = c_node_id row \<and> c_capability_name c = c_capability_name row"
  let ?f = "c_max_inflight_update (\<lambda>_. c_max_inflight row)"
  have keys: "map (\<lambda>c. (c_node_id c, c_capability_name c)) (updateWhere ?P ?f (db_caps d)) =
      map (\<lambda>c. (c_node_id c, c_capability_name c)) (db_caps d)"
    "map c_node_id (updateWhere ?P ?f (db_caps d)) = map c_node_id (db_caps d)"
    by (rule map_key_where; simp)+
  have upd: "workers_wf (d\<lparr>db_caps := updateWhere ?P ?f (db_caps d)\<rparr>)"
    using wf keys unfolding workers_wf_def by simp
  have ins: "workers_wf (d\<lparr>db_caps := db_caps d @ [row]\<rparr>)"
    if "\<not> (\<exists>c \<in> set (db_caps d). ?P c)" "nodeExists (c_node_id row) d"
    using wf that unfolding workers_wf_def nodeExists_def by auto
  show "workers_wf (snd (if \<exists>c \<in> set (db_caps d). ?P c
        then (Inr (), d\<lparr>db_caps := updateWhere ?P ?f (db_caps d)\<rparr>)
        else if nodeExists (c_node_id row) d then (Inr (), d\<lparr>db_caps := db_caps d @ [row]\<rparr>)
        else (Inl foreignKeyFailed, d)))"
    using upd ins wf by simp
qed

lemma insertLabel_wf [inv_intros]:
  "workers_wf d \<Longrightarrow> workers_wf (snd (insertWorkerLabel row d))"
  unfolding insertWorkerLabel_def
proof (erule dbRun_wf)
  fix d
  assume wf: "workers_wf d"
  let ?P = "\<lambda>l. l_node_id l = l_node_id row \<and> l_label_key l = l_label_key row"
  let ?f = "l_label_value_update (\<lambda>_. l_label_value row)"
  have keys: "map (\<lambda>l. (l_node_id l, l_label_key l)) (updateWhere ?P ?f (db_labels d)) =
      map (\<lambda>l. (l_node_id l, l_label_key l)) (db_labels d)"
    "map l_node_id (updateWhere ?P ?f (db_labels d)) = map l_node_id (db_labels d)"
    by (rule map_key_where; simp)+
  have upd: "workers_wf (d\<lparr>db_labels := updateWhere ?P ?f (db_labels d)\<rparr>)"
    using wf keys unfolding workers_wf_def by simp
  have ins: "workers_wf (d\<lparr>db_labels := db_labels d @ [row]\<rparr>)"
    if "\<not> (\<exists>l \<in> set (db_labels d). ?P l)" "nodeExists (l_node_id row) d"
    using wf that unfolding workers_wf_def nodeExists_def by auto
  show "workers_wf (snd (if \<exists>l \<in> set (db_labels d). ?P l
        then (Inr (), d\<lparr>db_labels := updateWhere ?P ?f (db_labels d)\<rparr>)
        else if nodeExists (l_node_id row) d then (Inr (), d\<lparr>db_labels := db_labels d @ [row]\<rparr>)
        else (Inl foreignKeyFailed, d)))"
    using upd ins wf by simp
qed

lemma insertCredential_wf [inv_intros]:
  "workers_wf d \<Longrightarrow> workers_wf (snd (insertWorkerCredentialIfAbsent row d))"
  unfolding insertWorkerCredentialIfAbsent_def
  by (erule dbRun_wf) (unfold workers_wf_def nodeExists_def, auto)

lemma insertClaim_wf [inv_intros]:
  "workers_wf d \<Longrightarrow> workers_wf (snd (insertWorkerSysOwnerClaimIfAbsent row d))"
  unfolding insertWorkerSysOwnerClaimIfAbsent_def
  by (erule dbRun_wf) (unfold workers_wf_def nodeExists_def, auto)

text \<open>The operations compose the queries.\<close>

lemma andThen_wf:
  "workers_wf d \<Longrightarrow> (\<And>d. workers_wf d \<Longrightarrow> workers_wf (snd (q d))) \<Longrightarrow>
     (\<And>x d. workers_wf d \<Longrightarrow> workers_wf (snd (k x d))) \<Longrightarrow> workers_wf (snd (andThen q k d))"
  by (rule andThen_preserves)

lemma forEach_wf:
  "workers_wf d \<Longrightarrow> (\<And>x d. workers_wf d \<Longrightarrow> workers_wf (snd (body x d))) \<Longrightarrow>
     workers_wf (snd (forEach body xs d))"
  by (rule forEach_preserves)

lemma withTx_wf:
  "workers_wf d \<Longrightarrow> (\<And>d. workers_wf d \<Longrightarrow> workers_wf (snd (f d))) \<Longrightarrow> workers_wf (snd (withTx f d))"
  by (rule withTx_preserves) simp_all

lemma snd_orEmpty [simp]: "snd (orEmpty z r) = snd r"
  by (simp add: orEmpty_def split: prod.split sum.split)

lemma upsertTx_wf: "workers_wf d \<Longrightarrow> workers_wf (snd (upsertTx row cs ls d))"
  unfolding upsertTx_def
  by (intro withTx_wf andThen_wf forEach_wf) (auto split: prod.split intro: inv_intros)

lemma upsertLabelsOf_wf: "workers_wf d \<Longrightarrow> workers_wf (snd (upsertLabelsOf i req ex d))"
  unfolding upsertLabelsOf_def
  by (cases "ex \<noteq> None \<and> n_provisioned (the ex) \<noteq> 0") (auto intro!: andThen_wf intro: inv_intros)

lemma upsert_wf [inv_intros]:
  assumes wf: "workers_wf d"
  shows "workers_wf (snd (upsert req sid now d))"
proof -
  have "workers_wf (snd (getWorkerNodeByID i d))" for i using wf by (rule inv_intros)
  then have "workers_wf d'" if "getWorkerNodeByID i d = (r, d')" for i r d'
    using that by (metis snd_conv)
  then show ?thesis
    using wf unfolding upsert_def Let_def
    by (auto split: option.split prod.split sum.split
        intro!: andThen_wf upsertLabelsOf_wf intro: upsertTx_wf)
qed

lemma seedTx_wf: "workers_wf d \<Longrightarrow> workers_wf (snd (seedTx i n ls r l d))"
  unfolding seedTx_def
proof (erule withTx_wf)
  fix d assume wf: "workers_wf d"
  have body: "workers_wf (snd (andThen (forEach (\<lambda>(key, value). insertWorkerLabel
      \<lparr>l_node_id = i, l_label_key = key, l_label_value = value\<rparr>) ls) (\<lambda>_ d. (Inr rows, d)) d))"
    if "workers_wf d" for d and rows :: int
    using that by (intro andThen_wf forEach_wf) (auto split: prod.split intro: inv_intros)
  show "workers_wf (snd (andThen (insertProvisionedWorkerNodeIfAbsent i n r l) (\<lambda>rows.
       if rows = 0 then (\<lambda>d. (Inr rows, d))
       else andThen (forEach (\<lambda>(key, value). insertWorkerLabel
           \<lparr>l_node_id = i, l_label_key = key, l_label_value = value\<rparr>) ls) (\<lambda>_ d. (Inr rows, d))) d))"
    by (rule andThen_wf [OF wf]) (auto intro: inv_intros body)
qed

lemma seed_wf [inv_intros]:
  assumes "workers_wf d"
  shows "workers_wf (snd (seedProvisionedWorkers ws now ttl d))"
proof -
  let ?f = "\<lambda>(workerNodeID, labels) (added, d).
       let nodeID = trimSpace workerNodeID
       in if nodeID = [] then (added, d)
          else case seedTx nodeID (''worker-'' @ shortNodeID nodeID) labels
                 (unixMilli now) (unixMilli (if ttl > 0 then now - (ttl + second) else now - second)) d of
                 (res, d') \<Rightarrow> (if res = Inr 1 then added + 1 else added, d')"
  have "workers_wf (snd (fold ?f ws (k, d)))" if "workers_wf d" for k :: int and d
    using that
  proof (induction ws arbitrary: k d)
    case (Cons w ws)
    obtain i ls where w: "w = (i, ls)" by (cases w)
    have "workers_wf (snd (?f w (k, d)))"
      using seedTx_wf [OF Cons.prems] Cons.prems by (simp add: w Let_def split_beta)
    with Cons.IH [of "snd (?f w (k, d))" "fst (?f w (k, d))"] show ?case by simp
  qed simp
  with assms show ?thesis by (simp add: seedProvisionedWorkers_def Let_def)
qed

lemma snd_case_query [simp]:
  "snd (case r of (Inl e, d') \<Rightarrow> (f e, d') | (Inr x, d') \<Rightarrow> (g x, d')) = snd r"
  by (cases r; cases "fst r") auto

lemma store_ops_snd [simp]:
  "snd (storeDelete i d) = (if trimSpace i = [] then d else snd (deleteWorkerNodeByID (trimSpace i) d))"
  "snd (getCredentialHash i d) = (if trimSpace i = [] then d else snd (getWorkerCredentialByNode (trimSpace i) d))"
  "snd (storeDeleteCredential i d) =
     (if trimSpace i = [] then d else snd (deleteWorkerCredentialByNode (trimSpace i) d))"
  "snd (listCredentialHashes d) = snd (listWorkerCredentials d)"
  "snd (labelsByNodeID i d) = (if trimSpace i = [] then d else snd (listWorkerLabelsByNode (trimSpace i) d))"
  "snd (workerTypeByNodeID i d) = snd (labelsByNodeID i d)"
  by (simp_all add: storeDelete_def getCredentialHash_def storeDeleteCredential_def
      listCredentialHashes_def labelsByNodeID_def workerTypeByNodeID_def Let_def split_beta
      del: snd_case_query)
    (simp_all add: Let_def split: sum.split)

lemma store_ops_wf [inv_intros]:
  assumes wf: "workers_wf d"
  shows "workers_wf (snd (storeDelete i d))" "workers_wf (snd (getCredentialHash i d))"
    "workers_wf (snd (putCredentialHashIfAbsent i h a now d))"
    "workers_wf (snd (storeDeleteCredential i d))" "workers_wf (snd (listCredentialHashes d))"
    "workers_wf (snd (clearSession i sid d))" "workers_wf (snd (clearSessionByNode i d))"
    "workers_wf (snd (labelsByNodeID i d))" "workers_wf (snd (workerTypeByNodeID i d))"
    "workers_wf (snd (countWorkersByOwnerAndType o' ty d))" "workers_wf (snd (listNodeIDsByOwnerAndType o' ty d))"
    "workers_wf (snd (claimWorkerSysOwner o' i now d))" "workers_wf (snd (pruneOffline now ttl d))"
    "workers_wf (snd (listOnlineNodeIDsByCapability c now ttl d))"
    "workers_wf (snd (listOnlineNodeIDsByOwnerTypeAndCapability o' ty c now ttl d))"
    "workers_wf (snd (getByNodeID i now ttl d))"
proof -
  show "workers_wf (snd (storeDelete i d))" "workers_wf (snd (getCredentialHash i d))"
    "workers_wf (snd (storeDeleteCredential i d))" "workers_wf (snd (listCredentialHashes d))"
    "workers_wf (snd (labelsByNodeID i d))" "workers_wf (snd (workerTypeByNodeID i d))"
    using wf by (auto intro: inv_intros)
  show "workers_wf (snd (putCredentialHashIfAbsent i h a now d))"
    using wf insertCredential_wf [OF wf]
    by (simp add: putCredentialHashIfAbsent_def Let_def)
  show "workers_wf (snd (clearSession i sid d))" "workers_wf (snd (clearSessionByNode i d))"
    unfolding clearSession_def clearSessionByNode_def
    by (rule andThen_wf [OF wf]; auto intro: inv_intros)+
  show "workers_wf (snd (claimWorkerSysOwner o' i now d))"
    unfolding claimWorkerSysOwner_def using wf by (auto intro!: andThen_wf intro: inv_intros)
  show "workers_wf (snd (countWorkersByOwnerAndType o' ty d))" "workers_wf (snd (listNodeIDsByOwnerAndType o' ty d))"
    "workers_wf (snd (pruneOffline now ttl d))" "workers_wf (snd (listOnlineNodeIDsByCapability c now ttl d))"
    "workers_wf (snd (listOnlineNodeIDsByOwnerTypeAndCapability o' ty c now ttl d))"
    using wf by (auto simp: countWorkersByOwnerAndType_def listNodeIDsByOwnerAndType_def pruneOffline_def
        listOnlineNodeIDsByCapability_def listOnlineNodeIDsByOwnerTypeAndCapability_def intro: inv_intros)
  show "workers_wf (snd (getByNodeID i now ttl d))"
    unfolding getByNodeID_def Let_def
    using wf by (auto intro!: andThen_wf intro: inv_intros)
qed

lemma touch_wf [inv_intros]:
  assumes wf: "workers_wf d"
  shows "workers_wf (snd (touchWithSession i sid now d))"
proof -
  let ?u = "updateWorkerHeartbeatBySession (unixMilli now) (trimSpace i) (trimSpace sid) d"
  have u: "workers_wf (snd ?u)" using wf by (rule inv_intros)
  have "workers_wf (snd (getWorkerNodeByID (trimSpace i) (snd ?u)))" using u by (rule inv_intros)
  with u show ?thesis
    unfolding touchWithSession_def
    by (cases ?u; cases "fst ?u"; cases "getWorkerNodeByID (trimSpace i) (snd ?u)";
        cases "fst (getWorkerNodeByID (trimSpace i) (snd ?u))") auto
qed

lemma listFilteredViews_wf [inv_intros]:
  assumes wf: "workers_wf d"
  shows "workers_wf (snd (listFilteredViews st now ttl ow ty d))"
proof -
  let ?a = "listWorkerNodesOrdered d"
  let ?b = "listWorkerCapabilitiesAll (snd ?a)"
  let ?c = "listWorkerLabelsAll (snd ?b)"
  have a: "workers_wf (snd ?a)" using wf by (rule inv_intros)
  then have b: "workers_wf (snd ?b)" by (rule inv_intros)
  then have c: "workers_wf (snd ?c)" by (rule inv_intros)
  from a b c show ?thesis
    unfolding listFilteredViews_def
    by (cases ?a; cases "fst ?a"; cases ?b; cases "fst ?b"; cases ?c; cases "fst ?c") auto
qed

lemma list_stats_wf [inv_intros]:
  assumes "workers_wf d"
  shows "workers_wf (snd (listScoped st page psize now ttl ow ty d))"
    "workers_wf (snd (statsScoped now ttl stale ow ty d))"
  using listFilteredViews_wf [OF assms]
  by (simp_all add: listScoped_def statsScoped_def split_beta)

section \<open>Any interleaving of registry operations\<close>

inductive registry_step :: "db \<Rightarrow> db \<Rightarrow> bool" where
  reg_upsert: "registry_step d (snd (upsert req sid now d))"
| reg_seed: "registry_step d (snd (seedProvisionedWorkers ws now ttl d))"
| reg_delete: "registry_step d (snd (storeDelete i d))"
| reg_touch: "registry_step d (snd (touchWithSession i sid now d))"
| reg_clear: "registry_step d (snd (clearSession i sid d))"
| reg_clearNode: "registry_step d (snd (clearSessionByNode i d))"
| reg_clearAll: "registry_step d (snd (clearAllWorkerSessions d))"
| reg_putCredential: "registry_step d (snd (putCredentialHashIfAbsent i h a now d))"
| reg_deleteCredential: "registry_step d (snd (storeDeleteCredential i d))"
| reg_claim: "registry_step d (snd (claimWorkerSysOwner owner i now d))"
| reg_prune: "registry_step d (snd (pruneOffline now ttl d))"
| reg_list: "registry_step d (snd (listScoped st page psize now ttl owner typ d))"
| reg_stats: "registry_step d (snd (statsScoped now ttl stale owner typ d))"
| reg_online: "registry_step d (snd (listOnlineNodeIDsByCapability c now ttl d))"
| reg_get: "registry_step d (snd (getByNodeID i now ttl d))"

lemma registry_step_wf: "registry_step d d' \<Longrightarrow> workers_wf d \<Longrightarrow> workers_wf d'"
  by (induction rule: registry_step.induct) (auto intro: inv_intros simp del: store_ops_snd)

lemma registry_steps_wf: "registry_step\<^sup>*\<^sup>* d d' \<Longrightarrow> workers_wf d \<Longrightarrow> workers_wf d'"
  by (induction rule: rtranclp_induct) (auto intro: registry_step_wf)

section \<open>Labels\<close>

definition labelIn :: "db \<Rightarrow> string \<Rightarrow> string \<Rightarrow> string option" where
  "labelIn d i k = map_of (map (\<lambda>l. ((l_node_id l, l_label_key l), l_label_value l)) (db_labels d)) (i, k)"

lemma labelIn_faults [simp]: "labelIn (d\<lparr>db_faults := fs\<rparr>) = labelIn d"
  by (simp add: labelIn_def fun_eq_iff)

lemma labelIn_update_rows:
  "map_of (map (\<lambda>l. ((l_node_id l, l_label_key l), l_label_value l))
      (updateWhere (\<lambda>l. l_node_id l = i \<and> l_label_key l = k) (l_label_value_update (\<lambda>_. v)) rows)) (i', k') =
    (if i' = i \<and> k' = k \<and> (\<exists>l \<in> set rows. l_node_id l = i \<and> l_label_key l = k) then Some v
     else map_of (map (\<lambda>l. ((l_node_id l, l_label_key l), l_label_value l)) rows) (i', k'))"
  by (induction rows) auto

lemma labelIn_delete_rows:
  "map_of (map (\<lambda>l. ((l_node_id l, l_label_key l), l_label_value l))
      (deleteRows (\<lambda>l. l_node_id l = i) rows)) (i', k') =
    (if i' = i then None
     else map_of (map (\<lambda>l. ((l_node_id l, l_label_key l), l_label_value l)) rows) (i', k'))"
  by (induction rows) auto

lemma labelIn_None_iff:
  "labelIn d i k = None \<longleftrightarrow> \<not> (\<exists>l \<in> set (db_labels d). l_node_id l = i \<and> l_label_key l = k)"
  by (auto simp: labelIn_def map_of_eq_None_iff image_iff)

text \<open>What a successful label insert does; a failed one changes no label.\<close>

lemma insertWorkerLabel_result:
  assumes "insertWorkerLabel row d = (res, d')"
  shows "labelIn d' i k = (if (\<exists>u. res = Inr u) \<and> i = l_node_id row \<and> k = l_label_key row
      then Some (l_label_value row) else labelIn d i k)"
  using assms unfolding insertWorkerLabel_def
proof (cases rule: dbRun_cases)
  case (fault e fs)
  then show ?thesis by simp
next
  case (ran fs)
  then show ?thesis
  proof (cases "\<exists>l \<in> set (db_labels d). l_node_id l = l_node_id row \<and> l_label_key l = l_label_key row")
    case True
    with ran show ?thesis by (auto simp: labelIn_def labelIn_update_rows split: if_splits)
  next
    case False
    then have "labelIn d (l_node_id row) (l_label_key row) = None" by (simp add: labelIn_None_iff)
    with False ran show ?thesis
      by (auto simp: labelIn_def map_add_def split: if_splits option.splits)
  qed
qed

lemma insertLabels_result:
  assumes "forEach (\<lambda>(key, value). insertWorkerLabel
      \<lparr>l_node_id = n, l_label_key = key, l_label_value = value\<rparr>) ls d = (Inr (), d')"
  shows "labelIn d' i k =
    (if i = n then (case map_of (rev ls) k of Some v \<Rightarrow> Some v | None \<Rightarrow> labelIn d i k) else labelIn d i k)"
  using assms
proof (induction ls arbitrary: d)
  case (Cons l ls)
  obtain key v where l: "l = (key, v)" by (cases l)
  let ?row = "\<lparr>l_node_id = n, l_label_key = key, l_label_value = v\<rparr>"
  obtain r d1 where d1: "insertWorkerLabel ?row d = (r, d1)" by (cases "insertWorkerLabel ?row d")
  with Cons.prems l have r: "r = Inr ()"
    by (cases r) (auto simp: andThen_def)
  with Cons.prems l d1 have rest: "forEach (\<lambda>(key, value). insertWorkerLabel
      \<lparr>l_node_id = n, l_label_key = key, l_label_value = value\<rparr>) ls d1 = (Inr (), d')"
    by (simp add: andThen_def)
  from Cons.IH [OF rest] insertWorkerLabel_result [OF d1, of i k] r show ?case
    by (auto simp: l map_add_def split: option.split)
qed simp

definition nodeIn :: "db \<Rightarrow> string \<Rightarrow> worker_node option" where
  "nodeIn d i = List.find (\<lambda>n. n_node_id n = i) (db_nodes d)"

lemma nodeIn_faults [simp]: "nodeIn (d\<lparr>db_faults := fs\<rparr>) = nodeIn d"
  by (simp add: nodeIn_def fun_eq_iff)

lemma find_update_rows:
  "List.find (\<lambda>n. n_node_id n = i) (updateWhere (\<lambda>n. n_node_id n = n_node_id row) (\<lambda>_. row) rows) =
     (if i = n_node_id row \<and> (\<exists>n \<in> set rows. n_node_id n = i) then Some row
      else List.find (\<lambda>n. n_node_id n = i) rows)"
  by (induction rows) auto

lemma find_append: "List.find P (xs @ ys) = (case List.find P xs of None \<Rightarrow> List.find P ys | Some x \<Rightarrow> Some x)"
  by (induction xs) auto

lemma upsertWorkerNode_result:
  assumes "upsertWorkerNode row d = (Inr (), d')"
  shows "nodeIn d' i = (if i = n_node_id row then Some row else nodeIn d i)"
    "labelIn d' = labelIn d"
proof -
  have *: "nodeIn d' i = (if i = n_node_id row then Some row else nodeIn d i) \<and> labelIn d' = labelIn d"
    using assms unfolding upsertWorkerNode_def
  proof (cases rule: dbRun_cases)
    case (fault e fs)
    then show ?thesis by simp
  next
    case (ran fs)
    show ?thesis
    proof (cases "nodeExists (n_node_id row) d")
      case True
      with ran show ?thesis
        by (auto simp: nodeIn_def find_update_rows [where row = row] labelIn_def fun_eq_iff nodeExists_def
            image_iff eq_commute [of "n_node_id row"])
    next
      case False
      then have "List.find (\<lambda>n. n_node_id n = n_node_id row) (db_nodes d) = None"
        unfolding nodeExists_def find_None_iff by (metis imageI)
      with False ran show ?thesis
        by (auto simp: nodeIn_def find_append labelIn_def fun_eq_iff nodeExists_def split: option.split)
    qed
  qed
  from * show "nodeIn d' i = (if i = n_node_id row then Some row else nodeIn d i)"
    "labelIn d' = labelIn d" by auto
qed

lemma caps_queries_frame:
  "deleteWorkerCapabilitiesByNode n d = (r, d') \<Longrightarrow> labelIn d' = labelIn d \<and> nodeIn d' = nodeIn d"
  "insertWorkerCapability row d = (r', d') \<Longrightarrow> labelIn d' = labelIn d \<and> nodeIn d' = nodeIn d"
  unfolding deleteWorkerCapabilitiesByNode_def insertWorkerCapability_def
  by (erule dbRun_cases; auto simp: labelIn_def nodeIn_def fun_eq_iff split: if_splits)+

lemma insertCapabilities_frame:
  "labelIn (snd (forEach (\<lambda>(name, m). insertWorkerCapability
      \<lparr>c_node_id = n, c_capability_name = name, c_max_inflight = m\<rparr>) cs d)) = labelIn d \<and>
   nodeIn (snd (forEach (\<lambda>(name, m). insertWorkerCapability
      \<lparr>c_node_id = n, c_capability_name = name, c_max_inflight = m\<rparr>) cs d)) = nodeIn d"
  by (rule forEach_preserves [where P = "\<lambda>d'. labelIn d' = labelIn d \<and> nodeIn d' = nodeIn d"])
    (auto simp: caps_queries_frame(2) [OF surjective_pairing] split: prod.split)

lemma deleteLabels_result:
  "deleteWorkerLabelsByNode n d = (Inr (), d') \<Longrightarrow>
     labelIn d' i k = (if i = n then None else labelIn d i k) \<and> nodeIn d' = nodeIn d"
  unfolding deleteWorkerLabelsByNode_def
  by (erule dbRun_cases) (auto simp: labelIn_def labelIn_delete_rows nodeIn_def fun_eq_iff)

lemma insertLabels_nodes:
  "nodeIn (snd (forEach (\<lambda>(key, value). insertWorkerLabel
      \<lparr>l_node_id = n, l_label_key = key, l_label_value = value\<rparr>) ls d)) = nodeIn d"
proof (rule forEach_preserves [where P = "\<lambda>d'. nodeIn d' = nodeIn d"])
  fix x :: "string \<times> string" and d'
  assume "nodeIn d' = nodeIn d"
  moreover have "nodeIn (snd (insertWorkerLabel row d')) = nodeIn d'" for row
    unfolding insertWorkerLabel_def
    by (rule dbRun_preserves [where P = "\<lambda>x. nodeIn x = nodeIn d'"]) (auto simp: nodeIn_def fun_eq_iff)
  ultimately show "nodeIn (snd ((case x of (key, value) \<Rightarrow> insertWorkerLabel
      \<lparr>l_node_id = n, l_label_key = key, l_label_value = value\<rparr>) d')) = nodeIn d"
    by (simp split: prod.split)
qed simp

text \<open>An upsert writes exactly the given row and labels for its node, or nothing at all.\<close>

lemma upsertTx_result:
  assumes "upsertTx row cs ls d = (res, d')"
  shows "(\<exists>e. res = Inl e) \<and> labelIn d' = labelIn d \<and> nodeIn d' = nodeIn d \<or>
    res = Inr () \<and> (\<forall>i k. labelIn d' i k = (if i = n_node_id row then map_of (rev ls) k else labelIn d i k)) \<and>
    (\<forall>i. nodeIn d' i = (if i = n_node_id row then Some row else nodeIn d i))"
  using assms unfolding upsertTx_def
proof (cases rule: withTx_cases)
  case (rollback e fs)
  then show ?thesis by simp
next
  case (commit x fs d2 fs')
  let ?caps = "forEach (\<lambda>(name, maxInflight). insertWorkerCapability
     \<lparr>c_node_id = n_node_id row, c_capability_name = name, c_max_inflight = maxInflight\<rparr>) cs"
  let ?labels = "forEach (\<lambda>(key, value). insertWorkerLabel
     \<lparr>l_node_id = n_node_id row, l_label_key = key, l_label_value = value\<rparr>) ls"
  from commit(2) obtain a d3 where 1: "upsertWorkerNode row (d\<lparr>db_faults := fs\<rparr>) = (Inr a, d3)"
    and k1: "andThen (deleteWorkerCapabilitiesByNode (n_node_id row)) (\<lambda>_. andThen ?caps (\<lambda>_.
       andThen (deleteWorkerLabelsByNode (n_node_id row)) (\<lambda>_. ?labels))) d3 = (Inr x, d2)"
    by (rule andThen_Inr)
  from k1 obtain b d4 where 2: "deleteWorkerCapabilitiesByNode (n_node_id row) d3 = (Inr b, d4)"
    and k2: "andThen ?caps (\<lambda>_. andThen (deleteWorkerLabelsByNode (n_node_id row)) (\<lambda>_. ?labels)) d4 = (Inr x, d2)"
    by (rule andThen_Inr)
  from k2 obtain c d5 where 3: "?caps d4 = (Inr c, d5)"
    and k3: "andThen (deleteWorkerLabelsByNode (n_node_id row)) (\<lambda>_. ?labels) d5 = (Inr x, d2)"
    by (rule andThen_Inr)
  from k3 obtain e d6 where 4: "deleteWorkerLabelsByNode (n_node_id row) d5 = (Inr e, d6)"
    and 5: "?labels d6 = (Inr x, d2)"
    by (rule andThen_Inr)
  note r1 = upsertWorkerNode_result [of row "d\<lparr>db_faults := fs\<rparr>" d3] 
  note r2 = caps_queries_frame(1) [OF 2]
  note r3 = insertCapabilities_frame [of "n_node_id row" cs d4]
  note r4 = deleteLabels_result [of "n_node_id row" d5 d6]
  note r5 = insertLabels_result [of "n_node_id row" ls d6 d2]
  note r6 = insertLabels_nodes [of "n_node_id row" ls d6]
  have "labelIn d2 i k = (if i = n_node_id row then map_of (rev ls) k else labelIn d i k)" for i k
    using r1 r2 r3 r4 [of i k] r5 [of i k] 1 3 4 5 by (auto split: option.split)
  moreover have "nodeIn d2 i = (if i = n_node_id row then Some row else nodeIn d i)" for i
    using r1(1) [of i] r2 r3 r4 r6 1 3 4 5 by auto
  ultimately show ?thesis using commit(1,3) by (cases x) simp
qed

lemma map_of_mergeLabels:
  "map_of (mergeLabels base over) k =
     (case map_of (rev over) k of Some v \<Rightarrow> Some v | None \<Rightarrow> map_of base k)"
  unfolding mergeLabels_def
  by (induction over arbitrary: base) (auto simp: map_add_def split: option.splits)

lemma map_of_preserve:
  "map_of (fold (\<lambda>key merged. let trimmedKey = trimSpace key
       in if trimmedKey = [] then merged
          else case map_of base trimmedKey of None \<Rightarrow> merged
               | Some v \<Rightarrow> AList.update trimmedKey v merged) keys m) k =
     (if k \<in> trimSpace ` set keys \<and> k \<noteq> [] \<and> map_of base k \<noteq> None then map_of base k else map_of m k)"
proof (induction keys arbitrary: m)
  case (Cons key keys)
  show ?case
    by (subst fold_simps, subst Cons.IH) (auto simp: Let_def split: option.splits)
qed simp

text \<open>What the merge promises: a protected key of the base keeps its value, any other key takes
  the worker's value, and a key the worker leaves out keeps the base's.\<close>

lemma mergeLabelsPreserveKeys_lookup:
  "map_of (mergeLabelsPreserveKeys base over keys) k =
     (if k \<in> trimSpace ` set keys \<and> k \<noteq> [] \<and> map_of base k \<noteq> None then map_of base k
      else case map_of (rev over) k of Some v \<Rightarrow> Some v | None \<Rightarrow> map_of base k)"
  unfolding mergeLabelsPreserveKeys_def map_of_preserve map_of_mergeLabels ..

lemma keys_mergeLabels: "keys_distinct base \<Longrightarrow> keys_distinct (mergeLabels base over)"
  unfolding mergeLabels_def by (induction over arbitrary: base) auto

lemma keys_mergePreserve:
  assumes "keys_distinct base"
  shows "keys_distinct (mergeLabelsPreserveKeys base over keys)"
proof -
  have "keys_distinct m \<Longrightarrow> keys_distinct (fold (\<lambda>key merged. let trimmedKey = trimSpace key
       in if trimmedKey = [] then merged
          else case map_of base trimmedKey of None \<Rightarrow> merged
               | Some v \<Rightarrow> AList.update trimmedKey v merged) keys m)" for m
    by (induction keys arbitrary: m) (auto simp: Let_def split: option.splits)
  with keys_mergeLabels [OF assms] show ?thesis unfolding mergeLabelsPreserveKeys_def by blast
qed

lemma map_of_rev_distinct: "keys_distinct m \<Longrightarrow> map_of (rev m) = map_of m"
  by (rule map_of_inject_set [THEN iffD2]) (simp_all add: rev_map [symmetric])

lemma rowsToLabels_fold:
  "map_of (fold (\<lambda>row m. AList.update (l_label_key row) (l_label_value row) m) rows m) k =
     (case map_of (rev (map (\<lambda>l. (l_label_key l, l_label_value l)) rows)) k of Some v \<Rightarrow> Some v | None \<Rightarrow> map_of m k)"
  by (induction rows arbitrary: m) (auto simp: map_add_def split: option.splits)

lemma keys_rowsToLabels [simp]: "keys_distinct (rowsToLabels rows)"
proof -
  have "keys_distinct m \<Longrightarrow>
      keys_distinct (fold (\<lambda>row m. AList.update (l_label_key row) (l_label_value row) m) rows m)" for m
    by (induction rows arbitrary: m) auto
  then show ?thesis by (simp add: rowsToLabels_def)
qed

text \<open>The rows of a node, in any order, give back its labels.\<close>

lemma rowsToLabels_node:
  assumes wf: "workers_wf d" and rows: "set rows = {l \<in> set (db_labels d). l_node_id l = i}"
    and dist: "distinct rows"
  shows "map_of (rowsToLabels rows) k = labelIn d i k"
proof -
  let ?kv = "\<lambda>l. (l_label_key l, l_label_value l)"
  let ?full = "map (\<lambda>l. ((l_node_id l, l_label_key l), l_label_value l)) (db_labels d)"
  have full: "distinct (map fst ?full)" using wf by (simp add: workers_wf_def comp_def)
  have "inj_on (\<lambda>l. (l_node_id l, l_label_key l)) (set (db_labels d))"
    using wf by (simp add: workers_wf_def distinct_map)
  then have "inj_on l_label_key (set rows)" unfolding rows by (auto simp: inj_on_def)
  with dist have kd: "keys_distinct (map ?kv rows)" by (simp add: distinct_map comp_def)
  have "map_of (map ?kv rows) k = Some v \<longleftrightarrow> labelIn d i k = Some v" for v
  proof -
    have "map_of (map ?kv rows) k = Some v \<longleftrightarrow> (k, v) \<in> set (map ?kv rows)"
      by (rule map_of_eq_Some_iff [OF kd])
    also have "\<dots> \<longleftrightarrow> ((i, k), v) \<in> set ?full" using rows by auto
    also have "\<dots> \<longleftrightarrow> labelIn d i k = Some v"
      unfolding labelIn_def by (rule map_of_eq_Some_iff [OF full, symmetric])
    finally show ?thesis .
  qed
  then have "map_of (map ?kv rows) k = labelIn d i k"
    by (metis option.exhaust)
  moreover have "map_of (rowsToLabels rows) k = map_of (map ?kv rows) k"
    unfolding rowsToLabels_def rowsToLabels_fold map_of_rev_distinct [OF kd] by (simp split: option.split)
  ultimately show ?thesis by simp
qed

lemma listWorkerLabelsByNode_result:
  assumes "listWorkerLabelsByNode i d = (Inr rows, d')" and wf: "workers_wf d"
  shows "map_of (rowsToLabels rows) k = labelIn d i k" "labelIn d' = labelIn d" "nodeIn d' = nodeIn d"
proof -
  obtain fs where rows: "rows = sort_key l_label_key (filter (\<lambda>l. l_node_id l = i) (db_labels d))"
    and d': "d' = d\<lparr>db_faults := fs\<rparr>"
    using assms(1) unfolding listWorkerLabelsByNode_def by (elim dbRun_cases) auto
  have "distinct (db_labels d)" using wf by (simp add: workers_wf_def distinct_map)
  then have "distinct rows" "set rows = {l \<in> set (db_labels d). l_node_id l = i}"
    by (simp_all add: rows)
  then show "map_of (rowsToLabels rows) k = labelIn d i k" using rowsToLabels_node [OF wf] by blast
  show "labelIn d' = labelIn d" "nodeIn d' = nodeIn d" by (simp_all add: d')
qed

lemma getWorkerNodeByID_result:
  assumes "getWorkerNodeByID i d = (res, d')"
  shows "labelIn d' = labelIn d" "nodeIn d' = nodeIn d" "res = Inr n \<Longrightarrow> nodeIn d i = Some n"
    "res = Inl ErrNoRows \<Longrightarrow> nodeIn d i = None" "workers_wf d \<Longrightarrow> workers_wf d'"
  using assms unfolding getWorkerNodeByID_def
  by (cases rule: dbRun_cases; auto simp: nodeIn_def fun_eq_iff labelIn_def split: option.splits)+

lemma upsertLabelsOf_result:
  assumes "upsertLabelsOf i req (Some node) d = (Inr (p, ls), d')" and "n_provisioned node \<noteq> 0"
    and wf: "workers_wf d"
  shows "p = 1" "labelIn d' = labelIn d" "nodeIn d' = nodeIn d"
    "k \<in> {labelOwnerIDKey, labelWorkerTypeKey} \<Longrightarrow> labelIn d i k \<noteq> None \<Longrightarrow> map_of (rev ls) k = labelIn d i k"
proof -
  obtain rows d1 where q: "listWorkerLabelsByNode i d = (Inr rows, d1)"
    and r: "p = 1" "ls = mergeLabelsPreserveKeys (rowsToLabels rows) (ch_labels req)
              [labelOwnerIDKey, labelWorkerTypeKey]" "d' = d1"
    using assms(1,2) unfolding upsertLabelsOf_def by (auto elim: andThen_Inr)
  show "p = 1" "labelIn d' = labelIn d" "nodeIn d' = nodeIn d"
    using r listWorkerLabelsByNode_result [OF q wf] by simp_all
  assume k: "k \<in> {labelOwnerIDKey, labelWorkerTypeKey}" and lab: "labelIn d i k \<noteq> None"
  have keys: "trimSpace labelOwnerIDKey = labelOwnerIDKey" "trimSpace labelWorkerTypeKey = labelWorkerTypeKey"
    "labelOwnerIDKey \<noteq> []" "labelWorkerTypeKey \<noteq> []" by code_simp+
  have "keys_distinct ls" unfolding r(2) by (rule keys_mergePreserve) simp
  then have "map_of (rev ls) k = map_of ls k" by (simp add: map_of_rev_distinct)
  also have "\<dots> = labelIn d i k"
    using k lab keys listWorkerLabelsByNode_result(1) [OF q wf, of k]
    unfolding r(2) mergeLabelsPreserveKeys_lookup by auto
  finally show "map_of (rev ls) k = labelIn d i k" .
qed

section \<open>Properties\<close>


definition demoSeeded :: db where
  "demoSeeded = emptyDB\<lparr>
     db_nodes := [\<lparr>n_node_id = ''n1'', n_session_id = [], n_provisioned = 1, n_node_name = ''worker-n1'',
       n_executor_kind = [], n_version = [], n_registered_at = 100000, n_last_seen_at = 99000\<rparr>],
     db_labels := [\<lparr>l_node_id = ''n1'', l_label_key = ''obx.owner_id'', l_label_value = ''alice''\<rparr>,
       \<lparr>l_node_id = ''n1'', l_label_key = ''obx.worker_type'', l_label_value = ''normal''\<rparr>]\<rparr>"

lemma demoSeeded_wf: "workers_wf demoSeeded"
  by (simp add: workers_wf_def demoSeeded_def emptyDB_def)

lemma demoSeeded_seed:
  "seedProvisionedWorkers [(''n1'', [(''obx.owner_id'', ''alice''), (''obx.worker_type'', ''normal'')])]
     100000000000 0 emptyDB = (1, demoSeeded)"
  by code_simp


text \<open>A worker cannot change who owns it: whatever labels its hello carries, and whether the
  registration succeeds or fails, a provisioned node keeps its owner label and its worker-type
  label, and it stays provisioned.\<close>

theorem upsert_keeps_owner:
  assumes wf: "workers_wf d" and node: "nodeIn d (trimSpace (ch_nodeId req)) = Some node"
    and prov: "n_provisioned node \<noteq> 0"
    and key: "k = labelOwnerIDKey \<or> k = labelWorkerTypeKey"
    and lab: "labelIn d (trimSpace (ch_nodeId req)) k = Some v"
  shows "labelIn (snd (upsert (Some req) sid now d)) (trimSpace (ch_nodeId req)) k = Some v \<and>
    (\<exists>node'. nodeIn (snd (upsert (Some req) sid now d)) (trimSpace (ch_nodeId req)) = Some node' \<and>
       n_provisioned node' \<noteq> 0)"
proof -
  let ?i = "trimSpace (ch_nodeId req)"
  let ?keeps = "\<lambda>d'. labelIn d' ?i k = Some v \<and> (\<exists>node'. nodeIn d' ?i = Some node' \<and> n_provisioned node' \<noteq> 0)"
  have d: "?keeps d" using node prov lab by blast
  show ?thesis
  proof (cases "?i = [] \<or> trimSpace sid = []")
    case True
    with d show ?thesis by (auto simp: upsert_def Let_def)
  next
    case False
    obtain res d1 where g: "getWorkerNodeByID ?i d = (res, d1)" by (cases "getWorkerNodeByID ?i d")
    note gr = getWorkerNodeByID_result [OF g]
    show ?thesis
    proof (cases res)
      case (Inl e)
      with gr(4) node have "e \<noteq> ErrNoRows" by auto
      with Inl False g d gr(1,2) show ?thesis by (auto simp: upsert_def Let_def)
    next
      case (Inr n)
      with gr(3) node have n: "n = node" by auto
      let ?row = "\<lambda>p. \<lparr>n_node_id = ?i, n_session_id = trimSpace sid, n_provisioned = p,
         n_node_name = (if trimSpace (ch_nodeName req) = [] then n_node_name node else trimSpace (ch_nodeName req)),
         n_executor_kind = ch_executorKind req, n_version = ch_version req,
         n_registered_at = unixMilli now, n_last_seen_at = unixMilli now\<rparr>"
      have u: "upsert (Some req) sid now d =
          andThen (upsertLabelsOf ?i req (Some node)) (\<lambda>(p, ls).
            upsertTx (?row p) (cloneProtoCapabilities (ch_capabilities req)) ls) d1"
        using False g Inr n by (simp add: upsert_def Let_def)
      obtain r2 d2 where l: "upsertLabelsOf ?i req (Some node) d1 = (r2, d2)"
        by (cases "upsertLabelsOf ?i req (Some node) d1")
      show ?thesis
      proof (cases r2)
        case (Inl e)
        have "labelIn d2 = labelIn d1 \<and> nodeIn d2 = nodeIn d1"
          using l prov Inl unfolding upsertLabelsOf_def andThen_def listWorkerLabelsByNode_def
          by (auto split: prod.splits sum.splits elim!: dbRun_cases)
        with u l Inl d gr(1,2) show ?thesis by (simp add: andThen_def)
      next
        case (Inr pl)
        obtain p ls where pl: "pl = (p, ls)" by (cases pl)
        have wf1: "workers_wf d1" using gr(5) wf by simp
        note lr = upsertLabelsOf_result [OF l [unfolded Inr pl] prov wf1]
        obtain r3 d3 where t: "upsertTx (?row p) (cloneProtoCapabilities (ch_capabilities req)) ls d2 = (r3, d3)"
          by (cases "upsertTx (?row p) (cloneProtoCapabilities (ch_capabilities req)) ls d2")
        have "map_of (rev ls) k = Some v"
          using lr(4) [of k] key lab gr(1) by auto
        with upsertTx_result [OF t] lr(1-3) gr(1,2) d have "?keeps d3" by auto
        with u l Inr pl t show ?thesis by (simp add: andThen_def)
      qed
    qed
  qed
qed

definition thiefHello :: connectHello where
  "thiefHello = \<lparr>ch_nodeId = ''n1'', ch_nodeName = [], ch_executorKind = ''docker'',
     ch_labels = [(''obx.owner_id'', ''mallory''), (''zone'', ''a'')], ch_version = ''1'',
     ch_capabilities = [Some \<lparr>cap_name = ''echo'', cap_maxInflight = 2\<rparr>], ch_workerSecret = ''s''\<rparr>"

theorem upsert_keeps_owner_witness:
  "labelIn (snd (upsert (Some thiefHello) ''s1'' 200000000000 demoSeeded)) ''n1'' ''obx.owner_id'' = Some ''alice''"
proof -
  have i: "trimSpace (ch_nodeId thiefHello) = ''n1''" by code_simp
  obtain node where node: "nodeIn demoSeeded ''n1'' = Some node" "n_provisioned node \<noteq> 0"
    by (simp add: nodeIn_def demoSeeded_def)
  have lab: "labelIn demoSeeded ''n1'' ''obx.owner_id'' = Some ''alice''"
    by (simp add: labelIn_def demoSeeded_def)
  note wf = demoSeeded_wf
  have k: "(''obx.owner_id'' :: string) = labelOwnerIDKey" by (simp add: labelOwnerIDKey_def)
  from upsert_keeps_owner [of demoSeeded thiefHello node "''obx.owner_id''" "''alice''" "''s1''" 200000000000]
  show ?thesis using wf node lab k by (simp add: i)
qed

lemma find_where:
  assumes "distinct (map n_node_id ns)" and "\<And>n. n_node_id (f n) = n_node_id n"
  shows "List.find (\<lambda>n. n_node_id n = j) (updateWhere (\<lambda>n. n_node_id n = i \<and> Q n) f ns) =
    (case List.find (\<lambda>n. n_node_id n = j) ns of None \<Rightarrow> None
     | Some n \<Rightarrow> Some (if j = i \<and> Q n then f n else n))"
  using assms by (induction ns) auto

lemma countWhere_node:
  assumes "distinct (map n_node_id ns)"
  shows "countWhere (\<lambda>n. n_node_id n = i \<and> Q n) ns =
    (case List.find (\<lambda>n. n_node_id n = i) ns of None \<Rightarrow> 0 | Some n \<Rightarrow> if Q n then 1 else 0)"
  using assms
proof (induction ns)
  case (Cons n ns)
  have "n_node_id n \<notin> n_node_id ` set ns" using Cons.prems by simp
  then have "n_node_id n = i \<Longrightarrow> filter (\<lambda>m. n_node_id m = i \<and> Q m) ns = []"
    unfolding filter_empty_conv by (metis imageI)
  with Cons show ?case by (auto simp: countWhere_def)
qed (simp add: countWhere_def)

text \<open>A heartbeat is accepted exactly when it comes from the node's current session, and then
  it moves the node's last-seen time and nothing else; an unknown node and an outdated session
  are told apart.\<close>

theorem heartbeat_outcome:
  assumes wf: "workers_wf d" and nf: "db_faults d = []"
  shows "fst (touchWithSession i sid now d) =
      (case nodeIn d (trimSpace i) of None \<Rightarrow> Inl ErrNodeNotFound
       | Some n \<Rightarrow> if n_session_id n = trimSpace sid then Inr () else Inl ErrSessionMismatch) \<and>
    nodeIn (snd (touchWithSession i sid now d)) j =
      (case nodeIn d j of None \<Rightarrow> None
       | Some n \<Rightarrow> Some (if j = trimSpace i \<and> n_session_id n = trimSpace sid
                          then n\<lparr>n_last_seen_at := unixMilli now\<rparr> else n))"
proof -
  have dist: "distinct (map n_node_id (db_nodes d))" using wf by (simp add: workers_wf_def)
  let ?i = "trimSpace i" and ?s = "trimSpace sid"
  let ?f = "n_last_seen_at_update (\<lambda>_. unixMilli now)"
  let ?d = "d\<lparr>db_nodes := updateWhere (\<lambda>n. n_node_id n = ?i \<and> n_session_id n = ?s) ?f (db_nodes d)\<rparr>"
  have u: "updateWorkerHeartbeatBySession (unixMilli now) ?i ?s d =
      (Inr (case nodeIn d ?i of None \<Rightarrow> 0 | Some n \<Rightarrow> if n_session_id n = ?s then 1 else 0), ?d)"
    using nf countWhere_node [OF dist, of ?i "\<lambda>n. n_session_id n = ?s"]
    by (simp add: updateWorkerHeartbeatBySession_def nodeIn_def)
  have look: "nodeIn ?d j = (case nodeIn d j of None \<Rightarrow> None
       | Some n \<Rightarrow> Some (if j = ?i \<and> n_session_id n = ?s then ?f n else n))" for j
    using find_where [OF dist, of ?f j ?i "\<lambda>n. n_session_id n = ?s"] by (simp add: nodeIn_def)
  have g: "getWorkerNodeByID ?i ?d = (case nodeIn ?d ?i of None \<Rightarrow> Inl ErrNoRows | Some n \<Rightarrow> Inr n, ?d)"
    using nf by (simp add: getWorkerNodeByID_def nodeIn_def)
  show ?thesis
    unfolding touchWithSession_def u
    using look [of j] look [of ?i]
    by (cases "nodeIn d ?i") (auto simp: g split: option.split)
qed

theorem heartbeat_outcome_witness:
  "fst (touchWithSession ''n1'' ''s9'' 5 demoSeeded) = Inl ErrSessionMismatch"
proof -
  have "db_faults demoSeeded = []" by (simp add: demoSeeded_def emptyDB_def)
  moreover have "trimSpace ''n1'' = ''n1''" "trimSpace ''s9'' = ''s9''" by code_simp+
  ultimately show ?thesis
    using heartbeat_outcome [OF demoSeeded_wf, of "''n1''" "''s9''" 5]
    by (simp add: nodeIn_def demoSeeded_def)
qed

text \<open>While the arithmetic does not overflow, page \<open>p\<close> is the \<open>p\<close>-th block of \<open>pageSize\<close>
  entries of the filtered list, and the pages put together are the list: no entry is skipped
  or shown twice.\<close>

theorem pages_partition:
  assumes "0 < k" and "int (Suc n * k) < 2 ^ 63" and "length xs \<le> n * k"
  shows "(\<forall>p < n. paginate (int p + 1) (int k) xs = Some (take k (drop (p * k) xs), int (length xs))) \<and>
    concat (map (\<lambda>p. fst (the (paginate (int p + 1) (int k) xs))) [0..<n]) = xs"
proof -
  have page: "paginate (int p + 1) (int k) xs = Some (take k (drop (p * k) xs), int (length xs))"
    if p: "p < n" for p
  proof -
    have "p * k \<le> n * k" using p by (intro mult_le_mono1) simp
    then have "int (p * k + k) \<le> int (Suc n * k)" by (intro of_nat_mono) simp
    with assms(2) have b2: "int (p * k + k) < 2 ^ 63" by (rule le_less_trans [rotated])
    moreover have "int (p * k) \<le> int (p * k + k)" by simp
    ultimately have b: "int (p * k) < 2 ^ 63" "int (p * k + k) < 2 ^ 63"
      by (blast intro: le_less_trans)+
    have "p * 1 \<le> p * k" using assms(1) by (intro mult_le_mono2) simp
    then have "int p \<le> int (p * k)" unfolding mult_1_right by (rule of_nat_mono)
    with b have small: "int p < 2 ^ 63" by linarith
    have w: "wrap64 (int p) = int p" "wrap64 (int p * int k) = int (p * k)"
      "wrap64 (int (p * k) + int k) = int (p * k + k)"
      using wrap64_id [of "int p"] wrap64_id [of "int (p * k)"] wrap64_id [of "int (p * k + k)"] b small
      by (simp_all add: order_trans [of _ "0 :: int"])
    have t: "int (length xs) \<le> int p * int k \<longleftrightarrow> length xs \<le> p * k"
      "int (length xs) < int p * int k + int k \<longleftrightarrow> length xs < p * k + k"
      by (metis of_nat_le_iff of_nat_mult, metis of_nat_add of_nat_less_iff of_nat_mult)
    have slice: "go_slice xs (int p * int k) (int b) = Some (take (b - p * k) (drop (p * k) xs))"
      if "p * k \<le> b" "b \<le> length xs" for b
    proof -
      have "int p * int k \<le> int b" "nat (int b - int p * int k) = b - p * k" "nat (int p * int k) = p * k"
        using that by (simp_all add: nat_minus_as_int flip: of_nat_mult)
      with that show ?thesis by (simp add: go_slice_def)
    qed
    show ?thesis
      using w assms(1) t slice [of "p * k + k"] slice [of "length xs"]
      by (auto simp: paginate_def Let_def)
  qed
  have cat: "concat (map (\<lambda>p. take k (drop (p * k) xs)) [0..<m]) = take (m * k) xs" for m
    by (induction m) (simp_all add: take_add [symmetric] add.commute)
  have m: "map (\<lambda>p. fst (the (paginate (int p + 1) (int k) xs))) [0..<n] =
      map (\<lambda>p. take k (drop (p * k) xs)) [0..<n]"
    by (rule map_cong) (use page in auto)
  have "concat (map (\<lambda>p. fst (the (paginate (int p + 1) (int k) xs))) [0..<n]) = xs"
    unfolding m cat using assms(3) by simp
  with page show ?thesis by blast
qed

theorem pages_partition_witness:
  "paginate 2 2 [1::nat, 2, 3, 4, 5] = Some ([3, 4], 5)"
  using pages_partition [of 2 3 "[1::nat, 2, 3, 4, 5]"] by (auto dest!: spec [of _ 1])

text \<open>A page number near the largest \<open>int\<close> makes the start index overflow to a negative
  value, and the slice expression panics instead of answering an empty page.\<close>

theorem page_overflow_panics:
  "paginate (2 ^ 63 - 1) 20 xs = None"
proof -
  have "wrap64 (wrap64 (2 ^ 63 - 1 - 1) * 20) = - 40" "wrap64 (- 40 + 20) = - 20"
    by (simp_all add: wrap64_def)
  then show ?thesis by (simp add: paginate_def Let_def go_slice_def)
qed

lemma stats_fold:
  "fold (\<lambda>worker stats.
     let stats = stats\<lparr>st_total := st_total stats + 1\<rparr>;
         stats = (if v_status worker = StatusOnline then stats\<lparr>st_online := st_online stats + 1\<rparr>
                  else stats\<lparr>st_offline := st_offline stats + 1\<rparr>)
     in if now - v_lastSeenAt worker > stale then stats\<lparr>st_stale := st_stale stats + 1\<rparr> else stats) ws z =
   \<lparr>st_total = st_total z + int (length ws),
    st_online = st_online z + int (length (filter (\<lambda>w. v_status w = StatusOnline) ws)),
    st_offline = st_offline z + int (length (filter (\<lambda>w. v_status w \<noteq> StatusOnline) ws)),
    st_stale = st_stale z + int (length (filter (\<lambda>w. now - v_lastSeenAt w > stale) ws))\<rparr>"
  by (induction ws arbitrary: z) (auto simp: Let_def)

text \<open>The dashboard's counters agree with the listing: online and offline add up to the total,
  and each is the number of workers the listing shows under that status.\<close>

theorem stats_agree_with_list:
  assumes "db_faults d = []"
  shows "st_total (fst (statsScoped now ttl stale owner typ d)) =
      st_online (fst (statsScoped now ttl stale owner typ d)) + st_offline (fst (statsScoped now ttl stale owner typ d)) \<and>
    st_online (fst (statsScoped now ttl stale owner typ d)) =
      int (length (fst (listFilteredViews StatusOnline now ttl owner typ d))) \<and>
    st_offline (fst (statsScoped now ttl stale owner typ d)) =
      int (length (fst (listFilteredViews StatusOffline now ttl owner typ d)))"
proof -
  let ?all = "fst (listFilteredViews StatusAll now ttl owner typ d)"
  have stats: "fst (statsScoped now ttl stale owner typ d) =
     \<lparr>st_total = int (length ?all),
      st_online = int (length (filter (\<lambda>w. v_status w = StatusOnline) ?all)),
      st_offline = int (length (filter (\<lambda>w. v_status w \<noteq> StatusOnline) ?all)),
      st_stale = int (length (filter (\<lambda>w. now - v_lastSeenAt w > stale) ?all))\<rparr>"
    by (simp add: statsScoped_def split_beta stats_fold)
  have st: "v_status (nodeView now ttl cs ls n) \<in> {StatusOnline, StatusOffline}" for cs ls n
    by (simp add: nodeView_def statusOf_def Let_def)
  have sub: "fst (listFilteredViews s now ttl owner typ d) = filter (\<lambda>w. v_status w = s) ?all"
    if "s \<noteq> StatusAll" for s
    using assms that
    by (auto simp: listFilteredViews_def listWorkerNodesOrdered_def listWorkerCapabilitiesAll_def
        listWorkerLabelsAll_def viewMatches_def intro!: filter_cong)
  have "filter (\<lambda>w. v_status w \<noteq> StatusOnline) ?all = filter (\<lambda>w. v_status w = StatusOffline) ?all"
  proof (rule filter_cong [OF refl])
    fix w assume "w \<in> set ?all"
    with assms have "v_status w \<in> {StatusOnline, StatusOffline}"
      using st by (auto simp: listFilteredViews_def listWorkerNodesOrdered_def
          listWorkerCapabilitiesAll_def listWorkerLabelsAll_def)
    then show "v_status w \<noteq> StatusOnline \<longleftrightarrow> v_status w = StatusOffline" by auto
  qed
  moreover have "length ?all = length (filter (\<lambda>w. v_status w = StatusOnline) ?all) +
      length (filter (\<lambda>w. v_status w \<noteq> StatusOnline) ?all)"
    by (rule sum_length_filter_compl [symmetric])
  ultimately show ?thesis using sub [of StatusOnline] sub [of StatusOffline] by (simp add: stats)
qed

theorem stats_agree_with_list_witness:
  "st_offline (fst (statsScoped 100000000000 0 0 [] [] demoSeeded)) =
   int (length (fst (listFilteredViews StatusOffline 100000000000 0 [] [] demoSeeded)))"
proof -
  have "db_faults demoSeeded = []" by (simp add: demoSeeded_def emptyDB_def)
  from stats_agree_with_list [OF this] show ?thesis by blast
qed

end
