(* ===== verification/Service.thy ===== *)
theory Service
  imports TaskStore WorkerStore TerminalRoutes
begin

text \<open>
  The state of \<open>RegistryService\<close> (\<open>console/internal/grpcserver/service.go\<close>), its session
  table (\<open>service_connect.go\<close>: \<open>getSession\<close>, \<open>swapSession\<close>, \<open>removeSession\<close>), and worker
  credentials and provisioning (\<open>service_credentials_runtime.go\<close>, \<open>credentials.go\<close>,
  \<open>persistence/hash.go\<close>). Sessions and task records are shared objects, so the tables hold
  addresses into \<open>sv_heap\<close> and \<open>sv_taskHeap\<close>. \<open>sv_now\<close> is what \<open>nowFn\<close> answers during a
  step. The keyed hash (HMAC-SHA-256 in hex) is the function \<open>sv_hasher\<close>; random ids are
  arguments. An operation that releases its locks on the way takes the steps other goroutines
  run there as an argument of type \<open>service \<Rightarrow> service\<close>.
\<close>

record taskRecord =
  rec_id :: string
  rec_ownerID :: string
  rec_requestID :: string
  rec_hasCancel :: bool
  rec_canceled :: bool
  rec_done :: bool

record service =
  sv_db :: db
  sv_credentials :: "(string \<times> string) list"
  sv_credentialHashAlgo :: string
  sv_hasher :: "(string \<Rightarrow> string) option"
  sv_heartbeatIntervalSec :: int
  sv_offlineTTLSec :: int
  sv_now :: gtime
  sv_taskRetention :: gduration
  sv_heap :: "activeSession list"
  sv_sessions :: "(string \<times> nat) list"
  sv_roundRobin :: nat
  sv_routes :: routes
  sv_taskHeap :: "taskRecord list"
  sv_tasks :: "(string \<times> nat) list"
  sv_reservations :: "string list"
  sv_criticalFailures :: "go_error list"
  sv_lastInlineTaskPruneUnixMs :: int

definition legacyPlain :: string where "legacyPlain = ''legacy-plain''"
definition hashAlgorithmHMACSHA256 :: string where "hashAlgorithmHMACSHA256 = ''hmac-sha256''"
definition maxNodeIDLength :: nat where "maxNodeIDLength = 128"
definition maxProvisioningCreateAttempts :: nat where "maxProvisioningCreateAttempts = 8"
definition defaultTaskRetentionWindow :: gduration where "defaultTaskRetentionWindow = 10 * minute"
definition defaultWorkerOwnerID :: string where "defaultWorkerOwnerID = ''system''"

definition newRegistryService :: "db \<Rightarrow> (string \<times> string) list \<Rightarrow> int \<Rightarrow> int \<Rightarrow> gtime \<Rightarrow> service" where
  "newRegistryService store initialCredentials heartbeatIntervalSec offlineTTLSec now =
     \<lparr>sv_db = store,
      sv_credentials = fold (\<lambda>(workerID, secret) m. AList.update workerID secret m) initialCredentials [],
      sv_credentialHashAlgo = legacyPlain, sv_hasher = None,
      sv_heartbeatIntervalSec = heartbeatIntervalSec, sv_offlineTTLSec = offlineTTLSec, sv_now = now,
      sv_taskRetention = defaultTaskRetentionWindow, sv_heap = [], sv_sessions = [], sv_roundRobin = 0,
      sv_routes = emptyRoutes, sv_taskHeap = [], sv_tasks = [], sv_reservations = [],
      sv_criticalFailures = [], sv_lastInlineTaskPruneUnixMs = 0\<rparr>"

definition setTaskRetention :: "gduration \<Rightarrow> service \<Rightarrow> service" where
  "setTaskRetention retention s = (if retention \<le> 0 then s else s\<lparr>sv_taskRetention := retention\<rparr>)"

definition setHasher :: "(string \<Rightarrow> string) option \<Rightarrow> service \<Rightarrow> service" where
  "setHasher hasher s = s\<lparr>sv_hasher := hasher,
     sv_credentialHashAlgo := (if hasher \<noteq> None then hashAlgorithmHMACSHA256 else legacyPlain)\<rparr>"

definition offlineTTL :: "service \<Rightarrow> gduration" where
  "offlineTTL s = sv_offlineTTLSec s * second"

text \<open>A call of the store.\<close>

definition onStore :: "(db \<Rightarrow> 'a \<times> db) \<Rightarrow> service \<Rightarrow> 'a \<times> service" where
  "onStore f s = (case f (sv_db s) of (r, d) \<Rightarrow> (r, s\<lparr>sv_db := d\<rparr>))"

text \<open>An operation on the session at an address.\<close>

definition putSession :: "nat \<Rightarrow> activeSession \<Rightarrow> service \<Rightarrow> service" where
  "putSession a se s = s\<lparr>sv_heap := (sv_heap s)[a := se]\<rparr>"

definition allocSession :: "activeSession \<Rightarrow> service \<Rightarrow> nat \<times> service" where
  "allocSession se s = (length (sv_heap s), s\<lparr>sv_heap := sv_heap s @ [se]\<rparr>)"

definition getSession :: "string \<Rightarrow> service \<Rightarrow> nat option" where
  "getSession nodeID s = map_of (sv_sessions s) nodeID"

definition swapSession :: "nat \<Rightarrow> service \<Rightarrow> nat option \<times> service" where
  "swapSession a s =
     (let nodeID = as_nodeID (sv_heap s ! a); replaced = map_of (sv_sessions s) nodeID;
          s = s\<lparr>sv_sessions := AList.update nodeID a (sv_sessions s)\<rparr>
      in (replaced, s\<lparr>sv_routes := clearTerminalSessionRoutesByNode nodeID (sv_routes s)\<rparr>))"

definition removeSession :: "nat \<Rightarrow> service \<Rightarrow> service" where
  "removeSession a s =
     (let session = sv_heap s ! a
      in case map_of (sv_sessions s) (as_nodeID session) of
           None \<Rightarrow> s
         | Some current \<Rightarrow>
             if as_sessionID (sv_heap s ! current) \<noteq> as_sessionID session then s
             else let s = s\<lparr>sv_sessions := AList.delete (as_nodeID session) (sv_sessions s)\<rparr>;
                      s = s\<lparr>sv_routes := clearTerminalSessionRoutesByNode (as_nodeID session) (sv_routes s)\<rparr>
                  in snd (onStore (clearSession (as_nodeID session) (as_sessionID session)) s))"

text \<open>\<open>session.close(err)\<close>: its two phases with other goroutines between them (\<open>i\<close>). A close
  that would panic is \<open>None\<close>.\<close>

definition closeAt :: "(service \<Rightarrow> service) \<Rightarrow> nat \<Rightarrow> go_error option \<Rightarrow> service \<Rightarrow> service option" where
  "closeAt i a err s =
     (if as_closeOnce (sv_heap s ! a) then Some s
      else let s = i (putSession a (close_begin err (sv_heap s ! a)) s)
           in map_option (\<lambda>se. putSession a se s) (close_drain (sv_heap s ! a)))"

section \<open>Credentials\<close>

text \<open>\<open>Hasher.Equal\<close>; the comparison is constant-time in the source.\<close>

definition hasherEqual :: "(string \<Rightarrow> string) \<Rightarrow> string \<Rightarrow> string \<Rightarrow> bool" where
  "hasherEqual hash stored plain \<longleftrightarrow> trimSpace stored = hash plain"

text \<open>\<open>getCredential\<close>: the cache is read, then the store, then the cache is written, each under
  its own lock; \<open>i\<close> runs between the store's answer and the write.\<close>

definition getCredential :: "(service \<Rightarrow> service) \<Rightarrow> string \<Rightarrow> service \<Rightarrow> string option \<times> service" where
  "getCredential i nodeID s =
     (let trimmedNodeID = trimSpace nodeID
      in if trimmedNodeID = [] then (None, s)
         else case map_of (sv_credentials s) trimmedNodeID of
                Some secret \<Rightarrow> (Some secret, s)
              | None \<Rightarrow>
                  (case onStore (getCredentialHash trimmedNodeID) s of
                     (None, s) \<Rightarrow> (None, s)
                   | (Some hash, s) \<Rightarrow>
                       let s = i s
                       in (Some hash, s\<lparr>sv_credentials := AList.update trimmedNodeID hash (sv_credentials s)\<rparr>)))"

definition getWorkerSecret :: "(service \<Rightarrow> service) \<Rightarrow> string \<Rightarrow> service \<Rightarrow> string option \<times> service" where
  "getWorkerSecret i nodeID s =
     (case getCredential i nodeID s of
        (None, s) \<Rightarrow> (None, s)
      | (Some secret, s) \<Rightarrow> (if trimSpace secret = [] then None else Some secret, s))"

definition putCredentialIfAbsent :: "string \<Rightarrow> string \<Rightarrow> service \<Rightarrow> bool \<times> service" where
  "putCredentialIfAbsent nodeID secret s =
     (let trimmedNodeID = trimSpace nodeID; trimmedSecret = trimSpace secret
      in if trimmedNodeID = [] \<or> trimmedSecret = [] then (False, s)
         else if map_of (sv_credentials s) trimmedNodeID \<noteq> None then (False, s)
         else (True, s\<lparr>sv_credentials := AList.update trimmedNodeID trimmedSecret (sv_credentials s)\<rparr>))"

definition deleteCredential :: "string \<Rightarrow> service \<Rightarrow> bool \<times> service" where
  "deleteCredential nodeID s =
     (let trimmedNodeID = trimSpace nodeID
      in if trimmedNodeID = [] then (False, s)
         else if map_of (sv_credentials s) trimmedNodeID = None then (False, s)
         else (True, s\<lparr>sv_credentials := AList.delete trimmedNodeID (sv_credentials s)\<rparr>))"

section \<open>Provisioning\<close>

definition normalizeProvisioningWorkerType :: "string \<Rightarrow> string" where
  "normalizeProvisioningWorkerType workerType =
     (let t = trimSpace (toLower workerType)
      in if t = workerTypeNormal then workerTypeNormal
         else if t = workerTypeSys then workerTypeSys else [])"

text \<open>One attempt of the loop, from the fresh id and secret on: \<open>None\<close> continues the loop.\<close>

definition provisionAttempt ::
  "string \<Rightarrow> string \<Rightarrow> gtime \<Rightarrow> gduration \<Rightarrow> string \<Rightarrow> string \<Rightarrow> service \<Rightarrow>
   (go_error + string \<times> string) option \<times> service" where
  "provisionAttempt ownerID workerType now ttl workerID workerSecret s =
     (case onStore (seedProvisionedWorkers
             [(workerID, [(''source'', ''console-ui''), (labelOwnerIDKey, ownerID),
                          (labelWorkerTypeKey, workerType)])] now ttl) s of
        (seeded, s) \<Rightarrow>
          if seeded \<noteq> 1 then (None, s)
          else
            let claim = (if workerType = workerTypeSys
                         then onStore (claimWorkerSysOwner ownerID workerID now) s else (Inr True, s));
                s = snd claim
            in case fst claim of
                 Inl e \<Rightarrow> (Some (Inl (OtherError ''claim worker-sys owner'')), snd (onStore (storeDelete workerID) s))
               | Inr False \<Rightarrow> (Some (Inl ErrWorkerSysAlreadyExists), snd (onStore (storeDelete workerID) s))
               | Inr True \<Rightarrow>
                   let hashAlgo = (if trimSpace (sv_credentialHashAlgo s) \<noteq> [] then sv_credentialHashAlgo s
                                   else legacyPlain);
                       credentialValue = (case sv_hasher s of None \<Rightarrow> workerSecret | Some h \<Rightarrow> h workerSecret)
                   in case putCredentialIfAbsent workerID credentialValue s of
                        (False, s) \<Rightarrow> (None, snd (onStore (storeDelete workerID) s))
                      | (True, s) \<Rightarrow>
                          case onStore (putCredentialHashIfAbsent workerID credentialValue hashAlgo now) s of
                            (False, s) \<Rightarrow> (None, snd (onStore (storeDelete workerID) (snd (deleteCredential workerID s))))
                          | (True, s) \<Rightarrow> (Some (Inr (workerID, workerSecret)), s))"

text \<open>The random pairs of the attempts, in order; \<open>Inl\<close> is a failure of the generator.\<close>

primrec provisionLoop ::
  "nat \<Rightarrow> (go_error + string \<times> string) list \<Rightarrow> string \<Rightarrow> string \<Rightarrow> gtime \<Rightarrow> gduration \<Rightarrow> service \<Rightarrow>
   (go_error + string \<times> string) \<times> service" where
  "provisionLoop 0 rnd ownerID workerType now ttl s =
     (Inl (OtherError ''failed to allocate unique worker_id''), s)"
| "provisionLoop (Suc n) rnd ownerID workerType now ttl s =
     (case rnd of
        [] \<Rightarrow> (Inl (OtherError ''generate worker_id''), s)
      | Inl e # _ \<Rightarrow> (Inl e, s)
      | Inr (workerID, workerSecret) # rest \<Rightarrow>
          (case provisionAttempt ownerID workerType now ttl workerID workerSecret s of
             (None, s) \<Rightarrow> provisionLoop n rest ownerID workerType now ttl s
           | (Some r, s) \<Rightarrow> (r, s)))"

definition createProvisionedWorkerForOwner ::
  "(go_error + string \<times> string) list \<Rightarrow> string \<Rightarrow> string \<Rightarrow> gtime \<Rightarrow> gduration \<Rightarrow> service \<Rightarrow>
   (go_error + string \<times> string) \<times> service" where
  "createProvisionedWorkerForOwner rnd ownerID workerType now ttl s =
     (let owner = trimSpace ownerID; typ = normalizeProvisioningWorkerType workerType
      in if owner = [] then (Inl (OtherError ''owner_id is required''), s)
         else if typ = [] then (Inl ErrInvalidWorkerType, s)
         else let counted = (if typ = workerTypeSys
                             then onStore (countWorkersByOwnerAndType owner typ) s else (0, s))
              in if fst counted > 0 then (Inl ErrWorkerSysAlreadyExists, snd counted)
                 else provisionLoop maxProvisioningCreateAttempts rnd owner typ now ttl (snd counted))"

definition createProvisionedWorker ::
  "(go_error + string \<times> string) list \<Rightarrow> gtime \<Rightarrow> gduration \<Rightarrow> service \<Rightarrow>
   (go_error + string \<times> string) \<times> service" where
  "createProvisionedWorker rnd now ttl =
     createProvisionedWorkerForOwner rnd defaultWorkerOwnerID workerTypeNormal now ttl"

definition disconnectWorker :: "(service \<Rightarrow> service) \<Rightarrow> string \<Rightarrow> string \<Rightarrow> service \<Rightarrow> service option" where
  "disconnectWorker i nodeID reason s =
     (let trimmedNodeID = trimSpace nodeID
      in if trimmedNodeID = [] then Some s
         else let session = map_of (sv_sessions s) trimmedNodeID;
                  s = s\<lparr>sv_sessions := AList.delete trimmedNodeID (sv_sessions s)\<rparr>;
                  s = snd (onStore (clearSessionByNode trimmedNodeID) s)
              in case session of
                   None \<Rightarrow> Some s
                 | Some a \<Rightarrow> closeAt i a (Some (StatusError PermissionDenied reason)) s)"

definition deleteProvisionedWorker :: "(service \<Rightarrow> service) \<Rightarrow> string \<Rightarrow> service \<Rightarrow> bool \<times> service option" where
  "deleteProvisionedWorker i nodeID s =
     (let trimmedNodeID = trimSpace nodeID
      in if trimmedNodeID = [] then (False, Some s)
         else case deleteCredential trimmedNodeID s of
                (inMemory, s) \<Rightarrow>
              case onStore (storeDeleteCredential trimmedNodeID) s of
                (inDB, s) \<Rightarrow>
              case onStore (storeDelete trimmedNodeID) s of
                (node, s) \<Rightarrow>
                  if \<not> inMemory \<and> \<not> inDB \<and> \<not> node then (False, Some s)
                  else (True, disconnectWorker i trimmedNodeID ''worker credential revoked'' s))"

end
