(* ===== verification/Dispatch.thy ===== *)
theory Dispatch
  imports Service
begin

text \<open>
  \<open>console/internal/grpcserver/service_dispatch.go\<close>: choosing a worker session for a command
  (least loaded, round robin among equals; a terminal session stays on its node) and sending
  one command: acquire a slot, register, enqueue, wait, release. Where the code lets other
  goroutines run, the steps they take are an argument.
  The round-robin counter is a natural number; the source's \<open>uint64\<close> wraps after \<open>2 ^ 64\<close>
  picks and its \<open>int\<close> conversion after \<open>2 ^ 63\<close>.
\<close>

definition echoCapabilityName :: string where "echoCapabilityName = ''echo''"
definition computerUseCapabilityName :: string where "computerUseCapabilityName = ''computeruse''"
definition readImageCapabilityName :: string where "readImageCapabilityName = ''readimage''"
definition computerUseCapabilityDeclared :: string where "computerUseCapabilityDeclared = ''computerUse''"
definition readImageCapabilityDeclared :: string where "readImageCapabilityDeclared = ''readImage''"
definition terminalSessionNotFoundCode :: string where "terminalSessionNotFoundCode = ''session_not_found''"
definition defaultEchoTimeout :: gduration where "defaultEchoTimeout = 5 * second"
definition defaultCommandDispatchTimeout :: gduration where "defaultCommandDispatchTimeout = 60 * second"

definition isSessionNotFoundCommandError :: "go_error \<Rightarrow> bool" where
  "isSessionNotFoundCommandError err =
     (case err of CommandExecutionError code _ \<Rightarrow> equalFold (trimSpace code) terminalSessionNotFoundCode
      | _ \<Rightarrow> False)"

definition buildEchoPayload :: "string \<Rightarrow> payload" where
  "buildEchoPayload message = Document (JObj [(''message'', JStr message)])"

section \<open>Choosing a session\<close>

definition listOnlineNodeIDsForCapability :: "string \<Rightarrow> string \<Rightarrow> service \<Rightarrow> string list \<times> service" where
  "listOnlineNodeIDsForCapability capability ownerID s =
     (let normalizedCapability = normalizeCapability capability
      in if normalizedCapability = computerUseCapabilityName \<or> normalizedCapability = readImageCapabilityName
         then let normalizedOwnerID = normalizeTaskOwnerID ownerID
              in if normalizedOwnerID = [] then ([], s)
                 else onStore (listOnlineNodeIDsByOwnerTypeAndCapability normalizedOwnerID workerTypeSys
                        normalizedCapability (sv_now s) (offlineTTL s)) s
         else onStore (listOnlineNodeIDsByCapability normalizedCapability (sv_now s) (offlineTTL s)) s)"

record scan =
  sn_hasSession :: bool
  sn_minInflight :: int
  sn_preferred :: "(nat \<times> int) list"
  sn_fallback :: "(nat \<times> int) list"

definition emptyScan :: scan where
  "emptyScan = \<lparr>sn_hasSession = False, sn_minInflight = 2 ^ 63 - 1, sn_preferred = [], sn_fallback = []\<rparr>"

text \<open>The body of the scan loop: \<open>preferred\<close> restarts whenever a smaller count turns up.\<close>

definition addCandidate :: "nat \<Rightarrow> int \<Rightarrow> scan \<Rightarrow> scan" where
  "addCandidate a inflight acc =
     (if inflight < sn_minInflight acc
      then acc\<lparr>sn_minInflight := inflight, sn_preferred := [(a, inflight)]\<rparr>
      else if inflight = sn_minInflight acc
      then acc\<lparr>sn_preferred := sn_preferred acc @ [(a, inflight)]\<rparr>
      else acc\<lparr>sn_fallback := sn_fallback acc @ [(a, inflight)]\<rparr>)"

definition scanNode :: "string \<Rightarrow> string \<Rightarrow> scan \<times> service \<Rightarrow> scan \<times> service" where
  "scanNode capability nodeID st =
     (case st of (acc, s) \<Rightarrow>
        case getSession nodeID s of
          None \<Rightarrow> (acc, s)
        | Some a \<Rightarrow>
            if \<not> hasCapability capability (sv_heap s ! a) then (acc, s)
            else let acc = acc\<lparr>sn_hasSession := True\<rparr>
                 in case inflightSnapshot capability (sv_heap s ! a) of
                      (snap, se) \<Rightarrow>
                        (case snap of
                           None \<Rightarrow> acc
                         | Some (inflight, maxInflight) \<Rightarrow>
                             if inflight \<ge> maxInflight then acc else addCandidate a inflight acc,
                         putSession a se s))"

definition rotated :: "nat \<Rightarrow> 'a list \<Rightarrow> 'a list" where
  "rotated start xs = map (\<lambda>i. xs ! ((start + i) mod length xs)) [0..<length xs]"

primrec acquireFirst :: "string \<Rightarrow> (nat \<times> int) list \<Rightarrow> service \<Rightarrow> nat option \<times> service" where
  "acquireFirst capability [] s = (None, s)"
| "acquireFirst capability (c # cs) s =
     (case tryAcquireCapability capability (sv_heap s ! fst c) of
        (ok, se) \<Rightarrow> let s = putSession (fst c) se s
                     in if ok then (Some (fst c), s) else acquireFirst capability cs s)"

text \<open>\<open>i\<close> is what other goroutines do between the scan and the first acquire.\<close>

definition pickSessionForCapability ::
  "(service \<Rightarrow> service) \<Rightarrow> string \<Rightarrow> string \<Rightarrow> service \<Rightarrow> (go_error + nat) \<times> service" where
  "pickSessionForCapability i capability ownerID s =
     (case listOnlineNodeIDsForCapability capability ownerID s of
        (nodeIDs, s) \<Rightarrow>
          if nodeIDs = [] then (Inl ErrNoCapabilityWorker, s)
          else let start = sv_roundRobin s;
                   s = s\<lparr>sv_roundRobin := Suc start\<rparr>
               in case fold (scanNode capability) (rotated start nodeIDs) (emptyScan, s) of
                    (acc, s) \<Rightarrow>
                      if sn_preferred acc = []
                      then (Inl (if sn_hasSession acc then ErrNoWorkerCapacity else ErrNoCapabilityWorker), s)
                      else case acquireFirst capability (sn_preferred acc @ sn_fallback acc) (i s) of
                             (Some a, s) \<Rightarrow> (Inr a, s)
                           | (None, s) \<Rightarrow> (Inl ErrNoWorkerCapacity, s))"

definition pickSessionForNodeAndCapability ::
  "string \<Rightarrow> string \<Rightarrow> service \<Rightarrow> (go_error + nat) \<times> service" where
  "pickSessionForNodeAndCapability nodeID capability s =
     (let normalizedNodeID = trimSpace nodeID
      in if normalizedNodeID = [] then (Inl ErrNoCapabilityWorker, s)
         else case getSession normalizedNodeID s of
                None \<Rightarrow> (Inl ErrNoCapabilityWorker, s)
              | Some a \<Rightarrow>
                  if \<not> hasCapability capability (sv_heap s ! a) then (Inl ErrNoCapabilityWorker, s)
                  else case tryAcquireCapability capability (sv_heap s ! a) of
                         (ok, se) \<Rightarrow> (if ok then Inr a else Inl ErrNoWorkerCapacity, putSession a se s))"

definition onRoutes :: "(routes \<Rightarrow> 'a \<times> routes) \<Rightarrow> service \<Rightarrow> 'a \<times> service" where
  "onRoutes f s = (case f (sv_routes s) of (r, rt) \<Rightarrow> (r, s\<lparr>sv_routes := rt\<rparr>))"

definition updRoutes :: "(routes \<Rightarrow> routes) \<Rightarrow> service \<Rightarrow> service" where
  "updRoutes f s = s\<lparr>sv_routes := f (sv_routes s)\<rparr>"

definition releaseAt :: "nat \<Rightarrow> string \<Rightarrow> service \<Rightarrow> service" where
  "releaseAt a capability s = putSession a (releaseCapability capability (sv_heap s ! a)) s"

text \<open>\<open>i\<close> runs at every place where the function holds no lock: in each scan and before each
  use of the route table.\<close>

definition tryReserveAndPickTerminalSession ::
  "(service \<Rightarrow> service) \<Rightarrow> string \<Rightarrow> string \<Rightarrow> string \<Rightarrow> gtime \<Rightarrow> service \<Rightarrow> (go_error + nat \<times> bool) \<times> service" where
  "tryReserveAndPickTerminalSession i capability ownerID tsid now s =
     (case pickSessionForCapability i capability ownerID s of
        (Inl e, s) \<Rightarrow> (Inl e, s)
      | (Inr a, s) \<Rightarrow>
          (case onRoutes (reserveTerminalSessionRoute (sv_now s) tsid (as_nodeID (sv_heap s ! a)) now) (i s) of
             ((resolvedNodeID, created), s) \<Rightarrow>
               if resolvedNodeID = as_nodeID (sv_heap s ! a) then (Inr (a, created), s)
               else let s = releaseAt a capability s in
                 (case pickSessionForNodeAndCapability resolvedNodeID capability (i s) of
                    (Inr a, s) \<Rightarrow> (Inr (a, False), s)
                  | (Inl e, s) \<Rightarrow>
                      if e \<noteq> ErrNoCapabilityWorker then (Inl e, s)
                      else let s = updRoutes (clearTerminalSessionRoute tsid resolvedNodeID) s in
                        (case pickSessionForCapability i capability ownerID (i s) of
                           (Inl e, s) \<Rightarrow> (Inl e, s)
                         | (Inr a, s) \<Rightarrow>
                             (case onRoutes (reserveTerminalSessionRoute (sv_now s) tsid
                                      (as_nodeID (sv_heap s ! a)) now) (i s) of
                                ((resolvedNodeID, created), s) \<Rightarrow>
                                  if resolvedNodeID = as_nodeID (sv_heap s ! a) then (Inr (a, created), s)
                                  else let s = releaseAt a capability s in
                                    (case pickSessionForNodeAndCapability resolvedNodeID capability (i s) of
                                       (Inl e, s) \<Rightarrow> (Inl e, s)
                                     | (Inr a, s) \<Rightarrow> (Inr (a, False), s)))))))"

definition pickSessionForDispatch ::
  "(service \<Rightarrow> service) \<Rightarrow> string \<Rightarrow> string \<Rightarrow> string \<Rightarrow> service \<Rightarrow> (go_error + nat \<times> bool) \<times> service" where
  "pickSessionForDispatch i capability ownerID terminalSessionID s =
     (let tsid = trimSpace terminalSessionID
      in if tsid = [] then
           (case pickSessionForCapability i capability ownerID s of
              (Inl e, s) \<Rightarrow> (Inl e, s) | (Inr a, s) \<Rightarrow> (Inr (a, False), s))
         else let now = sv_now s;
                  s = updRoutes (maybePruneTerminalSessionRoutes now now) s
              in case onRoutes (touchTerminalSessionRoute now tsid now) (i s) of
                   (None, s) \<Rightarrow> tryReserveAndPickTerminalSession i capability ownerID tsid now s
                 | (Some nodeID, s) \<Rightarrow>
                     (case pickSessionForNodeAndCapability nodeID capability (i s) of
                        (Inr a, s) \<Rightarrow> (Inr (a, False), s)
                      | (Inl e, s) \<Rightarrow>
                          if e = ErrNoCapabilityWorker
                          then tryReserveAndPickTerminalSession i capability ownerID tsid now
                                 (updRoutes (clearTerminalSessionRoute tsid nodeID) s)
                          else (Inl e, s)))"

section \<open>Sending one command\<close>

text \<open>What the surroundings contribute to one dispatch: the steps of other goroutines wherever no
  lock is held, the fresh command id, the caller's context (its deadline; its error once it is
  done, at the enqueue and at the wait) and the scheduler's choice in each \<open>select\<close>.\<close>

record dispatch_env =
  ev_step :: "service \<Rightarrow> service"
  ev_commandID :: "go_error + string"
  ev_deadline :: "gtime option"
  ev_enqueueCtx :: "go_error option"
  ev_enqueuePick :: nat
  ev_waitCtx :: "go_error option"
  ev_waitPick :: nat

definition commandDeadline :: "gtime \<Rightarrow> gtime option \<Rightarrow> gduration \<Rightarrow> gtime option" where
  "commandDeadline now parent timeout =
     (if timeout = 0 then parent
      else let t = now + (if timeout > 0 then timeout else defaultCommandDispatchTimeout)
           in Some (case parent of None \<Rightarrow> t | Some p \<Rightarrow> min p t))"

definition mapEnqueueError :: "go_error \<Rightarrow> go_error" where
  "mapEnqueueError err =
     (case err of
        CtxDeadlineExceeded \<Rightarrow> CtxDeadlineExceeded
      | CtxCanceled \<Rightarrow> CtxCanceled
      | StatusError c m \<Rightarrow> StatusError c m
      | _ \<Rightarrow> StatusError Unavailable ''worker session unavailable'')"

datatype wait_result = WaitCtx go_error | WaitOutcome commandOutcome | WaitClosed

text \<open>The last \<open>select\<close>; \<open>None\<close> while neither case is ready.\<close>

definition awaitOutcome ::
  "nat \<Rightarrow> go_error option \<Rightarrow> nat \<Rightarrow> activeSession \<Rightarrow> (wait_result \<times> activeSession) option" where
  "awaitOutcome pick ctxErr addr se =
     (let ready = (case ctxErr of None \<Rightarrow> [] | Some e \<Rightarrow> [(WaitCtx e, se)]) @
                  (case receiveResult addr se of
                     None \<Rightarrow> []
                   | Some (None, se') \<Rightarrow> [(WaitClosed, se')]
                   | Some (Some out, se') \<Rightarrow> [(WaitOutcome out, se')])
      in if ready = [] then None else Some (ready ! (pick mod length ready)))"

definition clearCreated :: "bool \<Rightarrow> string \<Rightarrow> nat \<Rightarrow> service \<Rightarrow> service" where
  "clearCreated created tsid a s =
     (if created \<and> tsid \<noteq> []
      then updRoutes (clearTerminalSessionRoute tsid (as_nodeID (sv_heap s ! a))) s else s)"

text \<open>What the last \<open>select\<close> leads to.\<close>

definition dispatchResult ::
  "string \<Rightarrow> bool \<Rightarrow> nat \<Rightarrow> wait_result \<Rightarrow> service \<Rightarrow> (go_error + commandOutcome) \<times> service" where
  "dispatchResult tsid created a w s =
     (case w of
        WaitCtx e \<Rightarrow> (Inl (if e = CtxDeadlineExceeded then CtxDeadlineExceeded else CtxCanceled), s)
      | WaitClosed \<Rightarrow>
          (Inl (StatusError Unavailable ''worker session closed before command result''),
           clearCreated created tsid a s)
      | WaitOutcome outcome \<Rightarrow>
          let nodeID = as_nodeID (sv_heap s ! a);
              s = (if co_err outcome = None \<and> tsid \<noteq> []
                   then updRoutes (bindTerminalSessionRoute (sv_now s) tsid nodeID (sv_now s)) s else s);
              s = (case co_err outcome of None \<Rightarrow> s
                   | Some e \<Rightarrow> if tsid \<noteq> [] \<and> isSessionNotFoundCommandError e
                              then updRoutes (clearTerminalSessionRoute tsid nodeID) s else s)
          in (Inr outcome, s))"

text \<open>The deferred \<open>unregisterPending\<close>; \<open>None\<close> if it panics.\<close>

definition unregisterAt :: "nat \<Rightarrow> string \<Rightarrow> service \<Rightarrow> service option" where
  "unregisterAt a commandID s =
     map_option (\<lambda>se. putSession a se s) (unregisterPending commandID (sv_heap s ! a))"

text \<open>From the registered command on: enqueue, tell the caller, wait, settle the route, and
  always unregister. \<open>None\<close>: the call does not return.\<close>

definition sendAndWait ::
  "dispatch_env \<Rightarrow> commandDispatch \<Rightarrow> string \<Rightarrow> bool \<Rightarrow> nat \<Rightarrow> nat \<Rightarrow>
   (string \<Rightarrow> service \<Rightarrow> 'c \<times> service) \<Rightarrow> service \<Rightarrow>
   (((go_error + commandOutcome) \<times> 'c option) \<times> service) option" where
  "sendAndWait env dispatch tsid created a addr onDispatched s =
     (case enqueueCommand (ev_enqueuePick env) (ev_enqueueCtx env) (CommandDispatch dispatch) (sv_heap s ! a) of
        None \<Rightarrow> None
      | Some (Inl e, se) \<Rightarrow>
          let s = clearCreated created tsid a (putSession a se s)
          in map_option (\<lambda>s. ((Inl (mapEnqueueError e), None), s)) (unregisterAt a (cd_commandId dispatch) s)
      | Some (Inr _, se) \<Rightarrow>
          (case onDispatched (cd_commandId dispatch) (putSession a se s) of
             (c, s) \<Rightarrow>
               let s = ev_step env s
               in case awaitOutcome (ev_waitPick env) (ev_waitCtx env) addr (sv_heap s ! a) of
                    None \<Rightarrow> None
                  | Some (w, se) \<Rightarrow>
                      (case dispatchResult tsid created a w (putSession a se s) of
                         (r, s) \<Rightarrow> map_option (\<lambda>s. ((r, Some c), s)) (unregisterAt a (cd_commandId dispatch) s))))"

definition dispatchCommand ::
  "dispatch_env \<Rightarrow> string \<Rightarrow> payload \<Rightarrow> gduration \<Rightarrow> string \<Rightarrow> (string \<Rightarrow> service \<Rightarrow> 'c \<times> service) \<Rightarrow> service \<Rightarrow>
   (((go_error + commandOutcome) \<times> 'c option) \<times> service) option" where
  "dispatchCommand env rawCapability rawPayload timeout ownerID onDispatched s =
     (let capability = normalizeCapability rawCapability;
          payloadJSON = (if bytesEmpty rawPayload then Document (JObj []) else rawPayload)
      in if capability = []
         then Some ((Inl (StatusError InvalidArgument ''capability is required''), None), s)
         else
           let tsid = terminalSessionIDFromPayload capability payloadJSON
           in case pickSessionForDispatch (ev_step env) capability ownerID tsid s of
                (Inl e, s) \<Rightarrow> Some ((Inl e, None), s)
              | (Inr (a, created), s) \<Rightarrow>
                  (case ev_commandID env of
                     Inl _ \<Rightarrow>
                       Some ((Inl (StatusError Internal ''failed to create command_id''), None),
                             clearCreated created tsid a (releaseAt a capability s))
                   | Inr commandID \<Rightarrow>
                       let s = ev_step env s
                       in case registerPending commandID capability (sv_heap s ! a) of
                            (Inl e, se) \<Rightarrow>
                              Some ((Inl e, None),
                                    clearCreated created tsid a (releaseAt a capability (putSession a se s)))
                          | (Inr addr, se) \<Rightarrow>
                              sendAndWait env
                                \<lparr>cd_commandId = commandID, cd_capability = capability,
                                 cd_payloadJson = payloadJSON,
                                 cd_deadlineUnixMs = (case commandDeadline (sv_now s) (ev_deadline env) timeout of
                                    None \<Rightarrow> 0 | Some t \<Rightarrow> unixMilli t)\<rparr>
                                tsid created a addr onDispatched (ev_step env (putSession a se s))))"

definition dispatchEcho ::
  "dispatch_env \<Rightarrow> string \<Rightarrow> gduration \<Rightarrow> service \<Rightarrow> ((go_error + string) \<times> service) option" where
  "dispatchEcho env message timeout s =
     (if trimSpace message = [] then Some (Inl (StatusError InvalidArgument ''message is required''), s)
      else case dispatchCommand env echoCapabilityName (buildEchoPayload message)
                  (if timeout \<le> 0 then defaultEchoTimeout else timeout) [] (\<lambda>_ s. ((), s)) s of
             None \<Rightarrow> None
           | Some ((Inl err, _), s) \<Rightarrow>
               Some (Inl (if err = ErrNoCapabilityWorker then ErrNoEchoWorker
                          else if err = ErrNoWorkerCapacity then ErrNoWorkerCapacity
                          else if err = CtxDeadlineExceeded then ErrEchoTimeout
                          else err), s)
           | Some ((Inr outcome, _), s) \<Rightarrow>
               Some (case co_err outcome of
                       Some e \<Rightarrow> Inl e
                     | None \<Rightarrow>
                         (case parseEchoPayload (co_payloadJSON outcome) of
                            Some m \<Rightarrow> Inr m
                          | None \<Rightarrow>
                              if trimSpace (co_message outcome) \<noteq> [] then Inr (co_message outcome)
                              else Inl (CommandExecutionError ''empty_result''
                                     ''worker returned empty echo result'')), s))"

text \<open>\<open>InflightStats\<close>: the node and its capabilities, per live session.\<close>

definition inflightStats :: "service \<Rightarrow> (string \<times> (string \<times> int \<times> int) list) list" where
  "inflightStats s =
     map (\<lambda>(_, a). (as_nodeID (sv_heap s ! a), allCapabilitiesSnapshot (sv_heap s ! a))) (sv_sessions s)"

section \<open>Slots are accounted for\<close>

text \<open>
  The ghost \<open>H\<close> counts, per session address and capability, the slots that dispatchers hold
  (acquired, not yet registered). \<open>heap_ok U\<close> says every session's counters are exact for it,
  and that no session has a pending command with an id in \<open>U\<close>.
\<close>

definition session_free :: "string set \<Rightarrow> activeSession \<Rightarrow> bool" where
  "session_free U se \<longleftrightarrow> fst ` set (as_pending se) \<inter> U = {}"

definition heap_ok :: "string set \<Rightarrow> service \<Rightarrow> (nat \<Rightarrow> string \<Rightarrow> nat) \<Rightarrow> bool" where
  "heap_ok U s H \<longleftrightarrow>
     (\<forall>a < length (sv_heap s). session_ok (sv_heap s ! a) (H a) \<and> session_free U (sv_heap s ! a)) \<and>
     (\<forall>a \<in> snd ` set (sv_sessions s). a < length (sv_heap s))"

definition addToken :: "nat \<Rightarrow> string \<Rightarrow> (nat \<Rightarrow> string \<Rightarrow> nat) \<Rightarrow> (nat \<Rightarrow> string \<Rightarrow> nat)" where
  "addToken a c H = H(a := (H a)(c := Suc (H a c)))"

text \<open>Steps of other goroutines that leave the number of held slots as it is.\<close>

definition neutral :: "string set \<Rightarrow> (service \<Rightarrow> service) \<Rightarrow> bool" where
  "neutral U i \<longleftrightarrow>
     (\<forall>s H. heap_ok U s H \<longrightarrow> heap_ok U (i s) H \<and> length (sv_heap s) \<le> length (sv_heap (i s)))"

lemma neutralD:
  "neutral U i \<Longrightarrow> heap_ok U s H \<Longrightarrow> heap_ok U (i s) H"
  "neutral U i \<Longrightarrow> heap_ok U s H \<Longrightarrow> length (sv_heap s) \<le> length (sv_heap (i s))"
  by (auto simp: neutral_def)

lemma heap_okD:
  "heap_ok U s H \<Longrightarrow> a < length (sv_heap s) \<Longrightarrow> session_ok (sv_heap s ! a) (H a)"
  "heap_ok U s H \<Longrightarrow> getSession n s = Some a \<Longrightarrow> a < length (sv_heap s)"
proof -
  show "heap_ok U s H \<Longrightarrow> a < length (sv_heap s) \<Longrightarrow> session_ok (sv_heap s ! a) (H a)"
    by (simp add: heap_ok_def)
  assume ok: "heap_ok U s H" and g: "getSession n s = Some a"
  have "a \<in> snd ` set (sv_sessions s)"
    using map_of_SomeD [OF g [unfolded getSession_def]] by force
  with ok show "a < length (sv_heap s)" unfolding heap_ok_def by blast
qed

lemma heap_ok_free: "heap_ok U s H \<Longrightarrow> a < length (sv_heap s) \<Longrightarrow> session_free U (sv_heap s ! a)"
  by (simp add: heap_ok_def)

lemma heap_ok_put:
  assumes "heap_ok U s H" and "a < length (sv_heap s)" and "session_ok se h" and "session_free U se"
  shows "heap_ok U (putSession a se s) (H(a := h))"
  using assms by (auto simp: heap_ok_def putSession_def nth_list_update)

lemma heap_ok_frame [simp]:
  "heap_ok U (s\<lparr>sv_roundRobin := k\<rparr>) H = heap_ok U s H"
  "heap_ok U (s\<lparr>sv_db := d\<rparr>) H = heap_ok U s H"
  "heap_ok U (updRoutes f s) H = heap_ok U s H"
  "heap_ok U (snd (onStore g s)) H = heap_ok U s H"
  "heap_ok U (snd (onRoutes h s)) H = heap_ok U s H"
  "sv_heap (updRoutes f s) = sv_heap s"
  "sv_heap (snd (onStore g s)) = sv_heap s"
  "sv_heap (snd (onRoutes h s)) = sv_heap s"
  "length (sv_heap (putSession a se s)) = length (sv_heap s)"
  by (simp_all add: heap_ok_def updRoutes_def onStore_def onRoutes_def putSession_def split_beta)

lemma list_frame [simp]:
  "heap_ok U (snd (listOnlineNodeIDsForCapability c ow s)) H = heap_ok U s H"
  "sv_heap (snd (listOnlineNodeIDsForCapability c ow s)) = sv_heap s"
  "sv_sessions (snd (listOnlineNodeIDsForCapability c ow s)) = sv_sessions s"
  by (simp_all add: listOnlineNodeIDsForCapability_def Let_def)
    (simp_all add: onStore_def split_beta)

lemma session_ok_caps:
  "session_ok se h \<Longrightarrow> caps_ok (as_capabilities se) (\<lambda>c. h c + entriesOf (as_objects se) (as_pending se) c)"
  by (simp add: session_ok_def)

lemma snapshot_session_ok:
  assumes "session_ok se h"
  shows "inflightSnapshot c se =
    (if hasCapability c se then Some (inflightOf c se, maxInflightOf c se) else None, se)"
proof -
  have "0 < sc_maxInflight st" if "map_of (as_capabilities se) k = Some st" for k st
    using caps_okD(3) [OF session_ok_caps [OF assms] that] .
  then show ?thesis
    by (auto simp: inflightSnapshot_def hasCapability_def inflightOf_def maxInflightOf_def Let_def
        split: option.splits dest: not_le_imp_less)
      (metis not_le)+
qed

lemma put_same: "a < length (sv_heap s) \<Longrightarrow> putSession a (sv_heap s ! a) s = s"
  by (simp add: putSession_def)

text \<open>In a consistent state the scan changes nothing and collects the eligible sessions: those of
  the listed nodes that declare the capability and have a free slot, in the order visited.\<close>

definition capable :: "string \<Rightarrow> service \<Rightarrow> string \<Rightarrow> bool" where
  "capable c s n \<longleftrightarrow> (\<exists>a. getSession n s = Some a \<and> hasCapability c (sv_heap s ! a))"

definition eligible :: "string \<Rightarrow> service \<Rightarrow> string list \<Rightarrow> (nat \<times> int) list" where
  "eligible c s ids =
     concat (map (\<lambda>n. case getSession n s of None \<Rightarrow> []
       | Some a \<Rightarrow> if hasCapability c (sv_heap s ! a) \<and>
                     inflightOf c (sv_heap s ! a) < maxInflightOf c (sv_heap s ! a)
                  then [(a, inflightOf c (sv_heap s ! a))] else []) ids)"

definition noteSession :: "bool \<Rightarrow> scan \<Rightarrow> scan" where
  "noteSession b acc = (if b then acc\<lparr>sn_hasSession := True\<rparr> else acc)"

lemma scanNode_ok:
  assumes "heap_ok U s H"
  shows "scanNode c n (acc, s) =
    (fold (\<lambda>(a, k). addCandidate a k) (eligible c s [n]) (noteSession (capable c s n) acc), s)"
proof (cases "getSession n s")
  case None
  then show ?thesis by (simp add: scanNode_def eligible_def capable_def noteSession_def)
next
  case (Some a)
  have a: "a < length (sv_heap s)" using heap_okD(2) [OF assms Some] .
  note snap = snapshot_session_ok [OF heap_okD(1) [OF assms a], of c]
  show ?thesis
    using Some snap put_same [OF a]
    by (auto simp: scanNode_def eligible_def capable_def noteSession_def Let_def)
qed

lemma addCandidate_note1: "addCandidate a k (noteSession b acc) = noteSession b (addCandidate a k acc)"
  by (cases acc) (simp add: noteSession_def addCandidate_def)

lemma addCandidate_note:
  "fold (\<lambda>(a, k). addCandidate a k) es (noteSession b acc) =
     noteSession b (fold (\<lambda>(a, k). addCandidate a k) es acc)"
  by (induction es arbitrary: acc) (simp_all add: split_beta addCandidate_note1)

lemma note_note: "noteSession a (noteSession b acc) = noteSession (a \<or> b) acc"
  by (auto simp: noteSession_def)

lemma scan_ok:
  assumes "heap_ok U s H"
  shows "fold (scanNode c) ids (acc, s) =
    (noteSession (\<exists>n \<in> set ids. capable c s n) (fold (\<lambda>(a, k). addCandidate a k) (eligible c s ids) acc), s)"
proof (induction ids arbitrary: acc)
  case Nil
  then show ?case by (simp add: eligible_def noteSession_def)
next
  case (Cons n ids)
  have e: "eligible c s (n # ids) = eligible c s [n] @ eligible c s ids" by (simp add: eligible_def)
  show ?case
    by (simp add: scanNode_ok [OF assms] Cons.IH e addCandidate_note note_note disj_commute)
qed

text \<open>Among the candidates, \<open>preferred\<close> ends up as those with the least load.\<close>

lemma addCandidates_min:
  assumes "es \<noteq> []" and "\<And>a k. (a, k) \<in> set es \<Longrightarrow> k < 2 ^ 63 - 1"
  defines "acc \<equiv> fold (\<lambda>(a, k). addCandidate a k) es emptyScan"
  shows "sn_preferred acc = filter (\<lambda>e. \<forall>e' \<in> set es. snd e \<le> snd e') es"
    "set (sn_fallback acc) \<subseteq> set es" "\<forall>e \<in> set es. sn_minInflight acc \<le> snd e"
    "sn_minInflight acc \<in> snd ` set es"
proof -
  have "es = [] \<and> fold (\<lambda>(a, k). addCandidate a k) es emptyScan = emptyScan \<or>
    (let acc = fold (\<lambda>(a, k). addCandidate a k) es emptyScan in
     sn_minInflight acc \<in> snd ` set es \<and> (\<forall>e \<in> set es. sn_minInflight acc \<le> snd e) \<and>
     sn_preferred acc = filter (\<lambda>e. snd e = sn_minInflight acc) es \<and> set (sn_fallback acc) \<subseteq> set es)"
    using assms(2)
  proof (induction es rule: rev_induct)
    case (snoc e es)
    obtain a k where e: "e = (a, k)" by (cases e)
    define A where "A = fold (\<lambda>(a, k). addCandidate a k) es emptyScan"
    have B: "fold (\<lambda>(a, k). addCandidate a k) (es @ [e]) emptyScan = addCandidate a k A"
      by (simp add: A_def e)
    have k: "k < 2 ^ 63 - 1" using snoc.prems e by force
    show ?case
    proof (cases "es = []")
      case True
      then show ?thesis using k by (simp add: e addCandidate_def emptyScan_def)
    next
      case False
      with snoc have IH: "sn_minInflight A \<in> snd ` set es" "\<forall>e \<in> set es. sn_minInflight A \<le> snd e"
        "sn_preferred A = filter (\<lambda>e. snd e = sn_minInflight A) es" "set (sn_fallback A) \<subseteq> set es"
        by (auto simp: Let_def A_def)
      consider "k < sn_minInflight A" | "k = sn_minInflight A" | "k > sn_minInflight A" by linarith
      then show ?thesis
      proof cases
        case 1
        then have "filter (\<lambda>e. snd e = k) es = []" using IH(2) by (fastforce simp: filter_empty_conv)
        moreover have "\<forall>e \<in> set es. k \<le> snd e" using 1 IH(2) by fastforce
        moreover have "addCandidate a k A = A\<lparr>sn_minInflight := k, sn_preferred := [(a, k)]\<rparr>"
          using 1 by (simp add: addCandidate_def)
        ultimately show ?thesis using IH(4) unfolding B by (auto simp: e Let_def)
      next
        case 2
        then have "addCandidate a k A = A\<lparr>sn_preferred := sn_preferred A @ [(a, k)]\<rparr>"
          by (simp add: addCandidate_def)
        with 2 IH show ?thesis unfolding B by (auto simp: e Let_def)
      next
        case 3
        then have "addCandidate a k A = A\<lparr>sn_fallback := sn_fallback A @ [(a, k)]\<rparr>"
          by (simp add: addCandidate_def)
        with 3 IH show ?thesis unfolding B by (auto simp: e Let_def)
      qed
    qed
  qed simp
  with assms(1) have r: "sn_minInflight acc \<in> snd ` set es" "\<forall>e \<in> set es. sn_minInflight acc \<le> snd e"
     "sn_preferred acc = filter (\<lambda>e. snd e = sn_minInflight acc) es" "set (sn_fallback acc) \<subseteq> set es"
    by (auto simp: acc_def Let_def)
  have "snd e = sn_minInflight acc \<longleftrightarrow> (\<forall>e' \<in> set es. snd e \<le> snd e')" if "e \<in> set es" for e
    using r(1,2) that by (metis antisym imageE)
  then show "sn_preferred acc = filter (\<lambda>e. \<forall>e' \<in> set es. snd e \<le> snd e') es"
    unfolding r(3) by (intro filter_cong) auto
  show "set (sn_fallback acc) \<subseteq> set es" "\<forall>e \<in> set es. sn_minInflight acc \<le> snd e"
    "sn_minInflight acc \<in> snd ` set es" using r by auto
qed

lemma try_hasCapability [simp]:
  "hasCapability c (snd (tryAcquireCapability d se)) = hasCapability c se"
  by (auto simp: hasCapability_def tryAcquireCapability_def Let_def split: option.split)

lemma try_ok:
  assumes "session_ok se h"
  shows "session_ok (snd (tryAcquireCapability c se))
    (if fst (tryAcquireCapability c se)
     then h(normalizeCapability c := Suc (h (normalizeCapability c))) else h)"
proof (cases "tryAcquireCapability c se")
  case (Pair b se')
  then show ?thesis
    using session_ok_acquire [OF assms, of c se'] session_ok_reject [OF assms, of c se'] by (cases b) simp_all
qed

lemma try_put_ok:
  assumes ok: "heap_ok U s H" and a: "a < length (sv_heap s)"
  shows "heap_ok U (putSession a (snd (tryAcquireCapability c (sv_heap s ! a))) s)
    (if fst (tryAcquireCapability c (sv_heap s ! a)) then addToken a (normalizeCapability c) H else H)"
  using heap_ok_put [OF ok a try_ok [OF heap_okD(1) [OF ok a], of c]] heap_ok_free [OF ok a]
  by (simp add: addToken_def session_free_def try_frame split: if_splits)

text \<open>What every pick returns: an error and no slot, or a session and one slot of it.\<close>

definition picked :: "string set \<Rightarrow> string \<Rightarrow> (nat \<Rightarrow> string \<Rightarrow> nat) \<Rightarrow> (go_error + nat) \<times> service \<Rightarrow> bool" where
  "picked U c H r \<longleftrightarrow> (case fst r of
     Inl _ \<Rightarrow> heap_ok U (snd r) H
   | Inr a \<Rightarrow> a < length (sv_heap (snd r)) \<and> heap_ok U (snd r) (addToken a (normalizeCapability c) H))"

lemma acquireFirst_ok:
  assumes "heap_ok U s H" and "\<forall>e \<in> set cs. fst e < length (sv_heap s)"
  shows "(case acquireFirst c cs s of
      (None, s') \<Rightarrow> heap_ok U s' H
    | (Some a, s') \<Rightarrow> a < length (sv_heap s') \<and> heap_ok U s' (addToken a (normalizeCapability c) H)) \<and>
    length (sv_heap (snd (acquireFirst c cs s))) = length (sv_heap s)"
  using assms
proof (induction cs arbitrary: s)
  case (Cons e cs)
  obtain a k where e: "e = (a, k)" by (cases e)
  have a: "a < length (sv_heap s)" using Cons.prems(2) e by simp
  obtain b se where t: "tryAcquireCapability c (sv_heap s ! a) = (b, se)"
    by (cases "tryAcquireCapability c (sv_heap s ! a)")
  note put = try_put_ok [OF Cons.prems(1) a, of c, unfolded t, simplified]
  show ?case
  proof (cases b)
    case True
    with put a show ?thesis by (simp add: e t)
  next
    case False
    with put have "heap_ok U (putSession a se s) H" by simp
    from Cons.IH [OF this] Cons.prems(2) show ?thesis using False by (simp add: e t)
  qed
qed simp

lemma eligible_iff:
  "(a, k) \<in> set (eligible c s ids) \<longleftrightarrow>
     (\<exists>n \<in> set ids. getSession n s = Some a \<and> hasCapability c (sv_heap s ! a) \<and>
        k = inflightOf c (sv_heap s ! a) \<and> k < maxInflightOf c (sv_heap s ! a))"
  by (auto simp: eligible_def split: option.splits if_splits) metis

lemma scanned_bounds:
  assumes "heap_ok U s H" and "e \<in> set (sn_preferred acc @ sn_fallback acc)"
    and "acc = fold (\<lambda>(a, k). addCandidate a k) (eligible c s ids) emptyScan"
  shows "fst e < length (sv_heap s)"
proof -
  have sub: "set (sn_preferred (fold (\<lambda>(a, k). addCandidate a k) es acc)) \<union>
      set (sn_fallback (fold (\<lambda>(a, k). addCandidate a k) es acc)) \<subseteq>
      set es \<union> set (sn_preferred acc) \<union> set (sn_fallback acc)" for es acc
  proof (induction es arbitrary: acc)
    case (Cons e es)
    obtain a k where e: "e = (a, k)" by (cases e)
    have "set (sn_preferred (addCandidate a k acc)) \<union> set (sn_fallback (addCandidate a k acc)) \<subseteq>
        insert e (set (sn_preferred acc) \<union> set (sn_fallback acc))"
      by (auto simp: addCandidate_def e)
    with Cons.IH [of "addCandidate a k acc"] show ?case by (auto simp: e)
  qed simp
  have none: "sn_preferred emptyScan = []" "sn_fallback emptyScan = []" by (simp_all add: emptyScan_def)
  have "e \<in> set (sn_preferred acc) \<union> set (sn_fallback acc)" using assms(2) by simp
  also have "\<dots> \<subseteq> set (eligible c s ids)"
    using sub [of "eligible c s ids" emptyScan] unfolding assms(3) none by simp
  finally have "e \<in> set (eligible c s ids)" .
  then have "(fst e, snd e) \<in> set (eligible c s ids)" by simp
  then obtain n where "getSession n s = Some (fst e)" unfolding eligible_iff by blast
  then show ?thesis by (rule heap_okD(2) [OF assms(1)])
qed

lemma noteSession_simps [simp]:
  "sn_preferred (noteSession b acc) = sn_preferred acc"
  "sn_fallback (noteSession b acc) = sn_fallback acc"
  "sn_hasSession (noteSession b acc) = (b \<or> sn_hasSession acc)"
  by (simp_all add: noteSession_def)

lemma addCandidate_has: "sn_hasSession (addCandidate a k acc) = sn_hasSession acc"
  by (simp add: addCandidate_def)

lemma emptyScan_has: "sn_hasSession (fold (\<lambda>(a, k). addCandidate a k) es emptyScan) = False"
proof -
  have "sn_hasSession (fold (\<lambda>(a, k). addCandidate a k) es acc) = sn_hasSession acc" for acc
    by (induction es arbitrary: acc) (simp_all add: split_beta addCandidate_has)
  moreover have "sn_hasSession emptyScan = False" by (simp add: emptyScan_def)
  ultimately show ?thesis by simp
qed

text \<open>The pick, written over the list of eligible sessions.\<close>

lemma eligible_cong:
  assumes "sv_heap s' = sv_heap s" and "sv_sessions s' = sv_sessions s"
  shows "eligible c s' ids = eligible c s ids" "capable c s' n = capable c s n"
  unfolding eligible_def capable_def getSession_def assms by (rule refl)+

lemma pickSessionForCapability_eq:
  assumes ok: "heap_ok U s H" and ids: "listOnlineNodeIDsForCapability c ow s = (ids, s0)"
  shows "pickSessionForCapability i c ow s =
    (if ids = [] then (Inl ErrNoCapabilityWorker, s0)
     else let s1 = s0\<lparr>sv_roundRobin := Suc (sv_roundRobin s0)\<rparr>;
              order = rotated (sv_roundRobin s0) ids;
              acc = fold (\<lambda>(a, k). addCandidate a k) (eligible c s order) emptyScan
          in if sn_preferred acc = []
             then (Inl (if \<exists>n \<in> set order. capable c s n then ErrNoWorkerCapacity else ErrNoCapabilityWorker), s1)
             else case acquireFirst c (sn_preferred acc @ sn_fallback acc) (i s1) of
                    (Some a, s) \<Rightarrow> (Inr a, s) | (None, s) \<Rightarrow> (Inl ErrNoWorkerCapacity, s))"
proof -
  let ?s1 = "s0\<lparr>sv_roundRobin := Suc (sv_roundRobin s0)\<rparr>"
  have heap: "sv_heap ?s1 = sv_heap s" "sv_sessions ?s1 = sv_sessions s"
    using list_frame(2,3) [of c ow s] ids by simp_all
  have "heap_ok U ?s1 H" using list_frame(1) [of U c ow s H] ok ids by simp
  note scan = scan_ok [OF this, of c "rotated (sv_roundRobin s0) ids" emptyScan]
  show ?thesis
    by (simp add: pickSessionForCapability_def ids scan eligible_cong [OF heap] Let_def emptyScan_has)
qed

lemma pickSessionForCapability_ok:
  assumes ok: "heap_ok U s H" and i: "neutral U i"
  shows "picked U c H (pickSessionForCapability i c ow s)"
    "length (sv_heap s) \<le> length (sv_heap (snd (pickSessionForCapability i c ow s)))"
proof -
  obtain ids s0 where ids: "listOnlineNodeIDsForCapability c ow s = (ids, s0)"
    by (cases "listOnlineNodeIDsForCapability c ow s")
  let ?s1 = "s0\<lparr>sv_roundRobin := Suc (sv_roundRobin s0)\<rparr>"
  define acc where "acc = fold (\<lambda>(a, k). addCandidate a k)
    (eligible c s (rotated (sv_roundRobin s0) ids)) emptyScan"
  have s0: "heap_ok U s0 H" "sv_heap s0 = sv_heap s"
    using list_frame(1) [of U c ow s H] list_frame(2) [of c ow s] ok ids by simp_all
  then have s1: "heap_ok U ?s1 H" by simp
  note eq = pickSessionForCapability_eq [OF ok ids, of i, unfolded Let_def, folded acc_def]
  have len: "length (sv_heap s) \<le> length (sv_heap (i ?s1))"
    using neutralD(2) [OF i s1] s0(2) by simp
  have "\<forall>e \<in> set (sn_preferred acc @ sn_fallback acc). fst e < length (sv_heap (i ?s1))"
    using scanned_bounds [OF ok _ acc_def] len by fastforce
  note acq = acquireFirst_ok [OF neutralD(1) [OF i s1] this, of c]
  show "picked U c H (pickSessionForCapability i c ow s)"
    using acq s0(1) s1 unfolding eq picked_def
    by (auto split: option.splits prod.splits)
  show "length (sv_heap s) \<le> length (sv_heap (snd (pickSessionForCapability i c ow s)))"
    using acq len s0 unfolding eq by (auto split: option.splits prod.splits)
qed

lemma pickSessionForNode_ok:
  assumes ok: "heap_ok U s H"
  shows "picked U c H (pickSessionForNodeAndCapability n c s)"
    "length (sv_heap (snd (pickSessionForNodeAndCapability n c s))) = length (sv_heap s)"
proof -
  show "picked U c H (pickSessionForNodeAndCapability n c s)"
  proof (cases "getSession (trimSpace n) s")
    case None
    with ok show ?thesis by (simp add: pickSessionForNodeAndCapability_def picked_def Let_def)
  next
    case (Some a)
    have a: "a < length (sv_heap s)" using heap_okD(2) [OF ok Some] .
    note put = try_put_ok [OF ok a, of c]
    show ?thesis using Some a put ok
      by (cases "tryAcquireCapability c (sv_heap s ! a)")
        (auto simp: pickSessionForNodeAndCapability_def picked_def Let_def)
  qed
  show "length (sv_heap (snd (pickSessionForNodeAndCapability n c s))) = length (sv_heap s)"
    by (simp add: pickSessionForNodeAndCapability_def Let_def split: option.split prod.split)
qed

lemma releaseAt_ok:
  assumes "heap_ok U s (addToken a (normalizeCapability c) H)" and "a < length (sv_heap s)"
  shows "heap_ok U (releaseAt a c s) H"
proof -
  let ?H = "addToken a (normalizeCapability c) H"
  have "session_ok (releaseCapability c (sv_heap s ! a))
      ((?H a)(normalizeCapability c := ?H a (normalizeCapability c) - 1))"
    by (rule session_ok_release [OF heap_okD(1) [OF assms]]) (simp add: addToken_def)
  from heap_ok_put [OF assms this] heap_ok_free [OF assms] show ?thesis
    by (simp add: releaseAt_def addToken_def session_free_def)
qed

text \<open>The same for the terminal picks, which also say whether they created the route.\<close>

definition pickedRoute ::
  "string set \<Rightarrow> string \<Rightarrow> (nat \<Rightarrow> string \<Rightarrow> nat) \<Rightarrow> service \<Rightarrow> (go_error + nat \<times> bool) \<times> service \<Rightarrow> bool" where
  "pickedRoute U c H s r \<longleftrightarrow> length (sv_heap s) \<le> length (sv_heap (snd r)) \<and> (case fst r of
     Inl _ \<Rightarrow> heap_ok U (snd r) H
   | Inr (a, _) \<Rightarrow> a < length (sv_heap (snd r)) \<and> heap_ok U (snd r) (addToken a (normalizeCapability c) H))"

lemma pickedRoute_simps [simp]:
  "pickedRoute U c H s (Inl e, s') \<longleftrightarrow> length (sv_heap s) \<le> length (sv_heap s') \<and> heap_ok U s' H"
  "pickedRoute U c H s (Inr (a, b), s') \<longleftrightarrow> length (sv_heap s) \<le> length (sv_heap s') \<and>
     a < length (sv_heap s') \<and> heap_ok U s' (addToken a (normalizeCapability c) H)"
  by (auto simp: pickedRoute_def)

lemma pickCap_cases:
  assumes "heap_ok U s H" and "neutral U i" and "pickSessionForCapability i c ow s = (r, s')"
  obtains (err) e where "r = Inl e" "heap_ok U s' H" "length (sv_heap s) \<le> length (sv_heap s')"
  | (got) a where "r = Inr a" "a < length (sv_heap s')" "heap_ok U s' (addToken a (normalizeCapability c) H)"
      "length (sv_heap s) \<le> length (sv_heap s')"
  using pickSessionForCapability_ok [OF assms(1,2), where c = c and ow = ow] assms(3) err got
  by (cases r) (auto simp: picked_def)

lemma pickNode_cases:
  assumes "heap_ok U s H" and "neutral U i" and "pickSessionForNodeAndCapability n c (i s) = (r, s')"
  obtains (err) e where "r = Inl e" "heap_ok U s' H" "length (sv_heap s) \<le> length (sv_heap s')"
  | (got) a where "r = Inr a" "a < length (sv_heap s')" "heap_ok U s' (addToken a (normalizeCapability c) H)"
      "length (sv_heap s) \<le> length (sv_heap s')"
  using pickSessionForNode_ok [OF neutralD(1) [OF assms(2,1)], where c = c and n = n] neutralD(2) [OF assms(2,1)]
    assms(3) err got
  by (cases r) (auto simp: picked_def)

lemma length_releaseAt [simp]: "length (sv_heap (releaseAt a c s)) = length (sv_heap s)"
  by (simp add: releaseAt_def)

lemma onRoutes_heap:
  assumes "onRoutes f s = (r, s')"
  shows "sv_heap s' = sv_heap s" "heap_ok U s' H = heap_ok U s H"
  using assms heap_ok_frame(5) [of U f s H] heap_ok_frame(8) [of f s] by simp_all

text \<open>After a pick: reserve the route; on the picked node the pick stands, otherwise its slot is
  given back.\<close>

lemma reserve_step:
  assumes ok: "heap_ok U s (addToken a (normalizeCapability c) H)" and a: "a < length (sv_heap s)"
    and i: "neutral U i" and res: "onRoutes f (i s) = (r, s')"
  shows "heap_ok U s' (addToken a (normalizeCapability c) H)" "heap_ok U (releaseAt a c s') H"
    "length (sv_heap s) \<le> length (sv_heap s')" "a < length (sv_heap s')"
proof -
  show 1: "heap_ok U s' (addToken a (normalizeCapability c) H)"
    using onRoutes_heap(2) [OF res] neutralD(1) [OF i ok] by simp
  show 2: "length (sv_heap s) \<le> length (sv_heap s')"
    using onRoutes_heap(1) [OF res] neutralD(2) [OF i ok] by simp
  from a 2 show 3: "a < length (sv_heap s')" by simp
  show "heap_ok U (releaseAt a c s') H" by (rule releaseAt_ok [OF 1 3])
qed

lemma tryReserve_ok:
  assumes ok: "heap_ok U s H" and i: "neutral U i"
  shows "pickedRoute U c H s (tryReserveAndPickTerminalSession i c ow tsid now s)"
proof -
  obtain r1 s1 where p1: "pickSessionForCapability i c ow s = (r1, s1)"
    by (cases "pickSessionForCapability i c ow s")
  from ok i p1 show ?thesis
  proof (cases rule: pickCap_cases)
    case (err e)
    with p1 show ?thesis by (simp add: tryReserveAndPickTerminalSession_def)
  next
    case (got a)
    obtain n cr s2 where q: "onRoutes (reserveTerminalSessionRoute (sv_now s1) tsid
        (as_nodeID (sv_heap s1 ! a)) now) (i s1) = ((n, cr), s2)"
      by (metis prod.exhaust)
    note st = reserve_step [OF got(3,2) i q]
    show ?thesis
    proof (cases "n = as_nodeID (sv_heap s2 ! a)")
      case True
      with p1 got q st show ?thesis by (simp add: tryReserveAndPickTerminalSession_def)
    next
      case False
      obtain r3 s3 where p3: "pickSessionForNodeAndCapability n c (i (releaseAt a c s2)) = (r3, s3)"
        by (cases "pickSessionForNodeAndCapability n c (i (releaseAt a c s2))")
      from st(2) i p3 show ?thesis
      proof (cases rule: pickNode_cases)
        case (got b)
        with p1 \<open>r1 = Inr a\<close> q st p3 False \<open>length (sv_heap s) \<le> length (sv_heap s1)\<close> show ?thesis
          by (simp add: tryReserveAndPickTerminalSession_def)
      next
        case e: (err e)
        show ?thesis
        proof (cases "e = ErrNoCapabilityWorker")
          case False
          with p1 got q st p3 e \<open>n \<noteq> _\<close> show ?thesis
            by (simp add: tryReserveAndPickTerminalSession_def)
        next
          case True
          let ?s4 = "updRoutes (clearTerminalSessionRoute tsid n) s3"
          have ok4: "heap_ok U ?s4 H" using e by simp
          obtain r5 s5 where p5: "pickSessionForCapability i c ow (i ?s4) = (r5, s5)"
            by (cases "pickSessionForCapability i c ow (i ?s4)")
          have len: "length (sv_heap s) \<le> length (sv_heap (i ?s4))"
            using got(4) st(3) e(3) neutralD(2) [OF i ok4] by simp
          from neutralD(1) [OF i ok4] i p5 show ?thesis
          proof (cases rule: pickCap_cases)
            case (err e')
            with p1 got q st p3 e True \<open>n \<noteq> _\<close> p5 len show ?thesis
              by (simp add: tryReserveAndPickTerminalSession_def)
          next
            case g5: (got b)
            obtain n' cr' s6 where q6: "onRoutes (reserveTerminalSessionRoute (sv_now s5) tsid
                (as_nodeID (sv_heap s5 ! b)) now) (i s5) = ((n', cr'), s6)"
              by (metis prod.exhaust)
            note st6 = reserve_step [OF g5(3,2) i q6]
            obtain r7 s7 where p7: "pickSessionForNodeAndCapability n' c (i (releaseAt b c s6)) = (r7, s7)"
              by (cases "pickSessionForNodeAndCapability n' c (i (releaseAt b c s6))")
            have eq: "tryReserveAndPickTerminalSession i c ow tsid now s =
              (if n' = as_nodeID (sv_heap s6 ! b) then (Inr (b, cr'), s6)
               else (case r7 of Inl e \<Rightarrow> (Inl e, s7) | Inr a \<Rightarrow> (Inr (a, False), s7)))"
              using p1 got(1) q \<open>n \<noteq> _\<close> p3 e(1) True p5 g5(1) q6 p7
              by (simp add: tryReserveAndPickTerminalSession_def split: sum.split)
            from st6(2) i p7 show ?thesis
              by (cases rule: pickNode_cases) (use eq st6 len g5(4) in auto)
          qed
        qed
      qed
    qed
  qed
qed

lemma pickSessionForDispatch_ok:
  assumes ok: "heap_ok U s H" and i: "neutral U i"
  shows "pickedRoute U c H s (pickSessionForDispatch i c ow tsid s)"
proof (cases "trimSpace tsid = []")
  case True
  obtain r s' where p: "pickSessionForCapability i c ow s = (r, s')"
    by (cases "pickSessionForCapability i c ow s")
  from ok i p show ?thesis
    by (cases rule: pickCap_cases) (use True p in \<open>auto simp: pickSessionForDispatch_def\<close>)
next
  case False
  let ?s1 = "updRoutes (maybePruneTerminalSessionRoutes (sv_now s) (sv_now s)) s"
  have ok1: "heap_ok U ?s1 H" using ok by simp
  obtain r s2 where q: "onRoutes (touchTerminalSessionRoute (sv_now s) (trimSpace tsid) (sv_now s)) (i ?s1) = (r, s2)"
    by (metis prod.exhaust)
  have ok2: "heap_ok U s2 H" "length (sv_heap s) \<le> length (sv_heap s2)"
    using onRoutes_heap [OF q] neutralD [OF i ok1] by simp_all
  show ?thesis
  proof (cases r)
    case None
    with False q ok2 tryReserve_ok [OF ok2(1) i, of c ow "trimSpace tsid" "sv_now s"] show ?thesis
      by (simp add: pickSessionForDispatch_def Let_def pickedRoute_def split: sum.splits)
  next
    case (Some n)
    obtain r3 s3 where p3: "pickSessionForNodeAndCapability n c (i s2) = (r3, s3)"
      by (cases "pickSessionForNodeAndCapability n c (i s2)")
    from ok2(1) i p3 show ?thesis
    proof (cases rule: pickNode_cases)
      case (got a)
      with False q Some p3 ok2 show ?thesis by (simp add: pickSessionForDispatch_def Let_def)
    next
      case (err e)
      have "heap_ok U (updRoutes (clearTerminalSessionRoute (trimSpace tsid) n) s3) H" using err by simp
      from tryReserve_ok [OF this i, of c ow "trimSpace tsid" "sv_now s"] False q Some p3 ok2 err
      show ?thesis
        by (auto simp: pickSessionForDispatch_def Let_def pickedRoute_def split: sum.splits)
    qed
  qed
qed

lemma heap_ok_weaken: "heap_ok U s H \<Longrightarrow> heap_ok {} s H"
  by (auto simp: heap_ok_def session_free_def)

lemma heap_ok_put_self:
  assumes "heap_ok {} s H" and "a < length (sv_heap s)" and "session_ok se (H a)"
  shows "heap_ok {} (putSession a se s) H"
  using heap_ok_put [OF assms] by (simp add: session_free_def)

lemma register_at:
  assumes ok: "heap_ok {trimSpace cid} s (addToken a c H)" and a: "a < length (sv_heap s)"
    and c: "normalizeCapability c = c"
    and reg: "registerPending cid c (sv_heap s ! a) = (Inr addr, se)"
  shows "heap_ok {} (putSession a se s) H"
proof -
  have "map_of (as_pending (sv_heap s ! a)) (trimSpace cid) = None"
    using heap_ok_free [OF ok a] by (simp add: session_free_def map_of_eq_None_iff)
  from register_ok [OF heap_okD(1) [OF ok a] reg this] c
  have "session_ok se (H a)" by (simp add: addToken_def)
  moreover have "heap_ok {} s (addToken a c H)" by (rule heap_ok_weaken [OF ok])
  ultimately show ?thesis
    using a by (auto simp: heap_ok_def putSession_def addToken_def nth_list_update session_free_def
        split: if_splits)
qed

lemma register_err:
  "registerPending cid c se = (Inl e, se') \<Longrightarrow> se' = se"
  by (auto simp: registerPending_def Let_def split: if_splits)

lemma clearCreated_frame [simp]:
  "heap_ok U (clearCreated b t a s) H = heap_ok U s H"
  "sv_heap (clearCreated b t a s) = sv_heap s"
  by (simp_all add: clearCreated_def)

lemma receive_ok':
  assumes "session_ok s h" and "receiveResult a s = Some (r, s')"
  shows "session_ok s' h"
proof (cases "a < length (as_objects s)")
  case True
  from receive_ok [OF assms True] show ?thesis .
next
  case False
  then have "s' = s"
    using assms(2) by (auto simp: receiveResult_def Let_def list_update_beyond split: list.splits if_splits)
  with assms(1) show ?thesis by simp
qed

definition readyWaits :: "go_error option \<Rightarrow> nat \<Rightarrow> activeSession \<Rightarrow> (wait_result \<times> activeSession) list" where
  "readyWaits ctxErr addr se =
     (case ctxErr of None \<Rightarrow> [] | Some e \<Rightarrow> [(WaitCtx e, se)]) @
     (case receiveResult addr se of
        None \<Rightarrow> []
      | Some (None, se') \<Rightarrow> [(WaitClosed, se')]
      | Some (Some out, se') \<Rightarrow> [(WaitOutcome out, se')])"

lemma awaitOutcome_ready:
  "awaitOutcome pick ctx addr se =
    (if readyWaits ctx addr se = [] then None
     else Some (readyWaits ctx addr se ! (pick mod length (readyWaits ctx addr se))))"
  unfolding awaitOutcome_def readyWaits_def Let_def ..

lemma readyWaits_ok:
  assumes "session_ok se h" and "(w, se') \<in> set (readyWaits ctx addr se)"
  shows "session_ok se' h"
proof (cases "receiveResult addr se")
  case None
  with assms show ?thesis by (auto simp: readyWaits_def split: option.splits)
next
  case (Some r)
  have "session_ok (snd r) h"
    using receive_ok' [OF assms(1), of addr "fst r" "snd r"] Some by simp
  with Some assms show ?thesis
    by (cases r; cases "fst r") (auto simp: readyWaits_def split: option.splits)
qed

lemma awaitOutcome_ok:
  assumes "session_ok se h" and "awaitOutcome pick ctx addr se = Some (w, se')"
  shows "session_ok se' h"
proof (rule readyWaits_ok [OF assms(1)])
  let ?r = "readyWaits ctx addr se"
  have "?r \<noteq> []" "(w, se') = ?r ! (pick mod length ?r)"
    using assms(2) by (auto simp: awaitOutcome_ready split: if_splits)
  then show "(w, se') \<in> set ?r" by (metis length_greater_0_conv mod_less_divisor nth_mem)
qed

lemma dispatchResult_frame [simp]:
  "heap_ok U (snd (dispatchResult t b a w s)) H = heap_ok U s H"
  "sv_heap (snd (dispatchResult t b a w s)) = sv_heap s"
  by (auto simp: dispatchResult_def Let_def split: wait_result.split option.split)

lemma unregisterAt_ok:
  assumes ok: "heap_ok {} s H" and a: "a < length (sv_heap s)"
  obtains s' where "unregisterAt a cid s = Some s'" "heap_ok {} s' H"
proof -
  obtain se where se: "unregisterPending cid (sv_heap s ! a) = Some se" "session_ok se (H a)"
    by (rule unregister_ok [OF heap_okD(1) [OF ok a]])
  from that [of "putSession a se s"] show thesis
    using se heap_ok_put_self [OF ok a] by (simp add: unregisterAt_def)
qed

lemma sendAndWait_ok:
  assumes ok: "heap_ok {} s H" and a: "a < length (sv_heap s)"
    and env: "neutral {} (ev_step env)" and cb: "\<And>x. neutral {} (\<lambda>s. snd (onD x s))"
    and ret: "sendAndWait env dsp t b a addr onD s = Some (r, s')"
  shows "heap_ok {} s' H"
proof -
  obtain q se where e: "enqueueCommand (ev_enqueuePick env) (ev_enqueueCtx env) (CommandDispatch dsp)
      (sv_heap s ! a) = Some (q, se)"
    using ret by (auto simp: sendAndWait_def split: option.splits)
  have se: "session_ok se (H a)"
    by (rule session_ok_enqueue(1) [OF heap_okD(1) [OF ok a] e])
  have ok1: "heap_ok {} (putSession a se s) H" by (rule heap_ok_put_self [OF ok a se])
  show ?thesis
  proof (cases q)
    case (Inl err)
    let ?s = "clearCreated b t a (putSession a se s)"
    have s2: "heap_ok {} ?s H" "a < length (sv_heap ?s)" using ok1 a by simp_all
    obtain s2 where "unregisterAt a (cd_commandId dsp) ?s = Some s2" "heap_ok {} s2 H"
      by (rule unregisterAt_ok [OF s2])
    with ret e Inl show ?thesis by (simp add: sendAndWait_def)
  next
    case (Inr u)
    obtain c s1 where c: "onD (cd_commandId dsp) (putSession a se s) = (c, s1)"
      by (cases "onD (cd_commandId dsp) (putSession a se s)")
    have s1: "heap_ok {} s1 H" "a < length (sv_heap s1)"
      using neutralD [OF cb [of "cd_commandId dsp"] ok1] a c by simp_all
    let ?s2 = "ev_step env s1"
    have s2: "heap_ok {} ?s2 H" "a < length (sv_heap ?s2)"
      using neutralD [OF env s1(1)] s1(2) by simp_all
    obtain w se2 where w: "awaitOutcome (ev_waitPick env) (ev_waitCtx env) addr (sv_heap ?s2 ! a) = Some (w, se2)"
      using ret e Inr c by (auto simp: sendAndWait_def Let_def split: option.splits)
    have ok3: "heap_ok {} (putSession a se2 ?s2) H"
      by (rule heap_ok_put_self [OF s2 awaitOutcome_ok [OF heap_okD(1) [OF s2] w]])
    let ?s4 = "snd (dispatchResult t b a w (putSession a se2 ?s2))"
    have s4: "heap_ok {} ?s4 H" "a < length (sv_heap ?s4)" using ok3 s2 by simp_all
    obtain s5 where "unregisterAt a (cd_commandId dsp) ?s4 = Some s5" "heap_ok {} s5 H"
      by (rule unregisterAt_ok [OF s4])
    with ret e Inr c w show ?thesis by (auto simp: sendAndWait_def Let_def split_beta)
  qed
qed

lemma dispatchCommand_ok:
  assumes ok: "heap_ok {trimSpace cid} s H" and id: "ev_commandID env = Inr cid \<or> ev_commandID env = Inl ge"
    and env: "neutral {trimSpace cid} (ev_step env)" "neutral {} (ev_step env)"
    and cb: "\<And>x. neutral {} (\<lambda>s. snd (onD x s))"
    and ret: "dispatchCommand env cap p t ow onD s = Some (r, s')"
  shows "heap_ok {} s' H"
proof (cases "normalizeCapability cap = []")
  case True
  with ret ok show ?thesis by (auto simp: dispatchCommand_def intro: heap_ok_weaken)
next
  case False
  let ?c = "normalizeCapability cap"
  let ?p = "if bytesEmpty p then Document (JObj []) else p"
  let ?t = "terminalSessionIDFromPayload ?c ?p"
  obtain q s1 where q: "pickSessionForDispatch (ev_step env) ?c ow ?t s = (q, s1)"
    by (cases "pickSessionForDispatch (ev_step env) ?c ow ?t s")
  have pk: "pickedRoute {trimSpace cid} ?c H s (q, s1)"
    using pickSessionForDispatch_ok [OF ok env(1), of ?c ow ?t] q by simp
  show ?thesis
  proof (cases q)
    case (Inl e)
    with ret q pk False show ?thesis by (auto simp: dispatchCommand_def Let_def intro: heap_ok_weaken)
  next
    case (Inr ab)
    obtain a b where ab: "ab = (a, b)" by (cases ab)
    have s1: "heap_ok {trimSpace cid} s1 (addToken a ?c H)" "a < length (sv_heap s1)"
      using pk Inr ab by simp_all
    show ?thesis
    proof (cases "ev_commandID env")
      case e: (Inl e)
      have "heap_ok {} (releaseAt a ?c s1) H"
        using releaseAt_ok [of _ s1 a ?c H] s1 by (auto intro: heap_ok_weaken)
      with ret q Inr ab False e show ?thesis by (auto simp: dispatchCommand_def Let_def)
    next
      case c: (Inr cid')
      then have cid: "ev_commandID env = Inr cid" using id by auto
      let ?s2 = "ev_step env s1"
      have s2: "heap_ok {trimSpace cid} ?s2 (addToken a ?c H)" "a < length (sv_heap ?s2)"
        using neutralD [OF env(1) s1(1)] s1(2) by simp_all
      obtain rg se where rg: "registerPending cid ?c (sv_heap ?s2 ! a) = (rg, se)"
        by (cases "registerPending cid ?c (sv_heap ?s2 ! a)")
      show ?thesis
      proof (cases rg)
        case (Inl e)
        then have "putSession a se ?s2 = ?s2" using register_err rg put_same [OF s2(2)] by metis
        moreover have "heap_ok {} (releaseAt a ?c ?s2) H"
          using releaseAt_ok [of _ ?s2 a ?c H] s2 by (auto intro: heap_ok_weaken)
        ultimately show ?thesis
          using ret q \<open>q = Inr ab\<close> ab False cid rg Inl by (auto simp: dispatchCommand_def Let_def)
      next
        case (Inr addr)
        have ok3: "heap_ok {} (putSession a se ?s2) H"
          using register_at [OF s2] rg Inr by simp
        have s3: "heap_ok {} (ev_step env (putSession a se ?s2)) H"
          "a < length (sv_heap (ev_step env (putSession a se ?s2)))"
          using neutralD [OF env(2) ok3] s2(2) by simp_all
        show ?thesis
          by (rule sendAndWait_ok [OF s3 env(2) cb])
            (use ret q \<open>q = Inr ab\<close> ab False cid rg Inr in \<open>auto simp: dispatchCommand_def Let_def\<close>)
      qed
    qed
  qed
qed

section \<open>Properties\<close>


text \<open>A dispatch on a quiet service: the worker session is known, nobody answers, the deadline
  passes.\<close>

definition demoDB :: db where
  "demoDB = emptyDB\<lparr>
     db_nodes := [\<lparr>n_node_id = ''n1'', n_session_id = ''s1'', n_provisioned = 1, n_node_name = ''n'',
       n_executor_kind = [], n_version = [], n_registered_at = 1000, n_last_seen_at = 5000\<rparr>],
     db_caps := [\<lparr>c_node_id = ''n1'', c_capability_name = ''Echo'', c_max_inflight = 2\<rparr>]\<rparr>"

definition demoService :: service where
  "demoService = (newRegistryService demoDB [] 5 15 (5000 * millisecond))
     \<lparr>sv_heap := [newActiveSession ''n1'' ''s1'' (Some demoHello)], sv_sessions := [(''n1'', 0)]\<rparr>"

definition demoEnv :: dispatch_env where
  "demoEnv = \<lparr>ev_step = id, ev_commandID = Inr ''c1'', ev_deadline = None, ev_enqueueCtx = None,
     ev_enqueuePick = 0, ev_waitCtx = Some CtxDeadlineExceeded, ev_waitPick = 0\<rparr>"

lemma neutral_id: "neutral U id"
  by (simp add: neutral_def)

lemma demoService_ok: "heap_ok U demoService (\<lambda>_ _. 0)"
  using session_ok_new [of "''n1''" "''s1''" "Some demoHello"]
  by (simp add: heap_ok_def demoService_def newRegistryService_def session_free_def newActiveSession_def)

definition demoRun :: "(((go_error + commandOutcome) \<times> unit option) \<times> service) option" where
  "demoRun = dispatchCommand demoEnv ''echo'' (buildEchoPayload ''hi'') 0 [] (\<lambda>_ s. ((), s)) demoService"

lemma demoRun_value:
  "case demoRun of None \<Rightarrow> False
   | Some ((res, _), s) \<Rightarrow> res = Inl CtxDeadlineExceeded \<and> length (sv_heap s) = 1 \<and>
       map_of (as_capabilities (sv_heap s ! 0)) ''echo'' = Some \<lparr>sc_maxInflight = 2, sc_inflight = 0\<rparr> \<and>
       length (as_commandOutbound (sv_heap s ! 0)) = 1 \<and> length (as_objects (sv_heap s ! 0)) = 1"
  by code_simp


text \<open>C3: A dispatch returns once its context ends: whatever the state of the service and of the
  chosen session's queues, when the caller's context is done at the enqueue and at the wait the
  call produces a result, never waits for ever and never panics.\<close>

theorem dispatch_returns:
  assumes ok: "heap_ok {trimSpace cid} s H"
    and id: "ev_commandID env = Inr cid \<or> ev_commandID env = Inl ge"
    and env: "neutral {trimSpace cid} (ev_step env)" "neutral {} (ev_step env)"
    and cb: "\<And>x. neutral {} (\<lambda>s. snd (onDispatched x s))"
    and ctx: "ev_enqueueCtx env = Some e1" "ev_waitCtx env = Some e2"
  shows "dispatchCommand env capability payload timeout owner onDispatched s \<noteq> None"
proof (cases "normalizeCapability capability = []")
  case True
  then show ?thesis by (simp add: dispatchCommand_def)
next
  case False
  let ?c = "normalizeCapability capability"
  let ?p = "if bytesEmpty payload then Document (JObj []) else payload"
  let ?t = "terminalSessionIDFromPayload ?c ?p"
  obtain q s1 where q: "pickSessionForDispatch (ev_step env) ?c owner ?t s = (q, s1)"
    by (cases "pickSessionForDispatch (ev_step env) ?c owner ?t s")
  have pk: "pickedRoute {trimSpace cid} ?c H s (q, s1)"
    using pickSessionForDispatch_ok [OF ok env(1), of ?c owner ?t] q by simp
  have send: "sendAndWait env dsp t b a addr onDispatched s2 \<noteq> None"
    if s2: "heap_ok {} s2 H" "a < length (sv_heap s2)" for dsp t b a addr s2
  proof -
    have "enqueueCommand (ev_enqueuePick env) (ev_enqueueCtx env) (CommandDispatch dsp) (sv_heap s2 ! a) \<noteq> None"
      by (simp add: enqueueCommand_def enqueue_def readyCases_def ctx Let_def split: enqueue_case.split)
    then obtain r se where e: "enqueueCommand (ev_enqueuePick env) (ev_enqueueCtx env) (CommandDispatch dsp)
        (sv_heap s2 ! a) = Some (r, se)" by auto
    have ok1: "heap_ok {} (putSession a se s2) H"
      by (rule heap_ok_put_self [OF s2 session_ok_enqueue(1) [OF heap_okD(1) [OF s2] e]])
    show ?thesis
    proof (cases r)
      case (Inl err)
      have "heap_ok {} (clearCreated b t a (putSession a se s2)) H"
        "a < length (sv_heap (clearCreated b t a (putSession a se s2)))" using ok1 s2 by simp_all
      from unregisterAt_ok [OF this, of "cd_commandId dsp"] e Inl show ?thesis
        by (auto simp: sendAndWait_def)
    next
      case (Inr u)
      obtain c s3 where c: "onDispatched (cd_commandId dsp) (putSession a se s2) = (c, s3)"
        by (cases "onDispatched (cd_commandId dsp) (putSession a se s2)")
      have s3: "heap_ok {} s3 H" "a < length (sv_heap s3)"
        using neutralD [OF cb [of "cd_commandId dsp"] ok1] s2(2) c by simp_all
      let ?s4 = "ev_step env s3"
      have s4: "heap_ok {} ?s4 H" "a < length (sv_heap ?s4)" using neutralD [OF env(2) s3(1)] s3(2) by simp_all
      have "readyWaits (ev_waitCtx env) addr (sv_heap ?s4 ! a) \<noteq> []" by (simp add: readyWaits_def ctx)
      then obtain w se2 where w: "awaitOutcome (ev_waitPick env) (ev_waitCtx env) addr (sv_heap ?s4 ! a) = Some (w, se2)"
        by (cases "awaitOutcome (ev_waitPick env) (ev_waitCtx env) addr (sv_heap ?s4 ! a)")
          (auto simp: awaitOutcome_ready)
      have ok5: "heap_ok {} (putSession a se2 ?s4) H"
        by (rule heap_ok_put_self [OF s4 awaitOutcome_ok [OF heap_okD(1) [OF s4] w]])
      let ?s6 = "snd (dispatchResult t b a w (putSession a se2 ?s4))"
      have "heap_ok {} ?s6 H" "a < length (sv_heap ?s6)" using ok5 s4 by simp_all
      from unregisterAt_ok [OF this, of "cd_commandId dsp"] e Inr c w show ?thesis
        by (auto simp: sendAndWait_def Let_def split_beta)
    qed
  qed
  show ?thesis
  proof (cases q)
    case (Inl e)
    with q False show ?thesis by (simp add: dispatchCommand_def Let_def)
  next
    case (Inr ab)
    obtain a b where ab: "ab = (a, b)" by (cases ab)
    have s1: "heap_ok {trimSpace cid} s1 (addToken a ?c H)" "a < length (sv_heap s1)"
      using pk Inr ab by simp_all
    let ?s2 = "ev_step env s1"
    have s2: "heap_ok {trimSpace cid} ?s2 (addToken a ?c H)" "a < length (sv_heap ?s2)"
      using neutralD [OF env(1) s1(1)] s1(2) by simp_all
    show ?thesis
    proof (cases "ev_commandID env")
      case (Inl e)
      with q Inr ab False show ?thesis by (simp add: dispatchCommand_def Let_def)
    next
      case c: (Inr cid')
      then have cid: "ev_commandID env = Inr cid" using id by auto
      obtain rg se where rg: "registerPending cid ?c (sv_heap ?s2 ! a) = (rg, se)"
        by (cases "registerPending cid ?c (sv_heap ?s2 ! a)")
      show ?thesis
      proof (cases rg)
        case (Inl e)
        with q Inr ab False cid rg show ?thesis by (simp add: dispatchCommand_def Let_def)
      next
        case r: (Inr addr)
        have ok3: "heap_ok {} (putSession a se ?s2) H"
          using register_at [OF s2] rg r by simp
        have "heap_ok {} (ev_step env (putSession a se ?s2)) H"
          "a < length (sv_heap (ev_step env (putSession a se ?s2)))"
          using neutralD [OF env(2) ok3] s2(2) by simp_all
        from send [OF this] q Inr ab False cid rg r show ?thesis
          by (simp add: dispatchCommand_def Let_def)
      qed
    qed
  qed
qed

theorem dispatch_returns_witness:
  "dispatchCommand (demoEnv\<lparr>ev_enqueueCtx := Some CtxCanceled\<rparr>) ''echo'' emptyBytes 0 [] (\<lambda>_ s. ((), s)) demoService \<noteq> None"
proof -
  let ?env = "demoEnv\<lparr>ev_enqueueCtx := Some CtxCanceled\<rparr>"
  have id: "ev_commandID ?env = Inr ''c1'' \<or> ev_commandID ?env = Inl CtxCanceled"
    and st: "ev_step ?env = id" and ctx: "ev_enqueueCtx ?env = Some CtxCanceled"
    "ev_waitCtx ?env = Some CtxDeadlineExceeded" by (simp_all add: demoEnv_def)
  have n: "neutral V (ev_step ?env)" for V unfolding st by (rule neutral_id)
  have cb: "neutral {} (\<lambda>s. snd ((\<lambda>_ s. ((), s)) x s))" for x :: string by (simp add: neutral_def)
  show ?thesis by (rule dispatch_returns [OF demoService_ok id n n cb ctx])
qed

lemma acquireFirst_hd:
  assumes ok: "heap_ok U s H" and a: "a < length (sv_heap s)" and cap: "hasCapability c (sv_heap s ! a)"
    and free: "inflightOf c (sv_heap s ! a) < maxInflightOf c (sv_heap s ! a)"
  shows "acquireFirst c ((a, k) # cs) s =
    (Some a, putSession a (snd (tryAcquireCapability c (sv_heap s ! a))) s)"
proof -
  have "slots_ok c (sv_heap s ! a)" by (rule session_ok_slots [OF heap_okD(1) [OF ok a] cap])
  from slots.acquire_law [OF this] free have "fst (tryAcquireCapability c (sv_heap s ! a))" by simp
  then show ?thesis by (simp add: split_beta)
qed

text \<open>The machine representation bounds a limit by the largest \<open>int\<close>.\<close>

definition limits_ok :: "string \<Rightarrow> service \<Rightarrow> bool" where
  "limits_ok c s \<longleftrightarrow> (\<forall>se \<in> set (sv_heap s). maxInflightOf c se \<le> 2 ^ 63 - 1)"

text \<open>C38: Without interference a pick is optimal: it fails exactly when no listed node has a live
  session with the capability, or all such sessions are full (and it says which); otherwise it
  takes one slot of a session whose load is the least among all the sessions with a free slot,
  and changes no other session.\<close>

theorem pick_least_loaded:
  assumes ok: "heap_ok U s H" and lim: "limits_ok c s"
    and ids: "listOnlineNodeIDsForCapability c owner s = (ids, s0)"
  shows "case pickSessionForCapability id c owner s of (r, s') \<Rightarrow>
    (case r of
       Inl e \<Rightarrow> eligible c s ids = [] \<and> sv_heap s' = sv_heap s \<and>
         e = (if \<exists>n \<in> set ids. capable c s n then ErrNoWorkerCapacity else ErrNoCapabilityWorker)
     | Inr a \<Rightarrow> (a, inflightOf c (sv_heap s ! a)) \<in> set (eligible c s ids) \<and>
         (\<forall>(b, k) \<in> set (eligible c s ids). inflightOf c (sv_heap s ! a) \<le> k) \<and>
         inflightOf c (sv_heap s' ! a) = inflightOf c (sv_heap s ! a) + 1 \<and>
         (\<forall>b. b \<noteq> a \<longrightarrow> sv_heap s' ! b = sv_heap s ! b))"
proof -
  let ?order = "rotated (sv_roundRobin s0) ids"
  let ?s1 = "s0\<lparr>sv_roundRobin := Suc (sv_roundRobin s0)\<rparr>"
  define acc where "acc = fold (\<lambda>(a, k). addCandidate a k) (eligible c s ?order) emptyScan"
  have s0: "heap_ok U s0 H" "sv_heap s0 = sv_heap s"
    using list_frame(1) [of U c owner s H] list_frame(2) [of c owner s] ok ids by simp_all
  note eq = pickSessionForCapability_eq [OF ok ids, of id, unfolded Let_def, folded acc_def]
  have order: "set ?order = set ids"
  proof
    show "set ?order \<subseteq> set ids" by (auto simp: rotated_def intro!: nth_mem mod_less_divisor)
    show "set ids \<subseteq> set ?order"
    proof
      fix n assume "n \<in> set ids"
      then obtain j where j: "j < length ids" "n = ids ! j" by (metis in_set_conv_nth)
      let ?n = "length ids"
      let ?i = "(j + ?n - sv_roundRobin s0 mod ?n) mod ?n"
      have "(sv_roundRobin s0 + ?i) mod ?n = j"
      proof -
        have "0 < ?n" using j(1) by linarith
        then have "sv_roundRobin s0 mod ?n < ?n" by (rule mod_less_divisor)
        then have le: "sv_roundRobin s0 mod ?n \<le> ?n" by simp
        have "(sv_roundRobin s0 + ?i) mod ?n =
            (sv_roundRobin s0 mod ?n + (j + ?n - sv_roundRobin s0 mod ?n)) mod ?n"
          by (simp add: mod_simps)
        also have "sv_roundRobin s0 mod ?n + (j + ?n - sv_roundRobin s0 mod ?n) = j + ?n"
          using le by linarith
        finally show ?thesis using j(1) by simp
      qed
      moreover have "?i < ?n" by (rule mod_less_divisor) (use j(1) in linarith)
      ultimately show "n \<in> set ?order"
        using j unfolding rotated_def set_map by (intro image_eqI [of _ _ ?i]) simp_all
    qed
  qed
  have el: "set (eligible c s ?order) = set (eligible c s ids)"
    by (rule set_eqI) (metis eligible_iff order prod.exhaust)
  have small: "k < 2 ^ 63 - 1" if "(a, k) \<in> set (eligible c s ?order)" for a k
  proof -
    note mem = that
    obtain n where "getSession n s = Some a" "k < maxInflightOf c (sv_heap s ! a)"
      using mem unfolding eligible_iff by blast
    moreover from this have "sv_heap s ! a \<in> set (sv_heap s)" using heap_okD(2) [OF ok] by simp
    ultimately show ?thesis using lim unfolding limits_ok_def by fastforce
  qed
  show ?thesis
  proof (cases "eligible c s ?order = []")
    case True
    then have "sn_preferred acc = []" by (simp add: acc_def emptyScan_def)
    with True el order s0(2) show ?thesis unfolding eq by (auto split: if_splits)
  next
    case False
    note min = addCandidates_min [OF False small]
    have pref: "sn_preferred acc = filter (\<lambda>e. \<forall>e' \<in> set (eligible c s ?order). snd e \<le> snd e') (eligible c s ?order)"
      unfolding acc_def by (rule min(1))
    have low: "\<forall>e \<in> set (eligible c s ?order). sn_minInflight acc \<le> snd e"
      unfolding acc_def by (rule min(3))
    have "sn_minInflight acc \<in> snd ` set (eligible c s ?order)"
      unfolding acc_def by (rule min(4))
    then obtain e where e: "sn_minInflight acc = snd e" "e \<in> set (eligible c s ?order)" by (rule imageE)
    have "e \<in> set (sn_preferred acc)" unfolding pref using e(2) low unfolding e(1) by simp
    then have "sn_preferred acc \<noteq> []" by (cases "sn_preferred acc") simp_all
    then obtain a k cs where hd: "sn_preferred acc = (a, k) # cs" by (metis list.exhaust prod.exhaust)
    have "(a, k) \<in> set (sn_preferred acc)" by (simp add: hd)
    then have ak: "(a, k) \<in> set (eligible c s ids)" "\<forall>e \<in> set (eligible c s ids). k \<le> snd e"
      unfolding pref using el by auto
    then obtain n where n: "getSession n s = Some a" "hasCapability c (sv_heap s ! a)"
      "k = inflightOf c (sv_heap s ! a)" "k < maxInflightOf c (sv_heap s ! a)"
      unfolding eligible_iff by blast
    have a: "a < length (sv_heap s)" by (rule heap_okD(2) [OF ok n(1)])
    have acq: "acquireFirst c (sn_preferred acc @ sn_fallback acc) ?s1 =
        (Some a, putSession a (snd (tryAcquireCapability c (sv_heap s ! a))) ?s1)"
      using acquireFirst_hd [of U ?s1 H a c k "cs @ sn_fallback acc"] s0 a n by (simp add: hd)
    have "slots_ok c (sv_heap s ! a)" by (rule session_ok_slots [OF heap_okD(1) [OF ok a] n(2)])
    from slots.acquire_law [OF this] n(3,4)
    have used: "inflightOf c (snd (tryAcquireCapability c (sv_heap s ! a))) = inflightOf c (sv_heap s ! a) + 1"
      by simp
    have ne: "ids \<noteq> []" using ak(1) by (auto simp: eligible_def)
    have res: "pickSessionForCapability id c owner s =
        (Inr a, putSession a (snd (tryAcquireCapability c (sv_heap s ! a))) ?s1)"
      unfolding eq using ne hd acq by (simp add: hd)
    show ?thesis
      unfolding res using ak n(3) used a s0(2) by (auto simp: putSession_def split_beta)
  qed
qed

theorem pick_least_loaded_witness:
  "fst (pickSessionForCapability id ''echo'' [] demoService) = Inr 0 \<and>
   inflightOf ''echo'' (sv_heap (snd (pickSessionForCapability id ''echo'' [] demoService)) ! 0) = 1"
proof -
  have "fst (listOnlineNodeIDsForCapability ''echo'' [] demoService) = [''n1'']" by code_simp
  then obtain s0 where ids: "listOnlineNodeIDsForCapability ''echo'' [] demoService = ([''n1''], s0)"
    by (cases "listOnlineNodeIDsForCapability ''echo'' [] demoService") simp
  have lim: "limits_ok ''echo'' demoService" unfolding limits_ok_def by code_simp
  have z: "inflightOf ''echo'' (sv_heap demoService ! 0) = 0" by code_simp
  have el: "eligible ''echo'' demoService [''n1''] = [(0, 0)]" by code_simp
  from pick_least_loaded [OF demoService_ok [of "{}"] lim ids] show ?thesis
    by (cases "pickSessionForCapability id ''echo'' [] demoService";
        cases "fst (pickSessionForCapability id ''echo'' [] demoService)") (auto simp: el z)
qed

text \<open>Two sessions of one capability: the first has one of two slots taken, the second is idle.\<close>

definition raceService :: service where
  "raceService = (newRegistryService (emptyDB\<lparr>
       db_nodes := map (\<lambda>i. \<lparr>n_node_id = i, n_session_id = ''s'', n_provisioned = 1, n_node_name = [],
         n_executor_kind = [], n_version = [], n_registered_at = 1000, n_last_seen_at = 5000\<rparr>) [''n1'', ''n2''],
       db_caps := map (\<lambda>i. \<lparr>c_node_id = i, c_capability_name = ''echo'', c_max_inflight = 2\<rparr>) [''n1'', ''n2'']\<rparr>)
       [] 5 15 (5000 * millisecond))
     \<lparr>sv_heap := [(newActiveSession ''n1'' ''s'' None)\<lparr>as_capabilities :=
          [(''echo'', \<lparr>sc_maxInflight = 2, sc_inflight = 1\<rparr>)]\<rparr>,
        (newActiveSession ''n2'' ''s'' None)\<lparr>as_capabilities :=
          [(''echo'', \<lparr>sc_maxInflight = 1, sc_inflight = 0\<rparr>)]\<rparr>],
      sv_sessions := [(''n1'', 0), (''n2'', 1)]\<rparr>"

text \<open>The scan forgets candidates: a session seen before a less loaded one is dropped from the
  preferred list and not moved to the fallback list. If the less loaded session fills up before
  the acquire, the pick answers that there is no capacity although the dropped session has had
  a free slot all along.\<close>

theorem pick_race_refuses:
  "fst (pickSessionForCapability (snd \<circ> pickSessionForNodeAndCapability ''n2'' ''echo'') ''echo'' [] raceService) =
     Inl ErrNoWorkerCapacity \<and>
   inflightOf ''echo'' (sv_heap (snd (pickSessionForCapability
     (snd \<circ> pickSessionForNodeAndCapability ''n2'' ''echo'') ''echo'' [] raceService)) ! 0) = 1 \<and>
   maxInflightOf ''echo'' (sv_heap (snd (pickSessionForCapability
     (snd \<circ> pickSessionForNodeAndCapability ''n2'' ''echo'') ''echo'' [] raceService)) ! 0) = 2"
  by code_simp

end
