(* ===== verification/Provisioning.thy ===== *)
theory Provisioning
  imports Service
begin

text \<open>
  What provisioning and revoking a worker guarantee
  (\<open>console/internal/grpcserver/service_credentials_runtime.go\<close> over the registry): a revoked
  worker leaves nothing behind, unless a credential lookup is under way; an owner has one
  worker-sys.
\<close>

section \<open>Store operations without faults\<close>

lemma storeDeleteCredential_ok:
  "db_faults d = [] \<Longrightarrow> trimSpace i \<noteq> [] \<Longrightarrow>
   storeDeleteCredential i d = (countWhere (\<lambda>w. w_node_id w = trimSpace i) (db_creds d) = 1,
     d\<lparr>db_creds := deleteRows (\<lambda>w. w_node_id w = trimSpace i) (db_creds d)\<rparr>)"
  by (simp add: storeDeleteCredential_def deleteWorkerCredentialByNode_def Let_def)

lemma storeDelete_ok:
  "db_faults d = [] \<Longrightarrow> trimSpace i \<noteq> [] \<Longrightarrow>
   storeDelete i d = (0 < countWhere (\<lambda>n. n_node_id n = trimSpace i) (db_nodes d),
     deleteNodesCascade (\<lambda>n. n_node_id n = trimSpace i) d)"
  by (simp add: storeDelete_def deleteWorkerNodeByID_def Let_def)

lemma clearSessionByNode_ok:
  "db_faults d = [] \<Longrightarrow>
   clearSessionByNode i d = (Inr (), d\<lparr>db_nodes := updateWhere (\<lambda>n. n_node_id n = trimSpace i)
     (n_session_id_update (\<lambda>_. [])) (db_nodes d)\<rparr>)"
  by (simp add: clearSessionByNode_def clearWorkerSessionByNode_def andThen_def)

lemma countWhere_exists: "0 < countWhere P rows \<longleftrightarrow> (\<exists>r \<in> set rows. P r)"
  using countWhere_pos [of P rows] by (auto simp: countWhere_def)

lemma nodeExists_cascade [simp]:
  "nodeExists i (deleteNodesCascade (\<lambda>n. n_node_id n = j) d) \<longleftrightarrow> nodeExists i d \<and> i \<noteq> j"
  by (auto simp: nodeExists_def deleteNodesCascade_def Let_def)

lemma nodeExists_creds [simp]:
  "nodeExists i (d\<lparr>db_creds := c\<rparr>) = nodeExists i d" "nodeExists i (d\<lparr>db_faults := fs\<rparr>) = nodeExists i d"
  by (simp_all add: nodeExists_def)

lemma faults_cascade [simp]: "db_faults (deleteNodesCascade P d) = db_faults d"
  by (simp add: deleteNodesCascade_def Let_def)

lemma orphan_free: "key ` set rows \<subseteq> K \<Longrightarrow> i \<notin> K \<Longrightarrow> \<forall>r \<in> set rows. key r \<noteq> i"
  by blast

lemma no_orphans:
  assumes "workers_wf d" and "\<not> nodeExists i d"
  shows "\<forall>w \<in> set (db_creds d). w_node_id w \<noteq> i" "\<forall>l \<in> set (db_labels d). l_node_id l \<noteq> i"
    "\<forall>c \<in> set (db_caps d). c_node_id c \<noteq> i" "\<forall>m \<in> set (db_claims d). m_node_id m \<noteq> i"
  by (rule orphan_free; use assms in \<open>simp add: workers_wf_def nodeExists_def\<close>)+

text \<open>Clearing a session touches no credential and no key.\<close>

lemma clearSession_frame:
  fixes i :: string
  assumes "db_faults d = []"
  defines "d' \<equiv> snd (clearSessionByNode i d)"
  shows "nodeExists j d' = nodeExists j d" "db_creds d' = db_creds d" "db_labels d' = db_labels d"
    "db_claims d' = db_claims d" "db_faults d' = []" "workers_wf d \<Longrightarrow> workers_wf d'"
proof -
  have "map n_node_id (db_nodes d') = map n_node_id (db_nodes d)"
    by (simp add: assms clearSessionByNode_ok)
  then show "nodeExists j d' = nodeExists j d" unfolding nodeExists_def by (metis set_map)
  show "db_creds d' = db_creds d" "db_labels d' = db_labels d" "db_claims d' = db_claims d"
    "db_faults d' = []" by (simp_all add: assms clearSessionByNode_ok)
  show "workers_wf d \<Longrightarrow> workers_wf d'" unfolding d'_def by (rule inv_intros)
qed

section \<open>Revoking\<close>

lemma settle_closeOnce: "settle out a s = Some s' \<Longrightarrow> as_closeOnce s' = as_closeOnce s"
  by (auto simp: settle_def Let_def split: option.splits)

lemma close_drain_closeOnce:
  assumes "close_drain s = Some s'"
  shows "as_closeOnce s' = as_closeOnce s"
proof -
  have none: "fold (\<lambda>(_, a) acc. case acc of None \<Rightarrow> None | Some s \<Rightarrow> settle (out s) a s) es None = None" for out es
    by (induction es) auto
  have "as_closeOnce s' = as_closeOnce t"
    if "fold (\<lambda>(_, a) acc. case acc of None \<Rightarrow> None | Some s \<Rightarrow> settle (out s) a s) es (Some t) = Some s'" for out es t
    using that
  proof (induction es arbitrary: t)
    case (Cons e es)
    obtain k a where e: "e = (k, a)" by (cases e)
    with Cons.prems obtain t' where t': "settle (out t) a t = Some t'"
      by (cases "settle (out t) a t") (simp_all add: none)
    with Cons e settle_closeOnce [OF t'] show ?case by simp
  qed simp
  from this [OF assms [unfolded close_drain_def]] show ?thesis by simp
qed

lemma closeAt_frame:
  assumes "closeAt id a err s = Some s'"
  shows "sv_db s' = sv_db s" "sv_sessions s' = sv_sessions s" "sv_credentials s' = sv_credentials s"
    "a < length (sv_heap s) \<Longrightarrow> as_closeOnce (sv_heap s' ! a)"
proof -
  show "sv_db s' = sv_db s" "sv_sessions s' = sv_sessions s" "sv_credentials s' = sv_credentials s"
    using assms by (auto simp: closeAt_def Let_def putSession_def split: if_splits)
  assume "a < length (sv_heap s)"
  then show "as_closeOnce (sv_heap s' ! a)"
    using assms close_drain_closeOnce
    by (auto simp: closeAt_def Let_def putSession_def close_begin_def split: if_splits)
qed

lemma disconnect_frame:
  assumes dis: "disconnectWorker id i reason s = Some s'" and i: "trimSpace i \<noteq> []"
  shows "sv_db s' = snd (clearSessionByNode (trimSpace i) (sv_db s))"
    "sv_credentials s' = sv_credentials s" "getSession (trimSpace i) s' = None"
    "getSession (trimSpace i) s = Some a \<Longrightarrow> a < length (sv_heap s) \<Longrightarrow> as_closeOnce (sv_heap s' ! a)"
proof -
  let ?s = "snd (onStore (clearSessionByNode (trimSpace i))
     (s\<lparr>sv_sessions := AList.delete (trimSpace i) (sv_sessions s)\<rparr>))"
  have s: "sv_db ?s = snd (clearSessionByNode (trimSpace i) (sv_db s))" "sv_credentials ?s = sv_credentials s"
    "sv_sessions ?s = AList.delete (trimSpace i) (sv_sessions s)" "sv_heap ?s = sv_heap s"
    by (simp_all add: onStore_def split: prod.split)
  have "sv_db s' = sv_db ?s \<and> sv_credentials s' = sv_credentials ?s \<and> sv_sessions s' = sv_sessions ?s \<and>
    (getSession (trimSpace i) s = Some a \<longrightarrow> a < length (sv_heap s) \<longrightarrow> as_closeOnce (sv_heap s' ! a))"
  proof (cases "map_of (sv_sessions s) (trimSpace i)")
    case None
    then have "s' = ?s" using dis i by (simp add: disconnectWorker_def Let_def)
    with None show ?thesis by (simp add: getSession_def)
  next
    case (Some b)
    then have "closeAt id b (Some (StatusError PermissionDenied reason)) ?s = Some s'"
      using dis i by (simp add: disconnectWorker_def Let_def)
    note c = closeAt_frame [OF this]
    show ?thesis using c Some s(4) by (auto simp: getSession_def)
  qed
  then show "sv_db s' = snd (clearSessionByNode (trimSpace i) (sv_db s))"
    "sv_credentials s' = sv_credentials s" "getSession (trimSpace i) s' = None"
    "getSession (trimSpace i) s = Some a \<Longrightarrow> a < length (sv_heap s) \<Longrightarrow> as_closeOnce (sv_heap s' ! a)"
    by (simp_all add: s getSession_def)
qed

lemma deleteCredential_frame:
  "trimSpace i \<noteq> [] \<Longrightarrow> deleteCredential i s =
     (map_of (sv_credentials s) (trimSpace i) \<noteq> None,
      s\<lparr>sv_credentials := AList.delete (trimSpace i) (sv_credentials s)\<rparr>)"
  by (auto simp: deleteCredential_def Let_def AList.delete_id map_of_eq_None_iff)

text \<open>The tables after a revocation and before the session is taken down.\<close>

definition revokedDB :: "string \<Rightarrow> db \<Rightarrow> db" where
  "revokedDB i d = deleteNodesCascade (\<lambda>n. n_node_id n = i)
     (d\<lparr>db_creds := deleteRows (\<lambda>w. w_node_id w = i) (db_creds d)\<rparr>)"

lemma revokedDB_facts:
  "workers_wf d \<Longrightarrow> workers_wf (revokedDB i d)" "db_faults (revokedDB i d) = db_faults d"
  "\<not> nodeExists i (revokedDB i d)"
  unfolding revokedDB_def by (intro workers_wf_cascade workers_wf_children, assumption) simp_all

lemma deleteProvisionedWorker_eq:
  assumes wf: "workers_wf (sv_db s)" and nf: "db_faults (sv_db s) = []" and i: "trimSpace i \<noteq> []"
  shows "deleteProvisionedWorker id i s =
     (let s2 = s\<lparr>sv_credentials := AList.delete (trimSpace i) (sv_credentials s),
                 sv_db := revokedDB (trimSpace i) (sv_db s)\<rparr>
      in if map_of (sv_credentials s) (trimSpace i) \<noteq> None \<or> nodeExists (trimSpace i) (sv_db s)
         then (True, disconnectWorker id (trimSpace i) ''worker credential revoked'' s2) else (False, Some s2))"
proof -
  let ?i = "trimSpace i"
  let ?d = "(sv_db s)\<lparr>db_creds := deleteRows (\<lambda>w. w_node_id w = ?i) (db_creds (sv_db s))\<rparr>"
  have node: "(0 < countWhere (\<lambda>n. n_node_id n = ?i) (db_nodes ?d)) = nodeExists ?i (sv_db s)"
    unfolding countWhere_exists nodeExists_def image_iff by simp metis
  have sc: "storeDeleteCredential ?i (sv_db s) =
      (countWhere (\<lambda>w. w_node_id w = ?i) (db_creds (sv_db s)) = 1, ?d)"
    using storeDeleteCredential_ok [OF nf, of ?i] i by simp
  have sd: "storeDelete ?i ?d = (nodeExists ?i (sv_db s), revokedDB ?i (sv_db s))"
    using storeDelete_ok [of ?d ?i] i nf node by (simp add: revokedDB_def)
  have cred: "countWhere (\<lambda>w. w_node_id w = ?i) (db_creds (sv_db s)) = 1 \<Longrightarrow> nodeExists ?i (sv_db s)"
    using no_orphans(1) [OF wf, of ?i] countWhere_exists [of "\<lambda>w. w_node_id w = ?i" "db_creds (sv_db s)"] by auto
  show ?thesis
    using i cred unfolding deleteProvisionedWorker_def Let_def deleteCredential_frame [of ?i, simplified, OF i]
    by (auto simp add: onStore_def sc sd)
qed


text \<open>A connected worker with a stored credential.\<close>

definition demoRevocable :: service where
  "demoRevocable = (newRegistryService (demoSeeded\<lparr>db_creds := [\<lparr>w_node_id = ''n1'', w_secret_hash = ''k'',
       w_hash_algo = ''hmac-sha256'', w_created_at = 1, w_updated_at = 1\<rparr>]\<rparr>) [] 5 15 (5000 * millisecond))
     \<lparr>sv_heap := [newActiveSession ''n1'' ''s1'' None], sv_sessions := [(''n1'', 0)]\<rparr>"


text \<open>A revocation that runs while a handshake looks the credential up is undone: the lookup read
  the hash from the database, the revocation deletes it from the cache and the database, and the
  lookup then writes the hash into the cache. The worker no longer exists, yet its secret is
  accepted from then on.\<close>

theorem revocation_race:
  assumes wf: "workers_wf (sv_db s)" and nf: "db_faults (sv_db s) = []"
    and i: "trimSpace i \<noteq> []" and fresh: "map_of (sv_credentials s) (trimSpace i) = None"
    and off: "getSession (trimSpace i) s = None" and valid: "fst (getCredential id i s) = Some h"
  shows "fst (getCredential (\<lambda>s. the (snd (deleteProvisionedWorker id i s))) i s) = Some h \<and>
    \<not> nodeExists (trimSpace i) (sv_db (snd (getCredential (\<lambda>s. the (snd (deleteProvisionedWorker id i s))) i s))) \<and>
    fst (getCredential other i (snd (getCredential (\<lambda>s. the (snd (deleteProvisionedWorker id i s))) i s))) = Some h"
proof -
  let ?i = "trimSpace i"
  let ?revoke = "\<lambda>s. the (snd (deleteProvisionedWorker id i s))"
  have hash: "onStore (getCredentialHash ?i) s = (Some h, s)"
    using valid i fresh nf
    by (auto simp: getCredential_def Let_def onStore_def getCredentialHash_def getWorkerCredentialByNode_def
        split: option.splits if_splits)
  have "\<not> nodeExists ?i (sv_db (?revoke s))"
    using off clearSession_frame(1) [of "revokedDB ?i (sv_db s)" ?i ?i] revokedDB_facts(2,3) nf i
    by (simp add: deleteProvisionedWorker_eq [OF wf nf i] Let_def disconnectWorker_def getSession_def onStore_def
        case_prod_beta)
  then show ?thesis
    using hash i fresh by (simp add: getCredential_def Let_def)
qed

theorem revocation_race_witness:
  "fst (getCredential id ''n1'' (snd (getCredential
     (\<lambda>s. the (snd (deleteProvisionedWorker id ''n1'' s))) ''n1'' (demoRevocable\<lparr>sv_sessions := []\<rparr>)))) = Some ''k''"
proof -
  let ?s = "demoRevocable\<lparr>sv_sessions := []\<rparr>"
  have "workers_wf (sv_db ?s)" unfolding workers_wf_def by code_simp
  moreover have "db_faults (sv_db ?s) = []" by code_simp
  moreover have "trimSpace ''n1'' \<noteq> []" "map_of (sv_credentials ?s) (trimSpace ''n1'') = None"
    "getSession (trimSpace ''n1'') ?s = None" "fst (getCredential id ''n1'' ?s) = Some ''k''"
    by code_simp+
  ultimately show ?thesis using revocation_race [of ?s "''n1''" "''k''" id] by blast
qed

section \<open>One worker-sys per owner\<close>

lemma seedTx_claims: "db_claims (snd (seedTx i n ls r l d)) = db_claims d"
proof -
  let ?P = "\<lambda>d'. db_claims d' = db_claims d"
  have node: "?P d' \<Longrightarrow> ?P (snd (insertProvisionedWorkerNodeIfAbsent i n r l d'))" for d'
    unfolding insertProvisionedWorkerNodeIfAbsent_def by (rule dbRun_preserves) simp_all
  have label: "?P d' \<Longrightarrow> ?P (snd (insertWorkerLabel row d'))" for row d'
    unfolding insertWorkerLabel_def by (rule dbRun_preserves) simp_all
  show ?thesis
    unfolding seedTx_def
    by (rule withTx_preserves [where P = ?P])
      (auto intro!: andThen_preserves [where P = ?P] forEach_preserves [where P = ?P] node label split: prod.split)
qed

lemma seedProvisionedWorkers_claims: "db_claims (snd (seedProvisionedWorkers ws now ttl d)) = db_claims d"
proof -
  have "db_claims (snd (fold (\<lambda>(i, ls) (added, d).
      let nodeID = trimSpace i
      in if nodeID = [] then (added, d)
         else case seedTx nodeID (f nodeID) ls r l d of
                (res, d') \<Rightarrow> (if res = Inr 1 then added + 1 else added, d')) ws (k, d))) = db_claims d"
    for f r l and k :: int
  proof (induction ws arbitrary: k d)
    case (Cons w ws)
    obtain i ls where w: "w = (i, ls)" by (cases w)
    show ?case
      using Cons.IH seedTx_claims [of "trimSpace i" "f (trimSpace i)" ls r l d]
      by (simp add: w Let_def case_prod_beta)
  qed simp
  from this [of "\<lambda>nodeID. ''worker-'' @ shortNodeID nodeID"] show ?thesis
    unfolding seedProvisionedWorkers_def Let_def .
qed

lemma claimWorkerSysOwner_result:
  assumes "claimWorkerSysOwner owner i now d = (res, d')"
  shows "res = Inr True \<Longrightarrow> (\<forall>m \<in> set (db_claims d). m_owner_id m \<noteq> trimSpace owner) \<and>
      db_claims d' = db_claims d @ [\<lparr>m_owner_id = trimSpace owner, m_node_id = trimSpace i, m_claimed_at = unixMilli now\<rparr>]"
    "res \<noteq> Inr True \<Longrightarrow> db_claims d' = db_claims d"
  using assms
  by (auto simp: claimWorkerSysOwner_def andThen_def insertWorkerSysOwnerClaimIfAbsent_def
      split: if_splits prod.splits sum.splits elim!: dbRun_cases)

lemma cred_ops_claims:
  "sv_db (snd (putCredentialIfAbsent i v s)) = sv_db s" "sv_db (snd (deleteCredential i s)) = sv_db s"
  "db_claims (snd (putCredentialHashIfAbsent i h a t d)) = db_claims d"
proof -
  show "sv_db (snd (putCredentialIfAbsent i v s)) = sv_db s" "sv_db (snd (deleteCredential i s)) = sv_db s"
    by (simp_all add: putCredentialIfAbsent_def deleteCredential_def Let_def)
  have "db_claims (snd (insertWorkerCredentialIfAbsent row d)) = db_claims d" for row
    unfolding insertWorkerCredentialIfAbsent_def by (rule dbRun_preserves) simp_all
  then show "db_claims (snd (putCredentialHashIfAbsent i h a t d)) = db_claims d"
    by (simp add: putCredentialHashIfAbsent_def Let_def split: prod.split sum.split)
qed

text \<open>One attempt for a worker-sys either finds the owner unclaimed and records the claim, or does
  not provision anything.\<close>

lemma provisionAttempt_claims:
  assumes att: "provisionAttempt owner workerTypeSys now ttl i x s = (res, s')"
  shows "res = Some (Inr r) \<Longrightarrow> r = (i, x) \<and> (\<forall>m \<in> set (db_claims (sv_db s)). m_owner_id m \<noteq> trimSpace owner) \<and>
      (\<exists>m \<in> set (db_claims (sv_db s')). m_owner_id m = trimSpace owner \<and> m_node_id m = trimSpace i)"
    "\<exists>m \<in> set (db_claims (sv_db s)). m_owner_id m = trimSpace owner \<Longrightarrow> res = None \<Longrightarrow>
      db_claims (sv_db s') = db_claims (sv_db s)"
proof -
  let ?ws = "[(i, [(''source'', ''console-ui''), (labelOwnerIDKey, owner), (labelWorkerTypeKey, workerTypeSys)])]"
  obtain k s1 where seed: "onStore (seedProvisionedWorkers ?ws now ttl) s = (k, s1)"
    by (cases "onStore (seedProvisionedWorkers ?ws now ttl) s")
  have s1: "db_claims (sv_db s1) = db_claims (sv_db s)"
    using seed seedProvisionedWorkers_claims [of ?ws now ttl "sv_db s"] by (auto simp: onStore_def split: prod.splits)
  obtain c s2 where claim: "onStore (claimWorkerSysOwner owner i now) s1 = (c, s2)"
    by (cases "onStore (claimWorkerSysOwner owner i now) s1")
  then have "claimWorkerSysOwner owner i now (sv_db s1) = (c, sv_db s2)"
    by (auto simp: onStore_def split: prod.splits)
  note c = claimWorkerSysOwner_result [OF this, unfolded s1]
  note att' = att [unfolded provisionAttempt_def Let_def seed prod.case fst_conv snd_conv, simplified, unfolded claim fst_conv snd_conv]
  have none: "c = Inr True" if "\<not> (\<exists>e. res = Some (Inl e))" "k = 1"
    using that att' by (cases c) (auto split: bool.splits)
  show "db_claims (sv_db s') = db_claims (sv_db s)"
    if "\<exists>m \<in> set (db_claims (sv_db s)). m_owner_id m = trimSpace owner" "res = None"
    using none c(1) that att' s1 by (auto split: if_splits)
  assume r: "res = Some (Inr r)"
  have k: "k = 1" using att' r by (auto split: if_splits)
  have "c = Inr True" by (rule none) (use r k in simp_all)
  let ?v = "case sv_hasher s2 of None \<Rightarrow> x | Some h \<Rightarrow> h x"
  obtain b s3 where put: "putCredentialIfAbsent i ?v s2 = (b, s3)" by (cases "putCredentialIfAbsent i ?v s2")
  have s3: "sv_db s3 = sv_db s2" using cred_ops_claims(1) [of i ?v s2] put by simp
  have "r = (i, x) \<and> db_claims (sv_db s') = db_claims (sv_db s3)"
    using att' r k put \<open>c = Inr True\<close> cred_ops_claims(3)
    by (auto simp: onStore_def split: prod.splits bool.splits) (metis snd_conv)
  then show "r = (i, x) \<and> (\<forall>m \<in> set (db_claims (sv_db s)). m_owner_id m \<noteq> trimSpace owner) \<and>
      (\<exists>m \<in> set (db_claims (sv_db s')). m_owner_id m = trimSpace owner \<and> m_node_id m = trimSpace i)"
    using c(1) [OF \<open>c = Inr True\<close>] s3 by simp
qed

lemma provisionLoop_claims:
  assumes "provisionLoop n rnd owner workerTypeSys now ttl s = (res, s')"
  shows "res = Inr r \<Longrightarrow> \<exists>m \<in> set (db_claims (sv_db s')). m_owner_id m = trimSpace owner \<and> m_node_id m = trimSpace (fst r)"
    "\<exists>m \<in> set (db_claims (sv_db s)). m_owner_id m = trimSpace owner \<Longrightarrow> \<exists>e. res = Inl e"
proof -
  have "(res = Inr r \<longrightarrow> (\<exists>m \<in> set (db_claims (sv_db s')). m_owner_id m = trimSpace owner \<and> m_node_id m = trimSpace (fst r))) \<and>
    ((\<exists>m \<in> set (db_claims (sv_db s)). m_owner_id m = trimSpace owner) \<longrightarrow> (\<exists>e. res = Inl e))"
    using assms
  proof (induction n arbitrary: rnd s)
    case (Suc n)
    show ?case
    proof (cases rnd)
      case Nil
      with Suc.prems show ?thesis by auto
    next
      case (Cons p rest)
      show ?thesis
      proof (cases p)
        case (Inl e)
        with Suc.prems Cons show ?thesis by auto
      next
        case (Inr ix)
        obtain i x where ix: "ix = (i, x)" by (cases ix)
        obtain o1 s1 where att: "provisionAttempt owner workerTypeSys now ttl i x s = (o1, s1)"
          by (cases "provisionAttempt owner workerTypeSys now ttl i x s")
        note c = provisionAttempt_claims [OF att]
        show ?thesis
        proof (cases o1)
          case None
          then have "provisionLoop n rest owner workerTypeSys now ttl s1 = (res, s')"
            using Suc.prems Cons Inr ix att by simp
          from Suc.IH [OF this] c(2) None show ?thesis by simp
        next
          case (Some r1)
          then have "r1 = res" "s1 = s'" using Suc.prems Cons Inr ix att by simp_all
          with Some c(1) [of r] show ?thesis by (cases res) (use c(1) in fastforce)+
        qed
      qed
    qed
  qed auto
  then show "res = Inr r \<Longrightarrow> \<exists>m \<in> set (db_claims (sv_db s')). m_owner_id m = trimSpace owner \<and> m_node_id m = trimSpace (fst r)"
    "\<exists>m \<in> set (db_claims (sv_db s)). m_owner_id m = trimSpace owner \<Longrightarrow> \<exists>e. res = Inl e" by blast+
qed

lemma countWorkersByOwnerAndType_db:
  "db_claims (snd (countWorkersByOwnerAndType a b d)) = db_claims d"
proof -
  have "db_claims (snd (countWorkerNodesByOwnerAndType x y d)) = db_claims d" for x y
    unfolding countWorkerNodesByOwnerAndType_def by (rule dbRun_preserves) simp_all
  then show ?thesis by (simp add: countWorkersByOwnerAndType_def)
qed

lemma createProvisioned_sys:
  assumes "createProvisionedWorkerForOwner rnd owner typ now ttl s = (res, s')"
    and "normalizeProvisioningWorkerType typ = workerTypeSys"
  shows "res = Inr r \<Longrightarrow> \<exists>m \<in> set (db_claims (sv_db s')). m_owner_id m = trimSpace owner \<and> m_node_id m = trimSpace (fst r)"
    "\<exists>m \<in> set (db_claims (sv_db s)). m_owner_id m = trimSpace owner \<Longrightarrow> \<exists>e. res = Inl e"
proof -
  let ?s = "snd (onStore (countWorkersByOwnerAndType (trimSpace owner) workerTypeSys) s)"
  have s: "db_claims (sv_db ?s) = db_claims (sv_db s)"
    by (simp add: onStore_def case_prod_beta countWorkersByOwnerAndType_db)
  have "(\<exists>e. res = Inl e) \<or>
      provisionLoop maxProvisioningCreateAttempts rnd (trimSpace owner) workerTypeSys now ttl ?s = (res, s')"
    using assms by (auto simp: createProvisionedWorkerForOwner_def Let_def split: if_splits)
  then show "res = Inr r \<Longrightarrow> \<exists>m \<in> set (db_claims (sv_db s')). m_owner_id m = trimSpace owner \<and> m_node_id m = trimSpace (fst r)"
    "\<exists>m \<in> set (db_claims (sv_db s)). m_owner_id m = trimSpace owner \<Longrightarrow> \<exists>e. res = Inl e"
    using provisionLoop_claims [of maxProvisioningCreateAttempts rnd "trimSpace owner" now ttl ?s res s'] s by auto
qed

text \<open>C9: An owner has at most one worker-sys: a successful creation records the owner's claim on the
  new worker, and as long as no claim has been given up every other creation for that owner is
  refused, whatever queries fail and however the owner id and the type are written.\<close>

theorem sys_worker_unique:
  assumes ok: "createProvisionedWorkerForOwner rnd owner typ now ttl s = (Inr (i, x), s1)"
    and kind: "normalizeProvisioningWorkerType typ = workerTypeSys"
    and kept: "set (db_claims (sv_db s1)) \<subseteq> set (db_claims (sv_db s2))"
    and same: "trimSpace owner' = trimSpace owner" "normalizeProvisioningWorkerType typ' = workerTypeSys"
  shows "(\<exists>m \<in> set (db_claims (sv_db s1)). m_owner_id m = trimSpace owner \<and> m_node_id m = trimSpace i) \<and>
    (\<exists>e. fst (createProvisionedWorkerForOwner rnd' owner' typ' now' ttl' s2) = Inl e)"
proof
  show claim: "\<exists>m \<in> set (db_claims (sv_db s1)). m_owner_id m = trimSpace owner \<and> m_node_id m = trimSpace i"
    using createProvisioned_sys(1) [OF ok kind] by simp
  obtain res s3 where second: "createProvisionedWorkerForOwner rnd' owner' typ' now' ttl' s2 = (res, s3)"
    by (cases "createProvisionedWorkerForOwner rnd' owner' typ' now' ttl' s2")
  from claim kept same(1) have "\<exists>m \<in> set (db_claims (sv_db s2)). m_owner_id m = trimSpace owner'" by auto
  from createProvisioned_sys(2) [OF second same(2) this]
  show "\<exists>e. fst (createProvisionedWorkerForOwner rnd' owner' typ' now' ttl' s2) = Inl e"
    unfolding second by simp
qed

definition demoFresh :: service where
  "demoFresh = newRegistryService emptyDB [] 5 15 (5000 * millisecond)"

theorem sys_worker_unique_witness:
  "\<exists>e. fst (createProvisionedWorkerForOwner [Inr (''n2'', ''k2'')] '' alice '' '' Worker-SYS'' 7 0
     (snd (createProvisionedWorkerForOwner [Inr (''n1'', ''k1'')] ''alice'' ''worker-sys'' 5 0 demoFresh))) = Inl e"
proof -
  let ?c = "createProvisionedWorkerForOwner [Inr (''n1'', ''k1'')] ''alice'' ''worker-sys'' 5 0 demoFresh"
  have "fst ?c = Inr (''n1'', ''k1'')" by code_simp
  then have "?c = (Inr (''n1'', ''k1''), snd ?c)" by (metis prod.collapse)
  moreover have "normalizeProvisioningWorkerType ''worker-sys'' = workerTypeSys"
    "normalizeProvisioningWorkerType '' Worker-SYS'' = workerTypeSys"
    "trimSpace '' alice '' = trimSpace ''alice''" by code_simp+
  ultimately show ?thesis
    using sys_worker_unique [of _ _ _ _ _ _ "''n1''" "''k1''" "snd ?c" "snd ?c"] by blast
qed

end
