(* ===== verification/Connect.thy ===== *)
theory Connect
  imports Dispatch Provisioning
begin

text \<open>
  \<open>console/internal/grpcserver/service_connect.go\<close>: one worker's stream. The handshake checks
  the hello, the credential and, for a worker-sys, the capabilities; the session then replaces
  the node's previous one, is registered in the database and serves frames until the stream
  ends, and is taken down on every way out. What other goroutines do wherever no lock is held
  is an argument, and so is everything the network and the scheduler decide. A call that does
  not return (it waits, or would panic) is \<open>None\<close>.
\<close>

section \<open>Frames and errors\<close>

datatype connectRequest =
    HelloFrame connectHello
  | HeartbeatFrame string string
  | ResultFrame commandResult
  | EmptyFrame

datatype recvResult = RecvFrame connectRequest | RecvEOF | RecvErr go_error

text \<open>\<open>status.Code\<close> (\<open>None\<close> is \<open>Unknown\<close>) and \<open>status.FromContextError\<close>.\<close>

definition statusCode :: "go_error \<Rightarrow> grpc_code option" where
  "statusCode err = (case err of StatusError c _ \<Rightarrow> Some c | _ \<Rightarrow> None)"

definition fromContextError :: "go_error \<Rightarrow> go_error option" where
  "fromContextError err =
     (case err of
        CtxDeadlineExceeded \<Rightarrow> Some (StatusError DeadlineExceededCode ''context deadline exceeded'')
      | CtxCanceled \<Rightarrow> Some (StatusError CanceledCode ''context canceled'')
      | _ \<Rightarrow> None)"

definition mapStreamError :: "go_error \<Rightarrow> go_error" where
  "mapStreamError err =
     (if statusCode err \<noteq> None then err
      else case fromContextError err of Some mapped \<Rightarrow> mapped | None \<Rightarrow> err)"

section \<open>The handshake\<close>

definition validateNodeID :: "string \<Rightarrow> go_error option" where
  "validateNodeID nodeID =
     (if trimSpace nodeID = [] then Some (StatusError InvalidArgument ''node_id is required'')
      else if length nodeID > maxNodeIDLength then Some (StatusError InvalidArgument ''node_id is too long'')
      else None)"

definition validateHello :: "connectHello \<Rightarrow> go_error option" where
  "validateHello hello = validateNodeID (ch_nodeId hello)"

definition checkWorkerSecret :: "(string \<Rightarrow> string) option \<Rightarrow> string \<Rightarrow> string \<Rightarrow> bool" where
  "checkWorkerSecret hasher secret workerSecret \<longleftrightarrow>
     (case hasher of Some h \<Rightarrow> hasherEqual h secret workerSecret | None \<Rightarrow> secret = workerSecret)"

text \<open>The loop over the declared capabilities of a worker-sys; \<open>None\<close> on a foreign one.\<close>

primrec scanSysCapabilities :: "capabilityDeclaration option list \<Rightarrow> bool \<Rightarrow> bool \<Rightarrow> (bool \<times> bool) option" where
  "scanSysCapabilities [] hasComputerUse hasReadImage = Some (hasComputerUse, hasReadImage)"
| "scanSysCapabilities (capability # rest) hasComputerUse hasReadImage =
     (case capability of
        None \<Rightarrow> scanSysCapabilities rest hasComputerUse hasReadImage
      | Some c \<Rightarrow>
          if normalizeCapability (cap_name c) = computerUseCapabilityName
          then scanSysCapabilities rest True hasReadImage
          else if normalizeCapability (cap_name c) = readImageCapabilityName
          then scanSysCapabilities rest hasComputerUse True
          else None)"

definition resolveHelloByWorkerType :: "connectHello \<Rightarrow> service \<Rightarrow> (go_error + connectHello) \<times> service" where
  "resolveHelloByWorkerType hello s =
     (case onStore (workerTypeByNodeID (ch_nodeId hello)) s of
        (workerType, s) \<Rightarrow>
          if workerType \<noteq> workerTypeSys then (Inr hello, s)
          else case scanSysCapabilities (ch_capabilities hello) False False of
                 None \<Rightarrow> (Inl (StatusError PermissionDenied
                           ''worker-sys supports only computerUse and readImage capabilities''), s)
               | Some (hasComputerUse, hasReadImage) \<Rightarrow>
                   if \<not> hasComputerUse \<or> \<not> hasReadImage
                   then (Inl (StatusError PermissionDenied
                           ''worker-sys requires computerUse and readImage capabilities''), s)
                   else (Inr (hello\<lparr>ch_capabilities :=
                           [Some \<lparr>cap_name = computerUseCapabilityDeclared, cap_maxInflight = 1\<rparr>,
                            Some \<lparr>cap_name = readImageCapabilityDeclared, cap_maxInflight = 1\<rparr>]\<rparr>), s))"

text \<open>\<open>Connect\<close> up to the resolved hello; \<open>i\<close> is what other goroutines do inside the credential
  lookup.\<close>

definition handshake ::
  "(service \<Rightarrow> service) \<Rightarrow> go_error option \<Rightarrow> recvResult \<Rightarrow> service \<Rightarrow> (go_error + connectHello) \<times> service" where
  "handshake i ctxErr first s =
     (case ctxErr of
        Some e \<Rightarrow> (Inl (case fromContextError e of Some mapped \<Rightarrow> mapped | None \<Rightarrow> e), s)
      | None \<Rightarrow>
          (case first of
             RecvEOF \<Rightarrow> (Inl (StatusError InvalidArgument ''first frame must be hello''), s)
           | RecvErr e \<Rightarrow> (Inl (mapStreamError e), s)
           | RecvFrame (HelloFrame hello) \<Rightarrow>
               (case validateHello hello of
                  Some e \<Rightarrow> (Inl e, s)
                | None \<Rightarrow>
                    (case getCredential i (ch_nodeId hello) s of
                       (None, s) \<Rightarrow> (Inl (StatusError Unauthenticated ''unknown worker_id''), s)
                     | (Some secret, s) \<Rightarrow>
                         let workerSecret = trimSpace (ch_workerSecret hello)
                         in if workerSecret = []
                            then (Inl (StatusError Unauthenticated ''worker_secret is required''), s)
                            else if \<not> checkWorkerSecret (sv_hasher s) secret workerSecret
                            then (Inl (StatusError Unauthenticated ''invalid worker credential''), s)
                            else resolveHelloByWorkerType hello s))
           | RecvFrame _ \<Rightarrow> (Inl (StatusError InvalidArgument ''first frame must be hello''), s)))"

section \<open>Serving frames\<close>

text \<open>One round of the loop: what other goroutines did before it, whether the writer has ended
  (and its error), the frame received, and the context, the scheduler's choice and the clock
  while the frame is handled.\<close>

record round =
  ro_step :: "service \<Rightarrow> service"
  ro_writer :: "go_error option option"
  ro_recv :: recvResult
  ro_ctx :: "go_error option"
  ro_pick :: nat
  ro_wall :: gtime

definition handleHeartbeat ::
  "nat \<Rightarrow> go_error option \<Rightarrow> nat \<Rightarrow> string \<Rightarrow> string \<Rightarrow> service \<Rightarrow> ((go_error + unit) \<times> service) option" where
  "handleHeartbeat pick ctxErr a nodeID sessionID s =
     (if trimSpace sessionID = [] then Some (Inl (StatusError InvalidArgument ''session_id is required''), s)
      else if nodeID \<noteq> as_nodeID (sv_heap s ! a)
      then Some (Inl (StatusError InvalidArgument ''node_id mismatch''), s)
      else case onStore (touchWithSession nodeID sessionID (sv_now s)) s of
             (Inl e, s) \<Rightarrow>
               Some (Inl (if e = ErrNodeNotFound then StatusError NotFound ''node not found''
                          else if e = ErrSessionMismatch then StatusError FailedPrecondition ''session is outdated''
                          else StatusError Internal ''failed to update heartbeat''), s)
           | (Inr _, s) \<Rightarrow>
               (case enqueueControl pick ctxErr (HeartbeatAck (sv_heartbeatIntervalSec s)) (sv_heap s ! a) of
                  None \<Rightarrow> None
                | Some (Inr _, se) \<Rightarrow> Some (Inr (), putSession a se s)
                | Some (Inl e, se) \<Rightarrow>
                    Some (Inl (if statusCode e \<noteq> None then e
                               else case fromContextError e of
                                      Some mapped \<Rightarrow> mapped
                                    | None \<Rightarrow> StatusError Internal ''failed to send heartbeat ack''),
                          putSession a se s)))"

definition handleCommandResult :: "gtime \<Rightarrow> nat \<Rightarrow> commandResult \<Rightarrow> service \<Rightarrow> ((go_error + unit) \<times> service) option" where
  "handleCommandResult wall a result s =
     (if trimSpace (cr_commandId result) = []
      then Some (Inl (StatusError InvalidArgument ''command_id is required''), s)
      else map_option (\<lambda>se. (Inr (), putSession a se s)) (resolvePending wall (Some result) (sv_heap s ! a)))"

text \<open>A round either ends the call (\<open>Inl\<close>, with its error) or goes on.\<close>

definition serveRound :: "nat \<Rightarrow> round \<Rightarrow> service \<Rightarrow> ((go_error option + unit) \<times> service) option" where
  "serveRound a r s =
     (let s = ro_step r s
      in case ro_writer r of
           Some err \<Rightarrow> Some (Inl (map_option mapStreamError err), s)
         | None \<Rightarrow>
             (case ro_recv r of
                RecvEOF \<Rightarrow> Some (Inl None, s)
              | RecvErr e \<Rightarrow> Some (Inl (Some (mapStreamError e)), s)
              | RecvFrame (HeartbeatFrame nodeID sessionID) \<Rightarrow>
                  map_option (\<lambda>(res, s). (case res of Inl e \<Rightarrow> Inl (Some e) | Inr _ \<Rightarrow> Inr (), s))
                    (handleHeartbeat (ro_pick r) (ro_ctx r) a nodeID sessionID s)
              | RecvFrame (ResultFrame result) \<Rightarrow>
                  map_option (\<lambda>(res, s). (case res of Inl e \<Rightarrow> Inl (Some e) | Inr _ \<Rightarrow> Inr (), s))
                    (handleCommandResult (ro_wall r) a result s)
              | RecvFrame _ \<Rightarrow> Some (Inl (Some (StatusError InvalidArgument ''unsupported frame type'')), s)))"

primrec serveLoop :: "nat \<Rightarrow> round list \<Rightarrow> service \<Rightarrow> (go_error option \<times> service) option" where
  "serveLoop a [] s = None"
| "serveLoop a (r # rs) s =
     (case serveRound a r s of
        None \<Rightarrow> None
      | Some (Inl err, s) \<Rightarrow> Some (err, s)
      | Some (Inr _, s) \<Rightarrow> serveLoop a rs s)"

section \<open>Connecting\<close>

text \<open>The environment of one connection: the steps of other goroutines, the fresh session id and
  the choices of the acknowledgement's \<open>select\<close>.\<close>

record connect_env =
  ce_step :: "service \<Rightarrow> service"
  ce_sessionID :: "go_error + string"
  ce_ackCtx :: "go_error option"
  ce_ackPick :: nat

definition openSession ::
  "(service \<Rightarrow> service) \<Rightarrow> connectHello \<Rightarrow> string \<Rightarrow> service \<Rightarrow> (nat \<times> service) option" where
  "openSession i hello sessionID s =
     (case allocSession (newActiveSession (ch_nodeId hello) sessionID (Some hello)) s of
        (a, s) \<Rightarrow>
          (case swapSession a s of
             (None, s) \<Rightarrow> Some (a, s)
           | (Some b, s) \<Rightarrow>
               map_option (\<lambda>s. (a, s))
                 (closeAt i b (Some (StatusError FailedPrecondition ''session replaced by a newer connection'')) (i s))))"

text \<open>Between \<open>swapSession\<close> and the deferred clean-up.\<close>

definition serveSession ::
  "connect_env \<Rightarrow> connectHello \<Rightarrow> string \<Rightarrow> gtime \<Rightarrow> nat \<Rightarrow> round list \<Rightarrow> service \<Rightarrow>
   (go_error option \<times> service) option" where
  "serveSession env hello sessionID now a rounds s =
     (case onStore (upsert (Some hello) sessionID now) (ce_step env s) of
        (Inl _, s) \<Rightarrow> Some (Some (StatusError Internal ''failed to persist worker registration''), s)
      | (Inr _, s) \<Rightarrow>
          let s = ce_step env s
          in case enqueueControl (ce_ackPick env) (ce_ackCtx env)
                    (ConnectAck sessionID (sv_heartbeatIntervalSec s)) (sv_heap s ! a) of
               None \<Rightarrow> None
             | Some (Inl _, se) \<Rightarrow>
                 Some (Some (StatusError Internal ''failed to send connect ack''), putSession a se s)
             | Some (Inr _, se) \<Rightarrow> serveLoop a rounds (putSession a se s))"

definition connectStream ::
  "connect_env \<Rightarrow> go_error option \<Rightarrow> recvResult \<Rightarrow> round list \<Rightarrow> service \<Rightarrow> (go_error option \<times> service) option" where
  "connectStream env ctxErr first rounds s =
     (case handshake (ce_step env) ctxErr first s of
        (Inl e, s) \<Rightarrow> Some (Some e, s)
      | (Inr hello, s) \<Rightarrow>
          let now = sv_now s
          in case ce_sessionID env of
               Inl _ \<Rightarrow> Some (Some (StatusError Internal ''failed to create session_id''), s)
             | Inr sessionID \<Rightarrow>
                 (case openSession (ce_step env) hello sessionID s of
                    None \<Rightarrow> None
                  | Some (a, s) \<Rightarrow>
                      (case serveSession env hello sessionID now a rounds s of
                         None \<Rightarrow> None
                       | Some (retErr, s) \<Rightarrow>
                           map_option (\<lambda>s. (retErr, s))
                             (closeAt (ce_step env) a retErr (removeSession a (ce_step env s))))))"

section \<open>The writer\<close>

text \<open>One round of \<open>writerLoop\<close>: the first \<open>select\<close> does not wait and looks at \<open>done\<close> and the
  control queue; the second one waits for any of the three (\<open>i\<close> runs between them).\<close>

datatype writer_choice = WriterStop | WriterSend connectResponse | WriterWait

definition writerReady :: "bool \<Rightarrow> activeSession \<Rightarrow> (writer_choice \<times> activeSession) list" where
  "writerReady commands s =
     (if as_done s then [(WriterStop, s)] else []) @
     (case as_controlOutbound s of [] \<Rightarrow> []
      | r # rest \<Rightarrow> [(WriterSend r, s\<lparr>as_controlOutbound := rest\<rparr>)]) @
     (if commands
      then case as_commandOutbound s of [] \<Rightarrow> []
           | r # rest \<Rightarrow> [(WriterSend r, s\<lparr>as_commandOutbound := rest\<rparr>)]
      else [])"

definition writerRound ::
  "nat \<Rightarrow> nat \<Rightarrow> (activeSession \<Rightarrow> activeSession) \<Rightarrow> activeSession \<Rightarrow> writer_choice \<times> activeSession" where
  "writerRound pick1 pick2 i s =
     (let ready = writerReady False s
      in if ready \<noteq> [] then ready ! (pick1 mod length ready)
         else let s = i s; ready = writerReady True s
              in if ready \<noteq> [] then ready ! (pick2 mod length ready) else (WriterWait, s))"

text \<open>The loop over rounds: the frames sent, in order, and how it ended (\<open>None\<close>: it still runs).
  \<open>send\<close> is the answer of \<open>stream.Send\<close>.\<close>

primrec writerLoop ::
  "(connectResponse \<Rightarrow> go_error option) \<Rightarrow> (nat \<times> nat \<times> (activeSession \<Rightarrow> activeSession)) list \<Rightarrow> activeSession \<Rightarrow>
   connectResponse list \<times> go_error option option \<times> activeSession" where
  "writerLoop send [] s = ([], None, s)"
| "writerLoop send (r # rs) s =
     (case r of (pick1, pick2, i) \<Rightarrow>
        case writerRound pick1 pick2 i s of
          (WriterStop, s) \<Rightarrow> ([], Some None, s)
        | (WriterWait, s) \<Rightarrow> writerLoop send rs s
        | (WriterSend response, s) \<Rightarrow>
            (case send response of
               Some err \<Rightarrow> ([response], Some (Some err), s)
             | None \<Rightarrow> (case writerLoop send rs s of (sent, res) \<Rightarrow> (response # sent, res))))"

section \<open>What a connection leaves alone\<close>

text \<open>A session's identity, and that a closed session stays closed.\<close>

definition same_session :: "activeSession \<Rightarrow> activeSession \<Rightarrow> bool" where
  "same_session s s' \<longleftrightarrow> as_nodeID s' = as_nodeID s \<and> as_sessionID s' = as_sessionID s \<and>
     (as_closeOnce s \<longrightarrow> as_closeOnce s')"

lemma same_session_refl [simp, intro]: "same_session s s"
  by (simp add: same_session_def)

lemma same_session_trans: "same_session s t \<Longrightarrow> same_session t u \<Longrightarrow> same_session s u"
  by (auto simp: same_session_def)

lemma release_ident [simp]:
  "as_nodeID (releaseCapability c s) = as_nodeID s" "as_sessionID (releaseCapability c s) = as_sessionID s"
  by (simp_all add: releaseCapability_def Let_def split: option.split)

lemma settle_same: "settle out a s = Some s' \<Longrightarrow> same_session s s'"
  by (auto simp: settle_def Let_def same_session_def split: option.splits)

lemma close_drain_same:
  assumes "close_drain s = Some s'"
  shows "same_session s s'"
proof -
  have none: "fold (\<lambda>(_, a) acc. case acc of None \<Rightarrow> None | Some s \<Rightarrow> settle (out s) a s) es None = None" for out es
    by (induction es) auto
  have "same_session t s'"
    if "fold (\<lambda>(_, a) acc. case acc of None \<Rightarrow> None | Some s \<Rightarrow> settle (out s) a s) es (Some t) = Some s'" for out es t
    using that
  proof (induction es arbitrary: t)
    case (Cons e es)
    obtain k a where e: "e = (k, a)" by (cases e)
    with Cons.prems obtain t' where t': "settle (out t) a t = Some t'"
      by (cases "settle (out t) a t") (simp_all add: none)
    with Cons.prems e have "same_session t' s'" by (intro Cons.IH) simp
    with settle_same [OF t'] show ?case by (rule same_session_trans)
  qed simp
  from this [OF assms [unfolded close_drain_def]] show ?thesis by (simp add: same_session_def)
qed

lemma resolve_same: "resolvePending wall r s = Some s' \<Longrightarrow> same_session s s'"
  using settle_same
  by (auto simp: resolvePending_def Let_def same_session_def split: option.splits if_splits)

lemma control_same: "enqueueControl pick ctx r s = Some (res, s') \<Longrightarrow> same_session s s'"
  by (auto simp: enqueueControl_def same_session_def)

lemma close_begin_same: "same_session s (close_begin err s)"
  by (simp add: close_begin_def same_session_def)

text \<open>The session table holds live addresses under their node ids.\<close>

definition table_ok :: "service \<Rightarrow> bool" where
  "table_ok s \<longleftrightarrow> keys_distinct (sv_sessions s) \<and>
     (\<forall>(n, a) \<in> set (sv_sessions s). a < length (sv_heap s) \<and> as_nodeID (sv_heap s ! a) = n)"

text \<open>Existing sessions keep their identity, stay closed, and are not put back into the table.\<close>

definition evolves :: "service \<Rightarrow> service \<Rightarrow> bool" where
  "evolves s s' \<longleftrightarrow> length (sv_heap s) \<le> length (sv_heap s') \<and>
     (\<forall>a < length (sv_heap s). same_session (sv_heap s ! a) (sv_heap s' ! a) \<and>
        (a \<notin> snd ` set (sv_sessions s) \<longrightarrow> a \<notin> snd ` set (sv_sessions s')))"

definition live_ok :: "service \<Rightarrow> (nat \<Rightarrow> string \<Rightarrow> nat) \<Rightarrow> bool" where
  "live_ok s H \<longleftrightarrow> heap_ok {} s H \<and> table_ok s"

definition honest :: "(service \<Rightarrow> service) \<Rightarrow> bool" where
  "honest i \<longleftrightarrow> (\<forall>s H. live_ok s H \<longrightarrow> live_ok (i s) H \<and> evolves s (i s))"

lemma honestD: "honest i \<Longrightarrow> live_ok s H \<Longrightarrow> live_ok (i s) H" "honest i \<Longrightarrow> live_ok s H \<Longrightarrow> evolves s (i s)"
  by (auto simp: honest_def)

lemma evolves_refl [simp, intro]: "evolves s s"
  by (simp add: evolves_def)

lemma evolves_trans:
  assumes "evolves s t" and "evolves t u"
  shows "evolves s u"
  unfolding evolves_def
proof (intro conjI allI impI)
  show "length (sv_heap s) \<le> length (sv_heap u)"
    using assms unfolding evolves_def by linarith
  fix a assume a: "a < length (sv_heap s)"
  then have b: "a < length (sv_heap t)" using assms(1) unfolding evolves_def by linarith
  show "same_session (sv_heap s ! a) (sv_heap u ! a)"
    using assms a b unfolding evolves_def by (blast intro: same_session_trans)
  show "a \<notin> snd ` set (sv_sessions s) \<Longrightarrow> a \<notin> snd ` set (sv_sessions u)"
    using assms a b unfolding evolves_def by blast
qed

lemma evolvesD:
  assumes "evolves s t" and "a < length (sv_heap s)"
  shows "a < length (sv_heap t)" "as_nodeID (sv_heap t ! a) = as_nodeID (sv_heap s ! a)"
    "as_sessionID (sv_heap t ! a) = as_sessionID (sv_heap s ! a)"
    "as_closeOnce (sv_heap s ! a) \<Longrightarrow> as_closeOnce (sv_heap t ! a)"
    "a \<notin> snd ` set (sv_sessions s) \<Longrightarrow> a \<notin> snd ` set (sv_sessions t)"
  using assms unfolding evolves_def same_session_def by auto

text \<open>The operations a connection is made of.\<close>

lemma put_evolves:
  assumes "live_ok s H" and "a < length (sv_heap s)" and "same_session (sv_heap s ! a) se"
    and "session_ok se (H a)"
  shows "live_ok (putSession a se s) H" "evolves s (putSession a se s)"
proof -
  have "heap_ok {} (putSession a se s) (H(a := H a))"
    by (rule heap_ok_put) (use assms in \<open>simp_all add: live_ok_def session_free_def\<close>)
  moreover have "table_ok (putSession a se s)"
    using assms by (fastforce simp: live_ok_def table_ok_def putSession_def same_session_def nth_list_update)
  ultimately show "live_ok (putSession a se s) H" by (simp add: live_ok_def)
  show "evolves s (putSession a se s)"
    using assms(2,3) by (simp add: evolves_def putSession_def nth_list_update)
qed

lemma frame_evolves:
  assumes "live_ok s H" and "sv_heap s' = sv_heap s" and "sv_sessions s' = sv_sessions s"
  shows "live_ok s' H" "evolves s s'"
  using assms by (simp_all add: live_ok_def heap_ok_def table_ok_def evolves_def)

lemma onStore_evolves:
  assumes "live_ok s H"
  shows "live_ok (snd (onStore f s)) H" "evolves s (snd (onStore f s))"
  by (rule frame_evolves [OF assms]; simp add: onStore_def split: prod.split)+

lemma live_session: "live_ok s H \<Longrightarrow> a < length (sv_heap s) \<Longrightarrow> session_ok (sv_heap s ! a) (H a)"
  by (simp add: live_ok_def heap_ok_def)

lemma closeAt_evolves:
  assumes i: "honest i" and ok: "live_ok s H" and a: "a < length (sv_heap s)"
  obtains s' where "closeAt i a err s = Some s'" "live_ok s' H" "evolves s s'"
    "as_closeOnce (sv_heap s' ! a)" "\<not> as_closeOnce (sv_heap s ! a) \<Longrightarrow> as_pending (sv_heap s' ! a) = []"
proof (cases "as_closeOnce (sv_heap s ! a)")
  case True
  with ok that show thesis by (simp add: closeAt_def)
next
  case False
  let ?s1 = "putSession a (close_begin err (sv_heap s ! a)) s"
  let ?s2 = "i ?s1"
  note p1 = put_evolves [OF ok a close_begin_same [of _ err] session_ok_close [OF live_session [OF ok a]]]
  note h = honestD [OF i p1(1)]
  have a1: "a < length (sv_heap ?s1)" by (rule evolvesD(1) [OF p1(2) a])
  have a2: "a < length (sv_heap ?s2)" by (rule evolvesD(1) [OF h(2) a1])
  have c1: "as_closeOnce (sv_heap ?s1 ! a)" using a by (simp add: putSession_def close_begin_def)
  have c2: "as_closeOnce (sv_heap ?s2 ! a)" by (rule evolvesD(4) [OF h(2) a1 c1])
  obtain se where se: "close_drain (sv_heap ?s2 ! a) = Some se" "session_ok se (H a)" "as_pending se = []"
    by (rule close_drain_ok [OF live_session [OF h(1) a2]])
  note p2 = put_evolves [OF h(1) a2 close_drain_same [OF se(1)] se(2)]
  show thesis
  proof (rule that)
    show "closeAt i a err s = Some (putSession a se ?s2)" using False se(1) by (simp add: closeAt_def Let_def)
    show "live_ok (putSession a se ?s2) H" by (rule p2(1))
    show "evolves s (putSession a se ?s2)" by (intro evolves_trans [OF p1(2)] evolves_trans [OF h(2)] p2(2))
    show "as_closeOnce (sv_heap (putSession a se ?s2) ! a)"
      using close_drain_closeOnce [OF se(1)] c2 a2 by (simp add: putSession_def)
    show "as_pending (sv_heap (putSession a se ?s2) ! a) = []" using se(3) a2 by (simp add: putSession_def)
  qed
qed

lemma handleHeartbeat_evolves:
  assumes hb: "handleHeartbeat pick ctx a n sid s = Some (res, s')" and ok: "live_ok s H" and a: "a < length (sv_heap s)"
  shows "live_ok s' H \<and> evolves s s'"
proof -
  let ?t = "snd (onStore (touchWithSession n sid (sv_now s)) s)"
  note t = onStore_evolves [OF ok, of "touchWithSession n sid (sv_now s)"]
  have heap: "sv_heap ?t = sv_heap s" by (simp add: onStore_def split: prod.split)
  have "live_ok (putSession a se ?t) H \<and> evolves s (putSession a se ?t)"
    if e: "enqueueControl pick ctx r (sv_heap ?t ! a) = Some (x, se)" for r x se
  proof -
    have "session_ok se (H a)"
      using session_ok_enqueue(2) live_session [OF t(1), of a] a heap e by metis
    from put_evolves [OF t(1) _ control_same [OF e] this] a heap evolves_trans [OF t(2)] show ?thesis by simp
  qed
  with t ok hb show ?thesis
    unfolding handleHeartbeat_def
    by (cases "onStore (touchWithSession n sid (sv_now s)) s")
      (fastforce split: if_splits sum.splits option.splits)
qed

lemma handleCommandResult_evolves:
  assumes res: "handleCommandResult wall a r s = Some (res, s')" and ok: "live_ok s H" and a: "a < length (sv_heap s)"
  shows "live_ok s' H \<and> evolves s s'"
proof (cases "trimSpace (cr_commandId r) = []")
  case True
  with res ok show ?thesis by (auto simp: handleCommandResult_def)
next
  case False
  obtain se where se: "resolvePending wall (Some r) (sv_heap s ! a) = Some se" "session_ok se (H a)"
    by (rule resolve_ok [OF live_session [OF ok a]])
  from put_evolves [OF ok a resolve_same [OF se(1)] se(2)] res se(1) False show ?thesis
    by (simp add: handleCommandResult_def)
qed

lemma serveRound_evolves:
  assumes r: "serveRound a r s = Some (res, s')" and step: "honest (ro_step r)"
    and ok: "live_ok s H" and a: "a < length (sv_heap s)"
  shows "live_ok s' H \<and> evolves s s'"
proof -
  note h = honestD [OF step ok]
  have a': "a < length (sv_heap (ro_step r s))" by (rule evolvesD(1) [OF h(2) a])
  have "live_ok s' H \<and> evolves (ro_step r s) s'"
    using r h handleHeartbeat_evolves [OF _ h(1) a'] handleCommandResult_evolves [OF _ h(1) a']
    unfolding serveRound_def Let_def
    by (fastforce split: option.splits recvResult.splits connectRequest.splits)
  with evolves_trans [OF h(2)] show ?thesis by blast
qed

lemma serveLoop_evolves:
  assumes "serveLoop a rs s = Some (err, s')" and "\<forall>r \<in> set rs. honest (ro_step r)"
    and "live_ok s H" and "a < length (sv_heap s)"
  shows "live_ok s' H \<and> evolves s s'"
  using assms
proof (induction rs arbitrary: s)
  case (Cons r rs)
  obtain res t where r: "serveRound a r s = Some (res, t)" using Cons.prems(1) by (auto split: option.splits)
  have t: "live_ok t H \<and> evolves s t"
    by (rule serveRound_evolves [OF r]) (use Cons.prems in auto)
  show ?case
  proof (cases res)
    case (Inl e)
    with Cons.prems(1) r t show ?thesis by simp
  next
    case (Inr u)
    have "live_ok s' H \<and> evolves t s'"
      by (rule Cons.IH) (use Cons.prems r Inr t evolvesD(1) in auto)
    with t evolves_trans show ?thesis by blast
  qed
qed simp

lemma serveSession_evolves:
  assumes s: "serveSession env hello sid now a rounds s = Some (err, s')" and step: "honest (ce_step env)"
    and rounds: "\<forall>r \<in> set rounds. honest (ro_step r)" and ok: "live_ok s H" and a: "a < length (sv_heap s)"
  shows "live_ok s' H \<and> evolves s s'"
proof -
  let ?s1 = "ce_step env s" let ?s2 = "snd (onStore (upsert (Some hello) sid now) ?s1)" let ?s3 = "ce_step env ?s2"
  note h1 = honestD [OF step ok]
  note h2 = onStore_evolves [OF h1(1), of "upsert (Some hello) sid now"]
  note h3 = honestD [OF step h2(1)]
  have e2: "evolves s ?s2" by (rule evolves_trans [OF h1(2) h2(2)])
  have e3: "evolves s ?s3" by (rule evolves_trans [OF e2 h3(2)])
  have a3: "a < length (sv_heap ?s3)" by (rule evolvesD(1) [OF e3 a])
  obtain u d where up: "onStore (upsert (Some hello) sid now) ?s1 = (u, d)"
    by (cases "onStore (upsert (Some hello) sid now) ?s1")
  show ?thesis
  proof (cases u)
    case (Inl e)
    with s up h2(1) e2 show ?thesis by (simp add: serveSession_def)
  next
    case (Inr v)
    let ?ack = "ConnectAck sid (sv_heartbeatIntervalSec ?s3)"
    obtain x se where q: "enqueueControl (ce_ackPick env) (ce_ackCtx env) ?ack (sv_heap ?s3 ! a) = Some (x, se)"
      using s up Inr by (auto simp: serveSession_def Let_def split: option.splits)
    have "session_ok se (H a)" by (rule session_ok_enqueue(2) [OF live_session [OF h3(1) a3] q])
    note p = put_evolves [OF h3(1) a3 control_same [OF q] this]
    have e4: "evolves s (putSession a se ?s3)" by (rule evolves_trans [OF e3 p(2)])
    show ?thesis
    proof (cases x)
      case (Inl e)
      with s up Inr q p(1) e4 show ?thesis by (simp add: serveSession_def Let_def)
    next
      case ack: (Inr y)
      have "serveLoop a rounds (putSession a se ?s3) = Some (err, s')"
        using s up Inr q ack by (simp add: serveSession_def Let_def)
      from serveLoop_evolves [OF this rounds p(1) evolvesD(1) [OF e4 a]] evolves_trans [OF e4] show ?thesis by blast
    qed
  qed
qed

lemma getCredential_evolves:
  assumes i: "honest i" and ok: "live_ok s H"
  shows "live_ok (snd (getCredential i n s)) H \<and> evolves s (snd (getCredential i n s))"
proof -
  let ?t = "snd (onStore (getCredentialHash (trimSpace n)) s)"
  note t = onStore_evolves [OF ok, of "getCredentialHash (trimSpace n)"]
  note h = honestD [OF i t(1)]
  have "live_ok ((i ?t)\<lparr>sv_credentials := c\<rparr>) H \<and> evolves (i ?t) ((i ?t)\<lparr>sv_credentials := c\<rparr>)" for c
    using frame_evolves [OF h(1), of "(i ?t)\<lparr>sv_credentials := c\<rparr>"] by simp
  with t h ok evolves_trans [OF t(2)] evolves_trans [OF h(2)] show ?thesis
    by (auto simp: getCredential_def Let_def case_prod_beta split: option.split)
qed

lemma resolveHello_evolves:
  assumes "live_ok s H"
  shows "live_ok (snd (resolveHelloByWorkerType hello s)) H \<and> evolves s (snd (resolveHelloByWorkerType hello s))"
proof -
  have "snd (resolveHelloByWorkerType hello s) = snd (onStore (workerTypeByNodeID (ch_nodeId hello)) s)"
    by (simp add: resolveHelloByWorkerType_def split: prod.split option.split)
  then show ?thesis by (simp add: onStore_evolves [OF assms])
qed

lemma handshake_evolves:
  assumes i: "honest i" and ok: "live_ok s H" and hs: "handshake i ctxErr first s = (res, s')"
  shows "live_ok s' H \<and> evolves s s'"
proof (cases "ctxErr = None \<and> (\<exists>hello. first = RecvFrame (HelloFrame hello) \<and> validateHello hello = None)")
  case False
  then have "s' = s"
    using hs by (auto simp: handshake_def split: option.splits recvResult.splits connectRequest.splits)
  with ok show ?thesis by simp
next
  case True
  then obtain hello where f: "ctxErr = None" "first = RecvFrame (HelloFrame hello)" "validateHello hello = None" by blast
  let ?t = "snd (getCredential i (ch_nodeId hello) s)"
  note t = getCredential_evolves [OF i ok, of "ch_nodeId hello"]
  have "s' = ?t \<or> s' = snd (resolveHelloByWorkerType hello ?t)"
    using hs unfolding handshake_def f Let_def
    by (cases "getCredential i (ch_nodeId hello) s") (auto simp: f(3) split: option.splits if_splits dest: arg_cong [where f = snd])
  with t resolveHello_evolves [OF t [THEN conjunct1], of hello] evolves_trans show ?thesis by blast
qed

lemma swapSession_evolves:
  assumes ok: "live_ok s H" and new: "H (length (sv_heap s)) = (\<lambda>_. 0)" and sess: "as_nodeID se = n" "session_ok se (\<lambda>_. 0)"
  defines "t \<equiv> snd (allocSession se s)"
  shows "live_ok (snd (swapSession (length (sv_heap s)) t)) H" "evolves s (snd (swapSession (length (sv_heap s)) t))"
    "fst (swapSession (length (sv_heap s)) t) = getSession n s"
    "sv_heap (snd (swapSession (length (sv_heap s)) t)) = sv_heap s @ [se]"
proof -
  let ?a = "length (sv_heap s)"
  have t: "sv_heap t = sv_heap s @ [se]" "sv_sessions t = sv_sessions s" by (simp_all add: t_def allocSession_def)
  let ?u = "snd (swapSession ?a t)"
  have u: "sv_heap ?u = sv_heap s @ [se]" "sv_sessions ?u = AList.update n ?a (sv_sessions s)"
    using sess(1) by (simp_all add: swapSession_def Let_def t)
  have sub: "set (sv_sessions ?u) \<subseteq> insert (n, ?a) (set (sv_sessions s))"
    unfolding u(2) by (rule set_put_subset)
  have tab: "table_ok s" "heap_ok {} s H" using ok by (simp_all add: live_ok_def)
  have tab': "b < length (sv_heap s) \<and> as_nodeID (sv_heap s ! b) = m" if "(m, b) \<in> set (sv_sessions s)" for m b
    using that tab(1) by (auto simp: table_ok_def)
  have table: "table_ok ?u" unfolding table_ok_def
  proof
    show "keys_distinct (sv_sessions ?u)" using tab(1) by (simp add: u table_ok_def)
    show "\<forall>(m, b) \<in> set (sv_sessions ?u). b < length (sv_heap ?u) \<and> as_nodeID (sv_heap ?u ! b) = m"
    proof
      fix e assume "e \<in> set (sv_sessions ?u)"
      with sub have "e = (n, ?a) \<or> e \<in> set (sv_sessions s)" by blast
      then show "case e of (m, b) \<Rightarrow> b < length (sv_heap ?u) \<and> as_nodeID (sv_heap ?u ! b) = m"
        using tab' sess(1) by (cases e) (auto simp: u(1) nth_append less_Suc_eq)
    qed
  qed
  moreover have "heap_ok {} ?u H"
    unfolding heap_ok_def
  proof (intro conjI allI impI)
    fix b assume "b < length (sv_heap ?u)"
    then have "b < ?a \<or> b = ?a" by (auto simp: u(1))
    then show "session_ok (sv_heap ?u ! b) (H b)" "session_free {} (sv_heap ?u ! b)"
      using tab(2) sess(2) new by (auto simp: u(1) nth_append heap_ok_def session_free_def)
  next
    show "\<forall>b \<in> snd ` set (sv_sessions ?u). b < length (sv_heap ?u)"
      using table unfolding table_ok_def by fastforce
  qed
  ultimately show "live_ok ?u H" by (simp add: live_ok_def)
  show "evolves s ?u"
    unfolding evolves_def
  proof (intro conjI allI impI)
    show "length (sv_heap s) \<le> length (sv_heap ?u)" by (simp add: u)
    fix b assume b: "b < length (sv_heap s)"
    then show "same_session (sv_heap s ! b) (sv_heap ?u ! b)" by (simp add: u nth_append)
    assume "b \<notin> snd ` set (sv_sessions s)"
    then show "b \<notin> snd ` set (sv_sessions ?u)" using sub b by fastforce
  qed
  show "fst (swapSession ?a t) = getSession n s"
    using sess(1) by (simp add: swapSession_def Let_def t getSession_def)
  show "sv_heap ?u = sv_heap s @ [se]" by (rule u(1))
qed

lemma removeSession_evolves:
  assumes ok: "live_ok s H" and a: "a < length (sv_heap s)"
  shows "live_ok (removeSession a s) H" "evolves s (removeSession a s)"
    "a \<notin> snd ` set (sv_sessions (removeSession a s))"
proof -
  let ?n = "as_nodeID (sv_heap s ! a)"
  have tab: "table_ok s" using ok by (simp add: live_ok_def)
  have inTable: "map_of (sv_sessions s) ?n = Some a" if mem: "a \<in> snd ` set (sv_sessions s)"
  proof -
    obtain m where m: "(m, a) \<in> set (sv_sessions s)" using mem by auto
    with tab have "m = ?n" by (auto simp: table_ok_def)
    with m tab show ?thesis by (simp add: table_ok_def map_of_is_SomeI)
  qed
  have frame: "live_ok s' H \<and> evolves s s'"
    if "sv_heap s' = sv_heap s" "sv_sessions s' = AList.delete n (sv_sessions s)" for s' n
    using ok that unfolding live_ok_def heap_ok_def table_ok_def evolves_def
    by (auto simp: set_del keys_del image_iff)
  let ?r = "\<exists>c. map_of (sv_sessions s) ?n = Some c \<and> as_sessionID (sv_heap s ! c) = as_sessionID (sv_heap s ! a)"
  have "live_ok (removeSession a s) H \<and> evolves s (removeSession a s) \<and>
      a \<notin> snd ` set (sv_sessions (removeSession a s))"
  proof (cases ?r)
    case True
    then have del: "sv_heap (removeSession a s) = sv_heap s"
      "sv_sessions (removeSession a s) = AList.delete ?n (sv_sessions s)"
      by (auto simp: removeSession_def Let_def onStore_def split: prod.split)
    have "a \<notin> snd ` set (AList.delete ?n (sv_sessions s))"
      using tab by (fastforce simp: set_del table_ok_def)
    with frame [OF del] del show ?thesis by simp
  next
    case False
    then have "removeSession a s = s" by (auto simp: removeSession_def Let_def split: option.split)
    moreover have "a \<notin> snd ` set (sv_sessions s)" using False inTable by auto
    ultimately show ?thesis using ok by simp
  qed
  then show "live_ok (removeSession a s) H" "evolves s (removeSession a s)"
    "a \<notin> snd ` set (sv_sessions (removeSession a s))" by blast+
qed

lemma openSession_evolves:
  assumes i: "honest i" and ok: "live_ok s H" and new: "H (length (sv_heap s)) = (\<lambda>_. 0)"
  obtains s' where "openSession i hello sid s = Some (length (sv_heap s), s')" "live_ok s' H" "evolves s s'"
    "length (sv_heap s) < length (sv_heap s')"
    "as_nodeID (sv_heap s' ! length (sv_heap s)) = ch_nodeId hello"
    "as_sessionID (sv_heap s' ! length (sv_heap s)) = sid"
    "\<forall>b. getSession (ch_nodeId hello) s = Some b \<longrightarrow> as_closeOnce (sv_heap s' ! b)"
proof -
  let ?a = "length (sv_heap s)" and ?se = "newActiveSession (ch_nodeId hello) sid (Some hello)"
  let ?t = "snd (swapSession ?a (snd (allocSession ?se s)))"
  have "as_nodeID ?se = ch_nodeId hello" by (simp add: newActiveSession_def)
  note w = swapSession_evolves [OF ok new this session_ok_new]
  have a: "?a < length (sv_heap ?t)" "as_nodeID (sv_heap ?t ! ?a) = ch_nodeId hello"
    "as_sessionID (sv_heap ?t ! ?a) = sid"
    unfolding w(4) by (simp_all add: newActiveSession_def)
  have al: "fst (allocSession ?se s) = ?a" by (simp add: allocSession_def)
  show thesis
  proof (cases "getSession (ch_nodeId hello) s")
    case None
    have "openSession i hello sid s = Some (?a, ?t)"
      using w(3) None al unfolding openSession_def
      by (cases "allocSession ?se s"; cases "swapSession ?a (snd (allocSession ?se s))") simp
    then show thesis using that w(1,2) a None by simp
  next
    case (Some b)
    have b: "b < length (sv_heap s)"
      using ok Some heap_okD(2) by (auto simp: live_ok_def)
    note h = honestD [OF i w(1)]
    have e: "evolves s (i ?t)" by (rule evolves_trans [OF w(2) h(2)])
    obtain s' where s': "closeAt i b (Some (StatusError FailedPrecondition
        ''session replaced by a newer connection'')) (i ?t) = Some s'" "live_ok s' H" "evolves (i ?t) s'"
      "as_closeOnce (sv_heap s' ! b)"
      by (rule closeAt_evolves [OF i h(1) evolvesD(1) [OF e b]])
    have e': "evolves ?t s'" by (rule evolves_trans [OF h(2) s'(3)])
    show thesis
    proof (rule that)
      show "openSession i hello sid s = Some (?a, s')"
        using w(3) Some al s'(1) unfolding openSession_def
        by (cases "allocSession ?se s"; cases "swapSession ?a (snd (allocSession ?se s))") simp
      show "live_ok s' H" by (rule s'(2))
      show "evolves s s'" by (rule evolves_trans [OF e s'(3)])
      show "length (sv_heap s) < length (sv_heap s')" by (rule evolvesD(1) [OF e' a(1)])
      show "as_nodeID (sv_heap s' ! ?a) = ch_nodeId hello" "as_sessionID (sv_heap s' ! ?a) = sid"
        using evolvesD(2,3) [OF e' a(1)] a(2,3) by simp_all
      show "\<forall>c. getSession (ch_nodeId hello) s = Some c \<longrightarrow> as_closeOnce (sv_heap s' ! c)"
        using Some s'(4) by simp
    qed
  qed
qed

section \<open>Properties of connections\<close>

lemma honest_id: "honest id"
  by (simp add: honest_def)

text \<open>C1: A connection is taken down on every way out. However the stream ends, and whatever other
  goroutines do meanwhile, once \<open>Connect\<close> returns after accepting a hello the session it made is
  closed and no longer in the session table, the session it replaced is closed, every session's
  slot accounting is exact, and no other session has been touched in its identity.\<close>

theorem connect_tears_down:
  assumes ok: "live_ok s H" and new: "\<forall>b \<ge> length (sv_heap s). H b = (\<lambda>_. 0)"
    and step: "honest (ce_step env)" and rounds: "\<forall>r \<in> set rounds. honest (ro_step r)"
    and hello: "handshake (ce_step env) ctxErr first s = (Inr hello, s1)" and sid: "ce_sessionID env = Inr sid"
    and ret: "connectStream env ctxErr first rounds s = Some (err, s')"
  shows "live_ok s' H \<and> evolves s s' \<and>
    (\<exists>a. length (sv_heap s) \<le> a \<and> a < length (sv_heap s') \<and> as_nodeID (sv_heap s' ! a) = ch_nodeId hello \<and>
       as_sessionID (sv_heap s' ! a) = sid \<and> as_closeOnce (sv_heap s' ! a) \<and>
       a \<notin> snd ` set (sv_sessions s')) \<and>
    (\<forall>b. getSession (ch_nodeId hello) s1 = Some b \<longrightarrow> as_closeOnce (sv_heap s' ! b))"
proof -
  have hs: "live_ok s1 H" "evolves s s1" using handshake_evolves [OF step ok hello] by blast+
  let ?a = "length (sv_heap s1)"
  have len: "length (sv_heap s) \<le> ?a" using hs(2) by (simp add: evolves_def)
  then have "H ?a = (\<lambda>_. 0)" using new by blast
  obtain s2 where s2: "openSession (ce_step env) hello sid s1 = Some (?a, s2)" "live_ok s2 H" "evolves s1 s2"
    "?a < length (sv_heap s2)" "as_nodeID (sv_heap s2 ! ?a) = ch_nodeId hello" "as_sessionID (sv_heap s2 ! ?a) = sid"
    "\<forall>b. getSession (ch_nodeId hello) s1 = Some b \<longrightarrow> as_closeOnce (sv_heap s2 ! b)"
    by (rule openSession_evolves [OF step hs(1) \<open>H ?a = (\<lambda>_. 0)\<close>, of hello sid])
  obtain r s3 where s3: "serveSession env hello sid (sv_now s1) ?a rounds s2 = Some (r, s3)"
    using ret hello sid s2(1) by (auto simp: connectStream_def Let_def split: option.splits)
  have e3: "live_ok s3 H" "evolves s2 s3" using serveSession_evolves [OF s3 step rounds s2(2,4)] by blast+
  note h4 = honestD [OF step e3(1)]
  have e4: "evolves s2 (ce_step env s3)" by (rule evolves_trans [OF e3(2) h4(2)])
  note rm = removeSession_evolves [OF h4(1) evolvesD(1) [OF e4 s2(4)]]
  have e5: "evolves s2 (removeSession ?a (ce_step env s3))" by (rule evolves_trans [OF e4 rm(2)])
  note a5 = evolvesD(1) [OF e5 s2(4)]
  obtain s6 where s6: "closeAt (ce_step env) ?a r (removeSession ?a (ce_step env s3)) = Some s6" "live_ok s6 H"
    "evolves (removeSession ?a (ce_step env s3)) s6" "as_closeOnce (sv_heap s6 ! ?a)"
    by (rule closeAt_evolves [OF step rm(1) a5])
  have [simp]: "s' = s6" using ret hello sid s2(1) s3 s6(1) by (simp add: connectStream_def Let_def)
  have e6: "evolves s2 s'" using evolves_trans [OF e5 s6(3)] by simp
  have "a < length (sv_heap s2)" if "getSession (ch_nodeId hello) s1 = Some a" for a
    using that hs(1) heap_okD(2) evolvesD(1) [OF s2(3)] by (auto simp: live_ok_def)
  then have "\<forall>b. getSession (ch_nodeId hello) s1 = Some b \<longrightarrow> as_closeOnce (sv_heap s' ! b)"
    using s2(7) evolvesD(4) [OF e6] by blast
  moreover have "evolves s s'" by (intro evolves_trans [OF hs(2)] evolves_trans [OF s2(3)] e6)
  moreover have "length (sv_heap s) \<le> ?a \<and> ?a < length (sv_heap s') \<and> as_nodeID (sv_heap s' ! ?a) = ch_nodeId hello \<and>
      as_sessionID (sv_heap s' ! ?a) = sid \<and> as_closeOnce (sv_heap s' ! ?a) \<and> ?a \<notin> snd ` set (sv_sessions s')"
    using len evolvesD(1-3) [OF e6 s2(4)] s2(5,6) s6(4) evolvesD(5) [OF s6(3) a5 rm(3)] by simp
  ultimately show ?thesis using s6(2) by auto
qed

definition demoConnectEnv :: connect_env where
  "demoConnectEnv = \<lparr>ce_step = id, ce_sessionID = Inr ''s2'', ce_ackCtx = None, ce_ackPick = 0\<rparr>"

definition demoConnectHello :: connectHello where
  "demoConnectHello = \<lparr>ch_nodeId = ''n1'', ch_nodeName = ''w'', ch_executorKind = ''docker'', ch_labels = [],
     ch_version = ''1'', ch_capabilities = [Some \<lparr>cap_name = ''Echo'', cap_maxInflight = 2\<rparr>],
     ch_workerSecret = ''k''\<rparr>"

definition demoRounds :: "round list" where
  "demoRounds = [\<lparr>ro_step = id, ro_writer = None, ro_recv = RecvFrame (HeartbeatFrame ''n1'' ''s2''), ro_ctx = None,
       ro_pick = 0, ro_wall = 0\<rparr>,
     \<lparr>ro_step = id, ro_writer = None, ro_recv = RecvEOF, ro_ctx = None, ro_pick = 0, ro_wall = 0\<rparr>]"

lemma demoRevocable_live: "live_ok demoRevocable (\<lambda>_ _. 0)"
  by (auto simp: live_ok_def heap_ok_def table_ok_def session_free_def demoRevocable_def newRegistryService_def
      newActiveSession_def [of "''n1''" "''s1''" None, symmetric]) (simp_all add: newActiveSession_def)

theorem connect_tears_down_witness:
  "\<exists>s'. connectStream demoConnectEnv None (RecvFrame (HelloFrame demoConnectHello)) demoRounds demoRevocable = Some (None, s') \<and>
     as_closeOnce (sv_heap s' ! 0)"
proof -
  let ?f = "RecvFrame (HelloFrame demoConnectHello)"
  let ?hs = "handshake (ce_step demoConnectEnv) None ?f demoRevocable"
  have "fst ?hs = Inr demoConnectHello" by code_simp
  then have hs: "?hs = (Inr demoConnectHello, snd ?hs)" by (metis prod.collapse)
  let ?run = "connectStream demoConnectEnv None ?f demoRounds demoRevocable"
  have "map_option fst ?run = Some None" by code_simp
  then obtain s' where run: "?run = Some (None, s')" by auto
  have "getSession (ch_nodeId demoConnectHello) (snd ?hs) = Some 0" by code_simp
  moreover have "ce_sessionID demoConnectEnv = Inr ''s2''" by code_simp
  moreover have "honest (ce_step demoConnectEnv)" "\<forall>r \<in> set demoRounds. honest (ro_step r)"
    by (auto simp: demoConnectEnv_def demoRounds_def honest_id)
  ultimately show ?thesis
    using connect_tears_down [OF demoRevocable_live _ _ _ hs _ run] run by auto
qed

lemma scanSys_None:
  "scanSysCapabilities cs b c = Some (True, True) \<Longrightarrow>
   \<forall>d. Some d \<in> set cs \<longrightarrow> normalizeCapability (cap_name d) \<in> {computerUseCapabilityName, readImageCapabilityName}"
  by (induction cs arbitrary: b c) (auto split: option.splits if_splits)

lemma handshake_secret:
  assumes "handshake i ctxErr first s = (Inr hello', s')"
  obtains hello secret s1 where "first = RecvFrame (HelloFrame hello)" "ctxErr = None" "validateHello hello = None"
    "getCredential i (ch_nodeId hello) s = (Some secret, s1)" "trimSpace (ch_workerSecret hello) \<noteq> []"
    "checkWorkerSecret (sv_hasher s1) secret (trimSpace (ch_workerSecret hello))"
    "resolveHelloByWorkerType hello s1 = (Inr hello', s')"
proof -
  obtain hello where f: "first = RecvFrame (HelloFrame hello)" "ctxErr = None" "validateHello hello = None"
    using assms by (auto simp: handshake_def split: option.splits recvResult.splits connectRequest.splits)
  obtain c s1 where "getCredential i (ch_nodeId hello) s = (c, s1)" by (cases "getCredential i (ch_nodeId hello) s")
  with assms f(3) that f show thesis
    unfolding handshake_def f by (auto simp: Let_def split: option.splits if_splits)
qed

text \<open>C7: A hello is accepted only with the worker's secret: the id is known and of legal size, and the
  secret sent matches the stored one. A worker registered as worker-sys declares nothing but
  computerUse and readImage, and its session gets exactly these two, one slot each, whatever
  limits it asked for; any other worker keeps its hello as it sent it.\<close>

theorem handshake_authenticates:
  assumes "handshake i ctxErr first s = (Inr hello', s')"
  obtains hello secret s1 where "first = RecvFrame (HelloFrame hello)" "ctxErr = None"
    "trimSpace (ch_nodeId hello) \<noteq> []" "length (ch_nodeId hello) \<le> 128"
    "getCredential i (ch_nodeId hello) s = (Some secret, s1)" "trimSpace (ch_workerSecret hello) \<noteq> []"
    "checkWorkerSecret (sv_hasher s1) secret (trimSpace (ch_workerSecret hello))"
    "if fst (workerTypeByNodeID (ch_nodeId hello) (sv_db s1)) = workerTypeSys
     then capabilitiesFromHello (Some hello') =
            [(''computeruse'', \<lparr>sc_maxInflight = 1, sc_inflight = 0\<rparr>), (''readimage'', \<lparr>sc_maxInflight = 1, sc_inflight = 0\<rparr>)] \<and>
          (\<forall>d. Some d \<in> set (ch_capabilities hello) \<longrightarrow> normalizeCapability (cap_name d) \<in> {''computeruse'', ''readimage''})
     else hello' = hello"
proof -
  obtain hello secret s1 where f: "first = RecvFrame (HelloFrame hello)" "ctxErr = None" "validateHello hello = None"
    and cred: "getCredential i (ch_nodeId hello) s = (Some secret, s1)"
    and secret: "trimSpace (ch_workerSecret hello) \<noteq> []"
      "checkWorkerSecret (sv_hasher s1) secret (trimSpace (ch_workerSecret hello))"
      "resolveHelloByWorkerType hello s1 = (Inr hello', s')"
    by (rule handshake_secret [OF assms])
  obtain t s2 where t: "onStore (workerTypeByNodeID (ch_nodeId hello)) s1 = (t, s2)"
    by (cases "onStore (workerTypeByNodeID (ch_nodeId hello)) s1")
  then have kind: "fst (workerTypeByNodeID (ch_nodeId hello) (sv_db s1)) = t" by (auto simp: onStore_def split: prod.splits)
  let ?sys = "hello\<lparr>ch_capabilities :=
      [Some \<lparr>cap_name = computerUseCapabilityDeclared, cap_maxInflight = 1\<rparr>,
       Some \<lparr>cap_name = readImageCapabilityDeclared, cap_maxInflight = 1\<rparr>]\<rparr>"
  have caps: "capabilitiesFromHello (Some ?sys) =
      [(''computeruse'', \<lparr>sc_maxInflight = 1, sc_inflight = 0\<rparr>), (''readimage'', \<lparr>sc_maxInflight = 1, sc_inflight = 0\<rparr>)]"
    unfolding capabilitiesFromHello_def by simp code_simp
  have "if t = workerTypeSys
      then hello' = ?sys \<and> scanSysCapabilities (ch_capabilities hello) False False = Some (True, True) else hello' = hello"
    using secret(3) t by (auto simp: resolveHelloByWorkerType_def split: option.splits if_splits)
  then have "if t = workerTypeSys
     then capabilitiesFromHello (Some hello') =
            [(''computeruse'', \<lparr>sc_maxInflight = 1, sc_inflight = 0\<rparr>), (''readimage'', \<lparr>sc_maxInflight = 1, sc_inflight = 0\<rparr>)] \<and>
          (\<forall>d. Some d \<in> set (ch_capabilities hello) \<longrightarrow> normalizeCapability (cap_name d) \<in> {''computeruse'', ''readimage''})
     else hello' = hello"
    using caps scanSys_None [of "ch_capabilities hello" False False]
    by (auto simp: computerUseCapabilityName_def readImageCapabilityName_def split: if_splits)
  moreover have "trimSpace (ch_nodeId hello) \<noteq> []" "length (ch_nodeId hello) \<le> 128"
    using f(3) by (auto simp: validateHello_def validateNodeID_def maxNodeIDLength_def split: if_splits)
  ultimately show thesis using that f cred secret kind by blast
qed

lemma getCredential_hasher: "getCredential id n s = (c, t) \<Longrightarrow> sv_hasher t = sv_hasher s"
  by (auto simp: getCredential_def Let_def onStore_def split: if_splits option.splits prod.splits)

theorem handshake_authenticates_witness:
  "checkWorkerSecret None (the (fst (getCredential id ''n1'' demoRevocable))) (trimSpace ''k'')"
proof -
  let ?f = "RecvFrame (HelloFrame demoConnectHello)"
  have "fst (handshake id None ?f demoRevocable) = Inr demoConnectHello" by code_simp
  then have hs: "handshake id None ?f demoRevocable = (Inr demoConnectHello, snd (handshake id None ?f demoRevocable))"
    by (metis prod.collapse)
  have h: "ch_nodeId demoConnectHello = ''n1''" "ch_workerSecret demoConnectHello = ''k''"
    by (simp_all add: demoConnectHello_def)
  have none: "sv_hasher t = None" if "getCredential id ''n1'' demoRevocable = (c, t)" for c t
    using getCredential_hasher [OF that] by (simp add: demoRevocable_def newRegistryService_def)
  show ?thesis
    by (rule handshake_authenticates [OF hs]) (use h none in \<open>auto dest: sym\<close>)
qed

text \<open>The tables are as before: only scripted faults have been used up.\<close>

definition same_tables :: "db \<Rightarrow> db \<Rightarrow> bool" where
  "same_tables d d' \<longleftrightarrow> (\<exists>fs. d' = d\<lparr>db_faults := fs\<rparr>)"

lemma same_tables_refl: "same_tables d d"
  unfolding same_tables_def by (rule exI [of _ "db_faults d"]) simp

lemma read_same_tables: "(\<And>d. snd (f d) = d) \<Longrightarrow> same_tables d (snd (dbRun f d))"
  by (rule dbRun_preserves) (auto simp: same_tables_def)

lemma credential_reads_tables:
  "same_tables d (snd (getCredentialHash n d))" "same_tables d (snd (workerTypeByNodeID n d))"
proof -
  have "same_tables d (snd (getWorkerCredentialByNode i d))" "same_tables d (snd (listWorkerLabelsByNode i d))" for i
    unfolding getWorkerCredentialByNode_def listWorkerLabelsByNode_def by (rule read_same_tables; simp)+
  then show "same_tables d (snd (getCredentialHash n d))" "same_tables d (snd (workerTypeByNodeID n d))"
    by (simp_all add: same_tables_refl)
qed

lemma credential_reads:
  "getCredentialHash n d = (r, d') \<Longrightarrow> same_tables d d'"
  "workerTypeByNodeID n d = (t, d') \<Longrightarrow> same_tables d d'"
  by (metis credential_reads_tables snd_conv)+

lemma handshake_frame:
  assumes "handshake id ctxErr first s = (res, s')"
  shows "sv_heap s' = sv_heap s \<and> sv_sessions s' = sv_sessions s \<and> sv_routes s' = sv_routes s \<and>
    same_tables (sv_db s) (sv_db s')"
proof -
  have cred: "sv_heap t = sv_heap s \<and> sv_sessions t = sv_sessions s \<and> sv_routes t = sv_routes s \<and>
      same_tables (sv_db s) (sv_db t)" if "getCredential id n s = (c, t)" for n c t
    using that same_tables_refl
    by (auto simp: getCredential_def Let_def onStore_def split: if_splits option.splits prod.splits
        dest: credential_reads)
  have res: "sv_heap u = sv_heap t \<and> sv_sessions u = sv_sessions t \<and> sv_routes u = sv_routes t \<and>
      same_tables (sv_db t) (sv_db u)" if "resolveHelloByWorkerType hello t = (r, u)" for hello t r u
    using that
    by (auto simp: resolveHelloByWorkerType_def onStore_def split: if_splits option.splits prod.splits
        dest: credential_reads)
  have trans: "same_tables d e \<Longrightarrow> same_tables e f \<Longrightarrow> same_tables d f" for d e f by (auto simp: same_tables_def)
  show ?thesis
  proof (cases "ctxErr = None \<and> (\<exists>hello. first = RecvFrame (HelloFrame hello) \<and> validateHello hello = None)")
    case False
    then have "s' = s"
      using assms by (auto simp: handshake_def split: option.splits recvResult.splits connectRequest.splits)
    then show ?thesis by (simp add: same_tables_refl)
  next
    case True
    then obtain hello where f: "ctxErr = None" "first = RecvFrame (HelloFrame hello)" "validateHello hello = None" by blast
    obtain c t where t: "getCredential id (ch_nodeId hello) s = (c, t)" by (cases "getCredential id (ch_nodeId hello) s")
    have "s' = t \<or> (\<exists>r. resolveHelloByWorkerType hello t = (r, s'))"
      using assms unfolding handshake_def f by (auto simp: f(3) t Let_def split: option.splits if_splits)
    then show ?thesis using cred [OF t] res trans by metis
  qed
qed

text \<open>Without the worker's secret a stream gets nothing: \<open>Connect\<close> returns an error after the first
  frame, whatever else the stream would send, and no session, route or table row has changed.\<close>

theorem wrong_secret_opens_nothing:
  assumes "ce_step env = id"
    and wrong: "\<forall>hello secret. first = RecvFrame (HelloFrame hello) \<longrightarrow>
      fst (getCredential id (ch_nodeId hello) s) = Some secret \<longrightarrow>
      \<not> checkWorkerSecret (sv_hasher s) secret (trimSpace (ch_workerSecret hello))"
  shows "\<exists>err s'. connectStream env ctxErr first rounds s = Some (Some err, s') \<and>
    sv_heap s' = sv_heap s \<and> sv_sessions s' = sv_sessions s \<and> sv_routes s' = sv_routes s \<and>
    same_tables (sv_db s) (sv_db s')"
proof -
  obtain res s' where hs: "handshake id ctxErr first s = (res, s')" by (cases "handshake id ctxErr first s")
  have "\<nexists>h. res = Inr h"
  proof
    assume "\<exists>h. res = Inr h"
    then obtain h where "handshake id ctxErr first s = (Inr h, s')" using hs by blast
    then show False
      by (rule handshake_secret) (use wrong getCredential_hasher in fastforce)
  qed
  then obtain e where "res = Inl e" by (cases res) auto
  with hs handshake_frame [OF hs] assms(1) show ?thesis by (simp add: connectStream_def)
qed

theorem wrong_secret_opens_nothing_witness:
  "\<exists>err s'. connectStream demoConnectEnv None (RecvFrame (HelloFrame (demoConnectHello\<lparr>ch_workerSecret := ''x''\<rparr>)))
     demoRounds demoRevocable = Some (Some err, s') \<and> sv_sessions s' = [(''n1'', 0)]"
proof -
  let ?h = "demoConnectHello\<lparr>ch_workerSecret := ''x''\<rparr>"
  have "fst (getCredential id ''n1'' demoRevocable) = Some ''k''" by code_simp
  moreover have "\<not> checkWorkerSecret (sv_hasher demoRevocable) ''k'' (trimSpace ''x'')" by code_simp
  ultimately have wrong: "\<forall>hello secret. RecvFrame (HelloFrame ?h) = RecvFrame (HelloFrame hello) \<longrightarrow>
      fst (getCredential id (ch_nodeId hello) demoRevocable) = Some secret \<longrightarrow>
      \<not> checkWorkerSecret (sv_hasher demoRevocable) secret (trimSpace (ch_workerSecret hello))"
    by (auto simp: demoConnectHello_def)
  have "ce_step demoConnectEnv = id" "sv_sessions demoRevocable = [(''n1'', 0)]"
    by (simp_all add: demoConnectEnv_def demoRevocable_def)
  with wrong_secret_opens_nothing [OF _ wrong, of demoConnectEnv None demoRounds] show ?thesis by metis
qed

text \<open>Two connections of one worker can leave the registry with the replaced session: both swap the
  session table, then the newer one registers in the database before the older one does. The
  older connection's clean-up sees a newer session and leaves the row alone, so the heartbeats
  of the live session are refused as outdated.\<close>

theorem connect_race:
  "\<exists>a1 a2 s1 s2.
     openSession id demoConnectHello ''older'' demoRevocable = Some (a1, s1) \<and>
     openSession id demoConnectHello ''newer'' s1 = Some (a2, s2) \<and>
     (let s3 = snd (onStore (upsert (Some demoConnectHello) ''newer'' 0) s2);
          s4 = snd (onStore (upsert (Some demoConnectHello) ''older'' 0) s3);
          s5 = removeSession a1 s4
      in getSession ''n1'' s5 = Some a2 \<and>
         map_option fst (handleHeartbeat 0 None a2 ''n1'' ''newer'' s5) =
           Some (Inl (StatusError FailedPrecondition ''session is outdated'')))"
proof -
  let ?o1 = "openSession id demoConnectHello ''older'' demoRevocable"
  let ?o2 = "openSession id demoConnectHello ''newer'' (snd (the ?o1))"
  let ?s3 = "snd (onStore (upsert (Some demoConnectHello) ''newer'' 0) (snd (the ?o2)))"
  let ?s5 = "removeSession 1 (snd (onStore (upsert (Some demoConnectHello) ''older'' 0) ?s3))"
  have "map_option fst ?o1 = Some 1" "map_option fst ?o2 = Some 2" by code_simp+
  then obtain s1 s2 where o: "?o1 = Some (1, s1)" "?o2 = Some (2, s2)" by auto
  moreover have "getSession ''n1'' ?s5 = Some 2" by code_simp
  moreover have "map_option fst (handleHeartbeat 0 None 2 ''n1'' ''newer'' ?s5) =
      Some (Inl (StatusError FailedPrecondition ''session is outdated''))" by code_simp
  ultimately show ?thesis by (intro exI [of _ 1] exI [of _ 2] exI [of _ s1] exI [of _ s2]) (simp add: Let_def)
qed

text \<open>A session is filed under the node id as the worker wrote it, while a revocation looks for the
  trimmed id: a worker that pads its id keeps its session, open and in the table, when it is
  revoked.\<close>

theorem padded_session_survives:
  assumes pad: "trimSpace n \<noteq> n" "trimSpace n \<noteq> []" and live: "getSession n s = Some a"
    and only: "getSession (trimSpace n) s = None" and del: "deleteProvisionedWorker i n s = (existed, Some s')"
  shows "getSession n s' = Some a \<and> sv_heap s' = sv_heap s"
proof -
  have other: "map_of (AList.delete (trimSpace n) (sv_sessions s)) n = map_of (sv_sessions s) n"
    using pad(1) by (simp add: AList.delete_conv)
  show ?thesis
    using del pad live only other
    by (auto simp: deleteProvisionedWorker_def Let_def deleteCredential_def disconnectWorker_def getSession_def
        onStore_def split: if_splits prod.splits)
qed

theorem padded_session_survives_witness:
  "fst (handshake id None (RecvFrame (HelloFrame (demoConnectHello\<lparr>ch_nodeId := '' n1 ''\<rparr>))) demoRevocable) =
     Inr (demoConnectHello\<lparr>ch_nodeId := '' n1 ''\<rparr>) \<and>
   getSession '' n1 '' (the (snd (deleteProvisionedWorker id '' n1 '' (demoRevocable\<lparr>sv_sessions := [('' n1 '', 0)]\<rparr>)))) = Some 0"
proof
  show "fst (handshake id None (RecvFrame (HelloFrame (demoConnectHello\<lparr>ch_nodeId := '' n1 ''\<rparr>))) demoRevocable) =
     Inr (demoConnectHello\<lparr>ch_nodeId := '' n1 ''\<rparr>)" by code_simp
  let ?s = "demoRevocable\<lparr>sv_sessions := [('' n1 '', 0)]\<rparr>"
  have "trimSpace '' n1 '' \<noteq> '' n1 ''" "trimSpace '' n1 '' \<noteq> []" "getSession '' n1 '' ?s = Some 0"
    "getSession (trimSpace '' n1 '') ?s = None" by code_simp+
  moreover have "\<not> Option.is_none (snd (deleteProvisionedWorker id '' n1 '' ?s))" by code_simp
  then obtain s' where "deleteProvisionedWorker id '' n1 '' ?s = (fst (deleteProvisionedWorker id '' n1 '' ?s), Some s')"
    by (cases "deleteProvisionedWorker id '' n1 '' ?s"; cases "snd (deleteProvisionedWorker id '' n1 '' ?s)") auto
  ultimately show "getSession '' n1 '' (the (snd (deleteProvisionedWorker id '' n1 '' ?s))) = Some 0"
    using padded_session_survives [of "'' n1 ''" ?s 0 id _ s'] by (metis option.sel snd_conv)
qed

lemma writerRound_open:
  assumes "\<not> as_done s"
  shows "writerRound p q id s =
     (case as_controlOutbound s of
        r # rest \<Rightarrow> (WriterSend r, s\<lparr>as_controlOutbound := rest\<rparr>)
      | [] \<Rightarrow> (case as_commandOutbound s of
                 r # rest \<Rightarrow> (WriterSend r, s\<lparr>as_commandOutbound := rest\<rparr>) | [] \<Rightarrow> (WriterWait, s)))"
  using assms by (simp add: writerRound_def writerReady_def Let_def split: list.split)

text \<open>The writer sends everything that is queued, each queue in order and all control frames (the
  connection and heartbeat acknowledgements) before any command, however the scheduler picks.\<close>

theorem writer_drains:
  assumes "\<not> as_done s" and "\<forall>(_, _, i) \<in> set rounds. i = id"
    and "length (as_controlOutbound s) + length (as_commandOutbound s) \<le> length rounds"
  shows "writerLoop (\<lambda>_. None) rounds s =
    (as_controlOutbound s @ as_commandOutbound s, None, s\<lparr>as_controlOutbound := [], as_commandOutbound := []\<rparr>)"
  using assms
proof (induction rounds arbitrary: s)
  case Nil
  then have "s\<lparr>as_controlOutbound := [], as_commandOutbound := []\<rparr> = s" by (cases s) simp
  with Nil show ?case by simp
next
  case (Cons r rounds)
  obtain p q i where r': "r = (p, q, i)" by (cases r)
  have "case r of (_, _, i) \<Rightarrow> i = id" using Cons.prems(2) by (metis list.set_intros(1))
  then have r: "r = (p, q, id)" unfolding r' by (simp only: prod.case)
  have "\<forall>(_, _, i) \<in> set rounds. i = id" using Cons.prems(2) by (metis list.set_intros(2))
  note IH = Cons.IH [OF _ this]
  have step: "writerRound p q id s =
     (case as_controlOutbound s of
        r # rest \<Rightarrow> (WriterSend r, s\<lparr>as_controlOutbound := rest\<rparr>)
      | [] \<Rightarrow> (case as_commandOutbound s of
                 r # rest \<Rightarrow> (WriterSend r, s\<lparr>as_commandOutbound := rest\<rparr>) | [] \<Rightarrow> (WriterWait, s)))"
    by (rule writerRound_open) (rule Cons.prems(1))
  show ?case
  proof (cases "as_controlOutbound s")
    case control: (Cons c rest)
    have "writerLoop (\<lambda>_. None) rounds (s\<lparr>as_controlOutbound := rest\<rparr>) =
        (rest @ as_commandOutbound s, None, s\<lparr>as_controlOutbound := [], as_commandOutbound := []\<rparr>)"
      using IH [of "s\<lparr>as_controlOutbound := rest\<rparr>"] Cons.prems control by simp
    with step control show ?thesis by (simp add: r)
  next
    case none: Nil
    show ?thesis
    proof (cases "as_commandOutbound s")
      case command: (Cons c rest)
      have "writerLoop (\<lambda>_. None) rounds (s\<lparr>as_commandOutbound := rest\<rparr>) =
          (rest, None, s\<lparr>as_controlOutbound := [], as_commandOutbound := []\<rparr>)"
        using IH [of "s\<lparr>as_commandOutbound := rest\<rparr>"] Cons.prems none command by simp
      with step none command show ?thesis by (simp add: r)
    next
      case Nil
      with IH [of s] Cons.prems step none show ?thesis by (simp add: r)
    qed
  qed
qed

theorem writer_drains_witness:
  "fst (writerLoop (\<lambda>_. None) [(7, 3, id), (0, 1, id)]
     ((newActiveSession ''n1'' ''s1'' None)\<lparr>as_controlOutbound := [HeartbeatAck 5],
        as_commandOutbound := [ConnectAck ''x'' 1]\<rparr>)) = [HeartbeatAck 5, ConnectAck ''x'' 1]"
  using writer_drains [of "(newActiveSession ''n1'' ''s1'' None)\<lparr>as_controlOutbound := [HeartbeatAck 5],
        as_commandOutbound := [ConnectAck ''x'' 1]\<rparr>" "[(7, 3, id), (0, 1, id)]"]
  by (simp add: newActiveSession_def)

end
