(* ===== verification/Tasks.thy ===== *)
theory Tasks
  imports Dispatch
begin

text \<open>
  The task engine, \<open>console/internal/grpcserver/task.go\<close>: submitting, executing, finishing,
  canceling and reading tasks. The row in the database is the truth about a task; while it is
  unfinished, the runtime table also holds a record with the task's cancel function and the
  \<open>done\<close> channel its waiters listen on. Records are shared, so the table holds addresses into
  \<open>sv_taskHeap\<close>. Every operation releases the locks and the database between its steps; what
  other goroutines do there is an argument \<open>i\<close>.
\<close>

section \<open>Constants and values\<close>

definition defaultTaskWait :: gduration where "defaultTaskWait = 1500 * millisecond"
definition defaultTaskTimeout :: gduration where "defaultTaskTimeout = 60 * second"
definition maxTaskWait :: gduration where "maxTaskWait = 60 * second"
definition maxTaskTimeout :: gduration where "maxTaskTimeout = 10 * minute"
definition inlineTaskPruneMinInterval :: gduration where "inlineTaskPruneMinInterval = 15 * second"
definition defaultTaskNoWorkerCode :: string where "defaultTaskNoWorkerCode = ''no_worker''"
definition defaultTaskNoCapacityCode :: string where "defaultTaskNoCapacityCode = ''no_capacity''"
definition defaultTaskCanceledCode :: string where "defaultTaskCanceledCode = ''canceled''"
definition defaultTaskTimeoutCode :: string where "defaultTaskTimeoutCode = ''timeout''"
definition defaultTaskDispatchErrCode :: string where "defaultTaskDispatchErrCode = ''dispatch_failed''"
definition defaultTaskPersistErrCode :: string where "defaultTaskPersistErrCode = ''persistence_error''"
definition taskOwnerScopeInvalidPayloadCode :: string where
  "taskOwnerScopeInvalidPayloadCode = ''invalid_payload''"
definition taskOwnerScopeInvalidPayloadMessage :: string where
  "taskOwnerScopeInvalidPayloadMessage = ''session_id owner mismatch''"

datatype taskMode = TaskModeSync | TaskModeAsync | TaskModeAuto

definition parseTaskMode :: "string \<Rightarrow> taskMode option" where
  "parseTaskMode raw =
     (let t = trimSpace (toLower raw)
      in if t = [] then Some TaskModeAuto
         else if t = ''sync'' then Some TaskModeSync
         else if t = ''async'' then Some TaskModeAsync
         else if t = ''auto'' then Some TaskModeAuto
         else None)"

record submitTaskRequest =
  rq_capability :: string
  rq_inputJSON :: payload
  rq_mode :: string
  rq_wait :: gduration
  rq_timeout :: gduration
  rq_requestID :: string
  rq_ownerID :: string

record taskSnapshot =
  ts_taskID :: string
  ts_requestID :: string
  ts_commandID :: string
  ts_capability :: string
  ts_status :: task_status
  ts_resultJSON :: payload
  ts_errorCode :: string
  ts_errorMessage :: string
  ts_createdAt :: gtime
  ts_updatedAt :: gtime
  ts_deadlineAt :: gtime
  ts_completedAt :: "gtime option"

record submitTaskResult =
  sr_task :: taskSnapshot
  sr_completed :: bool

record dbTaskSnapshot =
  dt_taskID :: string
  dt_ownerID :: string
  dt_requestID :: string
  dt_commandID :: string
  dt_capability :: string
  dt_status :: task_status
  dt_resultJSON :: payload
  dt_errorCode :: string
  dt_errorMessage :: string
  dt_createdAt :: gtime
  dt_updatedAt :: gtime
  dt_deadlineAt :: gtime
  dt_completedAt :: "gtime option"
  dt_expiresAt :: gtime

definition convertDBTask :: "task_row \<Rightarrow> dbTaskSnapshot" where
  "convertDBTask task =
     \<lparr>dt_taskID = t_task_id task, dt_ownerID = t_owner_id task, dt_requestID = t_request_id task,
      dt_commandID = t_command_id task, dt_capability = t_capability task, dt_status = t_status task,
      dt_resultJSON = t_result_json task, dt_errorCode = t_error_code task,
      dt_errorMessage = t_error_message task, dt_createdAt = timeOfMilli (t_created_at task),
      dt_updatedAt = timeOfMilli (t_updated_at task), dt_deadlineAt = timeOfMilli (t_deadline_at task),
      dt_completedAt = (if t_completed_at task > 0 then Some (timeOfMilli (t_completed_at task)) else None),
      dt_expiresAt = timeOfMilli (t_expires_at task)\<rparr>"

definition snapshotTask :: "dbTaskSnapshot \<Rightarrow> taskSnapshot" where
  "snapshotTask task =
     \<lparr>ts_taskID = dt_taskID task, ts_requestID = dt_requestID task, ts_commandID = dt_commandID task,
      ts_capability = dt_capability task, ts_status = dt_status task, ts_resultJSON = dt_resultJSON task,
      ts_errorCode = dt_errorCode task, ts_errorMessage = dt_errorMessage task,
      ts_createdAt = dt_createdAt task, ts_updatedAt = dt_updatedAt task,
      ts_deadlineAt = dt_deadlineAt task, ts_completedAt = dt_completedAt task\<rparr>"

text \<open>\<open>err.Error()\<close>; the text an error is wrapped in with \<open>%w\<close> is left out.\<close>

text \<open>\<open>strings.Contains\<close>, used to recognise the unique index in the database's message.\<close>

definition isTaskOwnerRequestConflict :: "go_error \<Rightarrow> bool" where
  "isTaskOwnerRequestConflict err =
     (let lower = toLower (errorText err)
      in sublist ''idx_tasks_owner_request_unique'' lower \<or> sublist ''tasks.owner_id'' lower)"

section \<open>Reading tasks and the runtime table\<close>

definition getTaskByID :: "string \<Rightarrow> service \<Rightarrow> dbTaskSnapshot option \<times> service" where
  "getTaskByID taskID s =
     (case onStore (queryGetTaskByID taskID) s of
        (Inl _, s) \<Rightarrow> (None, s) | (Inr task, s) \<Rightarrow> (Some (convertDBTask task), s))"

definition getTaskByOwnerAndRequest :: "string \<Rightarrow> string \<Rightarrow> service \<Rightarrow> dbTaskSnapshot option \<times> service" where
  "getTaskByOwnerAndRequest ownerID requestID s =
     (case onStore (queryGetTaskByOwnerAndRequest ownerID requestID) s of
        (Inl _, s) \<Rightarrow> (None, s) | (Inr task, s) \<Rightarrow> (Some (convertDBTask task), s))"

definition setTaskRuntime :: "string \<Rightarrow> nat \<Rightarrow> service \<Rightarrow> service" where
  "setTaskRuntime taskID a s = s\<lparr>sv_tasks := AList.update taskID a (sv_tasks s)\<rparr>"

definition getTaskRuntime :: "string \<Rightarrow> service \<Rightarrow> nat option" where
  "getTaskRuntime taskID s = map_of (sv_tasks s) taskID"

definition closeTaskRuntimeRecord :: "taskRecord \<Rightarrow> taskRecord" where
  "closeTaskRuntimeRecord r =
     (let r = (if rec_hasCancel r then r\<lparr>rec_hasCancel := False, rec_canceled := True\<rparr> else r)
      in r\<lparr>rec_done := True\<rparr>)"

definition completeTaskRuntime :: "string \<Rightarrow> service \<Rightarrow> service" where
  "completeTaskRuntime taskID s =
     (case map_of (sv_tasks s) taskID of
        None \<Rightarrow> s
      | Some a \<Rightarrow> s\<lparr>sv_tasks := AList.delete taskID (sv_tasks s),
                  sv_taskHeap := (sv_taskHeap s)[a := closeTaskRuntimeRecord (sv_taskHeap s ! a)]\<rparr>)"

section \<open>State transitions\<close>

definition markTaskDispatched :: "string \<Rightarrow> service \<Rightarrow> go_error option \<times> service" where
  "markTaskDispatched taskID s =
     (if trimSpace taskID = [] then (Some (OtherError ''task_id is required''), s)
      else case onStore (queryMarkTaskDispatched (unixMilli (sv_now s)) taskID) s of
             (Inl e, s) \<Rightarrow> (Some e, s)
           | (Inr rows, s) \<Rightarrow> (if rows = 0 then Some ErrTaskTransitionNotApplied else None, s))"

definition markTaskRunning :: "string \<Rightarrow> string \<Rightarrow> service \<Rightarrow> go_error option \<times> service" where
  "markTaskRunning taskID commandID s =
     (if trimSpace taskID = [] then (Some (OtherError ''task_id is required''), s)
      else case onStore (queryMarkTaskRunning (trimSpace commandID) (unixMilli (sv_now s)) taskID) s of
             (Inl e, s) \<Rightarrow> (Some e, s)
           | (Inr rows, s) \<Rightarrow> (if rows = 0 then Some ErrTaskTransitionNotApplied else None, s))"

definition finishTask ::
  "(service \<Rightarrow> service) \<Rightarrow> string \<Rightarrow> task_status \<Rightarrow> payload \<Rightarrow> string \<Rightarrow> string \<Rightarrow> gtime \<Rightarrow> service \<Rightarrow>
   go_error option \<times> service" where
  "finishTask i taskID statusValue resultJSON errorCode errorMessage completedAt s =
     (let taskID = trimSpace taskID
      in if taskID = [] then (Some (OtherError ''task_id is required''), s)
         else
           let completedAt = (if isZeroTime completedAt then sv_now s else completedAt)
           in case onStore (queryMarkTaskTerminal
                  \<lparr>p_status = statusValue, p_result_json = resultJSON,
                   p_error_code = trimSpace errorCode, p_error_message = trimSpace errorMessage,
                   p_updated_at = unixMilli completedAt, p_completed_at = unixMilli completedAt,
                   p_expires_at = unixMilli (completedAt + sv_taskRetention s)\<rparr> taskID) s of
                (res, s) \<Rightarrow>
                  (case res of Inl e \<Rightarrow> Some e
                   | Inr rows \<Rightarrow> if rows = 0 then Some ErrTaskTransitionNotApplied else None,
                   completeTaskRuntime taskID (i s)))"

definition finishTaskWithError :: "(service \<Rightarrow> service) \<Rightarrow> string \<Rightarrow> go_error \<Rightarrow> service \<Rightarrow> go_error option \<times> service" where
  "finishTaskWithError i taskID err s =
     (let now = sv_now s in
      case err of
        ErrNoCapabilityWorker \<Rightarrow> finishTask i taskID Failed emptyBytes defaultTaskNoWorkerCode
          ''no online worker supports capability'' now s
      | ErrNoWorkerCapacity \<Rightarrow> finishTask i taskID Failed emptyBytes defaultTaskNoCapacityCode
          ''no online worker capacity for capability'' now s
      | CtxDeadlineExceeded \<Rightarrow> finishTask i taskID Timeout emptyBytes defaultTaskTimeoutCode ''task timed out'' now s
      | CtxCanceled \<Rightarrow> finishTask i taskID Canceled emptyBytes defaultTaskCanceledCode ''task canceled'' now s
      | CommandExecutionError code message \<Rightarrow>
          finishTask i taskID Failed emptyBytes
            (if trimSpace code = [] then defaultTaskDispatchErrCode else trimSpace code) message now s
      | StatusError DeadlineExceededCode _ \<Rightarrow>
          finishTask i taskID Timeout emptyBytes defaultTaskTimeoutCode ''task timed out'' now s
      | _ \<Rightarrow> finishTask i taskID Failed emptyBytes defaultTaskDispatchErrCode (errorText err) now s)"

definition failTaskOnPersistenceError ::
  "(service \<Rightarrow> service) \<Rightarrow> string \<Rightarrow> string \<Rightarrow> go_error \<Rightarrow> service \<Rightarrow> go_error option \<times> service" where
  "failTaskOnPersistenceError i taskID stage cause s =
     (let stage = (if trimSpace stage = [] then ''unknown_stage'' else trimSpace stage)
      in case finishTask i taskID Failed emptyBytes defaultTaskPersistErrCode
             (''failed to persist task state at '' @ stage @ '': '' @ errorText cause) (sv_now s) s of
           (None, s) \<Rightarrow> (None, s)
         | (Some err, s) \<Rightarrow>
             let criticalErr = OtherError (''task '' @ taskID @ '' persistence fallback failed at '' @ stage @
                   '': original='' @ errorText cause @ '' fallback='' @ errorText err)
             in (Some criticalErr, s\<lparr>sv_criticalFailures := sv_criticalFailures s @ [criticalErr]\<rparr>))"

section \<open>Executing a task\<close>

text \<open>The reaction to the answer of a state transition that ends the task: a transition that was not
  applied is ignored, a database error is recorded on the task as a failure.\<close>

definition settleTask ::
  "(service \<Rightarrow> service) \<Rightarrow> string \<Rightarrow> string \<Rightarrow> go_error option \<times> service \<Rightarrow> service" where
  "settleTask i taskID stage r =
     (case r of
        (None, s) \<Rightarrow> s
      | (Some e, s) \<Rightarrow>
          if e = ErrTaskTransitionNotApplied then s
          else snd (failTaskOnPersistenceError i taskID stage e (i s)))"

text \<open>\<open>onDispatched\<close>: marks the task running; on failure it cancels the task's context.\<close>

definition onTaskDispatched :: "string \<Rightarrow> string \<Rightarrow> service \<Rightarrow> go_error option \<times> service" where
  "onTaskDispatched taskID commandID s =
     (case markTaskRunning taskID commandID s of
        (None, s) \<Rightarrow> (None, s)
      | (Some e, s) \<Rightarrow>
          (Some e,
           case getTaskRuntime taskID s of
             None \<Rightarrow> s
           | Some a \<Rightarrow>
               if rec_hasCancel (sv_taskHeap s ! a)
               then s\<lparr>sv_taskHeap := (sv_taskHeap s)[a := (sv_taskHeap s ! a)\<lparr>rec_canceled := True\<rparr>]\<rparr>
               else s))"

text \<open>What becomes the task's result: the payload, or the message wrapped as an echo payload.\<close>

definition resultPayloadOf :: "commandOutcome \<Rightarrow> payload" where
  "resultPayloadOf outcome =
     (let resultPayload = (if bytesEmpty (co_payloadJSON outcome) \<and> trimSpace (co_message outcome) \<noteq> []
                           then buildEchoPayload (co_message outcome) else co_payloadJSON outcome)
      in if jsonValid resultPayload then resultPayload
         else case resultPayload of RawBytes raw \<Rightarrow> buildEchoPayload raw | Document j \<Rightarrow> resultPayload)"

definition finishOutcome ::
  "(service \<Rightarrow> service) \<Rightarrow> string \<Rightarrow> string \<Rightarrow> string \<Rightarrow> go_error + commandOutcome \<Rightarrow> service \<Rightarrow> service" where
  "finishOutcome i taskID ownerID capability res s =
     (case res of
        Inl err \<Rightarrow> settleTask i taskID ''finish_error'' (finishTaskWithError i taskID err s)
      | Inr outcome \<Rightarrow>
          (case co_err outcome of
             Some err \<Rightarrow> settleTask i taskID ''finish_error'' (finishTaskWithError i taskID err s)
           | None \<Rightarrow>
               let completedAt = (if isZeroTime (co_completedAt outcome) then sv_now s else co_completedAt outcome)
               in case restoreTaskResultOwnerScope ownerID capability (resultPayloadOf outcome) of
                    None \<Rightarrow> settleTask i taskID ''finish_invalid_payload''
                      (finishTask i taskID Failed emptyBytes taskOwnerScopeInvalidPayloadCode
                         taskOwnerScopeInvalidPayloadMessage completedAt s)
                  | Some scoped \<Rightarrow> settleTask i taskID ''finish_succeeded''
                      (finishTask i taskID Succeeded scoped [] [] completedAt s)))"

definition executeTask ::
  "dispatch_env \<Rightarrow> string \<Rightarrow> string \<Rightarrow> string \<Rightarrow> payload \<Rightarrow> service \<Rightarrow> service option" where
  "executeTask env taskID ownerID capability inputJSON s =
     (let i = ev_step env in
      case markTaskDispatched taskID s of
        (Some e, s) \<Rightarrow> Some (settleTask i taskID ''mark_dispatched'' (Some e, s))
      | (None, s) \<Rightarrow>
          (case dispatchCommand env capability inputJSON 0 ownerID (onTaskDispatched taskID) s of
             None \<Rightarrow> None
           | Some ((res, marked), s) \<Rightarrow>
               let s = i s in
               (case marked of
                  Some (Some e) \<Rightarrow> Some (settleTask i taskID ''mark_running'' (Some e, s))
                | _ \<Rightarrow> Some (finishOutcome i taskID ownerID capability res s))))"

section \<open>The operations of the API\<close>

definition getTask :: "string \<Rightarrow> string \<Rightarrow> service \<Rightarrow> taskSnapshot option \<times> service" where
  "getTask taskID ownerID s =
     (let taskID = trimSpace taskID
      in if taskID = [] then (None, s)
         else case getTaskByID taskID s of
                (None, s) \<Rightarrow> (None, s)
              | (Some snapshot, s) \<Rightarrow>
                  (if dt_ownerID snapshot \<noteq> normalizeTaskOwnerID ownerID then None
                   else Some (snapshotTask snapshot), s))"

text \<open>The error comes with the task's snapshot when the task is already finished.\<close>

definition cancelTask ::
  "(service \<Rightarrow> service) \<Rightarrow> string \<Rightarrow> string \<Rightarrow> service \<Rightarrow> ((go_error \<times> taskSnapshot option) + taskSnapshot) \<times> service" where
  "cancelTask i taskID ownerID s =
     (let taskID = trimSpace taskID; owner = normalizeTaskOwnerID ownerID
      in if taskID = [] then (Inl (ErrTaskNotFound, None), s)
         else case getTaskByID taskID s of
           (None, s) \<Rightarrow> (Inl (ErrTaskNotFound, None), s)
         | (Some current, s) \<Rightarrow>
             if dt_ownerID current \<noteq> owner then (Inl (ErrTaskNotFound, None), s)
             else if isTaskTerminal (dt_status current)
             then (Inl (ErrTaskTerminal, Some (snapshotTask current)), s)
             else let s = i s in
               case finishTask i taskID Canceled emptyBytes defaultTaskCanceledCode ''task canceled'' (sv_now s) s of
                 (None, s) \<Rightarrow>
                   (case getTaskByID taskID (i s) of
                      (None, s) \<Rightarrow> (Inl (ErrTaskNotFound, None), s)
                    | (Some updated, s) \<Rightarrow> (Inr (snapshotTask updated), s))
               | (Some e, s) \<Rightarrow>
                   if e = ErrTaskTransitionNotApplied
                   then (case getTaskByID taskID (i s) of
                           (None, s) \<Rightarrow> (Inl (ErrTaskNotFound, None), s)
                         | (Some latest, s) \<Rightarrow>
                             if dt_ownerID latest \<noteq> owner then (Inl (ErrTaskNotFound, None), s)
                             else if isTaskTerminal (dt_status latest)
                             then (Inl (ErrTaskTerminal, Some (snapshotTask latest)), s)
                             else (Inl (e, None), s))
                   else (Inl (e, None), s))"

text \<open>How a wait ends: what others did meanwhile, the caller's context, the timer, and the choice among
  the ready cases. \<open>None\<close> while nothing is ready.\<close>

record wait_env =
  we_step :: "service \<Rightarrow> service"
  we_ctx :: "go_error option"
  we_timer :: bool
  we_pick :: nat

definition waitDone :: "wait_env \<Rightarrow> nat option \<Rightarrow> gduration \<Rightarrow> service \<Rightarrow> (go_error option \<times> service) option" where
  "waitDone we runtime waitDuration s =
     (case runtime of
        None \<Rightarrow> Some (None, s)
      | Some a \<Rightarrow>
          let s = we_step we s;
              ready = (case we_ctx we of None \<Rightarrow> [] | Some e \<Rightarrow> [Some e]) @
                      (if rec_done (sv_taskHeap s ! a) then [None] else []) @
                      (if waitDuration > 0 \<and> we_timer we then [None] else [])
          in if ready = [] then None else Some (ready ! (we_pick we mod length ready), s))"

definition snapshotNow :: "string \<Rightarrow> service \<Rightarrow> (go_error + submitTaskResult) \<times> service" where
  "snapshotNow taskID s =
     (case getTaskByID taskID s of
        (None, s) \<Rightarrow> (Inl ErrTaskNotFound, s)
      | (Some taskState, s) \<Rightarrow>
          let snapshot = snapshotTask taskState
          in (Inr \<lparr>sr_task = snapshot, sr_completed = isTaskTerminal (ts_status snapshot)\<rparr>, s))"

definition resolveSubmitTaskResult ::
  "wait_env \<Rightarrow> string \<Rightarrow> nat option \<Rightarrow> taskMode \<Rightarrow> gduration \<Rightarrow> service \<Rightarrow>
   ((go_error + submitTaskResult) \<times> service) option" where
  "resolveSubmitTaskResult we taskID runtime mode wait s =
     (if trimSpace taskID = [] then Some (Inl ErrTaskNotFound, s)
      else case snapshotNow taskID s of
             (Inl e, s) \<Rightarrow> Some (Inl e, s)
           | (Inr snap, s) \<Rightarrow>
               if mode = TaskModeAsync \<or> sr_completed snap then Some (Inr snap, s)
               else case waitDone we runtime (if mode = TaskModeSync then 0 else wait) s of
                      None \<Rightarrow> None
                    | Some (Some e, s) \<Rightarrow> Some (Inl e, s)
                    | Some (None, s) \<Rightarrow> Some (snapshotNow taskID s))"

text \<open>The loop of \<open>checkCapabilityAvailability\<close>.\<close>

primrec anyCapacity :: "string \<Rightarrow> string list \<Rightarrow> service \<Rightarrow> bool \<times> service" where
  "anyCapacity capability [] s = (False, s)"
| "anyCapacity capability (nodeID # rest) s =
     (case getSession nodeID s of
        None \<Rightarrow> anyCapacity capability rest s
      | Some a \<Rightarrow>
          if \<not> hasCapability capability (sv_heap s ! a) then anyCapacity capability rest s
          else case inflightSnapshot capability (sv_heap s ! a) of
                 (snap, se) \<Rightarrow>
                   let s = putSession a se s
                   in case snap of
                        None \<Rightarrow> anyCapacity capability rest s
                      | Some (inflight, maxInflight) \<Rightarrow>
                          if inflight < maxInflight then (True, s) else anyCapacity capability rest s)"

definition checkCapabilityAvailability :: "string \<Rightarrow> string \<Rightarrow> service \<Rightarrow> go_error option \<times> service" where
  "checkCapabilityAvailability capability ownerID s =
     (case listOnlineNodeIDsForCapability capability ownerID s of
        (nodeIDs, s) \<Rightarrow>
          if nodeIDs = [] then (Some ErrNoCapabilityWorker, s)
          else case anyCapacity capability nodeIDs s of
                 (ok, s) \<Rightarrow> (if ok then None else Some ErrNoWorkerCapacity, s))"

definition pruneExpiredTasks :: "gtime \<Rightarrow> service \<Rightarrow> go_error option \<times> service" where
  "pruneExpiredTasks now s =
     (case onStore (queryDeleteExpiredTerminalTasks (unixMilli now)) s of
        (Inl e, s) \<Rightarrow> (Some e, s) | (Inr _, s) \<Rightarrow> (None, s))"

text \<open>\<open>PruneExpiredTasks\<close> of \<open>service.go\<close>, run by the console's background loop.\<close>

definition pruneExpiredTasksCount :: "gtime \<Rightarrow> service \<Rightarrow> int \<times> service" where
  "pruneExpiredTasksCount now s =
     (case onStore (queryDeleteExpiredTerminalTasks (unixMilli now)) s of
        (Inl _, s) \<Rightarrow> (0, s) | (Inr removed, s) \<Rightarrow> (removed, s))"

definition maybePruneExpiredTasks :: "gtime \<Rightarrow> service \<Rightarrow> service" where
  "maybePruneExpiredTasks now s =
     (let nowMS = unixMilli now; last = sv_lastInlineTaskPruneUnixMs s
      in if last > 0 \<and> nowMS - last < durMillis inlineTaskPruneMinInterval then s
         else snd (pruneExpiredTasks now (s\<lparr>sv_lastInlineTaskPruneUnixMs := nowMS\<rparr>)))"

section \<open>Submitting a task\<close>

text \<open>A request that has passed the checks.\<close>

record valid_request =
  vr_capability :: string
  vr_ownerID :: string
  vr_mode :: taskMode
  vr_inputJSON :: payload
  vr_timeout :: gduration
  vr_wait :: gduration
  vr_requestID :: string

definition validateSubmit :: "go_error + string \<Rightarrow> submitTaskRequest \<Rightarrow> go_error + valid_request" where
  "validateSubmit newSessionID req =
     (let capability = normalizeCapability (rq_capability req); ownerID = normalizeTaskOwnerID (rq_ownerID req)
      in if capability = [] then Inl (StatusError InvalidArgument ''capability is required'')
         else if ownerID = [] then Inl (StatusError InvalidArgument ''owner_id is required'')
         else case parseTaskMode (rq_mode req) of
           None \<Rightarrow> Inl (StatusError InvalidArgument ''mode must be one of sync|async|auto'')
         | Some mode \<Rightarrow>
             let inputJSON = (if bytesEmpty (rq_inputJSON req) then Document (JObj []) else rq_inputJSON req)
             in if \<not> jsonValid inputJSON then Inl (StatusError InvalidArgument ''input must be valid JSON'')
                else case scopeTaskInputByOwner newSessionID capability ownerID inputJSON of
                  Inl e \<Rightarrow> Inl e
                | Inr inputJSON \<Rightarrow>
                    let timeout = (if rq_timeout req \<le> 0 then defaultTaskTimeout else rq_timeout req);
                        wait = (if rq_wait req \<le> 0 then defaultTaskWait else rq_wait req)
                    in if timeout > maxTaskTimeout
                       then Inl (StatusError InvalidArgument ''timeout exceeds maximum allowed value'')
                       else if wait > maxTaskWait
                       then Inl (StatusError InvalidArgument ''wait exceeds maximum allowed value'')
                       else Inr \<lparr>vr_capability = capability, vr_ownerID = ownerID, vr_mode = mode,
                              vr_inputJSON = inputJSON, vr_timeout = timeout,
                              vr_wait = (if mode = TaskModeAuto \<and> wait > timeout then timeout else wait),
                              vr_requestID = trimSpace (rq_requestID req)\<rparr>)"

record submit_env =
  su_step :: "service \<Rightarrow> service"
  su_sessionID :: "go_error + string"
  su_taskID :: "go_error + string"
  su_wait :: wait_env

text \<open>The goroutine a submission starts: the arguments of \<open>executeTask\<close>.\<close>

record launch =
  ln_taskID :: string
  ln_ownerID :: string
  ln_capability :: string
  ln_inputJSON :: payload

type_synonym submit_answer = "((go_error + submitTaskResult) \<times> launch option) \<times> service"

definition releaseReservation :: "valid_request \<Rightarrow> service \<Rightarrow> service" where
  "releaseReservation v s =
     (if vr_requestID v = [] then s
      else s\<lparr>sv_reservations := filter (\<lambda>k. k \<noteq> taskRequestScopeKey (vr_ownerID v) (vr_requestID v))
               (sv_reservations s)\<rparr>)"

text \<open>The answer for a task that exists already; the deferred release runs after the wait.\<close>

definition resolveExisting :: "submit_env \<Rightarrow> valid_request \<Rightarrow> dbTaskSnapshot \<Rightarrow> service \<Rightarrow> submit_answer option" where
  "resolveExisting env v existing s =
     map_option (\<lambda>(r, s). ((r, None), releaseReservation v s))
       (resolveSubmitTaskResult (su_wait env) (dt_taskID existing) (getTaskRuntime (dt_taskID existing) s)
          (vr_mode v) (vr_wait v) s)"

definition queuedRow :: "string \<Rightarrow> valid_request \<Rightarrow> gtime \<Rightarrow> task_row" where
  "queuedRow taskID v now =
     \<lparr>t_task_id = taskID, t_owner_id = vr_ownerID v, t_request_id = vr_requestID v,
      t_capability = vr_capability v, t_input_json = vr_inputJSON v, t_status = Queued,
      t_command_id = [], t_result_json = emptyBytes, t_error_code = [], t_error_message = [],
      t_created_at = unixMilli now, t_updated_at = unixMilli now,
      t_deadline_at = unixMilli (now + vr_timeout v), t_completed_at = 0, t_expires_at = 0\<rparr>"

definition createTask :: "submit_env \<Rightarrow> valid_request \<Rightarrow> service \<Rightarrow> submit_answer option" where
  "createTask env v s =
     (let refuse = (\<lambda>e s. Some ((Inl e, None), releaseReservation v s))
      in case checkCapabilityAvailability (vr_capability v) (vr_ownerID v) (su_step env s) of
           (Some e, s) \<Rightarrow> refuse e s
         | (None, s) \<Rightarrow>
             (case su_taskID env of
                Inl _ \<Rightarrow> refuse (StatusError Internal ''failed to create task_id'') s
              | Inr taskID \<Rightarrow>
                  let s = su_step env s in
                  case onStore (insertTask (queuedRow taskID v (sv_now s))) s of
                    (Inl e, s) \<Rightarrow>
                      if vr_requestID v \<noteq> [] \<and> isTaskOwnerRequestConflict e
                      then (case getTaskByOwnerAndRequest (vr_ownerID v) (vr_requestID v) (su_step env s) of
                              (Some existing, s) \<Rightarrow> resolveExisting env v existing s
                            | (None, s) \<Rightarrow> refuse (StatusError Internal ''failed to create task'') s)
                      else refuse (StatusError Internal ''failed to create task'') s
                  | (Inr _, s) \<Rightarrow>
                      let s = su_step env s; a = length (sv_taskHeap s);
                          s = s\<lparr>sv_taskHeap := sv_taskHeap s @
                                [\<lparr>rec_id = taskID, rec_ownerID = vr_ownerID v, rec_requestID = vr_requestID v,
                                  rec_hasCancel = True, rec_canceled = False, rec_done = False\<rparr>]\<rparr>;
                          s = releaseReservation v (setTaskRuntime taskID a s)
                      in map_option
                           (\<lambda>(r, s). ((r, Some \<lparr>ln_taskID = taskID, ln_ownerID = vr_ownerID v,
                                ln_capability = vr_capability v, ln_inputJSON = vr_inputJSON v\<rparr>), s))
                           (resolveSubmitTaskResult (su_wait env) taskID (Some a) (vr_mode v) (vr_wait v) s)))"

definition submitTask :: "submit_env \<Rightarrow> submitTaskRequest \<Rightarrow> service \<Rightarrow> submit_answer option" where
  "submitTask env req s =
     (case validateSubmit (su_sessionID env) req of
        Inl e \<Rightarrow> Some ((Inl e, None), s)
      | Inr v \<Rightarrow>
          let s = maybePruneExpiredTasks (sv_now s) s;
              key = taskRequestScopeKey (vr_ownerID v) (vr_requestID v)
          in if vr_requestID v = [] then createTask env v s
             else if key \<in> set (sv_reservations s) then Some ((Inl ErrTaskRequestInProgress, None), s)
             else let s = s\<lparr>sv_reservations := key # sv_reservations s\<rparr> in
               case getTaskByOwnerAndRequest (vr_ownerID v) (vr_requestID v) (su_step env s) of
                 (Some existing, s) \<Rightarrow> resolveExisting env v existing s
               | (None, s) \<Rightarrow> createTask env v s)"

end
