(* ===== verification/TaskProperties.thy ===== *)
theory TaskProperties
  imports Tasks
begin

text \<open>
  What the task engine guarantees: every operation only takes steps of the task table's life
  cycle, a task that has been executed is settled, waiters are woken, owners are kept apart and
  a request id is answered by one task.
\<close>

section \<open>What dispatching leaves alone\<close>

text \<open>The part of the service that belongs to tasks.\<close>

definition taskView ::
  "service \<Rightarrow> task_row list \<times> (string \<times> nat) list \<times> taskRecord list \<times> go_error list \<times> string list" where
  "taskView s = (db_tasks (sv_db s), sv_tasks s, sv_taskHeap s, sv_criticalFailures s, sv_reservations s)"

lemma taskView_frame [simp]:
  "taskView (putSession a se s) = taskView s" "taskView (updRoutes f s) = taskView s"
  "taskView (releaseAt a c s) = taskView s" "taskView (snd (onRoutes g s)) = taskView s"
  "taskView (s\<lparr>sv_roundRobin := k\<rparr>) = taskView s" "taskView (clearCreated b t a s) = taskView s"
  by (simp_all add: taskView_def putSession_def updRoutes_def releaseAt_def onRoutes_def clearCreated_def
      split: prod.split)

lemma onRoutes_view: "onRoutes g s = (r, s') \<Longrightarrow> taskView s' = taskView s"
  by (metis taskView_frame(4) snd_conv)

lemma list_tasks:
  "db_tasks (snd (listOnlineNodeIDsByCapability c now ttl d)) = db_tasks d"
  "db_tasks (snd (listOnlineNodeIDsByOwnerTypeAndCapability ow t c now ttl d)) = db_tasks d"
proof -
  have "db_tasks (snd (listOnlineWorkerNodeIDsByCapability x k d)) = db_tasks d"
    "db_tasks (snd (listOnlineWorkerNodeIDsByOwnerTypeAndCapability x y z k d)) = db_tasks d" for x y z k
    unfolding listOnlineWorkerNodeIDsByCapability_def listOnlineWorkerNodeIDsByOwnerTypeAndCapability_def
    by (rule dbRun_preserves; simp)+
  then show "db_tasks (snd (listOnlineNodeIDsByCapability c now ttl d)) = db_tasks d"
    "db_tasks (snd (listOnlineNodeIDsByOwnerTypeAndCapability ow t c now ttl d)) = db_tasks d"
    by (simp_all add: listOnlineNodeIDsByCapability_def listOnlineNodeIDsByOwnerTypeAndCapability_def)
qed

lemma onStore_view: "db_tasks (snd (f (sv_db s))) = db_tasks (sv_db s) \<Longrightarrow> taskView (snd (onStore f s)) = taskView s"
  by (simp add: onStore_def taskView_def case_prod_beta)

lemma listOnline_view [simp]: "taskView (snd (listOnlineNodeIDsForCapability c ow s)) = taskView s"
  by (auto simp: listOnlineNodeIDsForCapability_def Let_def intro!: onStore_view list_tasks)

lemma scanNode_view: "taskView (snd (scanNode c n st)) = taskView (snd st)"
  by (auto simp: scanNode_def Let_def split: prod.split option.split)

lemma scan_view: "taskView (snd (fold (scanNode c) ns st)) = taskView (snd st)"
  by (induction ns arbitrary: st) (simp_all add: scanNode_view)

lemma acquireFirst_view: "taskView (snd (acquireFirst c cs s)) = taskView s"
  by (induction cs arbitrary: s) (auto simp: Let_def split: prod.split)

lemma pickNode_view: "taskView (snd (pickSessionForNodeAndCapability n c s)) = taskView s"
  by (auto simp: pickSessionForNodeAndCapability_def Let_def split: option.split prod.split)

lemma anyCapacity_view: "taskView (snd (anyCapacity c ns s)) = taskView s"
  by (induction ns arbitrary: s) (auto simp: Let_def split: option.split prod.split)

text \<open>A property of the tasks that other goroutines keep.\<close>

definition kept :: "(service \<Rightarrow> bool) \<Rightarrow> (service \<Rightarrow> service) \<Rightarrow> bool" where
  "kept P i \<longleftrightarrow> (\<forall>s t. taskView t = taskView s \<longrightarrow> P s \<longrightarrow> P t) \<and> (\<forall>s. P s \<longrightarrow> P (i s))"

lemma keptD:
  assumes "kept P i"
  shows "P s \<Longrightarrow> taskView t = taskView s \<Longrightarrow> P t" "P s \<Longrightarrow> P (i s)"
  using assms unfolding kept_def by blast+

lemma kept_pick:
  assumes P: "kept P i"
  shows "onRoutes g s = (x, s') \<Longrightarrow> P s \<Longrightarrow> P s'"
    "P s \<Longrightarrow> P (updRoutes f s)" "P s \<Longrightarrow> P (releaseAt a c s)" "P s \<Longrightarrow> P (i s)"
    "P s \<Longrightarrow> P (putSession a se s)" "P s \<Longrightarrow> P (clearCreated b t a s)"
    "pickSessionForNodeAndCapability n c s = (r', s') \<Longrightarrow> P s \<Longrightarrow> P s'"
proof -
  show "P s \<Longrightarrow> P (i s)" by (rule keptD(2) [OF P])
  show "onRoutes g s = (x, s') \<Longrightarrow> P s \<Longrightarrow> P s'" by (rule keptD(1) [OF P], assumption) (rule onRoutes_view)
  show "pickSessionForNodeAndCapability n c s = (r', s') \<Longrightarrow> P s \<Longrightarrow> P s'"
    by (rule keptD(1) [OF P], assumption) (metis pickNode_view snd_conv)
qed (erule keptD(1) [OF P], simp)+

lemma kept_pickCap:
  assumes P: "kept P i" and p: "pickSessionForCapability i c ow s = (r, s')" and s: "P s"
  shows "P s'"
proof -
  let ?l = "listOnlineNodeIDsForCapability c ow s"
  let ?f = "fold (scanNode c) (rotated (sv_roundRobin (snd ?l)) (fst ?l))
    (emptyScan, (snd ?l)\<lparr>sv_roundRobin := Suc (sv_roundRobin (snd ?l))\<rparr>)"
  let ?q = "acquireFirst c (sn_preferred (fst ?f) @ sn_fallback (fst ?f)) (i (snd ?f))"
  have l: "P (snd ?l)" by (rule keptD(1) [OF P s]) simp
  have f: "P (snd ?f)" by (rule keptD(1) [OF P s]) (simp add: scan_view)
  have q: "P (snd ?q)" by (rule keptD(1) [OF P keptD(2) [OF P f]]) (rule acquireFirst_view)
  have "s' = snd ?l \<or> s' = snd ?f \<or> s' = snd ?q"
    using p unfolding pickSessionForCapability_def Let_def case_prod_beta
    by (auto split: if_splits option.splits)
  with l f q show ?thesis by blast
qed

lemma kept_tryReserve:
  assumes P: "kept P i" and t: "tryReserveAndPickTerminalSession i c ow tsid now s = (r, s')" and s: "P s"
  shows "P s'"
proof -
  note k = kept_pick [OF P]
  show ?thesis
    using t s unfolding tryReserveAndPickTerminalSession_def Let_def
    by (auto split: prod.splits sum.splits if_splits intro: k(2-6) dest!: k(1,7) kept_pickCap [OF P])
qed

lemma kept_pickDispatch:
  assumes P: "kept P i" and p: "pickSessionForDispatch i c ow tsid s = (r, s')" and s: "P s"
  shows "P s'"
proof -
  note k = kept_pick [OF P]
  show ?thesis
    using p s unfolding pickSessionForDispatch_def Let_def
    by (auto split: prod.splits sum.splits if_splits option.splits intro: k(2-6)
        dest!: k(1,7) kept_pickCap [OF P] kept_tryReserve [OF P])
qed

lemma kept_dispatchResult:
  assumes P: "kept P i" and d: "dispatchResult tsid b a w s = (r, s')" and s: "P s"
  shows "P s'"
  using d s unfolding dispatchResult_def Let_def
  by (auto split: wait_result.splits if_splits option.splits intro: kept_pick(2-6) [OF P])

lemma kept_unregister: "kept P i \<Longrightarrow> unregisterAt a cid s = Some s' \<Longrightarrow> P s \<Longrightarrow> P s'"
  by (auto simp: unregisterAt_def intro: kept_pick(5))

text \<open>A dispatch either never gets to its callback, or it runs the callback once, at a state \<open>s1\<close>; what
  holds of the tasks then is kept until the dispatch returns.\<close>

definition callback_ran ::
  "(service \<Rightarrow> service) \<Rightarrow> (service \<Rightarrow> bool) \<Rightarrow> (string \<Rightarrow> service \<Rightarrow> 'c \<times> service) \<Rightarrow> 'c option \<Rightarrow> service \<Rightarrow> bool" where
  "callback_ran i P onD m s' \<longleftrightarrow> (m = None \<and> P s') \<or>
     (\<exists>cid s1. m = Some (fst (onD cid s1)) \<and> P s1 \<and>
        (\<forall>Q. kept Q i \<longrightarrow> Q (snd (onD cid s1)) \<longrightarrow> Q s'))"

lemma kept_sendAndWait:
  assumes P: "kept P (ev_step env)"
    and d: "sendAndWait env dispatch tsid created a addr onD s = Some ((r, c), s')" and s: "P s"
  shows "callback_ran (ev_step env) P onD c s'"
proof -
  obtain x se where q: "enqueueCommand (ev_enqueuePick env) (ev_enqueueCtx env) (CommandDispatch dispatch) (sv_heap s ! a) = Some (x, se)"
    using d by (auto simp: sendAndWait_def split: option.splits)
  show ?thesis
  proof (cases x)
    case (Inl e)
    with d q s show ?thesis
      by (auto simp: sendAndWait_def Let_def callback_ran_def intro: kept_pick(2-6) [OF P] dest!: kept_unregister [OF P])
  next
    case (Inr u)
    let ?s1 = "putSession a se s"
    obtain c' s2 where on: "onD (cd_commandId dispatch) ?s1 = (c', s2)" by (cases "onD (cd_commandId dispatch) ?s1")
    obtain w se' where w: "awaitOutcome (ev_waitPick env) (ev_waitCtx env) addr (sv_heap (ev_step env s2) ! a) = Some (w, se')"
      using d q Inr on by (auto simp: sendAndWait_def Let_def split: option.splits)
    let ?s3 = "putSession a se' (ev_step env s2)"
    obtain r' s4 where r': "dispatchResult tsid created a w ?s3 = (r', s4)" by (cases "dispatchResult tsid created a w ?s3")
    have c: "c = Some c'" "unregisterAt a (cd_commandId dispatch) s4 = Some s'"
      using d q Inr on w r' by (auto simp: sendAndWait_def Let_def)
    have "\<forall>Q. kept Q (ev_step env) \<longrightarrow> Q s2 \<longrightarrow> Q s'"
    proof (intro allI impI)
      fix Q assume Q: "kept Q (ev_step env)" "Q s2"
      have "Q s4" by (rule kept_dispatchResult [OF Q(1) r']) (intro kept_pick(2-6) [OF Q(1)] Q(2))
      with kept_unregister [OF Q(1) c(2)] show "Q s'" by blast
    qed
    moreover have "P ?s1" by (intro kept_pick(2-6) [OF P] s)
    moreover have "c = Some (fst (onD (cd_commandId dispatch) ?s1))" "s2 = snd (onD (cd_commandId dispatch) ?s1)"
      using on c(1) by simp_all
    ultimately show ?thesis unfolding callback_ran_def by blast
  qed
qed

lemma kept_dispatchCommand:
  assumes P: "kept P (ev_step env)" and d: "dispatchCommand env c p timeout ow onD s = Some ((r, m), s')" and s: "P s"
  shows "callback_ran (ev_step env) P onD m s'"
proof -
  note k = kept_pick(2-6) [OF P]
  let ?c = "normalizeCapability c" and ?p = "if bytesEmpty p then Document (JObj []) else p"
  show ?thesis
  proof (cases "?c = []")
    case True
    with d s show ?thesis by (simp add: dispatchCommand_def Let_def callback_ran_def)
  next
    case False
    let ?t = "terminalSessionIDFromPayload ?c ?p"
    obtain q s1 where pick: "pickSessionForDispatch (ev_step env) ?c ow ?t s = (q, s1)"
      by (cases "pickSessionForDispatch (ev_step env) ?c ow ?t s")
    have s1: "P s1" by (rule kept_pickDispatch [OF P pick s])
    show ?thesis
    proof (cases q)
      case (Inl e)
      with d False pick s1 show ?thesis by (simp add: dispatchCommand_def Let_def callback_ran_def)
    next
      case (Inr ab)
      obtain a b where ab: "ab = (a, b)" by (cases ab)
      show ?thesis
      proof (cases "ev_commandID env")
        case (Inl e)
        with d False pick Inr ab s1 show ?thesis
          by (auto simp: dispatchCommand_def Let_def callback_ran_def intro: k)
      next
        case cid: (Inr cid)
        let ?s2 = "ev_step env s1"
        obtain x se where reg: "registerPending cid ?c (sv_heap ?s2 ! a) = (x, se)"
          by (cases "registerPending cid ?c (sv_heap ?s2 ! a)")
        show ?thesis
        proof (cases x)
          case (Inl e)
          with d False pick Inr ab cid reg s1 show ?thesis
            by (auto simp: dispatchCommand_def Let_def callback_ran_def intro: k)
        next
          case addr: (Inr addr)
          have s3: "P (ev_step env (putSession a se ?s2))" by (intro k s1)
          from d False pick Inr ab cid reg addr obtain dd where
            "sendAndWait env dd ?t b a addr onD (ev_step env (putSession a se ?s2)) = Some ((r, m), s')"
            by (simp add: dispatchCommand_def Let_def)
          from kept_sendAndWait [OF P this s3] show ?thesis .
        qed
      qed
    qed
  qed
qed


section \<open>An executed task is settled\<close>

text \<open>The task has no unfinished row: it is finished, or its row has expired.\<close>

definition settled :: "string \<Rightarrow> service \<Rightarrow> bool" where
  "settled tid s \<longleftrightarrow> (\<forall>r \<in> set (db_tasks (sv_db s)). \<not> taskActive tid r)"

text \<open>What others may do: they never reopen the task and never take back a reported failure.\<close>

definition leaves_settled :: "string \<Rightarrow> (service \<Rightarrow> service) \<Rightarrow> bool" where
  "leaves_settled tid i \<longleftrightarrow> (\<forall>s. (settled tid s \<longrightarrow> settled tid (i s)) \<and>
     length (sv_criticalFailures s) \<le> length (sv_criticalFailures (i s)))"

definition ended :: "nat \<Rightarrow> string \<Rightarrow> service \<Rightarrow> bool" where
  "ended n tid s \<longleftrightarrow> n < length (sv_criticalFailures s) \<or> n = length (sv_criticalFailures s) \<and> settled tid s"

text \<open>The guarantee of a transition that answers \<open>r\<close>: without an error, and when no row was active, the
  task is settled; failures are never taken back.\<close>

definition transition_ok :: "nat \<Rightarrow> string \<Rightarrow> go_error option \<times> service \<Rightarrow> bool" where
  "transition_ok n tid r \<longleftrightarrow> n \<le> length (sv_criticalFailures (snd r)) \<and>
     (fst r = None \<or> fst r = Some ErrTaskTransitionNotApplied \<longrightarrow> settled tid (snd r))"

lemma taskView_settled: "taskView t = taskView s \<Longrightarrow> settled tid t = settled tid s"
  "taskView t = taskView s \<Longrightarrow> sv_criticalFailures t = sv_criticalFailures s"
  by (simp_all add: taskView_def settled_def)

lemma leaves_settledD:
  "leaves_settled tid i \<Longrightarrow> settled tid s \<Longrightarrow> settled tid (i s)"
  "leaves_settled tid i \<Longrightarrow> n \<le> length (sv_criticalFailures s) \<Longrightarrow> n \<le> length (sv_criticalFailures (i s))"
  unfolding leaves_settled_def using le_trans by blast+

lemma onStore_crit [simp]: "sv_criticalFailures (snd (onStore q s)) = sv_criticalFailures s"
  "sv_db (snd (onStore q s)) = snd (q (sv_db s))" "fst (onStore q s) = fst (q (sv_db s))"
  "sv_tasks (snd (onStore q s)) = sv_tasks s" "sv_taskHeap (snd (onStore q s)) = sv_taskHeap s"
  "sv_reservations (snd (onStore q s)) = sv_reservations s" "sv_now (snd (onStore q s)) = sv_now s"
  by (simp_all add: onStore_def case_prod_beta)

lemma completeTaskRuntime_frame [simp]: "sv_db (completeTaskRuntime t s) = sv_db s"
  "sv_criticalFailures (completeTaskRuntime t s) = sv_criticalFailures s"
  "sv_reservations (completeTaskRuntime t s) = sv_reservations s"
  by (simp_all add: completeTaskRuntime_def split: option.split)

text \<open>The three transitions share one query shape: count the active rows, update them.\<close>

lemma fault_not_applied [simp]: "faultError e \<noteq> ErrTaskTransitionNotApplied"
  by (cases e) simp_all

lemma active_query:
  assumes q: "dbRun (\<lambda>d. (Inr (countWhere (taskActive tid) (db_tasks d)),
      d\<lparr>db_tasks := updateWhere (taskActive tid) f (db_tasks d)\<rparr>)) d = (r, d')"
  shows "r = Inr 0 \<Longrightarrow> \<forall>x \<in> set (db_tasks d'). \<not> taskActive tid x"
    "r = Inr k \<Longrightarrow> \<forall>x. \<not> taskActive tid (f x) \<Longrightarrow> \<forall>x \<in> set (db_tasks d'). \<not> taskActive tid x"
    "r = Inl e \<Longrightarrow> e \<noteq> ErrTaskTransitionNotApplied"
proof -
  have "(\<exists>e. r = Inl (faultError e)) \<or> (\<exists>ts. r = Inr (countWhere (taskActive tid) ts) \<and>
      db_tasks d' = updateWhere (taskActive tid) f ts)"
    by (rule dbRun_cases [OF q]) auto
  then show "r = Inr 0 \<Longrightarrow> \<forall>x \<in> set (db_tasks d'). \<not> taskActive tid x"
    "r = Inr k \<Longrightarrow> \<forall>x. \<not> taskActive tid (f x) \<Longrightarrow> \<forall>x \<in> set (db_tasks d'). \<not> taskActive tid x"
    "r = Inl e \<Longrightarrow> e \<noteq> ErrTaskTransitionNotApplied"
    by (auto simp: countWhere_pos updateWhere_none in_updateWhere split: if_splits) metis
qed

lemma markTaskDispatched_ok:
  assumes n: "n \<le> length (sv_criticalFailures s)" and m: "markTaskDispatched tid s = (Some e, s')"
  shows "transition_ok n tid (Some e, s')"
proof -
  obtain r d where q: "queryMarkTaskDispatched (unixMilli (sv_now s)) tid (sv_db s) = (r, d)"
    by (cases "queryMarkTaskDispatched (unixMilli (sv_now s)) tid (sv_db s)")
  note a = active_query [OF q [unfolded queryMarkTaskDispatched_def]]
  show ?thesis using m n a(1) a(3) q
    by (auto simp: markTaskDispatched_def onStore_def transition_ok_def settled_def split: if_splits sum.splits)
qed

lemma markTaskRunning_ok:
  assumes n: "n \<le> length (sv_criticalFailures s)" and m: "markTaskRunning tid c s = (Some e, s')"
  shows "transition_ok n tid (Some e, s')"
proof -
  obtain r d where q: "queryMarkTaskRunning (trimSpace c) (unixMilli (sv_now s)) tid (sv_db s) = (r, d)"
    by (cases "queryMarkTaskRunning (trimSpace c) (unixMilli (sv_now s)) tid (sv_db s)")
  note a = active_query [OF q [unfolded queryMarkTaskRunning_def]]
  show ?thesis using m n a(1) a(3) q
    by (auto simp: markTaskRunning_def onStore_def transition_ok_def settled_def split: if_splits sum.splits)
qed

lemma terminalUpdate_inactive: "isTaskTerminal (p_status p) \<Longrightarrow> \<not> taskActive tid (terminalUpdate p x)"
  by (simp add: taskActive_iff)

lemma markTerminal_settles:
  assumes "queryMarkTaskTerminal p tid d = (r, d')" "isTaskTerminal (p_status p)"
  shows "r = Inr k \<Longrightarrow> \<forall>x \<in> set (db_tasks d'). \<not> taskActive tid x" "r = Inl e \<Longrightarrow> e \<noteq> ErrTaskTransitionNotApplied"
  using active_query(2,3) [OF assms(1) [unfolded queryMarkTaskTerminal_def]] terminalUpdate_inactive [OF assms(2)]
  by simp_all

lemma finishTask_ok:
  assumes i: "leaves_settled tid i" and st: "isTaskTerminal st" and tid: "trimSpace tid = tid"
    and n: "n \<le> length (sv_criticalFailures s)"
  shows "transition_ok n tid (finishTask i tid st res ec em at s)"
proof (cases "tid = []")
  case False
  define p where "p = \<lparr>p_status = st, p_result_json = res, p_error_code = trimSpace ec, p_error_message = trimSpace em,
     p_updated_at = unixMilli (if isZeroTime at then sv_now s else at),
     p_completed_at = unixMilli (if isZeroTime at then sv_now s else at),
     p_expires_at = unixMilli ((if isZeroTime at then sv_now s else at) + sv_taskRetention s)\<rparr>"
  obtain r d where q: "queryMarkTaskTerminal p tid (sv_db s) = (r, d)" by (cases "queryMarkTaskTerminal p tid (sv_db s)")
  have p: "isTaskTerminal (p_status p)" using st by (simp add: p_def)
  let ?s = "s\<lparr>sv_db := d\<rparr>"
  have ft: "finishTask i tid st res ec em at s =
      (case r of Inl e \<Rightarrow> Some e | Inr rows \<Rightarrow> if rows = 0 then Some ErrTaskTransitionNotApplied else None,
       completeTaskRuntime tid (i ?s))"
    using q False tid by (simp add: finishTask_def onStore_def p_def Let_def)
  have "\<forall>k. r = Inr k \<longrightarrow> settled tid ?s" using markTerminal_settles(1) [OF q p] by (simp add: settled_def)
  then have "\<forall>k. r = Inr k \<longrightarrow> settled tid (i ?s)" using leaves_settledD(1) [OF i] by blast
  moreover have "n \<le> length (sv_criticalFailures (i ?s))" by (rule leaves_settledD(2) [OF i]) (simp add: n)
  ultimately show ?thesis using markTerminal_settles(2) [OF q p] unfolding ft
    by (auto simp: transition_ok_def settled_def split: sum.splits)
qed (use n tid in \<open>simp add: finishTask_def transition_ok_def\<close>)

lemma failTask_ended:
  assumes i: "leaves_settled tid i" and tid: "trimSpace tid = tid" and n: "n \<le> length (sv_criticalFailures s)"
  shows "ended n tid (snd (failTaskOnPersistenceError i tid stage cause s))"
proof -
  let ?st = "if trimSpace stage = [] then ''unknown_stage'' else trimSpace stage"
  let ?m = "''failed to persist task state at '' @ ?st @ '': '' @ errorText cause"
  obtain r s' where f: "finishTask i tid Failed emptyBytes defaultTaskPersistErrCode ?m (sv_now s) s = (r, s')"
    by (cases "finishTask i tid Failed emptyBytes defaultTaskPersistErrCode ?m (sv_now s) s")
  have "transition_ok n tid (r, s')" unfolding f [symmetric] by (rule finishTask_ok [OF i _ tid n]) simp
  with f show ?thesis
    by (cases r) (auto simp: failTaskOnPersistenceError_def Let_def transition_ok_def ended_def settled_def)
qed

lemma settleTask_ended:
  assumes i: "leaves_settled tid i" and tid: "trimSpace tid = tid" and r: "transition_ok n tid r"
  shows "ended n tid (settleTask i tid stage r)"
proof -
  obtain x s where r': "r = (x, s)" by (cases r)
  have "n \<le> length (sv_criticalFailures (i s))"
    using r leaves_settledD(2) [OF i] by (simp add: r' transition_ok_def)
  with failTask_ended [OF i tid] r show ?thesis
    by (auto simp: r' settleTask_def transition_ok_def ended_def split: option.split)
qed


text \<open>Every error of a dispatch ends the task in some final state.\<close>

lemma terminal_states: "isTaskTerminal Succeeded" "isTaskTerminal Failed" "isTaskTerminal Timeout"
  "isTaskTerminal Canceled"
  by simp_all

lemma finishTaskWithError_terminal:
  "\<exists>st ec em. isTaskTerminal st \<and>
     finishTaskWithError i tid err s = finishTask i tid st emptyBytes ec em (sv_now s) s"
  unfolding finishTaskWithError_def Let_def
  by (cases err; simp split: grpc_code.split; blast intro: terminal_states)

lemma finishOutcome_ended:
  assumes i: "leaves_settled tid i" and tid: "trimSpace tid = tid" and n: "n \<le> length (sv_criticalFailures s)"
  shows "ended n tid (finishOutcome i tid owner c res s)"
proof -
  have err: "ended n tid (settleTask i tid st (finishTaskWithError i tid e s))" for st e
    using finishTaskWithError_terminal [of i tid e s] settleTask_ended [OF i tid finishTask_ok [OF i _ tid n]]
    by auto
  have fin: "ended n tid (settleTask i tid stage (finishTask i tid st r ec em at s))"
    if "isTaskTerminal st" for stage st r ec em at
    by (intro settleTask_ended [OF i tid] finishTask_ok [OF i that tid n])
  show ?thesis
    by (simp add: finishOutcome_def err fin Let_def split: sum.split option.split)
qed

lemma crit_mark [simp]: "sv_criticalFailures (snd (markTaskDispatched t s)) = sv_criticalFailures s"
  "sv_criticalFailures (snd (markTaskRunning t c s)) = sv_criticalFailures s"
  "sv_criticalFailures (snd (onTaskDispatched t c s)) = sv_criticalFailures s"
proof -
  show m: "sv_criticalFailures (snd (markTaskRunning t c s)) = sv_criticalFailures s" for t c s
    by (auto simp: markTaskRunning_def onStore_def split: prod.split sum.split)
  show "sv_criticalFailures (snd (onTaskDispatched t c s)) = sv_criticalFailures s"
    using m [of t c s] by (auto simp: onTaskDispatched_def split: prod.splits option.split)
  show "sv_criticalFailures (snd (markTaskDispatched t s)) = sv_criticalFailures s"
    by (auto simp: markTaskDispatched_def onStore_def split: prod.split sum.split)
qed

lemma onTaskDispatched_ok:
  assumes n: "n \<le> length (sv_criticalFailures s)" and m: "fst (onTaskDispatched tid c s) = Some e"
  shows "transition_ok n tid (Some e, snd (onTaskDispatched tid c s))"
proof -
  obtain x s' where r: "markTaskRunning tid c s = (x, s')" by (cases "markTaskRunning tid c s")
  with m have x: "x = Some e" by (auto simp: onTaskDispatched_def split: option.splits)
  have "transition_ok n tid (Some e, s')" by (rule markTaskRunning_ok [OF n r [unfolded x]])
  then show ?thesis
    unfolding onTaskDispatched_def r x
    by (auto simp: transition_ok_def settled_def split: option.split)
qed

lemma kept_transition:
  assumes i: "leaves_settled tid i"
  shows "kept (\<lambda>s. transition_ok n tid (r, s)) i" "kept (\<lambda>s. n \<le> length (sv_criticalFailures s)) i"
proof -
  show c: "kept (\<lambda>s. n \<le> length (sv_criticalFailures s)) i"
    unfolding kept_def using leaves_settledD(2) [OF i] taskView_settled(2) by metis
  show "kept (\<lambda>s. transition_ok n tid (r, s)) i"
    unfolding kept_def transition_ok_def fst_conv snd_conv
  proof (intro conjI allI impI)
    fix s t assume "taskView t = taskView s"
    note v = taskView_settled [OF this]
    assume "n \<le> length (sv_criticalFailures s) \<and>
      (r = None \<or> r = Some ErrTaskTransitionNotApplied \<longrightarrow> settled tid s)"
    then show "n \<le> length (sv_criticalFailures t)"
      "r = None \<or> r = Some ErrTaskTransitionNotApplied \<Longrightarrow> settled tid t"
      using v by simp_all
  qed (use leaves_settledD [OF i] in blast)+
qed


text \<open>How an execution ends, given what holds while it dispatches.\<close>

lemma executeTask_cases:
  assumes P: "kept P (ev_step env)" and x: "executeTask env tid owner c inp s = Some s'"
    and mark: "P (snd (markTaskDispatched tid s))"
  obtains (undispatched) e s1 where "markTaskDispatched tid s = (Some e, s1)"
      "s' = settleTask (ev_step env) tid ''mark_dispatched'' (Some e, s1)"
  | (unmarked) cid e s1 s2 where "P s1" "fst (onTaskDispatched tid cid s1) = Some e"
      "\<forall>Q. kept Q (ev_step env) \<longrightarrow> Q (snd (onTaskDispatched tid cid s1)) \<longrightarrow> Q s2"
      "s' = settleTask (ev_step env) tid ''mark_running'' (Some e, s2)"
  | (unsent) res s2 where "P s2" "s' = finishOutcome (ev_step env) tid owner c res s2"
  | (answered) cid s1 res s2 where "P s1" "fst (onTaskDispatched tid cid s1) = None"
      "\<forall>Q. kept Q (ev_step env) \<longrightarrow> Q (snd (onTaskDispatched tid cid s1)) \<longrightarrow> Q s2"
      "s' = finishOutcome (ev_step env) tid owner c res s2"
proof -
  let ?i = "ev_step env" and ?onD = "onTaskDispatched tid"
  obtain r s0 where m: "markTaskDispatched tid s = (r, s0)" by (cases "markTaskDispatched tid s")
  show thesis
  proof (cases r)
    case (Some e)
    with x m show thesis by (intro undispatched) (auto simp: executeTask_def Let_def)
  next
    case None
    obtain res marked s1 where d: "dispatchCommand env c inp 0 owner ?onD s0 = Some ((res, marked), s1)"
      using x m None by (auto simp: executeTask_def Let_def split: option.splits)
    have P0: "P s0" using mark m by simp
    have s': "s' = (case marked of Some (Some e) \<Rightarrow> settleTask ?i tid ''mark_running'' (Some e, ?i s1)
        | _ \<Rightarrow> finishOutcome ?i tid owner c res (?i s1))"
      using x m None d by (auto simp: executeTask_def Let_def split: option.splits)
    from kept_dispatchCommand [OF P d P0] consider
        (no) "marked = None" "P s1"
      | (yes) cid t where "marked = Some (fst (?onD cid t))" "P t"
          "\<forall>Q. kept Q ?i \<longrightarrow> Q (snd (?onD cid t)) \<longrightarrow> Q s1"
      unfolding callback_ran_def by blast
    then show thesis
    proof cases
      case no
      then show thesis using s' keptD(2) [OF P] by (intro unsent [of "?i s1" res]) simp_all
    next
      case yes
      have k: "\<forall>Q. kept Q ?i \<longrightarrow> Q (snd (?onD cid t)) \<longrightarrow> Q (?i s1)" using yes(3) keptD(2) by blast
      show thesis
      proof (cases "fst (?onD cid t)")
        case None
        then show thesis using answered [OF yes(2) None k] s' yes(1) by simp
      next
        case (Some e)
        then show thesis using unmarked [OF yes(2) Some k] s' yes(1) by simp
      qed
    qed
  qed
qed

lemma execute_ended:
  assumes i: "leaves_settled tid (ev_step env)" and tid: "trimSpace tid = tid"
    and x: "executeTask env tid owner c inp s = Some s'"
  shows "ended (length (sv_criticalFailures s)) tid s'"
proof -
  let ?n = "length (sv_criticalFailures s)" and ?i = "ev_step env"
  note k = kept_transition [OF i]
  from k(2) x have "?n \<le> length (sv_criticalFailures (snd (markTaskDispatched tid s))) \<Longrightarrow> ?thesis"
  proof (rule executeTask_cases [of "\<lambda>t. ?n \<le> length (sv_criticalFailures t)"])
    fix e s1 assume m: "markTaskDispatched tid s = (Some e, s1)"
      and s': "s' = settleTask ?i tid ''mark_dispatched'' (Some e, s1)"
    show ?thesis unfolding s' by (intro settleTask_ended [OF i tid] markTaskDispatched_ok [OF _ m]) simp
  next
    fix cid e s1 s2 assume s1: "?n \<le> length (sv_criticalFailures s1)" and e: "fst (onTaskDispatched tid cid s1) = Some e"
      and q: "\<forall>Q. kept Q ?i \<longrightarrow> Q (snd (onTaskDispatched tid cid s1)) \<longrightarrow> Q s2"
      and s': "s' = settleTask ?i tid ''mark_running'' (Some e, s2)"
    have "transition_ok ?n tid (Some e, s2)" using q k(1) onTaskDispatched_ok [OF s1 e] by blast
    then show ?thesis unfolding s' by (rule settleTask_ended [OF i tid])
  next
    fix res s2 assume s2: "?n \<le> length (sv_criticalFailures s2)" and s': "s' = finishOutcome ?i tid owner c res s2"
    show ?thesis unfolding s' by (rule finishOutcome_ended [OF i tid s2])
  next
    fix cid s1 res s2 assume s1: "?n \<le> length (sv_criticalFailures s1)"
      and q: "\<forall>Q. kept Q ?i \<longrightarrow> Q (snd (onTaskDispatched tid cid s1)) \<longrightarrow> Q s2"
      and s': "s' = finishOutcome ?i tid owner c res s2"
    have "?n \<le> length (sv_criticalFailures s2)" using q k(2) s1 by fastforce
    then show ?thesis unfolding s' by (rule finishOutcome_ended [OF i tid])
  qed
  then show ?thesis by simp
qed


section \<open>The engine only takes steps of the life cycle\<close>

definition reaches :: "task_row list \<Rightarrow> service \<Rightarrow> bool" where
  "reaches ts s \<longleftrightarrow> tasks_step\<^sup>*\<^sup>* ts (db_tasks (sv_db s))"

definition takes_steps :: "(service \<Rightarrow> service) \<Rightarrow> bool" where
  "takes_steps i \<longleftrightarrow> (\<forall>s. reaches (db_tasks (sv_db s)) (i s))"

lemma reaches_refl: "reaches (db_tasks (sv_db s)) s"
  by (simp add: reaches_def)

lemma reaches_frame: "db_tasks (sv_db t) = db_tasks (sv_db s) \<Longrightarrow> reaches ts s \<Longrightarrow> reaches ts t"
  by (simp add: reaches_def)

lemma reaches_i: "takes_steps i \<Longrightarrow> reaches ts s \<Longrightarrow> reaches ts (i s)"
  unfolding reaches_def takes_steps_def by (meson rtranclp_trans)

lemma kept_reaches: "takes_steps i \<Longrightarrow> kept (reaches ts) i"
  unfolding kept_def using reaches_i by (auto simp: taskView_def reaches_def)

lemma reaches_query:
  assumes "\<And>d. tasks_step\<^sup>*\<^sup>* (db_tasks d) (db_tasks (snd (q d)))" "reaches ts s"
  shows "reaches ts (snd (onStore q s))"
  using assms(1) [of "sv_db s"] assms(2) unfolding reaches_def by simp

lemma reaches_onStore:
  assumes "onStore q s = (r, s')" "\<And>d. tasks_step\<^sup>*\<^sup>* (db_tasks d) (db_tasks (snd (q d)))" "reaches ts s"
  shows "reaches ts s'"
  using reaches_query [OF assms(2,3)] assms(1) by simp

lemma reaches_get:
  "getTaskByID t s = (r, s') \<Longrightarrow> reaches ts s \<Longrightarrow> reaches ts s'"
  "getTaskByOwnerAndRequest ow q s = (r, s') \<Longrightarrow> reaches ts s \<Longrightarrow> reaches ts s'"
  by (auto simp: getTaskByID_def getTaskByOwnerAndRequest_def split: prod.splits sum.splits
      elim: reaches_onStore)

lemma reaches_mark:
  "reaches ts s \<Longrightarrow> reaches ts (snd (markTaskDispatched t s))"
  "reaches ts s \<Longrightarrow> reaches ts (snd (markTaskRunning t c s))"
  by (auto simp: markTaskDispatched_def markTaskRunning_def split: prod.split sum.split
      intro!: reaches_query markDispatched_step markRunning_step)

lemma reaches_onDispatched: "reaches ts s \<Longrightarrow> reaches ts (snd (onTaskDispatched t c s))"
  using reaches_mark(2) [of ts s t c]
  by (auto simp: onTaskDispatched_def reaches_def split: prod.splits option.split)

lemma reaches_finish:
  assumes i: "takes_steps i" and st: "isTaskTerminal st" and s: "reaches ts s"
  shows "reaches ts (snd (finishTask i t st res ec em at s))"
proof -
  have "reaches ts (completeTaskRuntime u (i s1))" if "onStore (queryMarkTaskTerminal p v) s = (r, s1)"
    "isTaskTerminal (p_status p)" for p u v r s1
    using reaches_i [OF i reaches_onStore [OF that(1) markTerminal_step [OF that(2)] s]]
    by (simp add: reaches_def)
  then show ?thesis using st s by (auto simp: finishTask_def Let_def split: prod.split)
qed

lemma reaches_finishError: "takes_steps i \<Longrightarrow> reaches ts s \<Longrightarrow> reaches ts (snd (finishTaskWithError i t e s))"
  using finishTaskWithError_terminal [of i t e s] reaches_finish by metis

lemma reaches_fail:
  assumes "takes_steps i" "reaches ts s"
  shows "reaches ts (snd (failTaskOnPersistenceError i t stage c s))"
proof -
  let ?st = "if trimSpace stage = [] then ''unknown_stage'' else trimSpace stage"
  have "reaches ts (snd (finishTask i t Failed emptyBytes defaultTaskPersistErrCode
      (''failed to persist task state at '' @ ?st @ '': '' @ errorText c) (sv_now s) s))"
    by (rule reaches_finish [OF assms(1) _ assms(2)]) simp
  then show ?thesis
    by (auto simp: failTaskOnPersistenceError_def Let_def reaches_def split: prod.splits option.split)
qed

lemma reaches_settle: "takes_steps i \<Longrightarrow> reaches ts (snd r) \<Longrightarrow> reaches ts (settleTask i t stage r)"
  by (auto simp: settleTask_def reaches_fail reaches_i split: prod.split option.split)

lemma reaches_outcome: "takes_steps i \<Longrightarrow> reaches ts s \<Longrightarrow> reaches ts (finishOutcome i t ow c res s)"
  by (auto simp: finishOutcome_def Let_def split: sum.split option.split
      intro!: reaches_settle reaches_finishError reaches_finish)

lemma reaches_execute:
  assumes i: "takes_steps (ev_step env)" and x: "executeTask env t ow c inp s = Some s'"
  shows "reaches (db_tasks (sv_db s)) s'"
proof -
  let ?ts = "db_tasks (sv_db s)"
  note k = kept_reaches [OF i, of ?ts]
  from k x reaches_mark(1) [OF reaches_refl] show ?thesis
    by (rule executeTask_cases [of "reaches ?ts"])
      (use reaches_mark(1) [OF reaches_refl, of s t] k i reaches_onDispatched
        in \<open>auto intro!: reaches_settle reaches_outcome\<close>)
qed


lemma reaches_cancel:
  assumes i: "takes_steps i" and s: "reaches ts s" and c: "cancelTask i t ow s = (r, s')"
  shows "reaches ts s'"
proof -
  let ?tid = "trimSpace t"
  obtain x s1 where g: "getTaskByID ?tid s = (x, s1)" by (cases "getTaskByID ?tid s")
  have s1: "reaches ts s1" by (rule reaches_get(1) [OF g s])
  let ?f = "finishTask i ?tid Canceled emptyBytes defaultTaskCanceledCode ''task canceled'' (sv_now (i s1)) (i s1)"
  obtain e s2 where f: "?f = (e, s2)" by (cases ?f)
  have "reaches ts (snd ?f)" by (rule reaches_finish [OF i _ reaches_i [OF i s1]]) simp
  then have s2: "reaches ts s2" "reaches ts (i s2)" using f reaches_i [OF i] by simp_all
  obtain y s3 where h: "getTaskByID ?tid (i s2) = (y, s3)" by (cases "getTaskByID ?tid (i s2)")
  have s3: "reaches ts s3" by (rule reaches_get(1) [OF h s2(2)])
  show ?thesis
    using c g f h s s1 s2 s3 by (auto simp: cancelTask_def Let_def split: if_splits option.splits)
qed

lemma reaches_snapshot: "snapshotNow t s = (r, s') \<Longrightarrow> reaches ts s \<Longrightarrow> reaches ts s'"
  by (auto simp: snapshotNow_def Let_def split: prod.splits option.splits dest: reaches_get(1))

lemma reaches_resolve:
  assumes i: "takes_steps (we_step we)" and s: "reaches ts s"
    and r: "resolveSubmitTaskResult we t a m w s = Some (x, s')"
  shows "reaches ts s'"
  using r s
  by (auto simp: resolveSubmitTaskResult_def waitDone_def Let_def split: if_splits prod.splits sum.splits option.splits
      dest!: reaches_snapshot intro: reaches_i [OF i])

lemma reaches_prune: "reaches ts s \<Longrightarrow> reaches ts (snd (pruneExpiredTasks n s))"
  "reaches ts s \<Longrightarrow> reaches ts (snd (pruneExpiredTasksCount n s))"
  "reaches ts s \<Longrightarrow> reaches ts (maybePruneExpiredTasks n s)"
proof -
  show p: "reaches ts s \<Longrightarrow> reaches ts (snd (pruneExpiredTasks n s))" for s
    using reaches_query [OF deleteExpired_step] by (auto simp: pruneExpiredTasks_def split: prod.split sum.split)
  show "reaches ts s \<Longrightarrow> reaches ts (snd (pruneExpiredTasksCount n s))"
    using reaches_query [OF deleteExpired_step] by (auto simp: pruneExpiredTasksCount_def split: prod.split sum.split)
  show "reaches ts s \<Longrightarrow> reaches ts (maybePruneExpiredTasks n s)"
    using p by (auto simp: maybePruneExpiredTasks_def Let_def reaches_def)
qed

lemma check_view:
  assumes "checkCapabilityAvailability c ow s = (r, s')"
  shows "taskView s' = taskView s"
proof -
  let ?l = "listOnlineNodeIDsForCapability c ow s"
  have "s' = snd ?l \<or> s' = snd (anyCapacity c (fst ?l) (snd ?l))"
    using assms by (auto simp: checkCapabilityAvailability_def case_prod_beta split: if_splits)
  then show ?thesis using anyCapacity_view listOnline_view by metis
qed

lemma get_view:
  "getTaskByID t s = (r, s') \<Longrightarrow> taskView s' = taskView s"
  "getTaskByOwnerAndRequest ow q s = (r, s') \<Longrightarrow> taskView s' = taskView s"
  using onStore_view [of "queryGetTaskByID t" s] onStore_view [of "queryGetTaskByOwnerAndRequest ow q" s]
  by (auto simp: getTaskByID_def getTaskByOwnerAndRequest_def split: prod.splits sum.splits)

lemma insert_refused_view:
  assumes "onStore (insertTask row) s = (Inl e, s')"
  shows "taskView s' = taskView s"
proof -
  obtain d where d: "insertTask row (sv_db s) = (Inl e, d)" "s' = s\<lparr>sv_db := d\<rparr>"
    using assms by (auto simp: onStore_def split: prod.splits)
  have "db_tasks d = db_tasks (sv_db s)"
    by (rule dbRun_cases [OF d(1) [unfolded insertTask_def]]) (auto split: if_splits)
  with d(2) show ?thesis by (simp add: taskView_def)
qed

lemma releaseReservation_frame [simp]: "sv_db (releaseReservation v s) = sv_db s" "sv_tasks (releaseReservation v s) = sv_tasks s"
  "sv_taskHeap (releaseReservation v s) = sv_taskHeap s"
  by (simp_all add: releaseReservation_def)

lemma reaches_release [simp]: "reaches ts (releaseReservation v s) = reaches ts s"
  by (simp add: reaches_def)

lemma reaches_existing:
  assumes "takes_steps (we_step (su_wait env))" "reaches ts s" "resolveExisting env v ex s = Some (r, s')"
  shows "reaches ts s'"
  using assms reaches_resolve [OF assms(1)] by (auto simp: resolveExisting_def)

text \<open>What creating a task does after its row is in the table.\<close>

definition afterInsert :: "submit_env \<Rightarrow> valid_request \<Rightarrow> string \<Rightarrow> service \<Rightarrow> service" where
  "afterInsert env v taskID s =
     (let s = su_step env s
      in releaseReservation v (setTaskRuntime taskID (length (sv_taskHeap s))
           (s\<lparr>sv_taskHeap := sv_taskHeap s @
              [\<lparr>rec_id = taskID, rec_ownerID = vr_ownerID v, rec_requestID = vr_requestID v,
                rec_hasCancel = True, rec_canceled = False, rec_done = False\<rparr>]\<rparr>)))"

definition launchOf :: "string \<Rightarrow> valid_request \<Rightarrow> launch" where
  "launchOf taskID v = \<lparr>ln_taskID = taskID, ln_ownerID = vr_ownerID v, ln_capability = vr_capability v,
     ln_inputJSON = vr_inputJSON v\<rparr>"

lemma createTask_cases:
  assumes c: "createTask env v s = Some (a, s')"
  obtains (refused) e s0 where "a = (Inl e, None)" "s' = releaseReservation v s0"
      "\<And>P. kept P (su_step env) \<Longrightarrow> P s \<Longrightarrow> P s0"
  | (existing) ex s0 s1 where "vr_requestID v \<noteq> []"
      "getTaskByOwnerAndRequest (vr_ownerID v) (vr_requestID v) (su_step env s0) = (Some ex, s1)"
      "resolveExisting env v ex s1 = Some (a, s')"
      "\<And>P. kept P (su_step env) \<Longrightarrow> P s \<Longrightarrow> P s0"
  | (created) tid s0 s1 r where "su_taskID env = Inr tid"
      "onStore (insertTask (queuedRow tid v (sv_now s0))) s0 = (Inr (), s1)"
      "resolveSubmitTaskResult (su_wait env) tid (Some (length (sv_taskHeap (su_step env s1)))) (vr_mode v) (vr_wait v)
         (afterInsert env v tid s1) = Some (r, s')"
      "a = (r, Some (launchOf tid v))"
      "\<And>P. kept P (su_step env) \<Longrightarrow> P s \<Longrightarrow> P s0"
proof -
  obtain e0 s0 where ch: "checkCapabilityAvailability (vr_capability v) (vr_ownerID v) (su_step env s) = (e0, s0)"
    by (cases "checkCapabilityAvailability (vr_capability v) (vr_ownerID v) (su_step env s)")
  let ?ok = "\<lambda>s0. \<forall>P. kept P (su_step env) \<longrightarrow> P s \<longrightarrow> P s0"
  have ok_step: "?ok t \<Longrightarrow> ?ok (su_step env t)" for t using keptD(2) by blast
  have ok_view: "?ok t \<Longrightarrow> taskView u = taskView t \<Longrightarrow> ?ok u" for t u using keptD(1) by blast
  have "?ok s" by blast
  from ok_view [OF ok_step [OF this] check_view [OF ch]] have r0: "?ok s0" .
  have ref: "thesis" if "Some ((Inl e, None), releaseReservation v t) = Some (a, s')" "?ok t" for e t
    by (rule refused [of e t]) (use that in auto)
  note ev = c [unfolded createTask_def Let_def ch prod.case]
  show thesis
  proof (cases e0)
    case (Some e)
    with ev show thesis by (simp only: option.case ref [OF _ r0])
  next
    case None
    note ev = ev [unfolded None option.case]
    show thesis
    proof (cases "su_taskID env")
      case (Inl e)
      with ev show thesis by (simp only: sum.case ref [OF _ r0])
    next
      case (Inr tid)
      let ?s = "su_step env s0"
      have r1: "?ok ?s" by (rule ok_step [OF r0])
      note ev = ev [unfolded Inr sum.case]
      obtain q s1 where ins: "onStore (insertTask (queuedRow tid v (sv_now ?s))) ?s = (q, s1)"
        by (cases "onStore (insertTask (queuedRow tid v (sv_now ?s))) ?s")
      note ev = ev [unfolded ins prod.case]
      show thesis
      proof (cases q)
        case u: (Inr u)
        then have u': "q = Inr ()" by simp
        obtain r where r: "resolveSubmitTaskResult (su_wait env) tid (Some (length (sv_taskHeap (su_step env s1))))
           (vr_mode v) (vr_wait v) (afterInsert env v tid s1) = Some (r, s')" "a = (r, Some (launchOf tid v))"
          using ev u by (auto simp: afterInsert_def launchOf_def Let_def)
        show thesis by (rule created [OF Inr ins [unfolded u'] r]) (use r1 in blast)
      next
        case e: (Inl e)
        have r2: "?ok s1" by (rule ok_view [OF r1 insert_refused_view [OF ins [unfolded e]]])
        obtain g s2 where g: "getTaskByOwnerAndRequest (vr_ownerID v) (vr_requestID v) (su_step env s1) = (g, s2)"
          by (cases "getTaskByOwnerAndRequest (vr_ownerID v) (vr_requestID v) (su_step env s1)")
        have r3: "?ok s2" by (rule ok_view [OF ok_step [OF r2] get_view(2) [OF g]])
        note ev = ev [unfolded e sum.case g prod.case]
        show thesis
        proof (cases "vr_requestID v \<noteq> [] \<and> isTaskOwnerRequestConflict e")
          case False
          with ev show thesis by (simp only: if_False ref [OF _ r2])
        next
          case True
          show thesis
          proof (cases g)
            case None
            with ev True show thesis by (simp only: if_True option.case simp_thms ref [OF _ r3])
          next
            case (Some ex)
            then have "resolveExisting env v ex s2 = Some (a, s')" using ev True by simp
            from existing [OF _ g [unfolded Some] this] True r2 show thesis by blast
          qed
        qed
      qed
    qed
  qed
qed


lemma submitTask_cases:
  assumes c: "submitTask env req s = Some (a, s')"
  defines "s0 \<equiv> maybePruneExpiredTasks (sv_now s) s"
  obtains (invalid) e where "validateSubmit (su_sessionID env) req = Inl e" "a = (Inl e, None)" "s' = s"
  | (busy) v where "validateSubmit (su_sessionID env) req = Inr v" "vr_requestID v \<noteq> []"
      "taskRequestScopeKey (vr_ownerID v) (vr_requestID v) \<in> set (sv_reservations s0)"
      "a = (Inl ErrTaskRequestInProgress, None)" "s' = s0"
  | (known) v ex s1 where "validateSubmit (su_sessionID env) req = Inr v" "vr_requestID v \<noteq> []"
      "taskRequestScopeKey (vr_ownerID v) (vr_requestID v) \<notin> set (sv_reservations s0)"
      "getTaskByOwnerAndRequest (vr_ownerID v) (vr_requestID v) (su_step env (s0\<lparr>sv_reservations :=
         taskRequestScopeKey (vr_ownerID v) (vr_requestID v) # sv_reservations s0\<rparr>)) = (Some ex, s1)"
      "resolveExisting env v ex s1 = Some (a, s')"
  | (anonymous) v where "validateSubmit (su_sessionID env) req = Inr v" "vr_requestID v = []"
      "createTask env v s0 = Some (a, s')"
  | (fresh) v s1 where "validateSubmit (su_sessionID env) req = Inr v" "vr_requestID v \<noteq> []"
      "taskRequestScopeKey (vr_ownerID v) (vr_requestID v) \<notin> set (sv_reservations s0)"
      "getTaskByOwnerAndRequest (vr_ownerID v) (vr_requestID v) (su_step env (s0\<lparr>sv_reservations :=
         taskRequestScopeKey (vr_ownerID v) (vr_requestID v) # sv_reservations s0\<rparr>)) = (None, s1)"
      "createTask env v s1 = Some (a, s')"
  using c unfolding submitTask_def Let_def s0_def [symmetric]
  by (auto split: sum.splits if_splits prod.splits option.splits)

lemma resolveExisting_launch: "resolveExisting env v ex s = Some ((r, l), s') \<Longrightarrow> l = None"
  by (auto simp: resolveExisting_def)

text \<open>The tasks a pending request can find.\<close>

definition hasRequest :: "string \<Rightarrow> string \<Rightarrow> service \<Rightarrow> bool" where
  "hasRequest ow q s \<longleftrightarrow> (\<exists>r \<in> set (db_tasks (sv_db s)). t_owner_id r = ow \<and> t_request_id r = q)"

lemma hasRequest_kept: "\<forall>s. hasRequest ow q s \<longrightarrow> hasRequest ow q (i s) \<Longrightarrow> kept (hasRequest ow q) i"
  by (auto simp: kept_def hasRequest_def taskView_def)

lemma insert_done:
  assumes "onStore (insertTask row) s = (Inr u, s')"
  shows "t_request_id row \<noteq> [] \<Longrightarrow> \<not> hasRequest (t_owner_id row) (t_request_id row) s"
    "\<forall>r \<in> set (db_tasks (sv_db s)). t_task_id r \<noteq> t_task_id row"
    "db_tasks (sv_db s') = db_tasks (sv_db s) @ [row]"
proof -
  obtain d where d: "insertTask row (sv_db s) = (Inr u, d)" "s' = s\<lparr>sv_db := d\<rparr>"
    using assms by (auto simp: onStore_def split: prod.splits)
  have "(t_request_id row \<noteq> [] \<longrightarrow> \<not> hasRequest (t_owner_id row) (t_request_id row) s) \<and>
    (\<forall>r \<in> set (db_tasks (sv_db s)). t_task_id r \<noteq> t_task_id row) \<and> db_tasks d = db_tasks (sv_db s) @ [row]"
    by (rule dbRun_cases [OF d(1) [unfolded insertTask_def]]) (auto simp: hasRequest_def split: if_splits)
  with d(2) show "t_request_id row \<noteq> [] \<Longrightarrow> \<not> hasRequest (t_owner_id row) (t_request_id row) s"
    "\<forall>r \<in> set (db_tasks (sv_db s)). t_task_id r \<noteq> t_task_id row"
    "db_tasks (sv_db s') = db_tasks (sv_db s) @ [row]" by simp_all
qed

lemma queuedRow_keys [simp]: "t_task_id (queuedRow tid v n) = tid" "t_owner_id (queuedRow tid v n) = vr_ownerID v"
  "t_request_id (queuedRow tid v n) = vr_requestID v"
  by (simp_all add: queuedRow_def)

lemma created_only_if_absent:
  assumes c: "createTask env v s = Some ((r, Some l), s')" and q: "vr_requestID v \<noteq> []"
    and i: "\<forall>s. hasRequest (vr_ownerID v) (vr_requestID v) s \<longrightarrow> hasRequest (vr_ownerID v) (vr_requestID v) (su_step env s)"
  shows "\<not> hasRequest (vr_ownerID v) (vr_requestID v) s"
proof
  assume h: "hasRequest (vr_ownerID v) (vr_requestID v) s"
  from c show False
  proof (cases rule: createTask_cases)
    case (existing ex s0 s1)
    from resolveExisting_launch [OF existing(3)] show False by simp
  next
    case (created tid s0 s1 r')
    have "hasRequest (vr_ownerID v) (vr_requestID v) s0" by (rule created(5) [OF hasRequest_kept [OF i] h])
    with insert_done(1) [OF created(2)] q show False by simp
  qed simp_all
qed

text \<open>A submission that starts no task, or the one it started: the row it inserted was new.\<close>

lemma prune_kept:
  "taskView (maybePruneExpiredTasks n s) = taskView s \<or> (\<exists>m. db_tasks (sv_db (maybePruneExpiredTasks n s)) =
     deleteRows (taskExpired m) (db_tasks (sv_db s)))"
proof -
  have "db_tasks (snd (queryDeleteExpiredTerminalTasks m d)) = db_tasks d \<or>
      db_tasks (snd (queryDeleteExpiredTerminalTasks m d)) = deleteRows (taskExpired m) (db_tasks d)" for m d
    unfolding queryDeleteExpiredTerminalTasks_def by (rule dbRun_preserves) simp_all
  then have "taskView (snd (pruneExpiredTasks m t)) = taskView t \<or>
      db_tasks (sv_db (snd (pruneExpiredTasks m t))) = deleteRows (taskExpired (unixMilli m)) (db_tasks (sv_db t))" for m t
    by (auto simp: pruneExpiredTasks_def onStore_def taskView_def split: prod.split sum.split) (metis snd_conv)+
  from this [of n "s\<lparr>sv_lastInlineTaskPruneUnixMs := unixMilli n\<rparr>"] show ?thesis
    by (auto simp: maybePruneExpiredTasks_def Let_def taskView_def)
qed

lemma create_launch:
  assumes c: "createTask env v s = Some ((r, Some l), s')"
    and i: "takes_steps (su_step env)" "takes_steps (we_step (su_wait env))" and s: "reaches ts s"
  shows "\<exists>s0. reaches ts s0 \<and> (\<forall>x \<in> set (db_tasks (sv_db s0)). t_task_id x \<noteq> ln_taskID l) \<and>
    (vr_requestID v \<noteq> [] \<longrightarrow> \<not> hasRequest (vr_ownerID v) (vr_requestID v) s0) \<and> su_taskID env = Inr (ln_taskID l) \<and>
    l = launchOf (ln_taskID l) v \<and>
    reaches (db_tasks (sv_db s0) @ [queuedRow (ln_taskID l) v (sv_now s0)]) s'"
  using c
proof (cases rule: createTask_cases)
  case (existing ex s0 s1)
  from resolveExisting_launch [OF existing(3)] show ?thesis by simp
next
  case (created tid s0 s1 r')
  have l: "ln_taskID l = tid" "l = launchOf tid v" using created(4) by (simp_all add: launchOf_def)
  note ins = insert_done [OF created(2)]
  let ?us = "db_tasks (sv_db s0) @ [queuedRow tid v (sv_now s0)]"
  have "reaches ?us s1" using ins(3) by (simp add: reaches_def)
  from reaches_i [OF i(1) this] have "reaches ?us (afterInsert env v tid s1)"
    by (simp add: afterInsert_def Let_def setTaskRuntime_def reaches_def)
  from reaches_resolve [OF i(2) this created(3)] have "reaches ?us s'" .
  with ins created(1) l created(5) [OF kept_reaches [OF i(1)] s] show ?thesis
    by (intro exI [of _ s0]) auto
qed simp_all

lemma reaches_create:
  assumes c: "createTask env v s = Some (a, s')"
    and i: "takes_steps (su_step env)" "takes_steps (we_step (su_wait env))" and s: "reaches ts s"
  shows "reaches ts s'"
  using c
proof (cases rule: createTask_cases)
  case (refused e s0)
  from refused(3) [OF kept_reaches [OF i(1)] s] show ?thesis by (simp add: refused(2))
next
  case (existing ex s0 s1)
  from existing(4) [OF kept_reaches [OF i(1)] s] have "reaches ts s1"
    by (rule reaches_get(2) [OF existing(2) reaches_i [OF i(1)]])
  from reaches_existing [OF i(2) this existing(3)] show ?thesis .
next
  case (created tid s0 s1 r)
  have "reaches ts s1"
    by (rule reaches_onStore [OF created(2) insertTask_step created(5) [OF kept_reaches [OF i(1)] s]])
      (simp_all add: queuedRow_def)
  from reaches_i [OF i(1) this] have "reaches ts (afterInsert env v tid s1)"
    by (simp add: afterInsert_def Let_def setTaskRuntime_def reaches_def)
  from reaches_resolve [OF i(2) this created(3)] show ?thesis .
qed

lemma reaches_submit:
  assumes c: "submitTask env req s = Some (a, s')"
    and i: "takes_steps (su_step env)" "takes_steps (we_step (su_wait env))"
  shows "reaches (db_tasks (sv_db s)) s'"
proof -
  let ?ts = "db_tasks (sv_db s)" and ?s0 = "maybePruneExpiredTasks (sv_now s) s"
  have s0: "reaches ?ts ?s0" by (rule reaches_prune(3) [OF reaches_refl])
  have s1: "reaches ?ts (su_step env (?s0\<lparr>sv_reservations := k\<rparr>))" for k
    by (rule reaches_i [OF i(1)]) (use s0 in \<open>simp add: reaches_def\<close>)
  from c show ?thesis
  proof (cases rule: submitTask_cases)
    case (known v ex s1)
    show ?thesis by (rule reaches_existing [OF i(2) reaches_get(2) [OF known(4) s1] known(5)])
  next
    case (fresh v s1)
    show ?thesis by (rule reaches_create [OF fresh(5) i reaches_get(2) [OF fresh(4) s1]])
  next
    case (anonymous v)
    show ?thesis by (rule reaches_create [OF anonymous(3) i s0])
  qed (simp_all add: s0 reaches_refl)
qed

section \<open>The guarantees\<close>

text \<open>C19: When \<open>executeTask\<close> returns, its task has no unfinished row any more, whatever the worker
  answered, whichever database query failed and whatever other goroutines did in between, unless the
  failure to record it was itself reported as a critical persistence failure.\<close>

theorem execute_settles:
  assumes "leaves_settled tid (ev_step env)" and "trimSpace tid = tid"
    and "executeTask env tid owner c inp s = Some s'"
  shows "settled tid s' \<or> length (sv_criticalFailures s) < length (sv_criticalFailures s')"
  using execute_ended [OF assms] by (auto simp: ended_def)


definition demoTaskRow :: task_row where
  "demoTaskRow = \<lparr>t_task_id = ''t1'', t_owner_id = ''alice'', t_request_id = ''r1'', t_capability = ''echo'',
     t_input_json = buildEchoPayload ''hi'', t_status = Queued, t_command_id = [], t_result_json = emptyBytes,
     t_error_code = [], t_error_message = [], t_created_at = 5, t_updated_at = 5, t_deadline_at = 60005,
     t_completed_at = 0, t_expires_at = 0\<rparr>"

definition demoTasks :: service where
  "demoTasks = demoService\<lparr>sv_db := demoDB\<lparr>db_tasks := [demoTaskRow]\<rparr>, sv_tasks := [(''t1'', 0)],
     sv_taskHeap := [\<lparr>rec_id = ''t1'', rec_ownerID = ''alice'', rec_requestID = ''r1'', rec_hasCancel = True,
       rec_canceled = False, rec_done = False\<rparr>]\<rparr>"

lemma takes_steps_id: "takes_steps id"
  by (simp add: takes_steps_def reaches_refl)

lemma leaves_settled_id: "leaves_settled tid id"
  by (simp add: leaves_settled_def)

lemma demo_executes: "\<not> Option.is_none (executeTask demoEnv ''t1'' ''alice'' ''echo'' (buildEchoPayload ''hi'') demoTasks)"
  by code_simp

theorem execute_settles_witness:
  "\<exists>s'. executeTask demoEnv ''t1'' ''alice'' ''echo'' (buildEchoPayload ''hi'') demoTasks = Some s' \<and>
     (settled ''t1'' s' \<or> sv_criticalFailures s' \<noteq> [])"
proof -
  obtain s' where x: "executeTask demoEnv ''t1'' ''alice'' ''echo'' (buildEchoPayload ''hi'') demoTasks = Some s'"
    using demo_executes by (auto simp: Option.is_none_def)
  have "ev_step demoEnv = id" by (simp add: demoEnv_def)
  moreover have "trimSpace ''t1'' = ''t1''" by code_simp
  moreover have "sv_criticalFailures demoTasks = []" by code_simp
  ultimately show ?thesis
    using execute_settles [of "''t1''" demoEnv, OF _ _ x] leaves_settled_id [of "''t1''"] x by auto
qed

text \<open>C20: The engine refines the life cycle of the task table: executing, canceling and submitting take
  nothing but its steps, with any database failure, as long as what runs in between does; so unique ids,
  unique request ids per owner and the cleanness of unfinished rows are kept.\<close>

theorem engine_refines:
  assumes "takes_steps (ev_step env)" and "takes_steps i"
    and "takes_steps (su_step senv)" and "takes_steps (we_step (su_wait senv))"
  shows "(executeTask env tid ow c inp s = Some s' \<longrightarrow>
      tasks_step\<^sup>*\<^sup>* (db_tasks (sv_db s)) (db_tasks (sv_db s'))) \<and>
    tasks_step\<^sup>*\<^sup>* (db_tasks (sv_db s)) (db_tasks (sv_db (snd (cancelTask i tid ow s)))) \<and>
    (submitTask senv req s = Some (a, t) \<longrightarrow>
      tasks_step\<^sup>*\<^sup>* (db_tasks (sv_db s)) (db_tasks (sv_db t))) \<and>
    (tasks_wf (db_tasks (sv_db s)) \<longrightarrow> submitTask senv req s = Some (a, t) \<longrightarrow> tasks_wf (db_tasks (sv_db t)))"
  using reaches_execute [OF assms(1)] reaches_cancel [OF assms(2) reaches_refl prod.collapse [symmetric]]
    reaches_submit [OF _ assms(3,4)] tasks_steps_wf
  unfolding reaches_def by blast

definition demoSubmitEnv :: submit_env where
  "demoSubmitEnv = \<lparr>su_step = id, su_sessionID = Inr ''sid'', su_taskID = Inr ''t2'',
     su_wait = \<lparr>we_step = id, we_ctx = None, we_timer = True, we_pick = 0\<rparr>\<rparr>"

definition demoRequest :: submitTaskRequest where
  "demoRequest = \<lparr>rq_capability = ''Echo'', rq_inputJSON = buildEchoPayload ''hi'', rq_mode = ''async'', rq_wait = 0,
     rq_timeout = 0, rq_requestID = ''r2'', rq_ownerID = ''alice''\<rparr>"

lemma demoSubmit_steps: "takes_steps (su_step demoSubmitEnv)" "takes_steps (we_step (su_wait demoSubmitEnv))"
  by (simp_all add: demoSubmitEnv_def takes_steps_id)

lemma demo_submits: "case submitTask demoSubmitEnv demoRequest demoTasks of None \<Rightarrow> False
   | Some ((r, l), s) \<Rightarrow> l = Some (launchOf ''t2'' \<lparr>vr_capability = ''echo'', vr_ownerID = ''alice'', vr_mode = TaskModeAsync,
       vr_inputJSON = buildEchoPayload ''hi'', vr_timeout = defaultTaskTimeout, vr_wait = defaultTaskWait, vr_requestID = ''r2''\<rparr>) \<and>
       length (db_tasks (sv_db s)) = 2 \<and> sv_reservations s = []"
  by code_simp

theorem engine_refines_witness:
  "\<exists>a t. submitTask demoSubmitEnv demoRequest demoTasks = Some (a, t) \<and> tasks_wf (db_tasks (sv_db t))"
proof -
  obtain a t where x: "submitTask demoSubmitEnv demoRequest demoTasks = Some (a, t)"
    using demo_submits by (cases "submitTask demoSubmitEnv demoRequest demoTasks") auto
  have "ev_step demoEnv = id" by (simp add: demoEnv_def)
  moreover have "tasks_wf (db_tasks (sv_db demoTasks))"
    by (simp add: demoTasks_def demoTaskRow_def tasks_wf_def requestsUnique_def unfinishedClean_def)
  ultimately show ?thesis
    using engine_refines [of demoEnv id demoSubmitEnv] demoSubmit_steps takes_steps_id x by metis
qed

text \<open>A finished row is final: whatever sequence of queries runs, a task that is in a final state and
  still in the table is unchanged in every column, and an unfinished one keeps its owner, request id,
  capability, input and times of creation and deadline.\<close>

theorem finished_is_final:
  assumes "(step_keeping (t_task_id r))\<^sup>*\<^sup>* ts ts'" and "tasks_wf ts" and "r \<in> set ts"
  shows "\<exists>r' \<in> set ts'. frozen r' = frozen r \<and> (isTaskTerminal (t_status r) \<longrightarrow> r' = r)"
  using steps_keeping_row [OF assms refl] unfolding row_evolves_def .

definition demoDone :: task_row where
  "demoDone = demoTaskRow\<lparr>t_status := Succeeded, t_result_json := buildEchoPayload ''hi'', t_completed_at := 6,
     t_expires_at := 600006\<rparr>"

theorem finished_is_final_witness:
  "demoDone \<in> set (updateWhere taskUnfinished (restartUpdate 7 7 7) [demoDone])"
proof -
  let ?ts = "updateWhere taskUnfinished (restartUpdate 7 7 7) [demoDone]"
  have fin: "isTaskTerminal (t_status demoDone)" by code_simp
  then have ts: "?ts = [demoDone]" by (simp add: taskUnfinished_iff)
  have "step_keeping (t_task_id demoDone) [demoDone] ?ts"
    unfolding step_keeping_def by (intro conjI step_restart) (simp add: ts taskIDs_def)
  then have "(step_keeping (t_task_id demoDone))\<^sup>*\<^sup>* [demoDone] ?ts" by blast
  moreover have "tasks_wf [demoDone]" by (simp add: tasks_wf_def requestsUnique_def unfinishedClean_def fin)
  ultimately show ?thesis using finished_is_final [of demoDone "[demoDone]" ?ts] fin by auto
qed


text \<open>C21: A request id names one task: while a row for the owner and request id is in the table, no
  submission with them starts a task, whichever queries fail (a failed lookup is taken for an absent row;
  the unique index stops the insert) and whatever runs in between, as long as the row stays.\<close>

theorem submit_no_second_task:
  assumes "validateSubmit (su_sessionID env) req = Inr v" and "vr_requestID v \<noteq> []"
    and "\<forall>s. hasRequest (vr_ownerID v) (vr_requestID v) s \<longrightarrow> hasRequest (vr_ownerID v) (vr_requestID v) (su_step env s)"
    and "hasRequest (vr_ownerID v) (vr_requestID v) (maybePruneExpiredTasks (sv_now s) s)"
    and "submitTask env req s = Some ((r, l), s')"
  shows "l = None"
  using assms(5)
proof (cases rule: submitTask_cases)
  case (known v' ex s1)
  from resolveExisting_launch [OF known(5)] show ?thesis .
next
  case (fresh v' s1)
  let ?k = "taskRequestScopeKey (vr_ownerID v') (vr_requestID v')" and ?s0 = "maybePruneExpiredTasks (sv_now s) s"
  have v: "v' = v" using fresh(1) assms(1) by simp
  have "hasRequest (vr_ownerID v) (vr_requestID v) (?s0\<lparr>sv_reservations := ?k # sv_reservations ?s0\<rparr>)"
    using assms(4) by (simp add: hasRequest_def)
  with assms(3) get_view(2) [OF fresh(4)] have "hasRequest (vr_ownerID v) (vr_requestID v) s1"
    by (metis (no_types, lifting) hasRequest_kept keptD(1))
  with created_only_if_absent [of env v s1 r _ s'] fresh(5) assms(2,3) show ?thesis
    unfolding v by (cases l) auto
next
  case (anonymous v')
  with assms(1,2) show ?thesis by simp
qed simp_all

theorem submit_no_second_task_witness:
  "case submitTask demoSubmitEnv (demoRequest\<lparr>rq_requestID := '' r1''\<rparr>)
     (demoTasks\<lparr>sv_db := (sv_db demoTasks)\<lparr>db_faults := [None, Some (EngineFault ''io'')]\<rparr>\<rparr>) of
     None \<Rightarrow> False | Some ((r, l), s') \<Rightarrow> l = None"
proof -
  let ?req = "demoRequest\<lparr>rq_requestID := '' r1''\<rparr>"
  let ?s = "demoTasks\<lparr>sv_db := (sv_db demoTasks)\<lparr>db_faults := [None, Some (EngineFault ''io'')]\<rparr>\<rparr>"
  let ?v = "\<lparr>vr_capability = ''echo'', vr_ownerID = ''alice'', vr_mode = TaskModeAsync,
     vr_inputJSON = buildEchoPayload ''hi'', vr_timeout = defaultTaskTimeout, vr_wait = defaultTaskWait, vr_requestID = ''r1''\<rparr>"
  have "\<not> Option.is_none (submitTask demoSubmitEnv ?req ?s)" by code_simp
  then obtain r l s' where x: "submitTask demoSubmitEnv ?req ?s = Some ((r, l), s')"
    by (auto simp: Option.is_none_def)
  have "validateSubmit (su_sessionID demoSubmitEnv) ?req = Inr ?v" by code_simp
  moreover have "su_step demoSubmitEnv = id" by (simp add: demoSubmitEnv_def)
  moreover have "hasRequest ''alice'' ''r1'' (maybePruneExpiredTasks (sv_now ?s) ?s)"
    unfolding hasRequest_def by code_simp
  ultimately have "l = None" using submit_no_second_task [of demoSubmitEnv ?req ?v ?s r l s'] x by simp
  with x show ?thesis by simp
qed

text \<open>A submission that starts a task started it for a new id and a new request of the owner: its row
  was inserted as queued, with the validated request, into a table that had neither, and the table since
  then took only steps of the life cycle.\<close>

theorem submit_creates:
  assumes "takes_steps (su_step env)" and "takes_steps (we_step (su_wait env))"
    and "submitTask env req s = Some ((r, Some l), s')"
  shows "\<exists>v ts now. validateSubmit (su_sessionID env) req = Inr v \<and> l = launchOf (ln_taskID l) v \<and>
    tasks_step\<^sup>*\<^sup>* (db_tasks (sv_db s)) ts \<and>
    (\<forall>x \<in> set ts. t_task_id x \<noteq> ln_taskID l \<and>
       (vr_requestID v \<noteq> [] \<longrightarrow> t_owner_id x = vr_ownerID v \<longrightarrow> t_request_id x \<noteq> vr_requestID v)) \<and>
    tasks_step\<^sup>*\<^sup>* (ts @ [queuedRow (ln_taskID l) v now]) (db_tasks (sv_db s'))"
proof -
  let ?ts = "db_tasks (sv_db s)" and ?s0 = "maybePruneExpiredTasks (sv_now s) s"
  have s0: "reaches ?ts ?s0" by (rule reaches_prune(3) [OF reaches_refl])
  have s1: "reaches ?ts (su_step env (?s0\<lparr>sv_reservations := k\<rparr>))" for k
    by (rule reaches_i [OF assms(1)]) (use s0 in \<open>simp add: reaches_def\<close>)
  have fin: ?thesis if v: "validateSubmit (su_sessionID env) req = Inr v"
    and c: "createTask env v t = Some ((r, Some l), s')" and t: "reaches ?ts t" for v t
    using create_launch [OF c assms(1,2) t] v unfolding reaches_def hasRequest_def by blast
  from assms(3) show ?thesis
  proof (cases rule: submitTask_cases)
    case (known v ex s1)
    from resolveExisting_launch [OF known(5)] show ?thesis by simp
  next
    case (fresh v s1)
    show ?thesis by (rule fin [OF fresh(1,5) reaches_get(2) [OF fresh(4) s1]])
  next
    case (anonymous v)
    show ?thesis by (rule fin [OF anonymous(1,3) s0])
  qed simp_all
qed

theorem submit_creates_witness:
  "\<exists>r l s'. submitTask demoSubmitEnv demoRequest demoTasks = Some ((r, Some l), s') \<and>
     (\<exists>v. l = launchOf ''t2'' v \<and> validateSubmit (su_sessionID demoSubmitEnv) demoRequest = Inr v)"
proof -
  obtain r l s' where x: "submitTask demoSubmitEnv demoRequest demoTasks = Some ((r, Some l), s')"
      and l: "ln_taskID l = ''t2''"
    using demo_submits by (cases "submitTask demoSubmitEnv demoRequest demoTasks") (auto simp: launchOf_def)
  from submit_creates [OF demoSubmit_steps x] x l show ?thesis by metis
qed


lemma found_row:
  assumes "getTaskByID tid s = (Some x, s')"
  shows "\<exists>r \<in> set (db_tasks (sv_db s)). t_task_id r = tid \<and> x = convertDBTask r"
proof -
  obtain d where d: "queryGetTaskByID tid (sv_db s) = d" "\<exists>r. fst d = Inr r \<and> x = convertDBTask r"
    using assms by (auto simp: getTaskByID_def onStore_def split: prod.splits sum.splits)
  then obtain r d' where q: "queryGetTaskByID tid (sv_db s) = (Inr r, d')" and x: "x = convertDBTask r"
    by (metis prod.collapse)
  have "r \<in> set (db_tasks (sv_db s)) \<and> t_task_id r = tid"
    by (rule dbRun_cases [OF q [unfolded queryGetTaskByID_def]]) (auto simp: find_Some_iff split: option.splits)
  with x show ?thesis by blast
qed

text \<open>Tasks are kept apart by owner: for anyone but its owner a task does not exist, neither to read
  nor to cancel, and asking changes neither the table nor the runtime records.\<close>

theorem foreign_owner:
  assumes "\<forall>r \<in> set (db_tasks (sv_db s)). t_task_id r = trimSpace tid \<longrightarrow> t_owner_id r \<noteq> normalizeTaskOwnerID ow"
  shows "fst (getTask tid ow s) = None \<and> taskView (snd (getTask tid ow s)) = taskView s \<and>
    fst (cancelTask i tid ow s) = Inl (ErrTaskNotFound, None) \<and> taskView (snd (cancelTask i tid ow s)) = taskView s"
proof -
  obtain x s1 where g: "getTaskByID (trimSpace tid) s = (x, s1)" by (cases "getTaskByID (trimSpace tid) s")
  have "dt_ownerID d \<noteq> normalizeTaskOwnerID ow" if "x = Some d" for d
    using found_row [OF g [unfolded that]] assms by (auto simp: convertDBTask_def)
  then show ?thesis using g get_view(1) [OF g]
    by (cases x) (simp_all add: getTask_def cancelTask_def Let_def)
qed

theorem foreign_owner_witness:
  "fst (getTask ''t1'' ''bob'' demoTasks) = None \<and>
   taskView (snd (cancelTask id ''t1'' ''bob'' demoTasks)) = taskView demoTasks"
proof -
  have "\<forall>r \<in> set (db_tasks (sv_db demoTasks)). t_task_id r = trimSpace ''t1'' \<longrightarrow>
      t_owner_id r \<noteq> normalizeTaskOwnerID ''bob''" by code_simp
  from foreign_owner [OF this] show ?thesis by blast
qed

text \<open>A waiter that holds the record at \<open>a\<close> can be woken: the record is in the table, or done.\<close>

definition wakeable :: "nat \<Rightarrow> string \<Rightarrow> service \<Rightarrow> bool" where
  "wakeable a tid s \<longleftrightarrow> a < length (sv_taskHeap s) \<and>
     (map_of (sv_tasks s) tid = Some a \<or> rec_done (sv_taskHeap s ! a))"

lemma update_keeps: "P (xs ! a) \<Longrightarrow> P y \<Longrightarrow> a < length xs \<Longrightarrow> P (xs[b := y] ! a)"
  by (cases "b = a") simp_all

lemma closed_done [simp]: "rec_done (closeTaskRuntimeRecord r)"
  by (simp add: closeTaskRuntimeRecord_def Let_def)

lemma complete_wakes:
  "map_of (sv_tasks (completeTaskRuntime tid s)) tid = None"
  "wakeable a tid s \<Longrightarrow> rec_done (sv_taskHeap (completeTaskRuntime tid s) ! a)"
  by (auto simp: completeTaskRuntime_def wakeable_def split: option.split intro: update_keeps)

text \<open>Finishing a task wakes everyone who waits for it, even when the database refuses to record it:
  afterwards the runtime table has no record of the task, and the record a waiter holds is done.\<close>

theorem finish_wakes:
  assumes "trimSpace tid \<noteq> []" and "\<forall>s. wakeable a (trimSpace tid) s \<longrightarrow> wakeable a (trimSpace tid) (i s)"
    and "wakeable a (trimSpace tid) s"
  shows "map_of (sv_tasks (snd (finishTask i tid st res ec em at s))) (trimSpace tid) = None \<and>
    rec_done (sv_taskHeap (snd (finishTask i tid st res ec em at s)) ! a)"
proof -
  have "wakeable a (trimSpace tid) (i (s\<lparr>sv_db := d\<rparr>))" for d
    using assms(2,3) by (simp add: wakeable_def)
  with assms(1) show ?thesis
    by (simp add: finishTask_def Let_def onStore_def case_prod_beta complete_wakes)
qed

theorem finish_wakes_witness:
  "rec_done (sv_taskHeap (snd (finishTask id ''t1'' Succeeded emptyBytes [] [] 9
     (demoTasks\<lparr>sv_db := (sv_db demoTasks)\<lparr>db_faults := [Some (EngineFault ''io'')]\<rparr>\<rparr>))) ! 0)"
proof -
  let ?s = "demoTasks\<lparr>sv_db := (sv_db demoTasks)\<lparr>db_faults := [Some (EngineFault ''io'')]\<rparr>\<rparr>"
  have "wakeable 0 (trimSpace ''t1'') ?s" by code_simp
  moreover have "trimSpace ''t1'' \<noteq> []" by code_simp
  ultimately show ?thesis using finish_wakes [of "''t1''" 0 id ?s] by simp
qed


definition canceledRow :: "service \<Rightarrow> task_row \<Rightarrow> task_row" where
  "canceledRow s = terminalUpdate \<lparr>p_status = Canceled, p_result_json = emptyBytes,
     p_error_code = defaultTaskCanceledCode, p_error_message = ''task canceled'',
     p_updated_at = unixMilli (sv_now s), p_completed_at = unixMilli (sv_now s),
     p_expires_at = unixMilli (sv_now s + sv_taskRetention s)\<rparr>"

lemma find_unique:
  "distinct (map key xs) \<Longrightarrow> r \<in> set xs \<Longrightarrow> List.find (\<lambda>x. key x = key r) xs = Some r"
  by (induction xs) (auto simp: image_iff)

lemma getTaskByID_found:
  assumes "db_faults (sv_db s) = []" "tasks_wf (db_tasks (sv_db s))" "r \<in> set (db_tasks (sv_db s))"
  shows "getTaskByID (t_task_id r) s = (Some (convertDBTask r), s)"
  using find_unique [of t_task_id "db_tasks (sv_db s)" r] assms
  by (simp add: getTaskByID_def queryGetTaskByID_def onStore_def tasks_wf_def)

lemma finish_active:
  assumes nf: "db_faults (sv_db s) = []" and r: "r \<in> set (db_tasks (sv_db s))" "\<not> isTaskTerminal (t_status r)"
    and tid: "t_task_id r \<noteq> []" "trimSpace (t_task_id r) = t_task_id r" and now: "\<not> isZeroTime at"
  shows "finishTask id (t_task_id r) st res ec em at s =
    (None, completeTaskRuntime (t_task_id r) (s\<lparr>sv_db := (sv_db s)\<lparr>db_tasks := updateWhere (taskActive (t_task_id r))
       (terminalUpdate \<lparr>p_status = st, p_result_json = res, p_error_code = trimSpace ec, p_error_message = trimSpace em,
          p_updated_at = unixMilli at, p_completed_at = unixMilli at, p_expires_at = unixMilli (at + sv_taskRetention s)\<rparr>)
       (db_tasks (sv_db s))\<rparr>\<rparr>))"
proof -
  have "countWhere (taskActive (t_task_id r)) (db_tasks (sv_db s)) \<noteq> 0"
    using r by (auto simp: countWhere_pos taskActive_iff)
  with nf tid now show ?thesis
    by (simp add: finishTask_def queryMarkTaskTerminal_def onStore_def Let_def)
qed

text \<open>Canceling an unfinished task of the caller, with nothing in between and a working database,
  answers the canceled task, writes exactly that row and drops the runtime record; a finished one is
  answered with \<open>ErrTaskTerminal\<close> and its snapshot, and nothing changes.\<close>

theorem cancel_owned:
  assumes "tasks_wf (db_tasks (sv_db s))" and "db_faults (sv_db s) = []" and "r \<in> set (db_tasks (sv_db s))"
    and "trimSpace tid = t_task_id r" and "t_task_id r \<noteq> []" and "t_owner_id r = normalizeTaskOwnerID ow"
    and "\<not> isZeroTime (sv_now s)"
  shows "if isTaskTerminal (t_status r)
    then cancelTask id tid ow s = (Inl (ErrTaskTerminal, Some (snapshotTask (convertDBTask r))), s)
    else fst (cancelTask id tid ow s) = Inr (snapshotTask (convertDBTask (canceledRow s r))) \<and>
      db_tasks (sv_db (snd (cancelTask id tid ow s))) =
        map (\<lambda>x. if x = r then canceledRow s r else x) (db_tasks (sv_db s)) \<and>
      map_of (sv_tasks (snd (cancelTask id tid ow s))) (t_task_id r) = None"
proof -
  let ?ts = "db_tasks (sv_db s)" and ?tid = "t_task_id r"
  let ?ts' = "updateWhere (taskActive ?tid) (canceledRow s) ?ts"
  let ?s' = "completeTaskRuntime ?tid (s\<lparr>sv_db := (sv_db s)\<lparr>db_tasks := ?ts'\<rparr>\<rparr>)"
  have trim: "trimSpace ?tid = ?tid" using assms(4) by (metis trimSpace_idem)
  note get = getTaskByID_found [OF assms(2,1,3)]
  have own: "dt_ownerID (convertDBTask r) = normalizeTaskOwnerID ow" "dt_status (convertDBTask r) = t_status r"
    using assms(6) by (simp_all add: convertDBTask_def)
  show ?thesis
  proof (cases "isTaskTerminal (t_status r)")
    case True
    with get own assms(4,5) show ?thesis by (simp add: cancelTask_def Let_def)
  next
    case False
    have canc: "trimSpace defaultTaskCanceledCode = defaultTaskCanceledCode" "trimSpace ''task canceled'' = ''task canceled''"
      by code_simp+
    have fin: "finishTask id ?tid Canceled emptyBytes defaultTaskCanceledCode ''task canceled'' (sv_now s) s = (None, ?s')"
      unfolding finish_active [OF assms(2,3) False assms(5) trim assms(7)] canceledRow_def canc by simp
    have "tasks_wf ?ts'"
      by (rule tasks_step_wf [OF _ assms(1)]) (simp add: canceledRow_def step_terminal)
    moreover have r': "canceledRow s r \<in> set ?ts'"
      using assms(3) False by (auto simp: in_updateWhere taskActive_iff)
    moreover have key: "t_task_id (canceledRow s r) = ?tid" by (simp add: canceledRow_def)
    ultimately have "getTaskByID ?tid ?s' = (Some (convertDBTask (canceledRow s r)), ?s')"
      using getTaskByID_found [of ?s' "canceledRow s r"] assms(2) by simp
    then have can: "cancelTask id tid ow s = (Inr (snapshotTask (convertDBTask (canceledRow s r))), ?s')"
      using get own assms(4,5) False fin by (simp add: cancelTask_def Let_def)
    have "taskActive ?tid x \<longleftrightarrow> x = r" if "x \<in> set ?ts" for x
      using that assms(1,3) False by (auto simp: taskActive_iff tasks_wf_def dest: distinct_key_unique)
    then have "?ts' = map (\<lambda>x. if x = r then canceledRow s r else x) ?ts"
      unfolding updateWhere_def by (intro map_cong) auto
    with can complete_wakes(1) [of ?tid] False show ?thesis by simp
  qed
qed

theorem cancel_owned_witness:
  "fst (cancelTask id '' t1 '' ''alice'' demoTasks) =
     Inr (snapshotTask (convertDBTask (canceledRow demoTasks demoTaskRow)))"
proof -
  have "tasks_wf (db_tasks (sv_db demoTasks))"
    by (simp add: demoTasks_def demoTaskRow_def tasks_wf_def requestsUnique_def unfinishedClean_def)
  moreover have "db_faults (sv_db demoTasks) = []" "demoTaskRow \<in> set (db_tasks (sv_db demoTasks))"
    by (simp_all add: demoTasks_def demoDB_def emptyDB_def)
  moreover have "trimSpace '' t1 '' = t_task_id demoTaskRow" "t_task_id demoTaskRow \<noteq> []"
    "t_owner_id demoTaskRow = normalizeTaskOwnerID ''alice''" "\<not> isZeroTime (sv_now demoTasks)"
    "\<not> isTaskTerminal (t_status demoTaskRow)"
    by code_simp+
  ultimately show ?thesis using cancel_owned [of demoTasks demoTaskRow "'' t1 ''" "''alice''"] by simp
qed


text \<open>Reservations of request ids.\<close>

lemma view_reservations: "taskView t = taskView s \<Longrightarrow> sv_reservations t = sv_reservations s"
  by (simp add: taskView_def)

lemma kept_resolve:
  assumes P: "kept P (we_step we)" and s: "P s" and r: "resolveSubmitTaskResult we t a m w s = Some (x, s')"
  shows "P s'"
proof -
  have snap: "snapshotNow t u = (y, u') \<Longrightarrow> P u \<Longrightarrow> P u'" for y u u'
    by (rule keptD(1) [OF P], assumption)
      (auto simp: snapshotNow_def Let_def split: prod.splits option.splits dest: get_view(1))
  show ?thesis
    using r s by (auto simp: resolveSubmitTaskResult_def waitDone_def Let_def
        split: if_splits prod.splits sum.splits option.splits dest!: snap intro: keptD(2) [OF P])
qed

lemma resolve_reservations:
  assumes we: "\<forall>s. sv_reservations (we_step we s) = sv_reservations s"
    and r: "resolveSubmitTaskResult we t a m w s = Some (x, s')"
  shows "sv_reservations s' = sv_reservations s"
  by (rule kept_resolve [of "\<lambda>u. sv_reservations u = sv_reservations s", OF _ refl r])
    (use we in \<open>simp add: kept_def taskView_def\<close>)

lemma release_reservations:
  assumes "vr_requestID v = [] \<and> sv_reservations s = R \<or> vr_requestID v \<noteq> [] \<and>
     sv_reservations s = taskRequestScopeKey (vr_ownerID v) (vr_requestID v) # R \<and>
     taskRequestScopeKey (vr_ownerID v) (vr_requestID v) \<notin> set R"
  shows "sv_reservations (releaseReservation v s) = R"
  using assms by (auto simp: releaseReservation_def filter_id_conv)

lemma create_reservations:
  assumes c: "createTask env v s = Some (a, s')"
    and su: "\<forall>s. sv_reservations (su_step env s) = sv_reservations s"
    and we: "\<forall>s. sv_reservations (we_step (su_wait env) s) = sv_reservations s"
    and R: "vr_requestID v = [] \<and> sv_reservations s = R \<or> vr_requestID v \<noteq> [] \<and>
     sv_reservations s = taskRequestScopeKey (vr_ownerID v) (vr_requestID v) # R \<and>
     taskRequestScopeKey (vr_ownerID v) (vr_requestID v) \<notin> set R"
  shows "sv_reservations s' = R"
proof -
  have k: "kept (\<lambda>t. sv_reservations t = sv_reservations s) (su_step env)"
    using su by (simp add: kept_def taskView_def)
  from c show ?thesis
  proof (cases rule: createTask_cases)
    case (refused e s0)
    from refused(3) [OF k refl] R show ?thesis unfolding refused(2) by (intro release_reservations) simp
  next
    case (existing ex s0 s1)
    from existing(4) [OF k refl] su view_reservations [OF get_view(2) [OF existing(2)]]
    have "sv_reservations s1 = sv_reservations s" by simp
    with existing(3) R resolve_reservations [OF we] show ?thesis
      by (auto simp: resolveExisting_def intro!: release_reservations)
  next
    case (created tid s0 s1 r)
    have "sv_reservations s1 = sv_reservations s"
      using created(5) [OF k refl] created(2) by (auto simp: onStore_def split: prod.splits)
    with R su have "sv_reservations (afterInsert env v tid s1) = R"
      by (auto simp: afterInsert_def Let_def setTaskRuntime_def intro!: release_reservations)
    with resolve_reservations [OF we created(3)] show ?thesis by simp
  qed
qed

lemma prune_reservations: "sv_reservations (maybePruneExpiredTasks n s) = sv_reservations s"
  by (auto simp: maybePruneExpiredTasks_def pruneExpiredTasks_def Let_def onStore_def split: prod.split sum.split)

text \<open>A submission leaves no reservation behind on any of its ways out, whichever query fails, and
  while a request id of an owner is reserved another submission with it is refused as in progress.\<close>

theorem reservation_released:
  assumes "\<forall>s. sv_reservations (su_step env s) = sv_reservations s"
    and "\<forall>s. sv_reservations (we_step (su_wait env) s) = sv_reservations s"
    and "submitTask env req s = Some ((r, l), s')"
  shows "sv_reservations s' = sv_reservations s \<and>
    (\<forall>v. validateSubmit (su_sessionID env) req = Inr v \<longrightarrow> vr_requestID v \<noteq> [] \<longrightarrow>
       taskRequestScopeKey (vr_ownerID v) (vr_requestID v) \<in> set (sv_reservations s) \<longrightarrow>
       r = Inl ErrTaskRequestInProgress \<and> l = None)"
  using assms(3)
proof (cases rule: submitTask_cases)
  case (known v ex s1)
  let ?k = "taskRequestScopeKey (vr_ownerID v) (vr_requestID v)"
  have "sv_reservations s1 = ?k # sv_reservations s"
    using assms(1) view_reservations [OF get_view(2) [OF known(4)]] by (simp add: prune_reservations)
  with known resolve_reservations [OF assms(2)] have "sv_reservations s' = sv_reservations s"
    by (auto simp: resolveExisting_def prune_reservations intro!: release_reservations)
  with known(1,3) show ?thesis by (simp add: prune_reservations)
next
  case (fresh v s1)
  let ?k = "taskRequestScopeKey (vr_ownerID v) (vr_requestID v)"
  have "sv_reservations s1 = ?k # sv_reservations s"
    using assms(1) view_reservations [OF get_view(2) [OF fresh(4)]] by (simp add: prune_reservations)
  with fresh(2,3) have "sv_reservations s' = sv_reservations s"
    by (intro create_reservations [OF fresh(5) assms(1,2)]) (simp add: prune_reservations)
  with fresh(1,3) show ?thesis by (simp add: prune_reservations)
next
  case (anonymous v)
  have "sv_reservations s' = sv_reservations s"
    by (rule create_reservations [OF anonymous(3) assms(1,2)]) (simp add: anonymous(2) prune_reservations)
  with anonymous(1,2) show ?thesis by simp
qed (simp_all add: prune_reservations)

theorem reservation_released_witness:
  "case submitTask demoSubmitEnv demoRequest
     (demoTasks\<lparr>sv_reservations := [taskRequestScopeKey ''alice'' ''r2'']\<rparr>) of
     None \<Rightarrow> False | Some ((r, l), s') \<Rightarrow> r = Inl ErrTaskRequestInProgress \<and> l = None"
proof -
  let ?s = "demoTasks\<lparr>sv_reservations := [taskRequestScopeKey ''alice'' ''r2'']\<rparr>"
  let ?v = "\<lparr>vr_capability = ''echo'', vr_ownerID = ''alice'', vr_mode = TaskModeAsync,
     vr_inputJSON = buildEchoPayload ''hi'', vr_timeout = defaultTaskTimeout, vr_wait = defaultTaskWait, vr_requestID = ''r2''\<rparr>"
  have "\<not> Option.is_none (submitTask demoSubmitEnv demoRequest ?s)" by code_simp
  then obtain r l s' where x: "submitTask demoSubmitEnv demoRequest ?s = Some ((r, l), s')"
    by (auto simp: Option.is_none_def)
  have "validateSubmit (su_sessionID demoSubmitEnv) demoRequest = Inr ?v" by code_simp
  moreover have "su_step demoSubmitEnv = id" "we_step (su_wait demoSubmitEnv) = id" by (simp_all add: demoSubmitEnv_def)
  ultimately have "r = Inl ErrTaskRequestInProgress \<and> l = None"
    using reservation_released [of demoSubmitEnv demoRequest ?s r l s'] x by simp
  with x show ?thesis by simp
qed


text \<open>The expiry of a result is computed from the clock of the worker: when the worker's completion time
  plus the retention is not after the console's now, the succeeded row is deleted by the next pruning, and
  its owner never sees the result.\<close>

theorem expiry_by_worker_clock:
  assumes "tasks_wf (db_tasks (sv_db s))" and "db_faults (sv_db s) = []" and "r \<in> set (db_tasks (sv_db s))"
    and "\<not> isTaskTerminal (t_status r)" and "t_task_id r \<noteq> []" and "trimSpace (t_task_id r) = t_task_id r"
    and "co_err out = None" and "restoreTaskResultOwnerScope ow c (resultPayloadOf out) \<noteq> None"
    and "\<not> isZeroTime (co_completedAt out)" and "0 < unixMilli (co_completedAt out + sv_taskRetention s)"
    and "co_completedAt out + sv_taskRetention s \<le> now"
  shows "let s1 = finishOutcome id (t_task_id r) ow c (Inr out) s
    in (\<exists>x \<in> set (db_tasks (sv_db s1)). t_task_id x = t_task_id r \<and> t_status x = Succeeded) \<and>
       (\<forall>x \<in> set (db_tasks (sv_db (snd (pruneExpiredTasks now s1)))). t_task_id x \<noteq> t_task_id r)"
proof -
  let ?at = "co_completedAt out" and ?tid = "t_task_id r"
  obtain p where p: "restoreTaskResultOwnerScope ow c (resultPayloadOf out) = Some p" using assms(8) by blast
  let ?u = "terminalUpdate \<lparr>p_status = Succeeded, p_result_json = p, p_error_code = [], p_error_message = [],
     p_updated_at = unixMilli ?at, p_completed_at = unixMilli ?at, p_expires_at = unixMilli (?at + sv_taskRetention s)\<rparr>"
  let ?ts = "updateWhere (taskActive ?tid) ?u (db_tasks (sv_db s))"
  let ?s1 = "completeTaskRuntime ?tid (s\<lparr>sv_db := (sv_db s)\<lparr>db_tasks := ?ts\<rparr>\<rparr>)"
  have s1: "finishOutcome id ?tid ow c (Inr out) s = ?s1"
    using finish_active [OF assms(2,3,4,5,6,9), of Succeeded p "[]" "[]"] assms(7,9) p
    by (simp add: finishOutcome_def settleTask_def)
  have "unixMilli (?at + sv_taskRetention s) \<le> unixMilli now"
    using assms(11) by (simp add: unixMilli_mono)
  then have exp: "taskExpired (unixMilli now) (?u x)" for x
    using assms(10) by (simp add: taskExpired_def terminalUpdate_def)
  have only: "x = ?u r" if x: "x \<in> set ?ts" "t_task_id x = ?tid" for x
  proof -
    obtain y where y: "y \<in> set (db_tasks (sv_db s))" "x = (if taskActive ?tid y then ?u y else y)"
      using x(1) by (auto simp: in_updateWhere)
    then have "t_task_id y = ?tid" using x(2) by (auto split: if_splits)
    then have "y = r" using assms(1,3) y(1) by (auto simp: tasks_wf_def dest: distinct_key_unique)
    with y(2) assms(4) show ?thesis by (simp add: taskActive_iff)
  qed
  have mem: "?u r \<in> set ?ts" using assms(3,4) by (auto simp: in_updateWhere taskActive_iff)
  have gone: "\<forall>x \<in> set (deleteRows (taskExpired (unixMilli now)) ?ts). t_task_id x \<noteq> ?tid"
  proof
    fix x assume "x \<in> set (deleteRows (taskExpired (unixMilli now)) ?ts)"
    then have x: "x \<in> set ?ts" "\<not> taskExpired (unixMilli now) x" by simp_all
    show "t_task_id x \<noteq> ?tid" using only [OF x(1)] x(2) exp [of r] by metis
  qed
  have prune: "db_tasks (sv_db (snd (pruneExpiredTasks now ?s1))) = deleteRows (taskExpired (unixMilli now)) ?ts"
    using assms(2) by (simp add: pruneExpiredTasks_def queryDeleteExpiredTerminalTasks_def onStore_def)
  have db: "db_tasks (sv_db ?s1) = ?ts" by simp
  show ?thesis unfolding s1 Let_def db prune
    by (intro conjI gone bexI [OF _ mem]) simp_all
qed

definition demoOutcome :: commandOutcome where
  "demoOutcome = \<lparr>co_payloadJSON = buildEchoPayload ''hi'', co_message = ''hi'', co_err = None, co_completedAt = timeOfMilli 1\<rparr>"

theorem expiry_by_worker_clock_witness:
  "''t1'' \<notin> taskIDs (db_tasks (sv_db (snd (pruneExpiredTasks (timeOfMilli 1700000000000)
     (finishOutcome id ''t1'' ''alice'' ''echo'' (Inr demoOutcome) demoTasks)))))"
proof -
  have "tasks_wf (db_tasks (sv_db demoTasks))"
    by (simp add: demoTasks_def demoTaskRow_def tasks_wf_def requestsUnique_def unfinishedClean_def)
  moreover have "db_faults (sv_db demoTasks) = []" "demoTaskRow \<in> set (db_tasks (sv_db demoTasks))"
    by (simp_all add: demoTasks_def demoDB_def emptyDB_def)
  moreover have "\<not> isTaskTerminal (t_status demoTaskRow)" "t_task_id demoTaskRow \<noteq> []"
    "trimSpace (t_task_id demoTaskRow) = t_task_id demoTaskRow" "co_err demoOutcome = None"
    "\<not> isZeroTime (co_completedAt demoOutcome)"
    "0 < unixMilli (co_completedAt demoOutcome + sv_taskRetention demoTasks)"
    "co_completedAt demoOutcome + sv_taskRetention demoTasks \<le> timeOfMilli 1700000000000"
    by code_simp+
  moreover have "\<not> Option.is_none (restoreTaskResultOwnerScope ''alice'' ''echo'' (resultPayloadOf demoOutcome))"
    by code_simp
  then have "restoreTaskResultOwnerScope ''alice'' ''echo'' (resultPayloadOf demoOutcome) \<noteq> None"
    by (auto simp: Option.is_none_def)
  moreover have "t_task_id demoTaskRow = ''t1''" by code_simp
  ultimately show ?thesis
    using expiry_by_worker_clock [of demoTasks demoTaskRow demoOutcome "''alice''" "''echo''" "timeOfMilli 1700000000000"]
    by (auto simp: Let_def taskIDs_def)
qed

end
