(* ===== verification/Credentials.thy ===== *)
theory Credentials
  imports Prelude
begin

text \<open>
  Random identifiers and secrets: \<open>console/internal/grpcserver/credentials.go\<close>,
  \<open>randomHex\<close> of \<open>console/internal/httpapi/console_auth_account.go\<close> and \<open>randomHexString\<close>,
  \<open>generateTrustedToken\<close> and \<open>generateTokenID\<close> of \<open>mcp_auth.go\<close>. The bytes \<open>crypto/rand\<close>
  delivers, or its failure, are an argument. Writing the credentials file is I/O.
\<close>

unbundle bit_operations_syntax

type_synonym byte = "8 word"

section \<open>Hexadecimal\<close>

definition hextable :: string where "hextable = ''0123456789abcdef''"

definition hexByte :: "byte \<Rightarrow> string" where
  "hexByte v = [hextable ! unat (drop_bit 4 v), hextable ! unat (v AND 0x0f)]"

definition hexEncode :: "byte list \<Rightarrow> string" where
  "hexEncode raw = concat (map hexByte raw)"

text \<open>\<open>binary.BigEndian\<close>, and \<open>%0wx\<close> of a number that has at most \<open>w\<close> hexadecimal digits.\<close>

definition bigEndian :: "byte list \<Rightarrow> nat" where
  "bigEndian bs = foldl (\<lambda>n b. n * 256 + unat b) 0 bs"

primrec fmtHex :: "nat \<Rightarrow> nat \<Rightarrow> string" where
  "fmtHex 0 n = []"
| "fmtHex (Suc w) n = fmtHex w (n div 16) @ [hextable ! (n mod 16)]"

section \<open>Identifiers and secrets\<close>

type_synonym random = "go_error + byte list"

definition uuidBytes :: "byte list \<Rightarrow> byte list" where
  "uuidBytes raw =
     (let raw = raw[6 := (raw ! 6 AND 0x0f) OR 0x40]
      in raw[8 := (raw ! 8 AND 0x3f) OR 0x80])"

definition formatUUID :: "byte list \<Rightarrow> string" where
  "formatUUID raw =
     fmtHex 8 (bigEndian (take 4 raw)) @ ''-'' @
     fmtHex 4 (bigEndian (take 2 (drop 4 raw))) @ ''-'' @
     fmtHex 4 (bigEndian (take 2 (drop 6 raw))) @ ''-'' @
     fmtHex 4 (bigEndian (take 2 (drop 8 raw))) @ ''-'' @
     hexEncode (drop 10 raw)"

definition generateUUIDv4 :: "random \<Rightarrow> go_error + string" where
  "generateUUIDv4 rnd = (case rnd of Inl e \<Rightarrow> Inl e | Inr raw \<Rightarrow> Inr (formatUUID (uuidBytes raw)))"

definition generateSecretHex :: "int \<Rightarrow> random \<Rightarrow> go_error + string" where
  "generateSecretHex len rnd =
     (if len \<le> 0 then Inl (OtherError ''length must be positive'')
      else case rnd of Inl e \<Rightarrow> Inl e | Inr raw \<Rightarrow> Inr (hexEncode raw))"

record workerCredential =
  wc_workerID :: string
  wc_workerSecret :: string

text \<open>The loop of \<open>GenerateWorkerCredentials\<close>; each round draws an id and a secret.\<close>

primrec credentialLoop ::
  "(random \<times> random) list \<Rightarrow> workerCredential list \<Rightarrow> (string \<times> string) list \<Rightarrow>
   go_error + workerCredential list \<times> (string \<times> string) list" where
  "credentialLoop [] credentials secretByWorkerID = Inr (credentials, secretByWorkerID)"
| "credentialLoop (r # rest) credentials secretByWorkerID =
     (case generateUUIDv4 (fst r) of
        Inl e \<Rightarrow> Inl e
      | Inr workerID \<Rightarrow>
          (case generateSecretHex 32 (snd r) of
             Inl e \<Rightarrow> Inl e
           | Inr workerSecret \<Rightarrow>
               credentialLoop rest
                 (credentials @ [\<lparr>wc_workerID = workerID, wc_workerSecret = workerSecret\<rparr>])
                 (AList.update workerID workerSecret secretByWorkerID)))"

definition generateWorkerCredentials ::
  "int \<Rightarrow> (random \<times> random) list \<Rightarrow> go_error + workerCredential list \<times> (string \<times> string) list" where
  "generateWorkerCredentials count rnd =
     (if count \<le> 0 then Inl (OtherError ''worker credential count must be positive'')
      else credentialLoop (take (nat count) rnd) [] [])"

definition randomHex :: "int \<Rightarrow> random \<Rightarrow> go_error + string" where
  "randomHex byteSize rnd =
     (if byteSize \<le> 0 then Inl (OtherError ''byteSize must be positive'')
      else case rnd of Inl e \<Rightarrow> Inl e | Inr raw \<Rightarrow> Inr (hexEncode raw))"

definition accountIDPrefix :: string where "accountIDPrefix = ''acc_''"
definition accountIDRandomByteSize :: int where "accountIDRandomByteSize = 16"
definition generatedTokenPrefix :: string where "generatedTokenPrefix = ''obx_''"
definition generatedTokenByteLength :: int where "generatedTokenByteLength = 32"
definition tokenIDPrefix :: string where "tokenIDPrefix = ''tok_''"
definition tokenIDByteLength :: int where "tokenIDByteLength = 16"

definition generateAccountID :: "random \<Rightarrow> go_error + string" where
  "generateAccountID rnd =
     (case randomHex accountIDRandomByteSize rnd of Inl e \<Rightarrow> Inl e | Inr p \<Rightarrow> Inr (accountIDPrefix @ p))"

definition randomHexString :: "int \<Rightarrow> random \<Rightarrow> go_error + string" where
  "randomHexString n rnd =
     (if n \<le> 0 then Inl (OtherError ''size must be positive'')
      else case rnd of Inl e \<Rightarrow> Inl e | Inr raw \<Rightarrow> Inr (hexEncode raw))"

definition generateTrustedToken :: "random \<Rightarrow> go_error + string" where
  "generateTrustedToken rnd =
     (case randomHexString generatedTokenByteLength rnd of
        Inl e \<Rightarrow> Inl e | Inr value \<Rightarrow> Inr (generatedTokenPrefix @ value))"

definition generateTokenID :: "random \<Rightarrow> go_error + string" where
  "generateTokenID rnd =
     (case randomHexString tokenIDByteLength rnd of
        Inl e \<Rightarrow> Inl e | Inr value \<Rightarrow> Inr (tokenIDPrefix @ value))"

section \<open>Hexadecimal loses nothing\<close>

lemma nibbles: "unat (drop_bit 4 (v :: byte)) = unat v div 16" "unat (v AND 0x0f) = unat v mod 16"
proof -
  show "unat (drop_bit 4 v) = unat v div 16" by (simp only: unat_drop_bit_eq) (simp add: drop_bit_eq_div)
  have "v AND 0x0f = take_bit 4 v" by (simp add: take_bit_eq_mask mask_eq_exp_minus_1)
  then show "unat (v AND 0x0f) = unat v mod 16" by (simp only: unsigned_take_bit_eq) (simp add: take_bit_eq_mod)
qed

lemma hextable_inj: "i < 16 \<Longrightarrow> j < 16 \<Longrightarrow> hextable ! i = hextable ! j \<Longrightarrow> i = j"
proof -
  have "distinct hextable" "length hextable = 16" by code_simp+
  then show "i < 16 \<Longrightarrow> j < 16 \<Longrightarrow> hextable ! i = hextable ! j \<Longrightarrow> i = j" by (simp add: nth_eq_iff_index_eq)
qed

lemma unat_byte: "unat (v :: byte) < 256"
  using unsigned_less [of v] by simp

lemma hexByte_inj: "hexByte u = hexByte v \<Longrightarrow> u = v"
proof -
  assume "hexByte u = hexByte v"
  then have "unat u div 16 = unat v div 16" "unat u mod 16 = unat v mod 16"
    using unat_byte [of u] unat_byte [of v] by (auto simp: hexByte_def nibbles intro!: hextable_inj)
  then have "unat u = unat v" by (metis div_mod_decomp)
  then show "u = v" by (simp add: word_unat_eq_iff)
qed

lemma length_hexByte [simp]: "length (hexByte v) = 2"
  by (simp add: hexByte_def)

lemma length_hexEncode [simp]: "length (hexEncode bs) = 2 * length bs"
  by (induction bs) (simp_all add: hexEncode_def)

lemma hexEncode_simps [simp]: "hexEncode [] = []" "hexEncode (b # bs) = hexByte b @ hexEncode bs"
  "hexEncode (as @ bs) = hexEncode as @ hexEncode bs"
  by (simp_all add: hexEncode_def)

lemma hexEncode_inj: "hexEncode as = hexEncode bs \<Longrightarrow> as = bs"
proof (induction as arbitrary: bs)
  case Nil
  then show ?case by (cases bs) (simp_all add: hexByte_def)
next
  case (Cons a as)
  then obtain b bs' where bs: "bs = b # bs'" by (cases bs) (simp_all add: hexByte_def)
  with Cons.prems have "hexByte a = hexByte b" "hexEncode as = hexEncode bs'" by auto
  with Cons.IH bs hexByte_inj show ?case by simp
qed

lemma bigEndian_snoc [simp]: "bigEndian (bs @ [b]) = bigEndian bs * 256 + unat b"
  by (simp add: bigEndian_def)

lemma fmtHex_bigEndian: "w = 2 * length bs \<Longrightarrow> fmtHex w (bigEndian bs) = hexEncode bs"
proof (induction bs arbitrary: w rule: rev_induct)
  case (snoc b bs)
  have "bigEndian bs * 256 + unat b = (bigEndian bs * 16) * 16 + unat b" by simp
  then have d: "(bigEndian bs * 256 + unat b) div 16 = bigEndian bs * 16 + unat b div 16"
    "(bigEndian bs * 256 + unat b) mod 16 = unat b mod 16"
    by (simp_all only: div_mult_self3 mod_mult_self3 zero_neq_numeral)
  have "unat b div 16 < 16" using unat_byte [of b] by simp
  then have h: "(bigEndian bs * 16 + unat b div 16) div 16 = bigEndian bs"
    "(bigEndian bs * 16 + unat b div 16) mod 16 = unat b div 16" by simp_all
  obtain w' where w: "w = Suc (Suc w')" "w' = 2 * length bs" using snoc.prems by (cases w; cases "w - 1") auto
  show ?case unfolding w(1) bigEndian_snoc fmtHex.simps d h snoc.IH [OF w(2)]
    by (simp add: hexByte_def nibbles)
qed (simp add: bigEndian_def)

lemma length_uuidBytes [simp]: "length (uuidBytes raw) = length raw"
  by (simp add: uuidBytes_def Let_def)

lemma formatUUID_hex:
  assumes "length raw = 16"
  shows "formatUUID raw = hexEncode (take 4 raw) @ ''-'' @ hexEncode (take 2 (drop 4 raw)) @ ''-'' @
    hexEncode (take 2 (drop 6 raw)) @ ''-'' @ hexEncode (take 2 (drop 8 raw)) @ ''-'' @ hexEncode (drop 10 raw)"
  using assms by (simp add: formatUUID_def fmtHex_bigEndian)


lemma formatUUID_inj:
  assumes "length a = 16" "length b = 16" "formatUUID a = formatUUID b"
  shows "a = b"
proof -
  have "take 4 a = take 4 b" "take 2 (drop 4 a) = take 2 (drop 4 b)" "take 2 (drop 6 a) = take 2 (drop 6 b)"
    "take 2 (drop 8 a) = take 2 (drop 8 b)" "drop 10 a = drop 10 b"
    using assms by (auto simp: formatUUID_hex intro!: hexEncode_inj)
  moreover have "xs = take 4 xs @ take 2 (drop 4 xs) @ take 2 (drop 6 xs) @ take 2 (drop 8 xs) @ drop 10 xs"
    for xs :: "byte list"
    using append_take_drop_id [of 4 xs] append_take_drop_id [of 2 "drop 4 xs"] append_take_drop_id [of 2 "drop 6 xs"]
      append_take_drop_id [of 2 "drop 8 xs"] by simp
  ultimately show ?thesis by metis
qed

text \<open>A fact about bytes holds if it holds for the 256 of them.\<close>

lemma byte_cases: "(\<forall>n \<in> set [0..<256]. P (word_of_nat n :: byte)) \<Longrightarrow> P v"
proof -
  assume "\<forall>n \<in> set [0..<256]. P (word_of_nat n :: byte)"
  moreover have "unat v \<in> set [0..<256]" using unat_byte [of v] by simp
  ultimately have "P (word_of_nat (unat v))" by (rule bspec)
  then show "P v" by simp
qed

definition versionByte :: "byte \<Rightarrow> byte" where "versionByte v = (v AND 0x0f) OR 0x40"
definition variantByte :: "byte \<Rightarrow> byte" where "variantByte v = (v AND 0x3f) OR 0x80"

lemma version_byte: "versionByte v AND 0x0f = v AND 0x0f" "hexByte (versionByte v) ! 0 = CHR ''4''"
  by (simp add: versionByte_def bit.conj_disj_distrib2 and.assoc, rule byte_cases [of _ v], code_simp)

lemma variant_byte: "variantByte v AND 0x3f = v AND 0x3f" "hexByte (variantByte v) ! 0 \<in> set ''89ab''"
  by (simp add: variantByte_def bit.conj_disj_distrib2 and.assoc, rule byte_cases [of _ v], code_simp)

lemma uuidBytes_nth:
  assumes "length raw = 16" "k < 16"
  shows "uuidBytes raw ! k = (if k = 6 then versionByte (raw ! 6) else if k = 8 then variantByte (raw ! 8) else raw ! k)"
  using assms by (simp add: uuidBytes_def Let_def versionByte_def variantByte_def nth_list_update)

lemma uuidBytes_eq:
  assumes "length raw = 16" "length raw' = 16"
  shows "uuidBytes raw = uuidBytes raw' \<longleftrightarrow> (\<forall>k < 16. if k = 6 then raw ! k AND 0x0f = raw' ! k AND 0x0f
       else if k = 8 then raw ! k AND 0x3f = raw' ! k AND 0x3f else raw ! k = raw' ! k)"
proof -
  have "versionByte u = versionByte v \<longleftrightarrow> u AND 0x0f = v AND 0x0f" for u v
    by (metis version_byte(1) versionByte_def)
  moreover have "variantByte u = variantByte v \<longleftrightarrow> u AND 0x3f = v AND 0x3f" for u v
    by (metis variant_byte(1) variantByte_def)
  ultimately show ?thesis using assms
    by (simp add: list_eq_iff_nth_eq uuidBytes_nth)
qed

text \<open>Worker ids are well-formed version 4 UUIDs of 36 characters, and two of them are equal only if the
  random bytes agreed in all of the 122 bits that the version and the variant leave.\<close>

theorem uuid_format:
  assumes "length raw = 16" and "length raw' = 16"
    and "generateUUIDv4 (Inr raw) = Inr uuid" and "generateUUIDv4 (Inr raw') = Inr uuid'"
  shows "length uuid = 36 \<and> uuid ! 14 = CHR ''4'' \<and> uuid ! 19 \<in> set ''89ab'' \<and>
    (uuid = uuid' \<longleftrightarrow> (\<forall>k < 16. if k = 6 then raw ! k AND 0x0f = raw' ! k AND 0x0f
       else if k = 8 then raw ! k AND 0x3f = raw' ! k AND 0x3f else raw ! k = raw' ! k))"
proof -
  have u: "uuid = formatUUID (uuidBytes raw)" "uuid' = formatUUID (uuidBytes raw')"
    using assms(3,4) by (simp_all add: generateUUIDv4_def)
  note hex = formatUUID_hex [of "uuidBytes raw", unfolded length_uuidBytes, OF assms(1)]
  have d: "take 2 (drop 6 (uuidBytes raw)) = [versionByte (raw ! 6), raw ! 7]"
    "take 2 (drop 8 (uuidBytes raw)) = [variantByte (raw ! 8), raw ! 9]"
    using assms(1) by (auto simp: list_eq_iff_nth_eq uuidBytes_nth less_Suc_eq numeral_2_eq_2 nth_Cons')
  have "length uuid = 36" using assms(1) by (simp add: u hex)
  moreover have "uuid ! 14 = hexByte (versionByte (raw ! 6)) ! 0" "uuid ! 19 = hexByte (variantByte (raw ! 8)) ! 0"
    using assms(1) by (simp_all add: u hex d nth_append nth_Cons')
  moreover have "uuid = uuid' \<longleftrightarrow> uuidBytes raw = uuidBytes raw'"
    unfolding u using formatUUID_inj assms(1,2) by (metis length_uuidBytes)
  ultimately show ?thesis
    using uuidBytes_eq [OF assms(1,2)] version_byte(2) variant_byte(2) by metis
qed

definition demoRaw :: "byte list" where
  "demoRaw = [0, 1, 2, 3, 4, 5, 6, 7, 8, 9, 10, 11, 12, 13, 14, 15]"

lemma demoRaw_uuid: "generateUUIDv4 (Inr demoRaw) = Inr ''00010203-0405-4607-8809-0a0b0c0d0e0f''"
proof -
  have "uuidBytes demoRaw = demoRaw[6 := 0x46, 8 := 0x88]" by (simp add: uuidBytes_def demoRaw_def)
  then show ?thesis
    by (simp add: generateUUIDv4_def formatUUID_hex demoRaw_def) (simp add: hexByte_def hextable_def nibbles)
qed

theorem uuid_format_witness:
  "\<exists>u. generateUUIDv4 (Inr (rev demoRaw)) = Inr u \<and> u \<noteq> ''00010203-0405-4607-8809-0a0b0c0d0e0f'' \<and>
     u ! 14 = CHR ''4''"
proof -
  obtain u where b: "generateUUIDv4 (Inr (rev demoRaw)) = Inr u" by (simp add: generateUUIDv4_def)
  have "length (rev demoRaw) = 16" "length demoRaw = 16" by (simp_all add: demoRaw_def)
  from uuid_format [OF this b demoRaw_uuid]
  have u: "u ! 14 = CHR ''4''" "u = ''00010203-0405-4607-8809-0a0b0c0d0e0f'' \<longrightarrow> rev demoRaw ! 0 = demoRaw ! 0"
    by simp_all
  moreover have "rev demoRaw ! 0 \<noteq> demoRaw ! 0" by (simp add: demoRaw_def)
  ultimately show ?thesis using b by blast
qed

section \<open>Hexadecimal text has no white space\<close>

definition wordChar :: "char \<Rightarrow> bool" where
  "wordChar c \<longleftrightarrow> c \<in> set (hextable @ ''obxtkacc_'')"

lemma wordChar_plain: "wordChar c \<Longrightarrow> plain_byte c"
proof -
  have "\<forall>c \<in> set (hextable @ ''obxtkacc_''). \<forall>p \<in> set ws_runes. c \<notin> set p" by code_simp
  then show "wordChar c \<Longrightarrow> plain_byte c" unfolding wordChar_def plain_byte_def by (rule bspec)
qed

lemma wordChar_ascii: "wordChar c \<Longrightarrow> of_char c < (128 :: nat)"
proof -
  have "\<forall>c \<in> set (hextable @ ''obxtkacc_''). of_char c < (128 :: nat)" by code_simp
  then show "wordChar c \<Longrightarrow> of_char c < (128 :: nat)" unfolding wordChar_def by (rule bspec)
qed

lemma hex_wordChar: "c \<in> set (hexEncode bs) \<Longrightarrow> wordChar c"
proof -
  have "c \<in> set hextable" if "c \<in> set (hexByte v)" for v :: byte
  proof -
    have "unat v div 16 < length hextable" "unat v mod 16 < length hextable"
      using unat_byte [of v] by (simp_all add: hextable_def)
    then show ?thesis using that by (auto simp: hexByte_def nibbles)
  qed
  then show "c \<in> set (hexEncode bs) \<Longrightarrow> wordChar c" by (auto simp: hexEncode_def wordChar_def)
qed

lemma word_trimmed: "\<forall>c \<in> set s. wordChar c \<Longrightarrow> trimSpace s = s"
  using trimmed_plain_ends [of s] wordChar_plain by (cases "s = []") (auto intro: trimmed_id)

lemma trimSpace_hex: "trimSpace (hexEncode bs) = hexEncode bs"
  by (rule word_trimmed) (use hex_wordChar in blast)

lemma hexEncode_Nil: "hexEncode bs = [] \<longleftrightarrow> bs = []"
  by (metis hexEncode_simps(1) hexEncode_inj)

end
