(* ===== verification/Utf8.thy ===== *)
theory Utf8
  imports Prelude
begin

text \<open>
  Go strings rune by rune: \<open>utf8.DecodeRuneInString\<close>'s width (a byte that starts no valid encoding is a
  rune of its own), \<open>utf8.RuneCountInString\<close>, \<open>range\<close> over a string, and \<open>strings.Fields\<close>.
\<close>

definition byteIn :: "nat \<Rightarrow> nat \<Rightarrow> char \<Rightarrow> bool" where
  "byteIn lo hi c \<longleftrightarrow> lo \<le> of_char c \<and> of_char c \<le> hi"

fun runeWidth :: "string \<Rightarrow> nat" where
  "runeWidth (a # b # c # d # s) =
     (if byteIn 0xC2 0xDF a \<and> byteIn 0x80 0xBF b then 2
      else if byteIn 0x80 0xBF c \<and>
        (byteIn 0xE0 0xE0 a \<and> byteIn 0xA0 0xBF b \<or> byteIn 0xE1 0xEC a \<and> byteIn 0x80 0xBF b \<or>
         byteIn 0xED 0xED a \<and> byteIn 0x80 0x9F b \<or> byteIn 0xEE 0xEF a \<and> byteIn 0x80 0xBF b) then 3
      else if byteIn 0x80 0xBF c \<and> byteIn 0x80 0xBF d \<and>
        (byteIn 0xF0 0xF0 a \<and> byteIn 0x90 0xBF b \<or> byteIn 0xF1 0xF3 a \<and> byteIn 0x80 0xBF b \<or>
         byteIn 0xF4 0xF4 a \<and> byteIn 0x80 0x8F b) then 4
      else 1)"
| "runeWidth [a, b, c] =
     (if byteIn 0xC2 0xDF a \<and> byteIn 0x80 0xBF b then 2
      else if byteIn 0x80 0xBF c \<and>
        (byteIn 0xE0 0xE0 a \<and> byteIn 0xA0 0xBF b \<or> byteIn 0xE1 0xEC a \<and> byteIn 0x80 0xBF b \<or>
         byteIn 0xED 0xED a \<and> byteIn 0x80 0x9F b \<or> byteIn 0xEE 0xEF a \<and> byteIn 0x80 0xBF b) then 3
      else 1)"
| "runeWidth [a, b] = (if byteIn 0xC2 0xDF a \<and> byteIn 0x80 0xBF b then 2 else 1)"
| "runeWidth [a] = 1"
| "runeWidth [] = 1"

lemma runeWidth_pos [simp]: "0 < runeWidth s"
  by (induction s rule: runeWidth.induct) simp_all

text \<open>The runes of a string, each as its bytes.\<close>

function runes :: "string \<Rightarrow> string list" where
  "runes s = (if s = [] then [] else take (runeWidth s) s # runes (drop (runeWidth s) s))"
  by pat_completeness auto
termination
  by (relation "measure length") auto

declare runes.simps [simp del]

definition runeCount :: "string \<Rightarrow> nat" where
  "runeCount s = length (runes s)"

definition isSpaceRune :: "string \<Rightarrow> bool" where
  "isSpaceRune r \<longleftrightarrow> r \<in> set ws_runes"

text \<open>\<open>strings.Fields\<close>: the maximal runs of runes that are not white space.\<close>

fun fieldsOf :: "string \<Rightarrow> string list \<Rightarrow> string list" where
  "fieldsOf cur [] = (if cur = [] then [] else [cur])"
| "fieldsOf cur (r # rs) =
     (if isSpaceRune r then (if cur = [] then fieldsOf [] rs else cur # fieldsOf [] rs)
      else fieldsOf (cur @ r) rs)"

definition stringsFields :: "string \<Rightarrow> string list" where
  "stringsFields s = fieldsOf [] (runes s)"

lemma runes_Nil [simp]: "runes [] = []"
  by (simp add: runes.simps)

lemma concat_runes [simp]: "concat (runes s) = s"
proof (induction s rule: runes.induct)
  case (1 s)
  then show ?case by (cases "s = []") (simp_all add: runes.simps [of s])
qed

lemma runes_nonempty: "r \<in> set (runes s) \<Longrightarrow> r \<noteq> []"
proof (induction s rule: runes.induct)
  case (1 s)
  show ?case
  proof (cases "s = []")
    case False
    then have "runes s = take (runeWidth s) s # runes (drop (runeWidth s) s)" by (subst runes.simps) simp
    then consider "r = take (runeWidth s) s" | "r \<in> set (runes (drop (runeWidth s) s))" using "1.prems" by auto
    then show ?thesis
    proof cases
      case 1
      with False runeWidth_pos [of s] show ?thesis by simp
    next
      case 2
      with "1.IH" [OF False] show ?thesis by simp
    qed
  qed (use 1 in simp)
qed

lemma runeCount_bytes: "runeCount s \<le> length s"
proof -
  have "length rs \<le> length (concat rs)" if "\<forall>r \<in> set rs. r \<noteq> []" for rs :: "string list"
    using that by (induction rs) (auto simp: neq_Nil_conv)
  from this [of "runes s"] runes_nonempty show ?thesis by (simp add: runeCount_def)
qed

text \<open>A byte below 128 is a rune of its own, and never part of another.\<close>

lemma runes_ascii: "of_char c < (128 :: nat) \<Longrightarrow> runes (c # s) = [c] # runes s"
proof -
  assume c: "of_char c < (128 :: nat)"
  have "runeWidth (c # s) = 1"
    using c by (cases "c # s" rule: runeWidth.cases) (auto simp: byteIn_def)
  then show ?thesis by (simp add: runes.simps [of "c # s"])
qed

lemma runes_ascii_append: "\<forall>c \<in> set p. of_char c < (128 :: nat) \<Longrightarrow> runes (p @ s) = map (\<lambda>c. [c]) p @ runes s"
  by (induction p) (simp_all add: runes_ascii)

lemma fieldsOf_word: "\<forall>r \<in> set rs. \<not> isSpaceRune r \<Longrightarrow> fieldsOf cur rs =
    (if cur @ concat rs = [] then [] else [cur @ concat rs])"
  by (induction rs arbitrary: cur) auto

lemma fieldsOf_append: "\<forall>r \<in> set rs. \<not> isSpaceRune r \<Longrightarrow> isSpaceRune b \<Longrightarrow> cur @ concat rs \<noteq> [] \<Longrightarrow>
    fieldsOf cur (rs @ b # us) = (cur @ concat rs) # fieldsOf [] us"
  by (induction rs arbitrary: cur) auto

end
