(* ===== verification/Accounts.thy ===== *)
theory Accounts
  imports Database Credentials Utf8
begin

text \<open>
  Accounts and console sessions: \<open>sqlc/accounts.sql.go\<close>, the account functions of
  \<open>console/internal/httpapi\<close> (\<open>console_auth.go\<close>, \<open>console_auth_account.go\<close>,
  \<open>console_auth_session.go\<close>) and the handlers of \<open>console_auth_handlers.go\<close>. A handler takes what gin
  decoded of the request and answers a status, a body and a cookie. \<open>bcrypt\<close> is a parameter. Handlers hold
  no lock between their steps; what other requests do there is an argument \<open>i\<close>.
\<close>

section \<open>Queries\<close>

definition fkConflict :: string where "fkConflict = ''FOREIGN KEY constraint failed''"
definition accountIDConflict :: string where
  "accountIDConflict = ''UNIQUE constraint failed: accounts.account_id''"
definition usernameConflict :: string where
  "usernameConflict = ''UNIQUE constraint failed: accounts.username_key''"

definition countAccounts :: "int query" where
  "countAccounts = dbRun (\<lambda>d. (Inr (countWhere (\<lambda>_. True) (db_accounts d)), d))"

definition countAdminAccounts :: "int query" where
  "countAdminAccounts = dbRun (\<lambda>d. (Inr (countWhere (\<lambda>a. a_is_admin a = 1) (db_accounts d)), d))"

text \<open>\<open>ON DELETE CASCADE\<close>: the tokens of a deleted account go with it.\<close>

definition deleteAccounts :: "(account \<Rightarrow> bool) \<Rightarrow> int query" where
  "deleteAccounts P = dbRun (\<lambda>d.
     (Inr (countWhere P (db_accounts d)),
      d\<lparr>db_accounts := deleteRows P (db_accounts d),
        db_tokens := deleteRows (\<lambda>k. \<exists>a \<in> set (db_accounts d). P a \<and> a_account_id a = k_account_id k) (db_tokens d)\<rparr>))"

definition deleteAccountByID :: "string \<Rightarrow> int query" where
  "deleteAccountByID accountID = deleteAccounts (\<lambda>a. a_account_id a = accountID)"

definition deleteNonAdminAccountByID :: "string \<Rightarrow> int query" where
  "deleteNonAdminAccountByID accountID = deleteAccounts (\<lambda>a. a_account_id a = accountID \<and> a_is_admin a = 0)"

definition getAccountWhere :: "(account \<Rightarrow> bool) \<Rightarrow> account query" where
  "getAccountWhere P = dbRun (\<lambda>d.
     (case List.find P (db_accounts d) of None \<Rightarrow> Inl ErrNoRows | Some a \<Rightarrow> Inr a, d))"

definition getAccountByID :: "string \<Rightarrow> account query" where
  "getAccountByID accountID = getAccountWhere (\<lambda>a. a_account_id a = accountID)"

definition getAccountByUsernameKey :: "string \<Rightarrow> account query" where
  "getAccountByUsernameKey key = getAccountWhere (\<lambda>a. a_username_key a = key)"

definition getFirstAdminAccount :: "account query" where
  "getFirstAdminAccount = dbRun (\<lambda>d.
     (case sort_key (\<lambda>a. (a_created_at a, a_account_id a)) (filter (\<lambda>a. a_is_admin a = 1) (db_accounts d)) of
        [] \<Rightarrow> Inl ErrNoRows | a # _ \<Rightarrow> Inr a, d))"

definition insertAccount :: "account \<Rightarrow> unit query" where
  "insertAccount row = dbRun (\<lambda>d.
     if \<exists>a \<in> set (db_accounts d). a_account_id a = a_account_id row
     then (Inl (ErrConstraint accountIDConflict), d)
     else if \<exists>a \<in> set (db_accounts d). a_username_key a = a_username_key row
     then (Inl (ErrConstraint usernameConflict), d)
     else (Inr (), d\<lparr>db_accounts := db_accounts d @ [row]\<rparr>))"

text \<open>SQLite takes a negative \<open>LIMIT\<close> for none and a negative \<open>OFFSET\<close> for zero.\<close>

definition listAccountsPage :: "int \<Rightarrow> int \<Rightarrow> account list query" where
  "listAccountsPage limit offset = dbRun (\<lambda>d.
     (let rows = drop (nat offset) (sort_key (\<lambda>a. (- a_created_at a, a_account_id a)) (db_accounts d))
      in Inr (if limit < 0 then rows else take (nat limit) rows), d))"

definition updateAccountPasswordByID :: "string \<Rightarrow> string \<Rightarrow> int \<Rightarrow> string \<Rightarrow> int query" where
  "updateAccountPasswordByID passwordHash hashAlgo updatedAt accountID = dbRun (\<lambda>d.
     (Inr (countWhere (\<lambda>a. a_account_id a = accountID) (db_accounts d)),
      d\<lparr>db_accounts := updateWhere (\<lambda>a. a_account_id a = accountID)
          (\<lambda>a. a\<lparr>a_password_hash := passwordHash, a_hash_algo := hashAlgo, a_updated_at := updatedAt\<rparr>)
          (db_accounts d)\<rparr>))"

text \<open>\<open>isSQLiteConstraintError\<close>: a uniqueness violation, not a foreign key one.\<close>

definition isSQLiteConstraintError :: "go_error \<Rightarrow> bool" where
  "isSQLiteConstraintError err = (case err of ErrConstraint m \<Rightarrow> m \<noteq> fkConflict | _ \<Rightarrow> False)"

section \<open>State, requests and replies\<close>

definition dashboardSessionTTL :: gduration where "dashboardSessionTTL = 12 * hour"
definition dashboardUsernamePrefix :: string where "dashboardUsernamePrefix = ''admin-''"
definition dashboardUsernameRandomByteSize :: int where "dashboardUsernameRandomByteSize = 4"
definition dashboardPasswordRandomByteSize :: int where "dashboardPasswordRandomByteSize = 24"
definition dashboardPasswordHashAlgo :: string where "dashboardPasswordHashAlgo = ''bcrypt''"
definition maxAccountUsernameRunes :: nat where "maxAccountUsernameRunes = 64"
definition maxPageSize :: int where "maxPageSize = 100"

record sessionAccount =
  sa_accountID :: string
  sa_username :: string
  sa_isAdmin :: bool

record accountSessionState =
  ss_account :: sessionAccount
  ss_expiresAt :: gtime

text \<open>What the console's HTTP handlers share.\<close>

record console =
  cn_db :: db
  cn_registrationEnabled :: bool
  cn_sessions :: "(string \<times> accountSessionState) list"
  cn_now :: gtime

text \<open>\<open>bcrypt\<close>: the answer of \<open>GenerateFromPassword\<close> in this call, and \<open>CompareHashAndPassword\<close>.\<close>

record bcrypt =
  bc_generate :: "string \<Rightarrow> go_error + string"
  bc_compare :: "string \<Rightarrow> string \<Rightarrow> bool"

record loginRequest =
  lr_username :: string
  lr_password :: string

record changePasswordRequest =
  cp_currentPassword :: string
  cp_newPassword :: string

text \<open>A reply with a body, a JSON error, or a bare status.\<close>

datatype 'b reply = Reply nat 'b | Problem nat string | Bare nat

datatype cookie = CookieUnchanged | CookieSet string gtime | CookieCleared

type_synonym 'b handled = "('b reply \<times> cookie) \<times> console"

definition onDB :: "(db \<Rightarrow> 'a \<times> db) \<Rightarrow> console \<Rightarrow> 'a \<times> console" where
  "onDB f s = (case f (cn_db s) of (r, d) \<Rightarrow> (r, s\<lparr>cn_db := d\<rparr>))"

section \<open>Sessions\<close>

text \<open>\<open>randomHex(32)\<close> delivers the session id.\<close>

definition createSession :: "random \<Rightarrow> sessionAccount \<Rightarrow> console \<Rightarrow> (go_error + string \<times> gtime) \<times> console" where
  "createSession rnd account s =
     (case randomHex 32 rnd of
        Inl e \<Rightarrow> (Inl e, s)
      | Inr sessionID \<Rightarrow>
          let expiresAt = cn_now s + dashboardSessionTTL
          in (Inr (sessionID, expiresAt),
              s\<lparr>cn_sessions := AList.update sessionID \<lparr>ss_account = account, ss_expiresAt = expiresAt\<rparr> (cn_sessions s)\<rparr>))"

definition sessionState :: "string \<Rightarrow> console \<Rightarrow> accountSessionState option \<times> console" where
  "sessionState sessionID s =
     (case map_of (cn_sessions s) sessionID of
        None \<Rightarrow> (None, s)
      | Some state \<Rightarrow>
          if \<not> ss_expiresAt state > cn_now s
          then (None, s\<lparr>cn_sessions := AList.delete sessionID (cn_sessions s)\<rparr>)
          else (Some state, s))"

definition deleteSession :: "string \<Rightarrow> console \<Rightarrow> console" where
  "deleteSession sessionID s = s\<lparr>cn_sessions := AList.delete sessionID (cn_sessions s)\<rparr>"

definition deleteSessionsByAccountID :: "string \<Rightarrow> console \<Rightarrow> console" where
  "deleteSessionsByAccountID accountID s =
     (let normalizedAccountID = trimSpace accountID
      in if normalizedAccountID = [] then s
         else s\<lparr>cn_sessions := delete_where
                  (\<lambda>_ st. trimSpace (sa_accountID (ss_account st)) = normalizedAccountID) (cn_sessions s)\<rparr>)"

text \<open>What \<open>RequireAuth\<close> leaves in the request context.\<close>

definition setRequestSessionAccount :: "sessionAccount \<Rightarrow> sessionAccount option" where
  "setRequestSessionAccount account =
     (let accountID = trimSpace (sa_accountID account); username = trimSpace (sa_username account)
      in if accountID = [] \<or> username = [] then None
         else Some \<lparr>sa_accountID = accountID, sa_username = username, sa_isAdmin = sa_isAdmin account\<rparr>)"

text \<open>\<open>RequireAuth\<close>: the reply and cookie of an aborted request, or the account in the context of the
  one that goes on.\<close>

definition requireAuth :: "string option \<Rightarrow> console \<Rightarrow> (('b reply \<times> cookie) + sessionAccount option) \<times> console" where
  "requireAuth cookie s =
     (case cookie of
        None \<Rightarrow> (Inl (Problem 401 ''authentication required'', CookieUnchanged), s)
      | Some sessionID \<Rightarrow>
          if trimSpace sessionID = [] then (Inl (Problem 401 ''authentication required'', CookieUnchanged), s)
          else case sessionState sessionID s of
                 (None, s) \<Rightarrow> (Inl (Problem 401 ''authentication required'', CookieCleared), s)
               | (Some state, s) \<Rightarrow> (Inr (setRequestSessionAccount (ss_account state)), s))"

definition requireAdmin :: "sessionAccount option \<Rightarrow> ('b reply \<times> cookie) + sessionAccount" where
  "requireAdmin acct =
     (case acct of
        None \<Rightarrow> Inl (Problem 401 ''authentication required'', CookieUnchanged)
      | Some account \<Rightarrow>
          if \<not> sa_isAdmin account then Inl (Problem 403 ''admin access required'', CookieUnchanged) else Inr account)"

text \<open>\<open>requireSessionAccount\<close>, which the handlers behind \<open>RequireAuth\<close> start with.\<close>

definition withAccount :: "sessionAccount option \<Rightarrow> (sessionAccount \<Rightarrow> 'b handled) \<Rightarrow> console \<Rightarrow> 'b handled" where
  "withAccount acct h s =
     (case acct of
        None \<Rightarrow> ((Problem 401 ''authentication required'', CookieUnchanged), s)
      | Some account \<Rightarrow> h account)"

section \<open>Accounts\<close>

datatype account_error =
    UsernameRequired | UsernameTooLong | PasswordRequired | RegistrationConflict | AccountFailure go_error

definition normalizeAccountUsername :: "string \<Rightarrow> account_error + string \<times> string" where
  "normalizeAccountUsername value =
     (let username = trimSpace value
      in if username = [] then Inl UsernameRequired
         else if runeCount username > maxAccountUsernameRunes then Inl UsernameTooLong
         else Inr (username, toLower username))"

definition lookupAccount :: "string \<Rightarrow> console \<Rightarrow> account option \<times> console" where
  "lookupAccount username s =
     (case normalizeAccountUsername username of
        Inl _ \<Rightarrow> (None, s)
      | Inr (_, usernameKey) \<Rightarrow>
          (case onDB (getAccountByUsernameKey usernameKey) s of
             (Inl _, s) \<Rightarrow> (None, s)
           | (Inr account, s) \<Rightarrow>
               (if trimSpace (a_account_id account) = [] \<or> trimSpace (a_password_hash account) = []
                then None else Some account, s)))"

definition compareDashboardPassword :: "bcrypt \<Rightarrow> string \<Rightarrow> string \<Rightarrow> bool" where
  "compareDashboardPassword bc hash password \<longleftrightarrow> bc_compare bc (trimSpace hash) password"

definition verifyPassword :: "bcrypt \<Rightarrow> account \<Rightarrow> string \<Rightarrow> bool" where
  "verifyPassword bc account password \<longleftrightarrow>
     trimSpace password \<noteq> [] \<and> equalFold (trimSpace (a_hash_algo account)) dashboardPasswordHashAlgo \<and>
     compareDashboardPassword bc (a_password_hash account) password"

record createAccountInput =
  ci_username :: string
  ci_password :: string
  ci_isAdmin :: bool
  ci_now :: gtime

record createdAccount =
  cr_accountID :: string
  cr_username :: string
  cr_isAdmin :: bool
  cr_createdAt :: gtime
  cr_updatedAt :: gtime

datatype accountInsertConflict = ConflictUnknown | ConflictAccountID | ConflictUsernameKey

definition classifyAccountInsertConflict :: "string \<Rightarrow> string \<Rightarrow> accountInsertConflict query" where
  "classifyAccountInsertConflict accountID usernameKey d =
     (case getAccountByID (trimSpace accountID) d of
        (Inr _, d) \<Rightarrow> (Inr ConflictAccountID, d)
      | (Inl e, d) \<Rightarrow>
          if e \<noteq> ErrNoRows then (Inl e, d)
          else case getAccountByUsernameKey (trimSpace usernameKey) d of
                 (Inr _, d) \<Rightarrow> (Inr ConflictUsernameKey, d)
               | (Inl e, d) \<Rightarrow> if e \<noteq> ErrNoRows then (Inl e, d) else (Inr ConflictUnknown, d))"

definition boolToInt64 :: "bool \<Rightarrow> int" where "boolToInt64 value = (if value then 1 else 0)"

text \<open>The attempts of \<open>createAccountWithRetry\<close>; each draws an id. \<open>i\<close> is what others do to the database
  between a refused insert and its classification.\<close>

fun createAttempts ::
  "(db \<Rightarrow> db) \<Rightarrow> random list \<Rightarrow> (string \<Rightarrow> account) \<Rightarrow> db \<Rightarrow> (account_error + string) \<times> db" where
  "createAttempts i [] row d = (Inl (AccountFailure (OtherError ''failed to create account'')), d)"
| "createAttempts i (rnd # rest) row d =
     (case generateAccountID rnd of
        Inl e \<Rightarrow> (Inl (AccountFailure e), d)
      | Inr accountID \<Rightarrow>
          (case insertAccount (row accountID) d of
             (Inr _, d) \<Rightarrow> (Inr accountID, d)
           | (Inl e, d) \<Rightarrow>
               if \<not> isSQLiteConstraintError e then (Inl (AccountFailure e), d)
               else case classifyAccountInsertConflict accountID (a_username_key (row accountID)) (i d) of
                      (Inl e, d) \<Rightarrow> (Inl (AccountFailure e), d)
                    | (Inr ConflictAccountID, d) \<Rightarrow> createAttempts i rest row d
                    | (Inr ConflictUsernameKey, d) \<Rightarrow> (Inl RegistrationConflict, d)
                    | (Inr ConflictUnknown, d) \<Rightarrow> (Inl (AccountFailure e), d)))"

definition maxCreateAttempts :: nat where "maxCreateAttempts = 8"

text \<open>\<open>wall\<close> is the answer of \<open>time.Now\<close> for an input without a time.\<close>

definition createAccountWithRetry ::
  "(db \<Rightarrow> db) \<Rightarrow> bcrypt \<Rightarrow> random list \<Rightarrow> gtime \<Rightarrow> createAccountInput \<Rightarrow> db \<Rightarrow> (account_error + createdAccount) \<times> db" where
  "createAccountWithRetry i bc rnd wall input d =
     (case normalizeAccountUsername (ci_username input) of
        Inl e \<Rightarrow> (Inl e, d)
      | Inr (normalizedUsername, usernameKey) \<Rightarrow>
          if trimSpace (ci_password input) = [] then (Inl PasswordRequired, d)
          else case bc_generate bc (ci_password input) of
            Inl e \<Rightarrow> (Inl (AccountFailure e), d)
          | Inr passwordHash \<Rightarrow>
              let nowMS = unixMilli (if isZeroTime (ci_now input) then wall else ci_now input);
                  row = (\<lambda>accountID. \<lparr>a_account_id = accountID, a_username = normalizedUsername,
                    a_username_key = usernameKey, a_password_hash = passwordHash,
                    a_hash_algo = dashboardPasswordHashAlgo, a_is_admin = boolToInt64 (ci_isAdmin input),
                    a_created_at = nowMS, a_updated_at = nowMS\<rparr>)
              in case createAttempts i (take maxCreateAttempts rnd) row d of
                   (Inl e, d) \<Rightarrow> (Inl e, d)
                 | (Inr accountID, d) \<Rightarrow>
                     (Inr \<lparr>cr_accountID = accountID, cr_username = normalizedUsername, cr_isAdmin = ci_isAdmin input,
                        cr_createdAt = timeOfMilli nowMS, cr_updatedAt = timeOfMilli nowMS\<rparr>, d))"

section \<open>Starting up\<close>

definition resolveDashboardCredentials ::
  "random \<Rightarrow> random \<Rightarrow> string \<Rightarrow> string \<Rightarrow> go_error + string \<times> string" where
  "resolveDashboardCredentials nameRnd secretRnd username password =
     (let name = (if trimSpace username = []
                  then (case randomHex dashboardUsernameRandomByteSize nameRnd of
                          Inl e \<Rightarrow> Inl e | Inr ending \<Rightarrow> Inr (dashboardUsernamePrefix @ ending))
                  else Inr (trimSpace username))
      in case name of
           Inl e \<Rightarrow> Inl e
         | Inr name \<Rightarrow>
             if password = []
             then (case randomHex dashboardPasswordRandomByteSize secretRnd of
                     Inl e \<Rightarrow> Inl e | Inr secret \<Rightarrow> Inr (name, secret))
             else Inr (name, password))"

record adminAccountInitResult =
  ir_accountID :: string
  ir_username :: string
  ir_passwordPlaintext :: string
  ir_initializedNow :: bool
  ir_envIgnored :: bool

definition initializeAdminAccount ::
  "(db \<Rightarrow> db) \<Rightarrow> bcrypt \<Rightarrow> random \<Rightarrow> random \<Rightarrow> random list \<Rightarrow> gtime \<Rightarrow> string \<Rightarrow> string \<Rightarrow> db \<Rightarrow>
   (account_error + adminAccountInitResult) \<times> db" where
  "initializeAdminAccount i bc nameRnd secretRnd rnd wall envUsername envPassword d =
     (case countAdminAccounts d of
        (Inl e, d) \<Rightarrow> (Inl (AccountFailure e), d)
      | (Inr adminCount, d) \<Rightarrow>
          if adminCount > 0
          then (case getFirstAdminAccount (i d) of
                  (Inl e, d) \<Rightarrow> (Inl (AccountFailure e), d)
                | (Inr adminAccount, d) \<Rightarrow>
                    (Inr \<lparr>ir_accountID = trimSpace (a_account_id adminAccount),
                       ir_username = trimSpace (a_username adminAccount), ir_passwordPlaintext = [],
                       ir_initializedNow = False, ir_envIgnored = (envUsername \<noteq> [] \<or> envPassword \<noteq> [])\<rparr>, d))
          else case resolveDashboardCredentials nameRnd secretRnd envUsername envPassword of
                 Inl e \<Rightarrow> (Inl (AccountFailure e), d)
               | Inr (username, password) \<Rightarrow>
                   (case createAccountWithRetry i bc rnd wall
                        \<lparr>ci_username = username, ci_password = password, ci_isAdmin = True, ci_now = wall\<rparr> (i d) of
                      (Inl e, d) \<Rightarrow> (Inl e, d)
                    | (Inr created, d) \<Rightarrow>
                        (Inr \<lparr>ir_accountID = cr_accountID created, ir_username = cr_username created,
                           ir_passwordPlaintext = password, ir_initializedNow = True, ir_envIgnored = False\<rparr>, d)))"

section \<open>Handlers\<close>

text \<open>A request body is \<open>None\<close> when \<open>ShouldBindJSON\<close> fails. \<open>i\<close> runs between the steps of a handler.\<close>

definition sessionOf :: "account \<Rightarrow> sessionAccount" where
  "sessionOf account = \<lparr>sa_accountID = trimSpace (a_account_id account), sa_username = trimSpace (a_username account),
     sa_isAdmin = (a_is_admin account = 1)\<rparr>"

definition login ::
  "(console \<Rightarrow> console) \<Rightarrow> bcrypt \<Rightarrow> random \<Rightarrow> loginRequest option \<Rightarrow> console \<Rightarrow> (sessionAccount \<times> bool) handled" where
  "login i bc rnd body s =
     (case body of
        None \<Rightarrow> ((Problem 400 ''invalid request body'', CookieUnchanged), s)
      | Some req \<Rightarrow>
          (case lookupAccount (lr_username req) s of
             (None, s) \<Rightarrow> ((Problem 401 ''invalid username or password'', CookieUnchanged), s)
           | (Some account, s) \<Rightarrow>
               if \<not> verifyPassword bc account (lr_password req)
               then ((Problem 401 ''invalid username or password'', CookieUnchanged), s)
               else case createSession rnd (sessionOf account) (i s) of
                      (Inl _, s) \<Rightarrow> ((Problem 500 ''failed to create session'', CookieUnchanged), s)
                    | (Inr (sessionID, expiresAt), s) \<Rightarrow>
                        ((Reply 200 (sessionOf account, cn_registrationEnabled s), CookieSet sessionID expiresAt), s)))"

definition session :: "sessionAccount option \<Rightarrow> console \<Rightarrow> (sessionAccount \<times> bool) handled" where
  "session acct s = withAccount acct
     (\<lambda>account. ((Reply 200 (account, cn_registrationEnabled s), CookieUnchanged), s)) s"

definition accountProblem :: "account_error \<Rightarrow> 'b reply" where
  "accountProblem err = (case err of
     UsernameRequired \<Rightarrow> Problem 400 ''username is required''
   | UsernameTooLong \<Rightarrow> Problem 400 ''username length must be <= 64''
   | PasswordRequired \<Rightarrow> Problem 400 ''password is required''
   | RegistrationConflict \<Rightarrow> Problem 409 ''username already exists''
   | AccountFailure _ \<Rightarrow> Problem 500 ''failed to create account'')"

definition register ::
  "(db \<Rightarrow> db) \<Rightarrow> bcrypt \<Rightarrow> random list \<Rightarrow> sessionAccount option \<Rightarrow> loginRequest option \<Rightarrow> console \<Rightarrow>
   createdAccount handled" where
  "register i bc rnd acct body s =
     (if \<not> cn_registrationEnabled s then ((Problem 403 ''registration is disabled'', CookieUnchanged), s)
      else withAccount acct (\<lambda>account.
        if \<not> sa_isAdmin account then ((Problem 403 ''admin access required'', CookieUnchanged), s)
        else case body of
          None \<Rightarrow> ((Problem 400 ''invalid request body'', CookieUnchanged), s)
        | Some req \<Rightarrow>
            (case onDB (createAccountWithRetry i bc rnd (cn_now s)
                \<lparr>ci_username = lr_username req, ci_password = lr_password req, ci_isAdmin = False, ci_now = cn_now s\<rparr>) s of
               (Inl err, s) \<Rightarrow> ((accountProblem err, CookieUnchanged), s)
             | (Inr created, s) \<Rightarrow> ((Reply 201 created, CookieUnchanged), s))) s)"

text \<open>The end of \<open>ChangePassword\<close> when the account turns out to be gone.\<close>

definition accountGone :: "sessionAccount \<Rightarrow> console \<Rightarrow> 'b handled" where
  "accountGone account s =
     ((Problem 401 ''authentication required'', CookieCleared), deleteSessionsByAccountID (sa_accountID account) s)"

definition renewSession :: "random \<Rightarrow> account \<Rightarrow> console \<Rightarrow> unit handled" where
  "renewSession rnd accountRecord s =
     (case createSession rnd (sessionOf accountRecord)
          (deleteSessionsByAccountID (sa_accountID (sessionOf accountRecord)) s) of
        (Inl _, s) \<Rightarrow> ((Problem 500 ''failed to refresh session'', CookieUnchanged), s)
      | (Inr (sessionID, expiresAt), s) \<Rightarrow> ((Bare 204, CookieSet sessionID expiresAt), s))"

definition changePassword ::
  "(console \<Rightarrow> console) \<Rightarrow> bcrypt \<Rightarrow> random \<Rightarrow> sessionAccount option \<Rightarrow> changePasswordRequest option \<Rightarrow> console \<Rightarrow>
   unit handled" where
  "changePassword i bc rnd acct body s = withAccount acct (\<lambda>sessionAccount.
     case body of
       None \<Rightarrow> ((Problem 400 ''invalid request body'', CookieUnchanged), s)
     | Some req \<Rightarrow>
         let currentPassword = trimSpace (cp_currentPassword req); newPassword = trimSpace (cp_newPassword req)
         in if currentPassword = [] then ((Problem 400 ''current_password is required'', CookieUnchanged), s)
            else if newPassword = [] then ((Problem 400 ''new_password is required'', CookieUnchanged), s)
            else case onDB (getAccountByID (trimSpace (sa_accountID sessionAccount))) s of
              (Inl e, s) \<Rightarrow>
                if e = ErrNoRows then accountGone sessionAccount s
                else ((Problem 500 ''failed to update password'', CookieUnchanged), s)
            | (Inr accountRecord, s) \<Rightarrow>
                if \<not> verifyPassword bc accountRecord currentPassword
                then ((Problem 401 ''invalid current password'', CookieUnchanged), s)
                else case bc_generate bc newPassword of
                  Inl _ \<Rightarrow> ((Problem 500 ''failed to update password'', CookieUnchanged), s)
                | Inr newPasswordHash \<Rightarrow>
                    let s = i s in
                    case onDB (updateAccountPasswordByID newPasswordHash dashboardPasswordHashAlgo (unixMilli (cn_now s))
                        (trimSpace (sa_accountID sessionAccount))) s of
                      (Inl _, s) \<Rightarrow> ((Problem 500 ''failed to update password'', CookieUnchanged), s)
                    | (Inr updatedRows, s) \<Rightarrow>
                        if updatedRows = 0 then accountGone sessionAccount s
                        else renewSession rnd accountRecord (i s)) s"

record accountListItem =
  al_accountID :: string
  al_username :: string
  al_isAdmin :: bool
  al_createdAt :: gtime
  al_updatedAt :: gtime

definition accountListItemOf :: "account \<Rightarrow> accountListItem" where
  "accountListItemOf r = \<lparr>al_accountID = trimSpace (a_account_id r), al_username = trimSpace (a_username r),
     al_isAdmin = (a_is_admin r = 1), al_createdAt = timeOfMilli (a_created_at r), al_updatedAt = timeOfMilli (a_updated_at r)\<rparr>"

text \<open>The page numbers are \<open>None\<close> when \<open>parsePositiveIntQuery\<close> refuses them. The reply holds the items, the
  total, the page and the page size.\<close>

definition listAccounts ::
  "int option \<Rightarrow> int option \<Rightarrow> console \<Rightarrow> (accountListItem list \<times> int \<times> int \<times> int) handled" where
  "listAccounts page pageSize s =
     (case page of
        None \<Rightarrow> ((Problem 400 ''page must be a positive integer'', CookieUnchanged), s)
      | Some page \<Rightarrow>
          (case pageSize of
             None \<Rightarrow> ((Problem 400 ''page_size must be a positive integer'', CookieUnchanged), s)
           | Some pageSize \<Rightarrow>
               let pageSize = (if pageSize > maxPageSize then maxPageSize else pageSize)
               in case onDB countAccounts s of
                    (Inl _, s) \<Rightarrow> ((Problem 500 ''failed to list accounts'', CookieUnchanged), s)
                  | (Inr totalRows, s) \<Rightarrow>
                      (case onDB (listAccountsPage pageSize (wrap64 ((page - 1) * pageSize))) s of
                         (Inl _, s) \<Rightarrow> ((Problem 500 ''failed to list accounts'', CookieUnchanged), s)
                       | (Inr records, s) \<Rightarrow>
                           ((Reply 200 (map accountListItemOf records, totalRows, page, pageSize), CookieUnchanged), s))))"

definition deleteAccount ::
  "(console \<Rightarrow> console) \<Rightarrow> sessionAccount option \<Rightarrow> string \<Rightarrow> console \<Rightarrow> unit handled" where
  "deleteAccount i acct accountIDParam s = withAccount acct (\<lambda>currentAccount.
     let targetAccountID = trimSpace accountIDParam
     in if targetAccountID = [] then ((Problem 400 ''account_id is required'', CookieUnchanged), s)
        else if targetAccountID = trimSpace (sa_accountID currentAccount)
        then ((Problem 403 ''cannot delete current account'', CookieUnchanged), s)
        else case onDB (deleteNonAdminAccountByID targetAccountID) s of
          (Inl _, s) \<Rightarrow> ((Problem 500 ''failed to delete account'', CookieUnchanged), s)
        | (Inr deletedRows, s) \<Rightarrow>
            if deletedRows = 0
            then (case onDB (getAccountByID targetAccountID) (i s) of
                    (Inl e, s) \<Rightarrow>
                      ((if e = ErrNoRows then Problem 404 ''account not found''
                        else Problem 500 ''failed to delete account'', CookieUnchanged), s)
                  | (Inr r, s) \<Rightarrow>
                      ((if a_is_admin r = 1 then Problem 403 ''cannot delete admin account''
                        else Problem 404 ''account not found'', CookieUnchanged), s))
            else ((Bare 204, CookieUnchanged), deleteSessionsByAccountID targetAccountID (i s))) s"

definition logout :: "string option \<Rightarrow> console \<Rightarrow> unit handled" where
  "logout cookie s =
     ((Bare 204, CookieCleared), case cookie of None \<Rightarrow> s | Some sessionID \<Rightarrow> deleteSession sessionID s)"

text \<open>A route behind \<open>RequireAuth\<close>, and one behind \<open>RequireAdmin\<close> too.\<close>

definition authRoute :: "string option \<Rightarrow> (sessionAccount option \<Rightarrow> console \<Rightarrow> 'b handled) \<Rightarrow> console \<Rightarrow> 'b handled" where
  "authRoute cookie h s =
     (case requireAuth cookie s of (Inl r, s) \<Rightarrow> (r, s) | (Inr acct, s) \<Rightarrow> h acct s)"

definition adminRoute :: "string option \<Rightarrow> (sessionAccount option \<Rightarrow> console \<Rightarrow> 'b handled) \<Rightarrow> console \<Rightarrow> 'b handled" where
  "adminRoute cookie h = authRoute cookie (\<lambda>acct s.
     case requireAdmin acct of Inl r \<Rightarrow> (r, s) | Inr _ \<Rightarrow> h acct s)"

end
