(* ===== verification/Tokens.thy ===== *)
theory Tokens
  imports Accounts
begin

text \<open>
  Access tokens: \<open>sqlc/tokens.sql.go\<close>, \<open>console/internal/httpapi/mcp_auth.go\<close> and
  \<open>request_owner.go\<close>. A token is stored as its keyed hash (the parameter \<open>hash\<close>, HMAC-SHA-256) and
  authenticates the requests of its account to the execution and MCP routes.
\<close>

section \<open>Queries\<close>

definition deleteTrustedTokenByIDAndAccount :: "string \<Rightarrow> string \<Rightarrow> int query" where
  "deleteTrustedTokenByIDAndAccount tokenID accountID = dbRun (\<lambda>d.
     (Inr (countWhere (\<lambda>k. k_token_id k = tokenID \<and> k_account_id k = accountID) (db_tokens d)),
      d\<lparr>db_tokens := deleteRows (\<lambda>k. k_token_id k = tokenID \<and> k_account_id k = accountID) (db_tokens d)\<rparr>))"

definition getTokenWhere :: "(trusted_token \<Rightarrow> bool) \<Rightarrow> trusted_token query" where
  "getTokenWhere P = dbRun (\<lambda>d.
     (case List.find P (db_tokens d) of None \<Rightarrow> Inl ErrNoRows | Some k \<Rightarrow> Inr k, d))"

definition getTrustedTokenByAccountAndNameKey :: "string \<Rightarrow> string \<Rightarrow> trusted_token query" where
  "getTrustedTokenByAccountAndNameKey accountID nameKey =
     getTokenWhere (\<lambda>k. k_account_id k = accountID \<and> k_name_key k = nameKey)"

definition getTrustedTokenByHash :: "string \<Rightarrow> trusted_token query" where
  "getTrustedTokenByHash tokenHash = getTokenWhere (\<lambda>k. k_token_hash k = tokenHash)"

definition getTrustedTokenByID :: "string \<Rightarrow> trusted_token query" where
  "getTrustedTokenByID tokenID = getTokenWhere (\<lambda>k. k_token_id k = tokenID)"

definition insertTrustedToken :: "trusted_token \<Rightarrow> unit query" where
  "insertTrustedToken row = dbRun (\<lambda>d.
     if \<exists>k \<in> set (db_tokens d). k_token_id k = k_token_id row
     then (Inl (ErrConstraint ''UNIQUE constraint failed: trusted_tokens.token_id''), d)
     else if \<exists>k \<in> set (db_tokens d). k_account_id k = k_account_id row \<and> k_name_key k = k_name_key row
     then (Inl (ErrConstraint ''UNIQUE constraint failed: trusted_tokens.account_id, trusted_tokens.name_key''), d)
     else if \<exists>k \<in> set (db_tokens d). k_token_hash k = k_token_hash row
     then (Inl (ErrConstraint ''UNIQUE constraint failed: trusted_tokens.token_hash''), d)
     else if \<not> (\<exists>a \<in> set (db_accounts d). a_account_id a = k_account_id row)
     then (Inl (ErrConstraint fkConflict), d)
     else (Inr (), d\<lparr>db_tokens := db_tokens d @ [row]\<rparr>))"

definition listTrustedTokensByAccount :: "string \<Rightarrow> trusted_token list query" where
  "listTrustedTokensByAccount accountID = dbRun (\<lambda>d.
     (Inr (sort_key (\<lambda>k. (k_created_at k, k_token_id k)) (filter (\<lambda>k. k_account_id k = accountID) (db_tokens d))), d))"

section \<open>Values\<close>

definition bearerTokenScheme :: string where "bearerTokenScheme = ''Bearer''"
definition maxTrustedTokenNameRunes :: nat where "maxTrustedTokenNameRunes = 64"
definition maxTrustedTokenLength :: nat where "maxTrustedTokenLength = 256"

datatype token_error =
    TokenNameRequired | TokenNameTooLong | TokenNameConflict | TokenValueRequired | TokenValueTooLong
  | TokenValueWhitespace | TokenValueConflict | TokenNotFound | TokenGenerateFailed | TokenIDGenerateFailed
  | TokenFailure go_error

definition parseBearerToken :: "string \<Rightarrow> string option" where
  "parseBearerToken value =
     (let trimmed = trimSpace value
      in if trimmed = [] then None
         else case stringsFields trimmed of
                [scheme, tok] \<Rightarrow>
                  (if \<not> equalFold scheme bearerTokenScheme then None
                   else if trimSpace tok = [] then None else Some (trimSpace tok))
              | _ \<Rightarrow> None)"

definition normalizeTokenName :: "string \<Rightarrow> token_error + string \<times> string" where
  "normalizeTokenName value =
     (let trimmed = trimSpace value
      in if trimmed = [] then Inl TokenNameRequired
         else if runeCount trimmed > maxTrustedTokenNameRunes then Inl TokenNameTooLong
         else Inr (trimmed, toLower trimmed))"

definition normalizeTokenValue :: "string \<Rightarrow> token_error + string" where
  "normalizeTokenValue value =
     (let trimmed = trimSpace value
      in if trimmed = [] then Inl TokenValueRequired
         else if length trimmed > maxTrustedTokenLength then Inl TokenValueTooLong
         else if list_ex isSpaceRune (runes trimmed) then Inl TokenValueWhitespace
         else Inr trimmed)"

definition maskToken :: "string \<Rightarrow> string" where
  "maskToken tok =
     (let trimmed = trimSpace tok
      in if trimmed = [] then []
         else if length trimmed \<le> 8 then replicate (length trimmed) (CHR ''*'')
         else take 4 trimmed @ replicate (max 6 (length trimmed - 8)) (CHR ''*'') @
              drop (length trimmed - 4) trimmed)"

record trustedTokenRecord =
  tk_id :: string
  tk_accountID :: string
  tk_name :: string
  tk_nameKey :: string
  tk_token :: string
  tk_tokenHash :: string
  tk_tokenMasked :: string
  tk_generated :: bool
  tk_createdAt :: gtime
  tk_updatedAt :: gtime

definition tokenRow :: "trustedTokenRecord \<Rightarrow> trusted_token" where
  "tokenRow r = \<lparr>k_token_id = tk_id r, k_account_id = tk_accountID r, k_name = tk_name r, k_name_key = tk_nameKey r,
     k_token_hash = tk_tokenHash r, k_token_masked = tk_tokenMasked r, k_generated = boolToInt64 (tk_generated r),
     k_created_at = unixMilli (tk_createdAt r), k_updated_at = unixMilli (tk_updatedAt r)\<rparr>"

section \<open>Creating, deleting and looking up tokens\<close>

datatype tokenInsertConflict = TokenConflictUnknown | TokenConflictName | TokenConflictHash | TokenConflictID

definition classifyTrustedTokenInsertConflict ::
  "string \<Rightarrow> string \<Rightarrow> string \<Rightarrow> string \<Rightarrow> tokenInsertConflict query" where
  "classifyTrustedTokenInsertConflict accountID nameKey tokenHash tokenID d =
     (case getTrustedTokenByAccountAndNameKey accountID nameKey d of
        (Inr _, d) \<Rightarrow> (Inr TokenConflictName, d)
      | (Inl e, d) \<Rightarrow>
          if e \<noteq> ErrNoRows then (Inl e, d)
          else case getTrustedTokenByHash tokenHash d of
            (Inr _, d) \<Rightarrow> (Inr TokenConflictHash, d)
          | (Inl e, d) \<Rightarrow>
              if e \<noteq> ErrNoRows then (Inl e, d)
              else case getTrustedTokenByID tokenID d of
                (Inr _, d) \<Rightarrow> (Inr TokenConflictID, d)
              | (Inl e, d) \<Rightarrow> if e \<noteq> ErrNoRows then (Inl e, d) else (Inr TokenConflictUnknown, d))"

text \<open>The record of an attempt, from the value and the id it drew.\<close>

definition tokenRecord ::
  "(string \<Rightarrow> string) \<Rightarrow> string \<Rightarrow> string \<Rightarrow> string \<Rightarrow> bool \<Rightarrow> gtime \<Rightarrow> string \<Rightarrow> string \<Rightarrow> trustedTokenRecord" where
  "tokenRecord hash accountID name nameKey generated now tokenID tokenValue =
     \<lparr>tk_id = tokenID, tk_accountID = accountID, tk_name = name, tk_nameKey = nameKey, tk_token = tokenValue,
      tk_tokenHash = hash tokenValue, tk_tokenMasked = maskToken tokenValue, tk_generated = generated,
      tk_createdAt = now, tk_updatedAt = now\<rparr>"

text \<open>The attempts of \<open>createToken\<close>: each draws a value, unless one was given, and an id.\<close>

fun tokenAttempts ::
  "(db \<Rightarrow> db) \<Rightarrow> string option \<Rightarrow> (random \<times> random) list \<Rightarrow> (string \<Rightarrow> string \<Rightarrow> trustedTokenRecord) \<Rightarrow> db \<Rightarrow>
   (token_error + trustedTokenRecord) \<times> db" where
  "tokenAttempts i given [] mk d =
     (Inl (if given = None then TokenGenerateFailed else TokenValueConflict), d)"
| "tokenAttempts i given (rnd # rest) mk d =
     (case (case given of
              None \<Rightarrow> (case generateTrustedToken (fst rnd) of Inl _ \<Rightarrow> None | Inr v \<Rightarrow> Some v)
            | Some v \<Rightarrow> Some v) of
        None \<Rightarrow> (Inl TokenGenerateFailed, d)
      | Some tokenValue \<Rightarrow>
          (case generateTokenID (snd rnd) of
             Inl _ \<Rightarrow> (Inl TokenIDGenerateFailed, d)
           | Inr tokenID \<Rightarrow>
               let r = mk tokenID tokenValue
               in case insertTrustedToken (tokenRow r) d of
                    (Inr _, d) \<Rightarrow> (Inr r, d)
                  | (Inl e, d) \<Rightarrow>
                      if \<not> isSQLiteConstraintError e then (Inl (TokenFailure e), d)
                      else case classifyTrustedTokenInsertConflict (tk_accountID r) (tk_nameKey r) (tk_tokenHash r)
                             (tk_id r) (i d) of
                        (Inl e, d) \<Rightarrow> (Inl (TokenFailure e), d)
                      | (Inr TokenConflictName, d) \<Rightarrow> (Inl TokenNameConflict, d)
                      | (Inr TokenConflictHash, d) \<Rightarrow>
                          if given = None then tokenAttempts i given rest mk d else (Inl TokenValueConflict, d)
                      | (Inr TokenConflictID, d) \<Rightarrow> tokenAttempts i given rest mk d
                      | (Inr TokenConflictUnknown, d) \<Rightarrow> (Inl (TokenFailure e), d)))"

definition createTokenFor ::
  "(db \<Rightarrow> db) \<Rightarrow> (string \<Rightarrow> string) \<Rightarrow> (random \<times> random) list \<Rightarrow> gtime \<Rightarrow> string \<Rightarrow> string \<Rightarrow> string option \<Rightarrow> db \<Rightarrow>
   (token_error + trustedTokenRecord) \<times> db" where
  "createTokenFor i hash rnd now accountID name tokenInput d =
     (let normalizedAccountID = trimSpace accountID
      in if normalizedAccountID = [] then (Inl (TokenFailure (OtherError ''account_id is required'')), d)
         else case normalizeTokenName name of
           Inl e \<Rightarrow> (Inl e, d)
         | Inr (normalizedName, nameKey) \<Rightarrow>
             (case (case tokenInput of
                      None \<Rightarrow> Inr None
                    | Some v \<Rightarrow> (case normalizeTokenValue v of Inl e \<Rightarrow> Inl e | Inr v \<Rightarrow> Inr (Some v))) of
                Inl e \<Rightarrow> (Inl e, d)
              | Inr given \<Rightarrow>
                  tokenAttempts i given (take maxCreateAttempts rnd)
                    (tokenRecord hash normalizedAccountID normalizedName nameKey (given = None) now) d))"

definition deleteTokenFor :: "string \<Rightarrow> string \<Rightarrow> db \<Rightarrow> token_error option \<times> db" where
  "deleteTokenFor tokenID accountID d =
     (case deleteTrustedTokenByIDAndAccount tokenID (trimSpace accountID) d of
        (Inl e, d) \<Rightarrow> (Some (TokenFailure e), d)
      | (Inr rows, d) \<Rightarrow> (if rows = 0 then Some TokenNotFound else None, d))"

definition lookupTrustedToken :: "(string \<Rightarrow> string) \<Rightarrow> string \<Rightarrow> db \<Rightarrow> trusted_token option \<times> db" where
  "lookupTrustedToken hash tok d =
     (case getTrustedTokenByHash (hash (trimSpace tok)) d of
        (Inl _, d) \<Rightarrow> (None, d)
      | (Inr r, d) \<Rightarrow> (if trimSpace (k_account_id r) = [] then None else Some r, d))"

definition isAllowed :: "(string \<Rightarrow> string) \<Rightarrow> string \<Rightarrow> db \<Rightarrow> bool \<times> db" where
  "isAllowed hash tok d = (case lookupTrustedToken hash tok d of (r, d) \<Rightarrow> (r \<noteq> None, d))"

section \<open>Handlers\<close>

text \<open>\<open>RequireToken\<close>, \<open>setRequestOwnerID\<close> and \<open>requireRequestOwnerID\<close>: the owner in the request context, or the
  refusal. \<open>GetHeader\<close> answers the empty string for a missing header.\<close>

definition setRequestOwnerID :: "string \<Rightarrow> string option" where
  "setRequestOwnerID ownerID = (if trimSpace ownerID = [] then None else Some (trimSpace ownerID))"

definition requireToken :: "(string \<Rightarrow> string) \<Rightarrow> string \<Rightarrow> console \<Rightarrow> ('b reply + string option) \<times> console" where
  "requireToken hash header s =
     (case parseBearerToken header of
        None \<Rightarrow> (Inl (Problem 401 ''invalid or missing token''), s)
      | Some tok \<Rightarrow>
          (case onDB (lookupTrustedToken hash tok) s of
             (None, s) \<Rightarrow> (Inl (Problem 401 ''invalid or missing token''), s)
           | (Some r, s) \<Rightarrow> (Inr (setRequestOwnerID (trimSpace (k_account_id r))), s)))"

definition requireRequestOwnerID :: "string option \<Rightarrow> 'b reply + string" where
  "requireRequestOwnerID owner =
     (case owner of None \<Rightarrow> Inl (Problem 401 ''invalid or missing token'') | Some ow \<Rightarrow> Inr ow)"

record trustedTokenItem =
  ti_id :: string
  ti_name :: string
  ti_tokenMasked :: string
  ti_createdAt :: gtime
  ti_updatedAt :: gtime

definition listTokens :: "sessionAccount option \<Rightarrow> console \<Rightarrow> trustedTokenItem list handled" where
  "listTokens acct s = withAccount acct (\<lambda>account.
     case onDB (listTrustedTokensByAccount (sa_accountID account)) s of
       (Inl _, s) \<Rightarrow> ((Problem 500 ''failed to list tokens'', CookieUnchanged), s)
     | (Inr records, s) \<Rightarrow>
         ((Reply 200 (map (\<lambda>r. \<lparr>ti_id = k_token_id r, ti_name = k_name r, ti_tokenMasked = k_token_masked r,
             ti_createdAt = timeOfMilli (k_created_at r), ti_updatedAt = timeOfMilli (k_updated_at r)\<rparr>) records),
           CookieUnchanged), s)) s"

definition tokenProblem :: "token_error \<Rightarrow> 'b reply" where
  "tokenProblem err = (case err of
     TokenNameRequired \<Rightarrow> Problem 400 ''name is required''
   | TokenNameTooLong \<Rightarrow> Problem 400 ''name length must be <= 64''
   | TokenValueRequired \<Rightarrow> Problem 400 ''token is required''
   | TokenValueTooLong \<Rightarrow> Problem 400 ''token length must be <= 256''
   | TokenValueWhitespace \<Rightarrow> Problem 400 ''token must not contain whitespace''
   | TokenNameConflict \<Rightarrow> Problem 409 ''token name already exists''
   | TokenValueConflict \<Rightarrow> Problem 409 ''token already exists''
   | _ \<Rightarrow> Problem 500 ''failed to create token'')"

text \<open>The decoded body of a creation: the name and the optional value.\<close>

definition createToken ::
  "(db \<Rightarrow> db) \<Rightarrow> (string \<Rightarrow> string) \<Rightarrow> (random \<times> random) list \<Rightarrow> sessionAccount option \<Rightarrow>
   (string \<times> string option) option \<Rightarrow> console \<Rightarrow> trustedTokenRecord handled" where
  "createToken i hash rnd acct body s = withAccount acct (\<lambda>account.
     case body of
       None \<Rightarrow> ((Problem 400 ''invalid request body'', CookieUnchanged), s)
     | Some (name, tokenInput) \<Rightarrow>
         (case onDB (createTokenFor i hash rnd (cn_now s) (sa_accountID account) name tokenInput) s of
            (Inl err, s) \<Rightarrow> ((tokenProblem err, CookieUnchanged), s)
          | (Inr r, s) \<Rightarrow> ((Reply 201 r, CookieUnchanged), s))) s"

definition deleteToken :: "sessionAccount option \<Rightarrow> string \<Rightarrow> console \<Rightarrow> unit handled" where
  "deleteToken acct tokenIDParam s = withAccount acct (\<lambda>account.
     if trimSpace tokenIDParam = [] then ((Problem 400 ''token_id is required'', CookieUnchanged), s)
     else case onDB (deleteTokenFor (trimSpace tokenIDParam) (sa_accountID account)) s of
            (None, s) \<Rightarrow> ((Bare 204, CookieUnchanged), s)
          | (Some err, s) \<Rightarrow>
              ((if err = TokenNotFound then Problem 404 ''token not found''
                else Problem 500 ''failed to delete token'', CookieUnchanged), s)) s"

definition getTokenValue :: "string \<Rightarrow> unit reply" where
  "getTokenValue tokenIDParam =
     (if trimSpace tokenIDParam = [] then Problem 400 ''token_id is required''
      else Problem 410 ''token value is only returned at creation time; delete and recreate the token to obtain a new value'')"

end
