(* ===== verification/AccountProperties.thy ===== *)
theory AccountProperties
  imports Tokens
begin

text \<open>
  What accounts, console sessions and access tokens guarantee: keys stay unique, nobody becomes or stops being
  an administrator, sessions and tokens authenticate their account and nobody else, and revoking works, except
  for the races and the trimming the last section shows.
\<close>

section \<open>What every request keeps\<close>

text \<open>
  The contract between the handlers and the store: a property of the database that the queries the handlers run
  keep, and the queries of other requests in between too. Handlers only ever insert accounts that are no
  administrators and have a name, change passwords and delete accounts that are no administrators.
\<close>

locale auth_store =
  fixes inv :: "db \<Rightarrow> bool"
  assumes faults: "inv d \<Longrightarrow> inv (d\<lparr>db_faults := fs\<rparr>)"
    and insert_account: "inv d \<Longrightarrow> a_is_admin row = 0 \<Longrightarrow> trimSpace (a_username row) \<noteq> [] \<Longrightarrow> inv (snd (insertAccount row d))"
    and update_password: "inv d \<Longrightarrow> inv (snd (updateAccountPasswordByID h al u accountID d))"
    and delete_account: "inv d \<Longrightarrow> inv (snd (deleteNonAdminAccountByID accountID d))"
    and insert_token: "inv d \<Longrightarrow> inv (snd (insertTrustedToken trow d))"
    and delete_token: "inv d \<Longrightarrow> inv (snd (deleteTrustedTokenByIDAndAccount tokenID accountID d))"
begin

definition ok :: "console \<Rightarrow> bool" where "ok s \<longleftrightarrow> inv (cn_db s)"

lemma read: "inv d \<Longrightarrow> inv (snd (getAccountWhere P d))" "inv d \<Longrightarrow> inv (snd (getTokenWhere Q d))"
  "inv d \<Longrightarrow> inv (snd (countAccounts d))" "inv d \<Longrightarrow> inv (snd (listAccountsPage l off d))"
  "inv d \<Longrightarrow> inv (snd (listTrustedTokensByAccount a d))"
  unfolding getAccountWhere_def getTokenWhere_def countAccounts_def listAccountsPage_def listTrustedTokensByAccount_def
    Let_def
  by (rule dbRun_preserves; simp add: faults)+

lemma ok_onDB: "onDB q s = (r, s') \<Longrightarrow> (\<And>d. inv d \<Longrightarrow> inv (snd (q d))) \<Longrightarrow> ok s \<Longrightarrow> ok s'"
  by (auto simp: onDB_def ok_def split: prod.splits) (metis snd_conv)

lemma ok_simps: "ok (s\<lparr>cn_sessions := ss\<rparr>) = ok s"
  by (simp add: ok_def)

lemma sessions_ok: "createSession rnd a s = (r, s') \<Longrightarrow> ok s' = ok s" "sessionState sid s = (x, s') \<Longrightarrow> ok s' = ok s"
  "ok (deleteSession sid s) = ok s" "ok (deleteSessionsByAccountID acc s) = ok s"
  by (auto simp: createSession_def sessionState_def deleteSession_def deleteSessionsByAccountID_def Let_def ok_simps
      split: sum.splits option.splits if_splits)

lemma classify: "inv d \<Longrightarrow> inv (snd (classifyAccountInsertConflict a u d))"
  "inv d \<Longrightarrow> inv (snd (classifyTrustedTokenInsertConflict a n h t d))"
proof -
  have r: "getAccountWhere P d = (x, d') \<Longrightarrow> inv d \<Longrightarrow> inv d'" "getTokenWhere Q d = (y, d') \<Longrightarrow> inv d \<Longrightarrow> inv d'"
    for P Q d d' x y using read(1,2) by (metis snd_conv)+
  show "inv d \<Longrightarrow> inv (snd (classifyAccountInsertConflict a u d))"
    unfolding classifyAccountInsertConflict_def getAccountByID_def getAccountByUsernameKey_def
    by (auto split: prod.splits sum.splits dest: r)
  show "inv d \<Longrightarrow> inv (snd (classifyTrustedTokenInsertConflict a n h t d))"
    unfolding classifyTrustedTokenInsertConflict_def getTrustedTokenByAccountAndNameKey_def getTrustedTokenByHash_def
      getTrustedTokenByID_def
    by (auto split: prod.splits sum.splits dest: r)
qed

lemma attempts:
  assumes i: "\<And>d. inv d \<Longrightarrow> inv (i d)" and row: "\<And>x. a_is_admin (row x) = 0 \<and> trimSpace (a_username (row x)) \<noteq> []"
  shows "inv d \<Longrightarrow> inv (snd (createAttempts i rnd row d))"
proof (induction rnd arbitrary: d)
  case (Cons r rest)
  have ins: "insertAccount (row x) e = (y, e') \<Longrightarrow> inv e \<Longrightarrow> inv e'" for x e e' y using insert_account row by (metis snd_conv)
  have cl: "classifyAccountInsertConflict a u (i e) = (y, e') \<Longrightarrow> inv e \<Longrightarrow> inv e'" for a u e e' y
    using classify(1) i by (metis snd_conv)
  show ?case using Cons
    by (auto split: prod.splits sum.splits accountInsertConflict.splits dest: ins cl)
qed simp

lemma create_account:
  assumes i: "\<And>d. inv d \<Longrightarrow> inv (i d)" and a: "\<not> ci_isAdmin input" and d: "inv d"
  shows "inv (snd (createAccountWithRetry i bc rnd wall input d))"
proof -
  have at: "createAttempts i R row d = (y, d') \<Longrightarrow> (\<forall>x. a_is_admin (row x) = 0 \<and> trimSpace (a_username (row x)) \<noteq> []) \<longrightarrow> inv d'" for R row y d'
  proof (rule impI)
    assume e: "createAttempts i R row d = (y, d')" and r: "\<forall>x. a_is_admin (row x) = 0 \<and> trimSpace (a_username (row x)) \<noteq> []"
    have "inv (snd (createAttempts i R row d))" by (rule attempts [OF i _ d]) (use r in simp_all)
    with e show "inv d'" by simp
  qed
  show ?thesis using a d
    by (auto simp: createAccountWithRetry_def normalizeAccountUsername_def boolToInt64_def Let_def
        split: sum.split prod.split dest!: at)
qed

lemma token_attempts:
  assumes i: "\<And>d. inv d \<Longrightarrow> inv (i d)"
  shows "inv d \<Longrightarrow> inv (snd (tokenAttempts i given rnd mk d))"
proof (induction rnd arbitrary: d)
  case (Cons r rest)
  have ins: "insertTrustedToken x e = (y, e') \<Longrightarrow> inv e \<Longrightarrow> inv e'" for x e e' y using insert_token by (metis snd_conv)
  have cl: "classifyTrustedTokenInsertConflict a n h t (i e) = (y, e') \<Longrightarrow> inv e \<Longrightarrow> inv e'" for a n h t e e' y
    using classify(2) i by (metis snd_conv)
  show ?case using Cons
    by (auto simp: Let_def split: prod.splits sum.splits option.splits tokenInsertConflict.splits dest: ins cl)
qed simp

lemma create_token:
  assumes i: "\<And>d. inv d \<Longrightarrow> inv (i d)" and d: "inv d"
  shows "inv (snd (createTokenFor i hash rnd now a n t d))"
  using token_attempts [OF i d] d
  by (auto simp: createTokenFor_def Let_def split: sum.split option.split prod.split)

lemma delete_token_for: "inv d \<Longrightarrow> inv (snd (deleteTokenFor t a d))"
  using delete_token [of d t "trimSpace a"] by (auto simp: deleteTokenFor_def split: prod.splits sum.split)

lemma lookup_token: "inv d \<Longrightarrow> inv (snd (lookupTrustedToken hash t d))"
  using read(2) [of d] by (auto simp: lookupTrustedToken_def getTrustedTokenByHash_def split: prod.splits sum.split)
    (metis snd_conv)+

lemma lookup_account: "lookupAccount u s = (r, s') \<Longrightarrow> ok s \<Longrightarrow> ok s'"
  by (auto simp: lookupAccount_def getAccountByUsernameKey_def split: sum.splits prod.splits
      elim!: ok_onDB intro!: read)

lemma login_ok:
  assumes i: "\<And>s. ok s \<Longrightarrow> ok (i s)" and s: "ok s"
  shows "ok (snd (login i bc rnd body s))"
proof (cases body)
  case (Some req)
  obtain x s1 where l: "lookupAccount (lr_username req) s = (x, s1)" by (cases "lookupAccount (lr_username req) s")
  have "ok s1" by (rule lookup_account [OF l s])
  with l Some i show ?thesis
    by (auto simp: login_def sessions_ok(1) split: option.split prod.split sum.split)
qed (use s in \<open>simp add: login_def\<close>)

lemma register_account_ok:
  assumes i: "\<And>d. inv d \<Longrightarrow> inv (i d)" and s: "ok s"
  shows "ok (snd (register i bc rnd acct body s))"
  using s
  by (auto simp: register_def withAccount_def split: option.split prod.split sum.split
      elim!: ok_onDB intro!: create_account i)

lemma change_password_ok:
  assumes i: "\<And>s. ok s \<Longrightarrow> ok (i s)" and s: "ok s"
  shows "ok (snd (changePassword i bc rnd acct body s))"
proof -
  have g: "onDB (getAccountByID a) t = (r, t') \<Longrightarrow> ok t \<Longrightarrow> ok t'" for a r t t'
    unfolding getAccountByID_def by (elim ok_onDB) (rule read)
  have u: "onDB (updateAccountPasswordByID h al n a) (i t) = (r, t') \<Longrightarrow> ok t \<Longrightarrow> ok t'" for h al n a r t t'
    by (elim ok_onDB) (rule update_password, assumption, rule i)
  have gone: "ok (snd (accountGone a t)) = ok t" for a t by (simp add: accountGone_def sessions_ok)
  have renew: "ok (snd (renewSession rnd a t)) = ok t" for a t
    by (auto simp: renewSession_def sessions_ok split: prod.split sum.split dest!: sessions_ok(1))
  show ?thesis using s
    by (auto simp: changePassword_def withAccount_def Let_def gone renew
        split: option.split prod.split sum.split dest!: g u intro: i)
qed

lemma delete_account_ok:
  assumes i: "\<And>s. ok s \<Longrightarrow> ok (i s)" and s: "ok s"
  shows "ok (snd (deleteAccount i acct p s))"
proof -
  have g: "onDB (getAccountByID a) (i t) = (r, t') \<Longrightarrow> ok t \<Longrightarrow> ok t'" for a r t t'
    unfolding getAccountByID_def by (elim ok_onDB) (rule read, assumption, rule i)
  have del: "onDB (deleteNonAdminAccountByID a) t = (r, t') \<Longrightarrow> ok t \<Longrightarrow> ok t'" for a r t t'
    by (elim ok_onDB) (rule delete_account)
  show ?thesis using s
    by (auto simp: deleteAccount_def withAccount_def Let_def sessions_ok
        split: option.split prod.split sum.split dest!: g del intro: i)
qed

lemma tokens_ok:
  assumes i: "\<And>d. inv d \<Longrightarrow> inv (i d)" and s: "ok s"
  shows "ok (snd (createToken i hash rnd acct tbody s))" "ok (snd (deleteToken acct p s))"
    "ok (snd (listTokens acct s))" "ok (snd (requireToken hash h s))"
proof -
  have c: "onDB (createTokenFor i hash rnd n a nm v) s = (r, t') \<Longrightarrow> ok t'" for n a nm v r t'
    by (erule ok_onDB) (auto simp: s intro!: create_token i)
  have del: "onDB (deleteTokenFor t a) s = (r, t') \<Longrightarrow> ok t'" for t a r t'
    by (elim ok_onDB) (rule delete_token_for, assumption, rule s)
  have l: "onDB (listTrustedTokensByAccount a) s = (r, t') \<Longrightarrow> ok t'" for a r t'
    by (elim ok_onDB) (rule read, assumption, rule s)
  have lk: "onDB (lookupTrustedToken hash t) s = (r, t') \<Longrightarrow> ok t'" for t r t'
    by (elim ok_onDB) (rule lookup_token, assumption, rule s)
  show "ok (snd (createToken i hash rnd acct tbody s))" using s
    by (auto simp: createToken_def withAccount_def split: option.split prod.split sum.split dest!: c)
  show "ok (snd (deleteToken acct p s))" using s
    by (auto simp: deleteToken_def withAccount_def split: option.split prod.split dest!: del)
  show "ok (snd (listTokens acct s))" using s
    by (auto simp: listTokens_def withAccount_def split: option.split prod.split sum.split dest!: l)
  show "ok (snd (requireToken hash h s))" using s
    by (auto simp: requireToken_def split: option.split prod.split dest!: lk)
qed

lemma list_accounts_ok: "ok s \<Longrightarrow> ok (snd (listAccounts pg sz s))"
proof -
  assume s: "ok s"
  have c: "onDB countAccounts s = (r, t') \<Longrightarrow> ok t'" for r t'
    by (elim ok_onDB) (rule read, assumption, rule s)
  have l: "onDB (listAccountsPage a b) t = (r, t') \<Longrightarrow> ok t \<Longrightarrow> ok t'" for a b r t t'
    by (elim ok_onDB) (rule read)
  show ?thesis using s
    by (auto simp: listAccounts_def Let_def split: option.split prod.split sum.split dest!: c l)
qed

lemma auth_route_ok: "(\<And>acct s. ok s \<Longrightarrow> ok (snd (h acct s))) \<Longrightarrow> ok s \<Longrightarrow> ok (snd (authRoute ck h s))"
  by (auto simp: authRoute_def requireAuth_def split: option.split prod.split sum.split dest!: sessions_ok(2)
      split: option.splits if_splits prod.splits)

end

section \<open>Keys stay unique\<close>

definition accounts_wf :: "db \<Rightarrow> bool" where
  "accounts_wf d \<longleftrightarrow> distinct (map a_account_id (db_accounts d)) \<and> distinct (map a_username_key (db_accounts d)) \<and>
     distinct (map k_token_id (db_tokens d)) \<and> distinct (map k_token_hash (db_tokens d)) \<and>
     distinct (map (\<lambda>k. (k_account_id k, k_name_key k)) (db_tokens d)) \<and>
     set (map k_account_id (db_tokens d)) \<subseteq> set (map a_account_id (db_accounts d))"

lemma accounts_wf_deleteRows:
  assumes "accounts_wf d"
  shows "accounts_wf (d\<lparr>db_accounts := deleteRows P (db_accounts d),
    db_tokens := deleteRows (\<lambda>k. \<exists>a \<in> set (db_accounts d). P a \<and> a_account_id a = k_account_id k) (db_tokens d)\<rparr>)"
  using assms by (force simp: accounts_wf_def)

lemma accounts_wf_faults: "accounts_wf d \<Longrightarrow> accounts_wf (d\<lparr>db_faults := fs\<rparr>)"
  by (simp add: accounts_wf_def)

interpretation wf_store: auth_store accounts_wf
proof
  fix d :: db and fs row trow h al u accountID tokenID
  show "accounts_wf d \<Longrightarrow> accounts_wf (d\<lparr>db_faults := fs\<rparr>)" by (simp add: accounts_wf_def)
  show "accounts_wf d \<Longrightarrow> accounts_wf (snd (insertAccount row d))"
    unfolding insertAccount_def by (rule dbRun_preserves) (auto simp: accounts_wf_def)
  show "accounts_wf d \<Longrightarrow> accounts_wf (snd (updateAccountPasswordByID h al u accountID d))"
    unfolding updateAccountPasswordByID_def
    by (rule dbRun_preserves) (simp_all add: accounts_wf_def del: set_map)
  show "accounts_wf d \<Longrightarrow> accounts_wf (snd (deleteNonAdminAccountByID accountID d))"
    unfolding deleteNonAdminAccountByID_def deleteAccounts_def
    by (rule dbRun_preserves, erule accounts_wf_faults, unfold snd_conv)
      (rule accounts_wf_deleteRows, erule accounts_wf_faults)
  show "accounts_wf d \<Longrightarrow> accounts_wf (snd (insertTrustedToken trow d))"
    unfolding insertTrustedToken_def
    by (rule dbRun_preserves) (auto simp: accounts_wf_def intro: rev_image_eqI)
  show "accounts_wf d \<Longrightarrow> accounts_wf (snd (deleteTrustedTokenByIDAndAccount tokenID accountID d))"
    unfolding deleteTrustedTokenByIDAndAccount_def by (rule dbRun_preserves) (auto simp: accounts_wf_def)
qed

text \<open>The administrators, with the other columns no request may change.\<close>

definition adminRows :: "db \<Rightarrow> (string \<times> string \<times> string \<times> int) list" where
  "adminRows d = map (\<lambda>a. (a_account_id a, a_username a, a_username_key a, a_created_at a))
     (filter (\<lambda>a. a_is_admin a \<noteq> 0) (db_accounts d))"

lemma filter_updateWhere:
  "(\<And>r. Q (f r) = Q r) \<Longrightarrow> (\<And>r. g (f r) = g r) \<Longrightarrow>
     map g (filter Q (updateWhere P f rows)) = map g (filter Q rows)"
  by (induction rows) auto

interpretation admin_store: auth_store "\<lambda>d. adminRows d = R"
proof
  fix d :: db and fs row trow h al u accountID tokenID
  show "adminRows d = R \<Longrightarrow> adminRows (d\<lparr>db_faults := fs\<rparr>) = R" by (simp add: adminRows_def)
  show "adminRows d = R \<Longrightarrow> a_is_admin row = 0 \<Longrightarrow> trimSpace (a_username row) \<noteq> [] \<Longrightarrow> adminRows (snd (insertAccount row d)) = R"
    unfolding insertAccount_def by (rule dbRun_preserves) (simp_all add: adminRows_def)
  show "adminRows d = R \<Longrightarrow> adminRows (snd (updateAccountPasswordByID h al u accountID d)) = R"
    unfolding updateAccountPasswordByID_def
    by (rule dbRun_preserves) (simp_all add: adminRows_def filter_updateWhere)
  show "adminRows d = R \<Longrightarrow> adminRows (snd (deleteNonAdminAccountByID accountID d)) = R"
    unfolding deleteNonAdminAccountByID_def deleteAccounts_def
    by (rule dbRun_preserves)
      (auto simp: adminRows_def deleteRows_def intro!: arg_cong [where f = "map _"] filter_cong)
  show "adminRows d = R \<Longrightarrow> adminRows (snd (insertTrustedToken trow d)) = R"
    unfolding insertTrustedToken_def by (rule dbRun_preserves) (simp_all add: adminRows_def)
  show "adminRows d = R \<Longrightarrow> adminRows (snd (deleteTrustedTokenByIDAndAccount tokenID accountID d)) = R"
    unfolding deleteTrustedTokenByIDAndAccount_def by (rule dbRun_preserves) (simp_all add: adminRows_def)
qed

text \<open>Every account has a name.\<close>

definition accounts_named :: "db \<Rightarrow> bool" where
  "accounts_named d \<longleftrightarrow> (\<forall>a \<in> set (db_accounts d). trimSpace (a_username a) \<noteq> [])"

interpretation named_store: auth_store accounts_named
proof
  fix d :: db and fs row trow h al u accountID tokenID
  show "accounts_named d \<Longrightarrow> accounts_named (d\<lparr>db_faults := fs\<rparr>)" by (simp add: accounts_named_def)
  show "accounts_named d \<Longrightarrow> a_is_admin row = 0 \<Longrightarrow> trimSpace (a_username row) \<noteq> [] \<Longrightarrow> accounts_named (snd (insertAccount row d))"
    unfolding insertAccount_def by (rule dbRun_preserves) (auto simp: accounts_named_def)
  show "accounts_named d \<Longrightarrow> accounts_named (snd (updateAccountPasswordByID h al u accountID d))"
    unfolding updateAccountPasswordByID_def
    by (rule dbRun_preserves) (auto simp: accounts_named_def in_updateWhere split: if_splits)
  show "accounts_named d \<Longrightarrow> accounts_named (snd (deleteNonAdminAccountByID accountID d))"
    unfolding deleteNonAdminAccountByID_def deleteAccounts_def
    by (rule dbRun_preserves) (auto simp: accounts_named_def deleteRows_def)
  show "accounts_named d \<Longrightarrow> accounts_named (snd (insertTrustedToken trow d))"
    unfolding insertTrustedToken_def by (rule dbRun_preserves) (simp_all add: accounts_named_def)
  show "accounts_named d \<Longrightarrow> accounts_named (snd (deleteTrustedTokenByIDAndAccount tokenID accountID d))"
    unfolding deleteTrustedTokenByIDAndAccount_def by (rule dbRun_preserves) (simp_all add: accounts_named_def)
qed

text \<open>One request to the console, of whatever kind and whoever sends it, running alone on the database; its
  session operations interleave with others' freely, since they do not touch the database.\<close>

inductive request_step :: "console \<Rightarrow> console \<Rightarrow> bool" where
  req_login: "request_step s (snd (login id bc rnd lbody s))"
| req_logout: "request_step s (snd (logout ck s))"
| req_session: "request_step s (snd (authRoute ck session s))"
| req_password: "request_step s (snd (authRoute ck (\<lambda>acct. changePassword id bc rnd acct pbody) s))"
| req_register: "request_step s (snd (adminRoute ck (\<lambda>acct. register id bc rnds acct lbody) s))"
| req_accounts: "request_step s (snd (adminRoute ck (\<lambda>_. listAccounts page pageSz) s))"
| req_delete: "request_step s (snd (adminRoute ck (\<lambda>acct. deleteAccount id acct p) s))"
| req_tokens: "request_step s (snd (authRoute ck listTokens s))"
| req_create_token: "request_step s (snd (authRoute ck (\<lambda>acct. createToken id hash trnds acct tbody) s))"
| req_delete_token: "request_step s (snd (authRoute ck (\<lambda>acct. deleteToken acct p) s))"
| req_token: "request_step s (snd (requireToken hash header s :: (unit reply + string option) \<times> console))"
| req_clock: "cn_now s \<le> t \<Longrightarrow> request_step s (s\<lparr>cn_now := t\<rparr>)"
| req_elsewhere: "db_accounts d = db_accounts (cn_db s) \<Longrightarrow> db_tokens d = db_tokens (cn_db s) \<Longrightarrow>
    request_step s (s\<lparr>cn_db := d\<rparr>)"

inductive_cases request_stepE: "request_step s s'"

context auth_store
begin

lemma admin_route_ok: "(\<And>acct s. ok s \<Longrightarrow> ok (snd (h acct s))) \<Longrightarrow> ok s \<Longrightarrow> ok (snd (adminRoute ck h s))"
  unfolding adminRoute_def by (rule auth_route_ok) (auto split: sum.split)

lemma logout_ok: "ok (snd (logout ck s)) = ok s"
  by (simp add: logout_def sessions_ok split: option.split)

lemma session_ok: "ok s \<Longrightarrow> ok (snd (session acct s))"
  by (simp add: session_def withAccount_def split: option.split)

lemma request_ok:
  assumes "request_step s s'" and s: "ok s"
    and elsewhere: "\<And>d d'. inv d \<Longrightarrow> db_accounts d' = db_accounts d \<Longrightarrow> db_tokens d' = db_tokens d \<Longrightarrow> inv d'"
  shows "ok s'"
  using assms(1)
proof cases
  case (req_clock t)
  with s show ?thesis by (simp add: ok_def)
next
  case (req_elsewhere d)
  with s elsewhere show ?thesis by (simp add: ok_def)
qed (use s in \<open>auto simp: logout_ok intro!: login_ok auth_route_ok admin_route_ok change_password_ok register_account_ok
       list_accounts_ok delete_account_ok tokens_ok session_ok\<close>)

lemma requests_ok:
  assumes "request_step\<^sup>*\<^sup>* s s'" and "ok s"
    and "\<And>d d'. inv d \<Longrightarrow> db_accounts d' = db_accounts d \<Longrightarrow> db_tokens d' = db_tokens d \<Longrightarrow> inv d'"
  shows "ok s'"
  using assms(1) by (induction rule: rtranclp_induct) (use assms(2,3) request_ok in blast)+

end

lemmas request_invariants = wf_store.requests_ok [unfolded wf_store.ok_def]
  admin_store.requests_ok [unfolded admin_store.ok_def] named_store.requests_ok [unfolded named_store.ok_def]

section \<open>Starting up\<close>

lemma adminRows_empty: "adminRows d \<noteq> [] \<longleftrightarrow> (\<exists>a \<in> set (db_accounts d). a_is_admin a \<noteq> 0)"
  by (auto simp: adminRows_def filter_empty_conv)

lemma countAdmin_pos:
  assumes "countAdminAccounts d = (Inr n, d')"
  shows "0 < n \<longleftrightarrow> (\<exists>a \<in> set (db_accounts d). a_is_admin a = 1)" "db_accounts d' = db_accounts d"
proof -
  have "n = countWhere (\<lambda>a. a_is_admin a = 1) (db_accounts d) \<and> db_accounts d' = db_accounts d"
    by (rule dbRun_cases [OF assms [unfolded countAdminAccounts_def]]) auto
  then show "0 < n \<longleftrightarrow> (\<exists>a \<in> set (db_accounts d). a_is_admin a = 1)" "db_accounts d' = db_accounts d"
    by (auto simp: countWhere_def filter_empty_conv)
qed

section \<open>Session ids and tokens survive trimming and headers\<close>

text \<open>A separator of one byte that is part of no longer white space rune.\<close>

lemma trimmed_after_space:
  assumes x: "trimmed x" "x \<noteq> []" and p: "p \<noteq> []" "plain_byte (hd p)"
  shows "trimmed (p @ CHR '' '' # x)"
proof -
  have "no_front ws_runes (p @ CHR '' '' # x)" using p by (intro no_front_plain_hd) auto
  moreover have "no_front (map rev ws_runes) (rev x @ CHR '' '' # rev p)"
    unfolding no_front_def
  proof (intro ballI impI notI)
    fix q assume q: "q \<in> set (map rev ws_runes)" "q \<noteq> []" "prefix q (rev x @ CHR '' '' # rev p)"
    have nx: "\<not> prefix q (rev x)" using x(1) q(1,2) by (auto simp: trimmed_def no_front_def)
    with q(3) have "prefix (rev x @ [CHR '' '']) q" by (auto simp: prefix_append prefix_Cons)
    then have "CHR '' '' \<in> set q" "1 < length q" using x(2) by (auto simp: prefix_def)
    moreover have "\<forall>q \<in> set (map rev ws_runes). CHR '' '' \<in> set q \<longrightarrow> length q \<le> 1" by code_simp
    ultimately show False using q(1) by fastforce
  qed
  ultimately show ?thesis by (simp add: trimmed_def)
qed

text \<open>What creation accepts as a token value passes unharmed through the \<open>Authorization\<close> header.\<close>

lemma bearer_roundtrip:
  assumes t: "trimmed t" "t \<noteq> []" and ns: "\<not> list_ex isSpaceRune (runes t)"
  shows "parseBearerToken (''Bearer '' @ t) = Some t"
proof -
  have "trimmed (''Bearer'' @ CHR '' '' # t)"
    by (rule trimmed_after_space [OF t]) (simp_all add: plain_byte_def ws_runes_def)
  then have tr: "trimSpace (''Bearer '' @ t) = ''Bearer '' @ t" using trimmed_id by simp
  have b: "map (\<lambda>c. [c]) ''Bearer '' = map (\<lambda>c. [c]) ''Bearer'' @ [[CHR '' '']]" by simp
  have "runes (''Bearer '' @ t) = map (\<lambda>c. [c]) ''Bearer'' @ [CHR '' ''] # runes t"
    by (subst runes_ascii_append) (simp_all add: of_char_def)
  moreover have "\<forall>r \<in> set (map (\<lambda>c. [c]) ''Bearer''). \<not> isSpaceRune r" "isSpaceRune [CHR '' '']"
    by (simp_all add: isSpaceRune_def ws_runes_def)
  ultimately have "stringsFields (''Bearer '' @ t) = ''Bearer'' # fieldsOf [] (runes t)"
    unfolding stringsFields_def by (simp only: fieldsOf_append) simp
  also have "fieldsOf [] (runes t) = [t]"
    using ns t(2) by (subst fieldsOf_word) (auto simp: list_ex_iff)
  finally show ?thesis
    using tr t by (simp add: parseBearerToken_def Let_def bearerTokenScheme_def trimmed_id equalFold_def)
qed


section \<open>Sessions\<close>

definition demoBcrypt :: bcrypt where
  "demoBcrypt = \<lparr>bc_generate = (\<lambda>p. Inr (''$'' @ p @ ''$'')), bc_compare = (\<lambda>h p. h = ''$'' @ p @ ''$'')\<rparr>"

definition demoAccount :: "string \<Rightarrow> string \<Rightarrow> int \<Rightarrow> account" where
  "demoAccount accountID name admin = \<lparr>a_account_id = accountID, a_username = name, a_username_key = name,
     a_password_hash = ''$pw$'', a_hash_algo = ''bcrypt'', a_is_admin = admin, a_created_at = 0, a_updated_at = 0\<rparr>"

definition demoConsole :: console where
  "demoConsole = \<lparr>cn_db = emptyDB\<lparr>db_accounts := [demoAccount ''acc_1'' ''root'' 1, demoAccount ''acc_2'' ''bob'' 0]\<rparr>,
     cn_registrationEnabled = True,
     cn_sessions = [(''s1'', \<lparr>ss_account = sessionOf (demoAccount ''acc_1'' ''root'' 1), ss_expiresAt = 10\<rparr>),
       (''s2'', \<lparr>ss_account = sessionOf (demoAccount ''acc_2'' ''bob'' 0), ss_expiresAt = 10\<rparr>)],
     cn_now = 0\<rparr>"

definition demoLogin :: loginRequest where
  "demoLogin = \<lparr>lr_username = '' bob '', lr_password = ''pw''\<rparr>"

lemma requireAuth_Some:
  assumes "requireAuth (Some x) s = (Inr (Some acct), s')"
  obtains st where "map_of (cn_sessions s) x = Some st" "setRequestSessionAccount (ss_account st) = Some acct"
    "cn_now s < ss_expiresAt st" "s' = s" "trimSpace x \<noteq> []"
    "sa_accountID acct = trimSpace (sa_accountID (ss_account st))" "sa_accountID acct \<noteq> []"
  using assms
  by (auto simp: requireAuth_def sessionState_def setRequestSessionAccount_def Let_def
      split: if_splits option.splits prod.splits)

lemma find_member: "List.find P xs = Some x \<Longrightarrow> x \<in> set xs \<and> P x"
  by (induction xs) (auto split: if_splits)

lemma lookupAccount_Some:
  assumes "lookupAccount u s = (Some account, s')"
  obtains fs where "account \<in> set (db_accounts (cn_db s))" "a_username_key account = toLower (trimSpace u)"
    "trimSpace (a_account_id account) \<noteq> []" "s' = s\<lparr>cn_db := (cn_db s)\<lparr>db_faults := fs\<rparr>\<rparr>"
proof -
  obtain d' where q: "getAccountByUsernameKey (toLower (trimSpace u)) (cn_db s) = (Inr account, d')"
    and r: "s' = s\<lparr>cn_db := d'\<rparr>" "trimSpace (a_account_id account) \<noteq> []"
    using assms by (auto simp: lookupAccount_def normalizeAccountUsername_def Let_def onDB_def
        split: if_splits sum.splits prod.splits)
  from q obtain fs where "account \<in> set (db_accounts (cn_db s))" "a_username_key account = toLower (trimSpace u)"
    "d' = (cn_db s)\<lparr>db_faults := fs\<rparr>"
    unfolding getAccountByUsernameKey_def getAccountWhere_def
    by (cases rule: dbRun_cases) (auto split: option.splits dest: find_member)
  with r show thesis using that by blast
qed

lemma createSession_Inr:
  assumes "createSession (Inr raw) a s = (Inr (sid, expiresAt), s')"
  shows "sid = hexEncode raw" "expiresAt = cn_now s + dashboardSessionTTL"
    "s' = s\<lparr>cn_sessions := AList.update sid \<lparr>ss_account = a, ss_expiresAt = expiresAt\<rparr> (cn_sessions s)\<rparr>"
  using assms by (auto simp: createSession_def randomHex_def Let_def)

lemma sessionOf_request:
  "trimSpace (a_account_id a) \<noteq> [] \<Longrightarrow> trimSpace (a_username a) \<noteq> [] \<Longrightarrow>
     setRequestSessionAccount (sessionOf a) = Some (sessionOf a)"
  by (simp add: setRequestSessionAccount_def sessionOf_def)

lemma login_200:
  assumes "login i bc (Inr raw) (Some req) s = ((Reply 200 b, ck), s')"
  obtains account fs s2 where "lookupAccount (lr_username req) s = (Some account, s\<lparr>cn_db := (cn_db s)\<lparr>db_faults := fs\<rparr>\<rparr>)"
    "verifyPassword bc account (lr_password req)" "s2 = i (s\<lparr>cn_db := (cn_db s)\<lparr>db_faults := fs\<rparr>\<rparr>)"
    "ck = CookieSet (hexEncode raw) (cn_now s2 + dashboardSessionTTL)"
    "s' = s2\<lparr>cn_sessions := AList.update (hexEncode raw)
       \<lparr>ss_account = sessionOf account, ss_expiresAt = cn_now s2 + dashboardSessionTTL\<rparr> (cn_sessions s2)\<rparr>"
proof -
  obtain account s1 sid e where l: "lookupAccount (lr_username req) s = (Some account, s1)"
    and v: "verifyPassword bc account (lr_password req)"
    and c: "createSession (Inr raw) (sessionOf account) (i s1) = (Inr (sid, e), s')" "ck = CookieSet sid e"
    using assms by (auto simp: login_def split: option.splits prod.splits if_splits sum.splits)
  obtain fs where s1: "s1 = s\<lparr>cn_db := (cn_db s)\<lparr>db_faults := fs\<rparr>\<rparr>" by (rule lookupAccount_Some [OF l])
  show thesis using that [OF l [unfolded s1] v refl] createSession_Inr [OF c(1)] c(2) unfolding s1 by simp
qed




lemma delete_where_none: "map_of (delete_where P m) k = Some v \<Longrightarrow> \<not> P k v"
  unfolding delete_where_def fold_delete_filter by (drule map_of_SomeD) auto

lemma trim_sessionOf: "trimSpace (sa_accountID (sessionOf a)) = sa_accountID (sessionOf a)"
  by (simp add: sessionOf_def)

lemma deleteSessions_none:
  assumes "map_of (cn_sessions (deleteSessionsByAccountID accountID s)) x = Some st" "trimSpace accountID \<noteq> []"
  shows "trimSpace (sa_accountID (ss_account st)) \<noteq> trimSpace accountID"
  using assms delete_where_none by (fastforce simp: deleteSessionsByAccountID_def Let_def)

lemma getAccountByID_Inr:
  assumes "getAccountByID accountID d = (Inr row, d')"
  obtains fs where "row \<in> set (db_accounts d)" "a_account_id row = accountID" "d' = d\<lparr>db_faults := fs\<rparr>"
  using assms unfolding getAccountByID_def getAccountWhere_def
  by (cases rule: dbRun_cases) (auto split: option.splits dest: find_member)

lemma changePassword_204:
  assumes "changePassword i bc rnd (Some acct) body s = ((Bare 204, ck), s')"
  obtains req row d u where "body = Some req" "getAccountByID (trimSpace (sa_accountID acct)) (cn_db s) = (Inr row, d)"
    "verifyPassword bc row (trimSpace (cp_currentPassword req))" "renewSession rnd row u = ((Bare 204, ck), s')"
  using assms
  by (auto simp: changePassword_def withAccount_def Let_def onDB_def accountGone_def
      split: option.splits prod.splits if_splits sum.splits)

lemma renewSession_204:
  assumes "renewSession rnd row u = ((Bare 204, ck), s')" "trimSpace (a_account_id row) \<noteq> []"
  obtains sid where "ck = CookieSet sid (cn_now s' + dashboardSessionTTL)"
    "\<And>x st. map_of (cn_sessions s') x = Some st \<Longrightarrow>
       trimSpace (sa_accountID (ss_account st)) = trimSpace (a_account_id row) \<Longrightarrow> x = sid"
proof -
  obtain sid e where c: "createSession rnd (sessionOf row) (deleteSessionsByAccountID (sa_accountID (sessionOf row)) u) =
      (Inr (sid, e), s')" and ck: "ck = CookieSet sid e"
    using assms(1) by (auto simp: renewSession_def split: prod.splits sum.splits)
  have id: "trimSpace (sa_accountID (sessionOf row)) = trimSpace (a_account_id row)" by (simp add: sessionOf_def)
  obtain raw where "rnd = Inr raw" using c by (cases rnd) (auto simp: createSession_def randomHex_def)
  note s' = createSession_Inr [OF c [unfolded this]]
  have "x = sid" if x: "map_of (cn_sessions s') x = Some st"
    "trimSpace (sa_accountID (ss_account st)) = trimSpace (a_account_id row)" for x st
  proof (rule ccontr)
    assume "x \<noteq> sid"
    with x(1) have "map_of (cn_sessions (deleteSessionsByAccountID (sa_accountID (sessionOf row)) u)) x = Some st"
      by (simp add: s'(3) update_conv')
    from deleteSessions_none [OF this] x(2) assms(2) show False by (simp add: id)
  qed
  moreover have "ck = CookieSet sid (cn_now s' + dashboardSessionTTL)"
    by (subst s'(3)) (simp only: ck s'(2), simp)
  ultimately show thesis using that by blast
qed

lemma requireAuth_fst:
  assumes "fst (requireAuth (Some x) s) = (Inr (Some acct) :: ('b reply \<times> cookie) + _)"
  shows "\<exists>st. map_of (cn_sessions s) x = Some st \<and> sa_accountID acct = trimSpace (sa_accountID (ss_account st))"
proof -
  obtain s' where "requireAuth (Some x) s = (Inr (Some acct) :: ('b reply \<times> cookie) + _, s')"
    using assms by (metis prod.collapse)
  then show ?thesis by (rule requireAuth_Some) blast
qed


definition demoChange :: changePasswordRequest where
  "demoChange = \<lparr>cp_currentPassword = ''pw'', cp_newPassword = ''pw2''\<rparr>"



text \<open>No account and no token of that id.\<close>

definition accountRemoved :: "string \<Rightarrow> db \<Rightarrow> bool" where
  "accountRemoved accountID d \<longleftrightarrow> (\<forall>a \<in> set (db_accounts d). trimSpace (a_account_id a) \<noteq> accountID) \<and>
     (\<forall>k \<in> set (db_tokens d). trimSpace (k_account_id k) \<noteq> accountID)"

lemma deleteNonAdmin_removes:
  assumes "deleteNonAdminAccountByID target d = (Inr n, d')" "n \<noteq> 0" "accounts_wf d"
    and "\<forall>a \<in> set (db_accounts d). trimSpace (a_account_id a) = a_account_id a"
  shows "accountRemoved target d' \<and> (\<exists>a \<in> set (db_accounts d). a_account_id a = target \<and> a_is_admin a = 0)"
  using assms(1) unfolding deleteNonAdminAccountByID_def deleteAccounts_def
proof (cases rule: dbRun_cases)
  case (ran fs)
  let ?P = "\<lambda>a. a_account_id a = target \<and> a_is_admin a = 0"
  from ran have n: "n = countWhere ?P (db_accounts d)" and d': "db_accounts d' = deleteRows ?P (db_accounts d)"
    "db_tokens d' = deleteRows (\<lambda>k. \<exists>a \<in> set (db_accounts d). ?P a \<and> a_account_id a = k_account_id k) (db_tokens d)"
    by auto
  from n assms(2) obtain a where a: "a \<in> set (db_accounts d)" "?P a"
    by (auto simp: countWhere_def filter_empty_conv)
  have "\<not> (b \<in> set (db_accounts d') \<and> a_account_id b = target)" for b
  proof
    assume b: "b \<in> set (db_accounts d') \<and> a_account_id b = target"
    then have "b \<in> set (db_accounts d)" "a_is_admin b \<noteq> 0" by (auto simp: d'(1))
    with a b assms(3) show False by (auto simp: accounts_wf_def distinct_map inj_on_def)
  qed
  moreover have "set (db_accounts d') \<subseteq> set (db_accounts d)" by (auto simp: d'(1))
  ultimately have "\<forall>b \<in> set (db_accounts d'). trimSpace (a_account_id b) \<noteq> target" using assms(4) by (metis subsetD)
  moreover have "trimSpace (k_account_id k) \<noteq> target" if k: "k \<in> set (db_tokens d')" for k
  proof -
    have "k \<in> set (db_tokens d)" and no: "k_account_id k \<noteq> target" using k a by (auto simp: d'(2))
    then obtain b where "b \<in> set (db_accounts d)" "k_account_id k = a_account_id b"
      using assms(3) by (auto simp: accounts_wf_def)
    with assms(4) no show ?thesis by simp
  qed
  ultimately show ?thesis using a by (auto simp: accountRemoved_def)
qed simp

lemma requireToken_owner:
  assumes "fst (requireToken hash header s) = (Inr (Some ow) :: 'b reply + string option)"
  obtains tok k where "parseBearerToken header = Some tok" "k \<in> set (db_tokens (cn_db s))"
    "k_token_hash k = hash (trimSpace tok)" "ow = trimSpace (k_account_id k)"
proof -
  obtain tok k d where t: "parseBearerToken header = Some tok"
    and q: "lookupTrustedToken hash tok (cn_db s) = (Some k, d)" and ow: "ow = trimSpace (k_account_id k)"
    using assms by (auto simp: requireToken_def onDB_def setRequestOwnerID_def
        split: option.splits prod.splits if_splits)
  from q obtain d' where "getTrustedTokenByHash (hash (trimSpace tok)) (cn_db s) = (Inr k, d')"
    by (auto simp: lookupTrustedToken_def split: prod.splits sum.splits if_splits)
  then have "k \<in> set (db_tokens (cn_db s))" "k_token_hash k = hash (trimSpace tok)"
    unfolding getTrustedTokenByHash_def getTokenWhere_def
    by (auto elim!: dbRun_cases split: option.splits simp: find_Some_iff)
  with that t ow show thesis by blast
qed



text \<open>C32: Over any run of console requests, by whoever, with any failures of the database and any other activity outside
  the two tables, account ids, user names, token ids, token hashes and the token names of one account stay unique,
  every token belongs to an account, and no request makes anybody an administrator, removes one or renames one.\<close>

theorem requests_keep:
  assumes "request_step\<^sup>*\<^sup>* s s'" and "accounts_wf (cn_db s)"
  shows "accounts_wf (cn_db s') \<and> adminRows (cn_db s') = adminRows (cn_db s)"
proof
  show "accounts_wf (cn_db s')"
    by (rule request_invariants(1) [OF assms]) (simp add: accounts_wf_def)
  show "adminRows (cn_db s') = adminRows (cn_db s)"
    by (rule request_invariants(2) [OF assms(1) refl]) (simp add: adminRows_def)
qed

definition demoRegister :: loginRequest where
  "demoRegister = \<lparr>lr_username = ''Eve'', lr_password = ''secret''\<rparr>"

theorem requests_keep_witness:
  "\<exists>s'. s' = snd (adminRoute (Some ''s1'') (\<lambda>acct. register id demoBcrypt [Inr [7]] acct (Some demoRegister)) demoConsole) \<and>
     length (db_accounts (cn_db s')) = 3 \<and> accounts_wf (cn_db s') \<and>
     adminRows (cn_db s') = [(''acc_1'', ''root'', ''root'', 0)]"
proof -
  let ?s = "snd (adminRoute (Some ''s1'') (\<lambda>acct. register id demoBcrypt [Inr [7]] acct (Some demoRegister)) demoConsole)"
  have "request_step\<^sup>*\<^sup>* demoConsole ?s" by (rule r_into_rtranclp) (rule req_register)
  moreover have "accounts_wf (cn_db demoConsole)" by code_simp
  moreover have "length (db_accounts (cn_db ?s)) = 3" by code_simp
  moreover have "adminRows (cn_db demoConsole) = [(''acc_1'', ''root'', ''root'', 0)]" by code_simp
  ultimately show ?thesis using requests_keep [of demoConsole ?s] by auto
qed


section \<open>Access tokens\<close>

lemma insertTrustedToken_Inr:
  assumes "insertTrustedToken row d = (Inr u, d')"
  shows "db_tokens d' = db_tokens d @ [row] \<and> (\<forall>k \<in> set (db_tokens d). k_token_hash k \<noteq> k_token_hash row)"
  using assms unfolding insertTrustedToken_def
  by (cases rule: dbRun_cases) (auto split: if_splits)

lemma tokenAttempts_Inr:
  "tokenAttempts i given rnd mk d = (Inr r, d') \<Longrightarrow>
     (\<exists>tokenID tokenValue. r = mk tokenID tokenValue \<and> (given = Some tokenValue \<or> (\<exists>q. generateTrustedToken q = Inr tokenValue))) \<and>
     (\<exists>ts. db_tokens d' = ts @ [tokenRow r] \<and> (\<forall>k \<in> set ts. k_token_hash k \<noteq> tk_tokenHash r))"
proof (induction rnd arbitrary: d)
  case (Cons q rest)
  have ins: "insertTrustedToken (tokenRow r') e = (Inr u, e') \<Longrightarrow>
      \<exists>ts. db_tokens e' = ts @ [tokenRow r'] \<and> (\<forall>k \<in> set ts. k_token_hash k \<noteq> tk_tokenHash r')" for r' e u e'
    using insertTrustedToken_Inr by (fastforce simp: tokenRow_def)
  from Cons show ?case
    by (auto simp: Let_def split: option.splits sum.splits prod.splits if_splits tokenInsertConflict.splits dest: ins)
qed simp

lemma find_snoc: "P x \<Longrightarrow> \<forall>y \<in> set xs. \<not> P y \<Longrightarrow> List.find P (xs @ [x]) = Some x"
  by (induction xs) auto

lemma tokenValue_bearer:
  assumes "normalizeTokenValue v = Inr tokenValue \<or> generateTrustedToken q = Inr tokenValue"
  shows "parseBearerToken (''Bearer '' @ tokenValue) = Some tokenValue" "trimSpace tokenValue = tokenValue"
proof -
  have "trimmed tokenValue \<and> tokenValue \<noteq> [] \<and> \<not> list_ex isSpaceRune (runes tokenValue)"
    using assms
  proof
    assume "normalizeTokenValue v = Inr tokenValue"
    then show ?thesis by (auto simp: normalizeTokenValue_def Let_def split: if_splits)
  next
    assume "generateTrustedToken q = Inr tokenValue"
    then obtain raw where t: "tokenValue = ''obx_'' @ hexEncode raw"
      by (auto simp: generateTrustedToken_def randomHexString_def generatedTokenPrefix_def split: sum.splits if_splits)
    have w: "\<forall>c \<in> set tokenValue. wordChar c"
      using hex_wordChar by (auto simp: t) (simp_all add: wordChar_def)
    then have "runes (tokenValue @ []) = map (\<lambda>c. [c]) tokenValue @ runes []"
      by (intro runes_ascii_append) (auto intro: wordChar_ascii)
    moreover have "\<not> isSpaceRune [c]" if "c \<in> set tokenValue" for c
      using w that wordChar_plain by (fastforce simp: isSpaceRune_def plain_byte_def)
    moreover have "trimmed tokenValue"
      using w wordChar_plain by (intro trimmed_plain_ends) (auto simp: t)
    ultimately show ?thesis by (auto simp: list_ex_iff t)
  qed
  then show "parseBearerToken (''Bearer '' @ tokenValue) = Some tokenValue" "trimSpace tokenValue = tokenValue"
    by (blast intro: bearer_roundtrip trimmed_id)+
qed

lemma requireToken_Some:
  assumes "parseBearerToken header = Some tok" "getTrustedTokenByHash (hash (trimSpace tok)) (cn_db s) = (Inr k, cn_db s)"
    "trimSpace (k_account_id k) \<noteq> []"
  shows "requireToken hash header s = (Inr (Some (trimSpace (k_account_id k))), s)"
  using assms by (simp add: requireToken_def onDB_def lookupTrustedToken_def setRequestOwnerID_def)

lemma tokenProblem_Reply [simp]: "tokenProblem e \<noteq> Reply c b" "Reply c b \<noteq> tokenProblem e"
  by (cases e; simp add: tokenProblem_def)+

lemma createTokenFor_Inr:
  assumes "createTokenFor i hash rnd now accountID name tokenInput d = (Inr r, d')"
  obtains nm nk given where "tokenAttempts i given (take maxCreateAttempts rnd)
      (tokenRecord hash (trimSpace accountID) nm nk (given = None) now) d = (Inr r, d')"
    "trimSpace accountID \<noteq> []" "given = None \<or> (\<exists>u v. given = Some v \<and> normalizeTokenValue u = Inr v)"
proof (cases tokenInput)
  case None
  with assms that [of None] show thesis
    by (auto simp: createTokenFor_def Let_def split: if_splits sum.splits prod.splits)
next
  case (Some u)
  with assms that [of "Some v" for v] show thesis
    by (auto simp: createTokenFor_def Let_def split: if_splits sum.splits prod.splits)
qed

text \<open>C33: A token the console created, from a value it was given or one it generated, works: sent back as
  \<open>Bearer\<close> with the value of the reply, it passes the parsing of the header and the lookup by hash and
  authenticates the request as the account that created it, whatever the hash function.\<close>

theorem token_roundtrip:
  assumes "createToken i hash rnd (Some acct) body s = ((Reply 201 r, ck), s')" and "db_faults (cn_db s') = []"
  shows "requireToken hash (''Bearer '' @ tk_token r) s' =
     ((Inr (Some (trimSpace (sa_accountID acct))) :: unit reply + string option), s')"
proof -
  obtain name tokenInput d' where c: "createTokenFor i hash rnd (cn_now s) (sa_accountID acct) name tokenInput (cn_db s) = (Inr r, d')"
    and s': "s' = s\<lparr>cn_db := d'\<rparr>"
    using assms(1) by (auto simp: createToken_def withAccount_def onDB_def split: option.splits prod.splits sum.splits)
  obtain nm nk given where a: "tokenAttempts i given (take maxCreateAttempts rnd)
      (tokenRecord hash (trimSpace (sa_accountID acct)) nm nk (given = None) (cn_now s)) (cn_db s) = (Inr r, d')"
    and ne: "trimSpace (sa_accountID acct) \<noteq> []"
    and g: "given = None \<or> (\<exists>u v. given = Some v \<and> normalizeTokenValue u = Inr v)"
    by (rule createTokenFor_Inr [OF c])
  from tokenAttempts_Inr [OF a] obtain tokenID v ts where
      r: "r = tokenRecord hash (trimSpace (sa_accountID acct)) nm nk (given = None) (cn_now s) tokenID v"
    and v: "given = Some v \<or> (\<exists>q. generateTrustedToken q = Inr v)"
    and ts: "db_tokens d' = ts @ [tokenRow r]" "\<forall>k \<in> set ts. k_token_hash k \<noteq> tk_tokenHash r" by auto
  have b: "parseBearerToken (''Bearer '' @ v) = Some v" "trimSpace v = v"
    using tokenValue_bearer v g by (metis option.distinct(1) option.inject)+
  have "List.find (\<lambda>k. k_token_hash k = hash v) (db_tokens d') = Some (tokenRow r)"
    unfolding ts(1) using ts(2) by (intro find_snoc) (simp_all add: r tokenRow_def tokenRecord_def)
  then have q: "getTrustedTokenByHash (hash (trimSpace v)) d' = (Inr (tokenRow r), d')"
    using assms(2) s' by (simp add: getTrustedTokenByHash_def getTokenWhere_def b(2))
  have t: "tk_token r = v" "trimSpace (k_account_id (tokenRow r)) = trimSpace (sa_accountID acct)"
    by (simp_all add: r tokenRow_def tokenRecord_def)
  have "requireToken hash (''Bearer '' @ v) s' = ((Inr (Some (trimSpace (k_account_id (tokenRow r)))) :: unit reply + string option), s')"
    by (rule requireToken_Some [OF b(1)]) (use q ne t in \<open>simp_all add: s'\<close>)
  then show ?thesis by (simp only: t)
qed

lemma reply_statusE:
  assumes "case fst (fst x) of Reply c _ \<Rightarrow> c = n | _ \<Rightarrow> False"
  obtains b ck s where "x = ((Reply n b, ck), s)"
  using assms by (cases x) (auto split: reply.splits)

theorem token_roundtrip_witness:
  "\<exists>r ck s'. createToken id rev [(Inr [1], Inr [])] (Some (sessionOf (demoAccount ''acc_2'' ''bob'' 0)))
      (Some ('' ci '', Some ''x y'')) demoConsole = ((Problem 400 ''token must not contain whitespace'', CookieUnchanged), demoConsole) \<and>
    createToken id rev [(Inr [1], Inr [])] (Some (sessionOf (demoAccount ''acc_2'' ''bob'' 0)))
      (Some ('' ci '', Some '' k-1 '')) demoConsole = ((Reply 201 r, ck), s') \<and>
    requireToken rev (''Bearer '' @ tk_token r) s' = ((Inr (Some ''acc_2'') :: unit reply + string option), s')"
proof -
  let ?r = "\<lambda>v. createToken id rev [(Inr [1], Inr [])] (Some (sessionOf (demoAccount ''acc_2'' ''bob'' 0)))
      (Some ('' ci '', v)) demoConsole"
  have bad: "?r (Some ''x y'') = ((Problem 400 ''token must not contain whitespace'', CookieUnchanged), demoConsole)" by code_simp
  have "case fst (fst (?r (Some '' k-1 ''))) of Reply c _ \<Rightarrow> c = 201 | _ \<Rightarrow> False" by code_simp
  then obtain r ck s' where ok: "?r (Some '' k-1 '') = ((Reply 201 r, ck), s')" by (rule reply_statusE)
  have f: "db_faults (cn_db (snd (?r (Some '' k-1 '')))) = []" by code_simp
  have "trimSpace (sa_accountID (sessionOf (demoAccount ''acc_2'' ''bob'' 0))) = ''acc_2''" by code_simp
  with token_roundtrip [OF ok] f ok bad show ?thesis by auto
qed


lemma deleteToken_204:
  assumes "deleteToken (Some acct) p s = ((Bare 204, ck), s')"
  shows "\<exists>k \<in> set (db_tokens (cn_db s)). k_token_id k = trimSpace p \<and> k_account_id k = trimSpace (sa_accountID acct)"
    "db_tokens (cn_db s') = deleteRows (\<lambda>k. k_token_id k = trimSpace p \<and> k_account_id k = trimSpace (sa_accountID acct))
       (db_tokens (cn_db s))"
proof -
  obtain n d where q: "deleteTrustedTokenByIDAndAccount (trimSpace p) (trimSpace (sa_accountID acct)) (cn_db s) = (Inr n, d)"
    "n \<noteq> 0" "s' = s\<lparr>cn_db := d\<rparr>"
    using assms by (auto simp: deleteToken_def withAccount_def onDB_def deleteTokenFor_def
        split: if_splits prod.splits sum.splits option.splits)
  show "\<exists>k \<in> set (db_tokens (cn_db s)). k_token_id k = trimSpace p \<and> k_account_id k = trimSpace (sa_accountID acct)"
    "db_tokens (cn_db s') = deleteRows (\<lambda>k. k_token_id k = trimSpace p \<and> k_account_id k = trimSpace (sa_accountID acct))
       (db_tokens (cn_db s))"
    using q(1) unfolding deleteTrustedTokenByIDAndAccount_def
    by (cases rule: dbRun_cases; use q(2,3) in \<open>auto simp: countWhere_def filter_empty_conv\<close>)+
qed

lemma deleteToken_foreign:
  assumes "snd (deleteToken (Some acct) p s) = s'"
  shows "filter (\<lambda>k. k_account_id k \<noteq> trimSpace (sa_accountID acct)) (db_tokens (cn_db s')) =
    filter (\<lambda>k. k_account_id k \<noteq> trimSpace (sa_accountID acct)) (db_tokens (cn_db s))"
proof -
  let ?F = "\<lambda>d. filter (\<lambda>k. k_account_id k \<noteq> trimSpace (sa_accountID acct)) (db_tokens d)"
  have "?F (snd (deleteTrustedTokenByIDAndAccount q (trimSpace (sa_accountID acct)) d)) = ?F d" for q d
    unfolding deleteTrustedTokenByIDAndAccount_def
    by (rule dbRun_preserves) (auto simp: deleteRows_def intro: filter_cong)
  then have "deleteTrustedTokenByIDAndAccount q (trimSpace (sa_accountID acct)) d = (x, d') \<Longrightarrow> ?F d' = ?F d" for q d x d'
    by (metis snd_conv)
  then show ?thesis using assms
    by (auto simp: deleteToken_def withAccount_def onDB_def deleteTokenFor_def
        split: if_splits prod.splits sum.splits option.splits)
qed

text \<open>Deleting a token never touches another account's tokens, whatever id the request names. It is answered 204 only
  if the account owns the token of that id, and from then on no header carrying its value authenticates anybody.\<close>

theorem token_deletion:
  assumes "deleteToken (Some acct) tokenIDParam s = ((r, ck), s')" and "accounts_wf (cn_db s)"
  shows "filter (\<lambda>k. k_account_id k \<noteq> trimSpace (sa_accountID acct)) (db_tokens (cn_db s')) =
      filter (\<lambda>k. k_account_id k \<noteq> trimSpace (sa_accountID acct)) (db_tokens (cn_db s)) \<and>
    (r = Bare 204 \<longrightarrow> (\<exists>k \<in> set (db_tokens (cn_db s)). k_token_id k = trimSpace tokenIDParam \<and>
       k_account_id k = trimSpace (sa_accountID acct) \<and>
       (\<forall>hash header tok. parseBearerToken header = Some tok \<and> hash (trimSpace tok) = k_token_hash k \<longrightarrow>
          fst (requireToken hash header s') = (Inl (Problem 401 ''invalid or missing token'') :: unit reply + _))))"
proof (intro conjI impI)
  show "filter (\<lambda>k. k_account_id k \<noteq> trimSpace (sa_accountID acct)) (db_tokens (cn_db s')) =
      filter (\<lambda>k. k_account_id k \<noteq> trimSpace (sa_accountID acct)) (db_tokens (cn_db s))"
    by (rule deleteToken_foreign [where p = tokenIDParam]) (simp add: assms(1))
  assume "r = Bare 204"
  note d = deleteToken_204 [OF assms(1) [unfolded this]]
  from d(1) obtain k where k: "k \<in> set (db_tokens (cn_db s))" "k_token_id k = trimSpace tokenIDParam"
    "k_account_id k = trimSpace (sa_accountID acct)" by auto
  have gone: "\<not> (j \<in> set (db_tokens (cn_db s')) \<and> k_token_hash j = k_token_hash k)" for j
  proof
    assume j: "j \<in> set (db_tokens (cn_db s')) \<and> k_token_hash j = k_token_hash k"
    then have "j \<in> set (db_tokens (cn_db s))" "j \<noteq> k" using d(2) k by auto
    with j k(1) assms(2) show False by (auto simp: accounts_wf_def distinct_map inj_on_def)
  qed
  have "fst (requireToken hash header s') = (Inl (Problem 401 ''invalid or missing token'') :: unit reply + _)"
    if h: "parseBearerToken header = Some tok" "hash (trimSpace tok) = k_token_hash k" for hash header tok
  proof -
    have "fst (lookupTrustedToken hash tok (cn_db s')) = None"
    proof (cases "getTrustedTokenByHash (hash (trimSpace tok)) (cn_db s')")
      case (Pair x d')
      have "\<exists>e. x = Inl e" using Pair gone h(2) unfolding getTrustedTokenByHash_def getTokenWhere_def
        by (auto elim!: dbRun_cases split: option.splits simp: find_Some_iff)
      with Pair show ?thesis by (auto simp: lookupTrustedToken_def)
    qed
    with h(1) show ?thesis by (auto simp: requireToken_def onDB_def split: prod.split option.split)
  qed
  with k show "\<exists>k \<in> set (db_tokens (cn_db s)). k_token_id k = trimSpace tokenIDParam \<and>
       k_account_id k = trimSpace (sa_accountID acct) \<and>
       (\<forall>hash header tok. parseBearerToken header = Some tok \<and> hash (trimSpace tok) = k_token_hash k \<longrightarrow>
          fst (requireToken hash header s') = (Inl (Problem 401 ''invalid or missing token'') :: unit reply + _))"
    by blast
qed

definition demoTokens :: console where
  "demoTokens = demoConsole\<lparr>cn_db := (cn_db demoConsole)\<lparr>db_tokens := [
     tokenRow (tokenRecord rev ''acc_2'' ''ci'' ''ci'' False 0 ''tok_1'' ''abc''),
     tokenRow (tokenRecord rev ''acc_1'' ''ci'' ''ci'' False 0 ''tok_2'' ''xyz'')]\<rparr>\<rparr>"

theorem token_deletion_witness:
  "\<exists>s'. (\<exists>r ck. deleteToken (Some (sessionOf (demoAccount ''acc_2'' ''bob'' 0))) '' tok_1'' demoTokens = ((r, ck), s')) \<and>
     length (filter (\<lambda>k. k_account_id k \<noteq> ''acc_2'') (db_tokens (cn_db s'))) = 1 \<and>
     fst (requireToken rev ''bearer abc'' s') = (Inl (Problem 401 ''invalid or missing token'') :: unit reply + _)"
proof -
  let ?bob = "sessionOf (demoAccount ''acc_2'' ''bob'' 0)"
  let ?r = "deleteToken (Some ?bob) '' tok_1'' demoTokens"
  have "fst ?r = (Bare 204, CookieUnchanged)" by code_simp
  then obtain s' where r: "?r = ((Bare 204, CookieUnchanged), s')" by (metis prod.collapse)
  have wf: "accounts_wf (cn_db demoTokens)" by code_simp
  have i: "trimSpace (sa_accountID ?bob) = ''acc_2''" by code_simp
  have n: "length (filter (\<lambda>k. k_account_id k \<noteq> ''acc_2'') (db_tokens (cn_db demoTokens))) = 1" by code_simp
  have h: "parseBearerToken ''bearer abc'' = Some ''abc''" "\<forall>k \<in> set (db_tokens (cn_db demoTokens)).
      k_token_id k = trimSpace '' tok_1'' \<longrightarrow> rev (trimSpace ''abc'') = k_token_hash k" by code_simp+
  show ?thesis using token_deletion [OF r wf] r n h by (auto simp: i)
qed

section \<open>What goes wrong\<close>

text \<open>An account whose password begins or ends with white space can log in but never change its password: logging in
  compares the password as it is sent, and the change trims both passwords first, so no request body is ever
  answered 204.\<close>

theorem padded_password_locked:
  assumes "getAccountByID (trimSpace (sa_accountID acct)) (cn_db s) = (Inr row, d)"
    and "\<And>q. bc_compare bc (trimSpace (a_password_hash row)) q \<longleftrightarrow> q = password"
    and "equalFold (trimSpace (a_hash_algo row)) ''bcrypt''" and "trimSpace password \<noteq> []" and "trimSpace password \<noteq> password"
  shows "verifyPassword bc row password \<and> fst (fst (changePassword i bc rnd (Some acct) body s)) \<noteq> Bare 204"
proof
  show "verifyPassword bc row password"
    using assms(2-4) by (simp add: verifyPassword_def compareDashboardPassword_def dashboardPasswordHashAlgo_def)
  show "fst (fst (changePassword i bc rnd (Some acct) body s)) \<noteq> Bare 204"
  proof
    assume "fst (fst (changePassword i bc rnd (Some acct) body s)) = Bare 204"
    then obtain ck s' where "changePassword i bc rnd (Some acct) body s = ((Bare 204, ck), s')" by (metis prod.collapse)
    then obtain row' d' and req :: changePasswordRequest where "getAccountByID (trimSpace (sa_accountID acct)) (cn_db s) = (Inr row', d')"
      "verifyPassword bc row' (trimSpace (cp_currentPassword req))"
      by (rule changePassword_204) blast
    then have "trimSpace (cp_currentPassword req) = password"
      using assms(1,2) by (simp add: verifyPassword_def compareDashboardPassword_def)
    with assms(5) show False by auto
  qed
qed

theorem padded_password_locked_witness:
  "fst (fst (changePassword id (demoBcrypt\<lparr>bc_compare := \<lambda>_ q. q = '' pw''\<rparr>) (Inr [7])
     (Some (sessionOf (demoAccount ''acc_2'' ''bob'' 0))) (Some \<lparr>cp_currentPassword = '' pw'', cp_newPassword = ''new''\<rparr>)
     demoConsole)) \<noteq> Bare 204"
proof -
  let ?bob = "demoAccount ''acc_2'' ''bob'' 0"
  have "getAccountByID (trimSpace (sa_accountID (sessionOf ?bob))) (cn_db demoConsole) = (Inr ?bob, cn_db demoConsole)"
    by code_simp
  moreover have "trimSpace '' pw'' \<noteq> []" "trimSpace '' pw'' \<noteq> '' pw''" "equalFold (trimSpace (a_hash_algo ?bob)) ''bcrypt''"
    by code_simp+
  ultimately show ?thesis
    using padded_password_locked [where bc = "demoBcrypt\<lparr>bc_compare := \<lambda>_ q. q = '' pw''\<rparr>" and password = "'' pw''"] by simp
qed

text \<open>A login that runs while its account is being deleted leaves a session of an account that no longer exists: the
  password was verified before the deletion, the session is opened after it, and it authenticates requests.\<close>

theorem login_race:
  "\<exists>s'. (\<exists>b ck. login (\<lambda>u. snd (deleteAccount id (Some (sessionOf (demoAccount ''acc_1'' ''root'' 1))) ''acc_2'' u))
       demoBcrypt (Inr [7]) (Some demoLogin) demoConsole = ((Reply 200 b, ck), s')) \<and>
     accountRemoved ''acc_2'' (cn_db s') \<and>
     fst (requireAuth (Some (hexEncode [7])) s') =
       (Inr (Some (sessionOf (demoAccount ''acc_2'' ''bob'' 0))) :: (unit reply \<times> cookie) + _)"
proof -
  let ?l = "login (\<lambda>u. snd (deleteAccount id (Some (sessionOf (demoAccount ''acc_1'' ''root'' 1))) ''acc_2'' u))
       demoBcrypt (Inr [7]) (Some demoLogin) demoConsole"
  have "case fst (fst ?l) of Reply c _ \<Rightarrow> c = 200 | _ \<Rightarrow> False" by code_simp
  then obtain b ck s' where l: "?l = ((Reply 200 b, ck), s')" by (rule reply_statusE)
  have "accountRemoved ''acc_2'' (cn_db (snd ?l))" by code_simp
  moreover have "fst (requireAuth (Some (hexEncode [7])) (snd ?l)) =
       (Inr (Some (sessionOf (demoAccount ''acc_2'' ''bob'' 0))) :: (unit reply \<times> cookie) + _)" by code_simp
  ultimately show ?thesis using l by auto
qed

end
