(* ===== verification/Process.thy ===== *)
theory Process
  imports WorkerSession Credentials
begin

text \<open>
  Running external programs, shared by the workers: \<open>strconv\<close> on decimal numbers, what \<open>os/exec\<close> reports of a
  process, the docker command line client (\<open>runDockerCommandCLI\<close> and the helpers of
  \<open>worker-docker/internal/runner/python_runtime.go\<close>), \<open>truncateByBytes\<close>, and one Python program in a
  container of its own. What docker answers is an argument; every call and its answer is appended to a log.
\<close>

section \<open>Decimal numbers\<close>

definition digitChar :: "nat \<Rightarrow> char" where "digitChar d = ''0123456789'' ! d"

fun natText :: "nat \<Rightarrow> string" where
  "natText n = (if n < 10 then [digitChar n] else natText (n div 10) @ [digitChar (n mod 10)])"

declare natText.simps [simp del]

definition itoa :: "int \<Rightarrow> string" where
  "itoa i = (if i < 0 then CHR ''-'' # natText (nat (- i)) else natText (nat i))"

definition digitValue :: "char \<Rightarrow> nat option" where
  "digitValue c = (if c \<in> set ''0123456789'' then Some (of_char c - 48) else None)"

primrec digitsValue :: "string \<Rightarrow> nat \<Rightarrow> nat option" where
  "digitsValue [] acc = Some acc"
| "digitsValue (c # cs) acc =
     (case digitValue c of None \<Rightarrow> None | Some d \<Rightarrow> digitsValue cs (acc * 10 + d))"

definition decimalValue :: "string \<Rightarrow> nat option" where
  "decimalValue s = (if s = [] then None else digitsValue s 0)"

text \<open>\<open>strconv.Atoi\<close>: a sign and decimal digits, refused when the number does not fit in 64 bits.\<close>

definition atoi :: "string \<Rightarrow> int option" where
  "atoi s =
     (let n = (case s of
                 [] \<Rightarrow> None
               | c # cs \<Rightarrow>
                   if c = CHR ''-'' then map_option (\<lambda>n. - int n) (decimalValue cs)
                   else if c = CHR ''+'' then map_option int (decimalValue cs)
                   else map_option int (decimalValue s))
      in case n of None \<Rightarrow> None | Some n \<Rightarrow> if - (2 ^ 63) \<le> n \<and> n < 2 ^ 63 then Some n else None)"

lemma digit_roundtrip: "d < 10 \<Longrightarrow> digitValue (digitChar d) = Some d"
proof -
  have "\<forall>d \<in> set [0..<10]. digitValue (digitChar d) = Some d" by code_simp
  then show "d < 10 \<Longrightarrow> digitValue (digitChar d) = Some d" by simp
qed

lemma digitsValue_append:
  "digitsValue (a @ b) acc = (case digitsValue a acc of None \<Rightarrow> None | Some n \<Rightarrow> digitsValue b n)"
  by (induction a arbitrary: acc) (auto split: option.split)

lemma natText_nonempty [simp]: "natText n \<noteq> []"
  by (subst natText.simps) simp

lemma digitsValue_natText: "digitsValue (natText n) 0 = Some n"
proof (induction n rule: natText.induct)
  case (1 n)
  show ?case
  proof (cases "n < 10")
    case False
    with 1 have "digitsValue (natText (n div 10)) 0 = Some (n div 10)" by simp
    with False show ?thesis by (subst natText.simps) (simp add: digitsValue_append digit_roundtrip)
  qed (subst natText.simps, simp add: digit_roundtrip)
qed

lemma natText_head: "hd (natText n) \<in> set ''0123456789''"
proof (induction n rule: natText.induct)
  case (1 n)
  have "digitChar d \<in> set ''0123456789''" if "d < 10" for d
  proof -
    have "length ''0123456789'' = 10" by simp
    then show ?thesis unfolding digitChar_def using that nth_mem by metis
  qed
  with 1 show ?case by (subst natText.simps) (auto simp: hd_append simp del: set_simps)
qed

lemma atoi_itoa: "- (2 ^ 63) \<le> i \<Longrightarrow> i < 2 ^ 63 \<Longrightarrow> atoi (itoa i) = Some i"
proof -
  assume i: "- (2 ^ 63) \<le> i" "i < 2 ^ 63"
  have "hd (natText n) \<noteq> CHR ''-'' \<and> hd (natText n) \<noteq> CHR ''+''" for n using natText_head [of n] by auto
  then have hd: "natText n = c # cs \<Longrightarrow> c \<noteq> CHR ''-'' \<and> c \<noteq> CHR ''+''" for n c cs by (metis list.sel(1))
  have dv: "decimalValue (natText n) = Some n" for n by (simp add: decimalValue_def digitsValue_natText)
  show "atoi (itoa i) = Some i"
  proof (cases "i < 0")
    case False
    obtain c cs where c: "natText (nat i) = c # cs" by (cases "natText (nat i)") auto
    then have "decimalValue (c # cs) = Some (nat i)" using dv by metis
    with c show ?thesis using i False hd [OF c] by (simp add: atoi_def itoa_def Let_def)
  qed (use i in \<open>simp add: atoi_def itoa_def Let_def dv\<close>)
qed

section \<open>Processes\<close>

text \<open>
  How a command started with \<open>exec.CommandContext\<close> ends, and what \<open>Run\<close> makes of it. A context that is over before
  the start, or a program that cannot be started, is an error of its own. A context that ends while the process
  runs kills it, and \<open>Run\<close> prefers to report how the process ended: an \<open>*exec.ExitError\<close>, whose exit
  code is -1 for a killed process.
\<close>

datatype process_end = NotStarted go_error | Exited int | KilledByContext

record process =
  pr_stdout :: string
  pr_stderr :: string
  pr_end :: process_end

datatype run_error = ExitError int | RunError go_error

definition commandRun :: "process_end \<Rightarrow> run_error option" where
  "commandRun e = (case e of
     NotStarted err \<Rightarrow> Some (RunError err)
   | Exited c \<Rightarrow> if c = 0 then None else Some (ExitError c)
   | KilledByContext \<Rightarrow> Some (ExitError (- 1)))"

definition isContextError :: "go_error \<Rightarrow> bool" where
  "isContextError err \<longleftrightarrow> err = CtxDeadlineExceeded \<or> err = CtxCanceled"

definition truncateByBytes :: "string \<Rightarrow> int \<Rightarrow> string \<times> bool" where
  "truncateByBytes value maxBytes =
     (if maxBytes \<le> 0 then (value, False)
      else if int (length value) \<le> maxBytes then (value, False)
      else (take (nat maxBytes) value, True))"

lemma truncateByBytes_fits:
  "0 < maxBytes \<Longrightarrow> int (length (fst (truncateByBytes v maxBytes))) \<le> maxBytes"
  "prefix (fst (truncateByBytes v maxBytes)) v"
  "snd (truncateByBytes v maxBytes) \<longleftrightarrow> fst (truncateByBytes v maxBytes) \<noteq> v"
  by (auto simp: truncateByBytes_def take_is_prefix)

text \<open>The errors of the workers: with a code for the console, a text, or a text around a cause that \<open>errors.Is\<close>
  still finds.\<close>

datatype worker_error = CodedError string string | TextError string | WrapError string go_error

definition newWorkerError :: "string \<Rightarrow> string \<Rightarrow> worker_error" where
  "newWorkerError code message = CodedError (trimSpace code) (trimSpace message)"

definition wrapsContextError :: "worker_error \<Rightarrow> bool" where
  "wrapsContextError err \<longleftrightarrow> (case err of WrapError _ e \<Rightarrow> isContextError e | _ \<Rightarrow> False)"

section \<open>Docker\<close>

record dockerCommandResult =
  dr_stdout :: string
  dr_stderr :: string
  dr_exitCode :: int
  dr_err :: "go_error option"

definition runDockerCommandCLI :: "process \<Rightarrow> dockerCommandResult" where
  "runDockerCommandCLI p =
     (let r = \<lparr>dr_stdout = pr_stdout p, dr_stderr = pr_stderr p, dr_exitCode = 0, dr_err = None\<rparr>
      in case commandRun (pr_end p) of
           None \<Rightarrow> r
         | Some (ExitError c) \<Rightarrow> r\<lparr>dr_exitCode := c\<rparr>
         | Some (RunError e) \<Rightarrow> r\<lparr>dr_err := Some e\<rparr>)"

text \<open>The calls so far with their answers, and one more.\<close>

type_synonym docker_log = "(string list \<times> dockerCommandResult) list"

type_synonym docker = "string list \<Rightarrow> process"

definition runDocker :: "docker \<Rightarrow> string list \<Rightarrow> docker_log \<Rightarrow> dockerCommandResult \<times> docker_log" where
  "runDocker dk args log = (let r = runDockerCommandCLI (dk args) in (r, log @ [(args, r)]))"

definition dockerCommandFailureMessage :: "string \<Rightarrow> int \<Rightarrow> string \<Rightarrow> string" where
  "dockerCommandFailureMessage label value stderr =
     (let message = label @ ''='' @ itoa value
      in if trimSpace stderr \<noteq> [] then message @ '', stderr='' @ trimSpace stderr else message)"

definition isNoSuchContainerMessage :: "string \<Rightarrow> bool" where
  "isNoSuchContainerMessage stderr \<longleftrightarrow> sublist ''no such container'' (toLower stderr)"

definition dockerRemoveArgs :: "string \<Rightarrow> string list" where
  "dockerRemoveArgs containerName = [''rm'', ''-f'', containerName]"

definition succeeded :: "dockerCommandResult \<Rightarrow> bool" where
  "succeeded r \<longleftrightarrow> dr_err r = None \<and> dr_exitCode r = 0"

end
