(* ===== verification/TerminalSessions.thy ===== *)
theory TerminalSessions
  imports Process
begin

text \<open>
  The terminal sessions of the docker worker: \<open>worker-docker/internal/runner/terminal_exec.go\<close> and
  \<open>terminal_resource.go\<close>. A session is a container that outlives the command, kept in a table under a lease; a
  command marks it busy while it runs. An \<open>*terminalSession\<close> is only changed through the table and its id and
  container never change, so the table holds the sessions themselves. The operations release the lock around every
  docker call; what other goroutines do there is the argument \<open>ee_step\<close>.
\<close>

section \<open>State\<close>

definition terminalExecContainerPrefix :: string where "terminalExecContainerPrefix = ''onlyboxes-terminalexec-''"
definition terminalExecCapabilityLabel :: string where
  "terminalExecCapabilityLabel = ''onlyboxes.capability=terminalExec''"
definition terminalExecIdleCommand :: string where "terminalExecIdleCommand = ''while true; do sleep 3600; done''"
definition terminalExecNoSessionMessage :: string where "terminalExecNoSessionMessage = ''session not found''"
definition terminalExecBusyMessage :: string where "terminalExecBusyMessage = ''session is busy''"
definition terminalExecCodeSessionNotFound :: string where "terminalExecCodeSessionNotFound = ''session_not_found''"
definition terminalExecCodeSessionBusy :: string where "terminalExecCodeSessionBusy = ''session_busy''"
definition terminalExecCodeInvalidPayload :: string where "terminalExecCodeInvalidPayload = ''invalid_payload''"
definition defaultTerminalExecDockerImage :: string where
  "defaultTerminalExecDockerImage = ''coolfan1024/onlyboxes-default-worker:0.0.3''"
definition defaultTerminalExecMemoryLimit :: string where "defaultTerminalExecMemoryLimit = ''256m''"
definition defaultTerminalExecCPULimit :: string where "defaultTerminalExecCPULimit = ''1.0''"
definition defaultTerminalExecPidsLimit :: int where "defaultTerminalExecPidsLimit = 128"
definition pythonExecManagedLabel :: string where "pythonExecManagedLabel = ''onlyboxes.managed=true''"
definition pythonExecRuntimeLabel :: string where "pythonExecRuntimeLabel = ''onlyboxes.runtime=worker-docker''"

record terminalExecRequest =
  rq_command :: string
  rq_sessionID :: string
  rq_createIfMissing :: bool
  rq_leaseTTLSec :: "int option"

record terminalExecRunResult =
  rr_sessionID :: string
  rr_created :: bool
  rr_stdout :: string
  rr_stderr :: string
  rr_exitCode :: int
  rr_stdoutTruncated :: bool
  rr_stderrTruncated :: bool
  rr_leaseExpiresUnixMS :: int

record terminalSession =
  tn_sessionID :: string
  tn_containerName :: string
  tn_leaseExpiresAt :: gtime
  tn_busy :: bool

record terminalSessionManagerConfig =
  tc_leaseMinSec :: int
  tc_leaseMaxSec :: int
  tc_leaseDefaultSec :: int
  tc_outputLimitBytes :: int
  tc_dockerImage :: string
  tc_memoryLimit :: string
  tc_cpuLimit :: string
  tc_pidsLimit :: int

text \<open>The manager, with the clock and the docker calls made so far.\<close>

record terminalSessionManager =
  tm_sessions :: "(string \<times> terminalSession) list"
  tm_leaseMinSec :: int
  tm_leaseMaxSec :: int
  tm_leaseDefaultSec :: int
  tm_outputLimitBytes :: int
  tm_dockerImage :: string
  tm_memoryLimit :: string
  tm_cpuLimit :: string
  tm_pidsLimit :: int
  tm_closed :: bool
  tm_now :: gtime
  tm_docker :: docker_log

type_synonym manager = terminalSessionManager

definition newTerminalSessionManager :: "terminalSessionManagerConfig \<Rightarrow> gtime \<Rightarrow> manager" where
  "newTerminalSessionManager cfg now =
     (let leaseMinSec = (if tc_leaseMinSec cfg \<le> 0 then 60 else tc_leaseMinSec cfg);
          leaseMaxSec = (if tc_leaseMaxSec cfg \<le> 0 then 1800 else tc_leaseMaxSec cfg);
          leaseMaxSec = (if leaseMaxSec < leaseMinSec then leaseMinSec else leaseMaxSec);
          leaseDefaultSec = (if tc_leaseDefaultSec cfg \<le> 0 then 60 else tc_leaseDefaultSec cfg);
          leaseDefaultSec = (if leaseDefaultSec < leaseMinSec then leaseMinSec else leaseDefaultSec);
          leaseDefaultSec = (if leaseDefaultSec > leaseMaxSec then leaseMaxSec else leaseDefaultSec)
      in \<lparr>tm_sessions = [], tm_leaseMinSec = leaseMinSec, tm_leaseMaxSec = leaseMaxSec,
          tm_leaseDefaultSec = leaseDefaultSec,
          tm_outputLimitBytes = (if tc_outputLimitBytes cfg \<le> 0 then 1024 * 1024 else tc_outputLimitBytes cfg),
          tm_dockerImage = (if trimSpace (tc_dockerImage cfg) = [] then defaultTerminalExecDockerImage
                            else trimSpace (tc_dockerImage cfg)),
          tm_memoryLimit = (if trimSpace (tc_memoryLimit cfg) = [] then defaultTerminalExecMemoryLimit
                            else trimSpace (tc_memoryLimit cfg)),
          tm_cpuLimit = (if trimSpace (tc_cpuLimit cfg) = [] then defaultTerminalExecCPULimit
                         else trimSpace (tc_cpuLimit cfg)),
          tm_pidsLimit = (if tc_pidsLimit cfg \<le> 0 then defaultTerminalExecPidsLimit else tc_pidsLimit cfg),
          tm_closed = False, tm_now = now, tm_docker = []\<rparr>)"

text \<open>What an operation meets: the other goroutines, docker, and the random ids drawn (a failing \<open>uuid.NewString\<close>
  panics).\<close>

record exec_env =
  ee_step :: "manager \<Rightarrow> manager"
  ee_docker :: docker
  ee_uuid :: string
  ee_random :: random

definition docker :: "exec_env \<Rightarrow> string list \<Rightarrow> manager \<Rightarrow> dockerCommandResult \<times> manager" where
  "docker env args m =
     (case runDocker (ee_docker env) args (tm_docker m) of (r, log) \<Rightarrow> (r, m\<lparr>tm_docker := log\<rparr>))"

section \<open>Docker commands\<close>

definition terminalExecDockerCreateArgs :: "string \<Rightarrow> string \<Rightarrow> string \<Rightarrow> string \<Rightarrow> int \<Rightarrow> string list" where
  "terminalExecDockerCreateArgs containerName dockerImage memoryLimit cpuLimit pidsLimit =
     [''create'', ''--name'', containerName, ''--label'', pythonExecManagedLabel,
      ''--label'', terminalExecCapabilityLabel, ''--label'', pythonExecRuntimeLabel,
      ''--memory'', memoryLimit, ''--cpus'', cpuLimit, ''--pids-limit'', itoa pidsLimit,
      dockerImage, ''sh'', ''-lc'', terminalExecIdleCommand]"

definition terminalExecDockerStartArgs :: "string \<Rightarrow> string list" where
  "terminalExecDockerStartArgs containerName = [''start'', containerName]"

definition terminalExecDockerExecArgs :: "string \<Rightarrow> string \<Rightarrow> string list" where
  "terminalExecDockerExecArgs containerName command = [''exec'', containerName, ''sh'', ''-lc'', command]"

definition newTerminalExecContainerName :: "random \<Rightarrow> go_error + string" where
  "newTerminalExecContainerName rnd =
     (case randomHex 8 rnd of Inl e \<Rightarrow> Inl e | Inr ending \<Rightarrow> Inr (terminalExecContainerPrefix @ ending))"

text \<open>Removing a container tells nobody when it fails; the failure is logged.\<close>

definition forceRemoveContainer :: "exec_env \<Rightarrow> string \<Rightarrow> manager \<Rightarrow> manager" where
  "forceRemoveContainer env containerName m =
     (if trimSpace containerName = [] then m
      else snd (docker env (dockerRemoveArgs (trimSpace containerName)) m))"

section \<open>The session table\<close>

definition resolveLeaseDuration :: "int option \<Rightarrow> manager \<Rightarrow> worker_error + gduration" where
  "resolveLeaseDuration leaseTTLSec m =
     (let leaseSec = (case leaseTTLSec of None \<Rightarrow> tm_leaseDefaultSec m | Some n \<Rightarrow> n)
      in if leaseSec < tm_leaseMinSec m \<or> leaseSec > tm_leaseMaxSec m
         then Inl (newWorkerError terminalExecCodeInvalidPayload
                (''lease_ttl_sec must be between '' @ itoa (tm_leaseMinSec m) @ '' and '' @ itoa (tm_leaseMaxSec m)))
         else Inr (wrap64 (leaseSec * second)))"

definition markSessionIdle :: "string \<Rightarrow> manager \<Rightarrow> gtime option \<times> manager" where
  "markSessionIdle sessionID m =
     (let sessionID = trimSpace sessionID
      in if sessionID = [] then (None, m)
         else case map_of (tm_sessions m) sessionID of
                None \<Rightarrow> (None, m)
              | Some session \<Rightarrow>
                  (Some (tn_leaseExpiresAt session),
                   m\<lparr>tm_sessions := AList.update sessionID (session\<lparr>tn_busy := False\<rparr>) (tm_sessions m)\<rparr>))"

definition dropSession :: "string \<Rightarrow> manager \<Rightarrow> manager" where
  "dropSession sessionID m =
     (let sessionID = trimSpace sessionID
      in if sessionID = [] then m else m\<lparr>tm_sessions := AList.delete sessionID (tm_sessions m)\<rparr>)"

definition destroySession :: "exec_env \<Rightarrow> string \<Rightarrow> manager \<Rightarrow> manager" where
  "destroySession env sessionID m =
     (let sessionID = trimSpace sessionID
      in if sessionID = [] then m
         else case map_of (tm_sessions m) sessionID of
                None \<Rightarrow> m
              | Some session \<Rightarrow>
                  forceRemoveContainer env (tn_containerName session)
                    (ee_step env (m\<lparr>tm_sessions := AList.delete sessionID (tm_sessions m)\<rparr>)))"

text \<open>\<open>cleanupExpiredSessions\<close>: the expired idle sessions leave the table at once, then their containers go one by
  one; the source ranges over a map, so the order of the removals is any.\<close>

definition expiredSession :: "gtime \<Rightarrow> terminalSession \<Rightarrow> bool" where
  "expiredSession now session \<longleftrightarrow> \<not> tn_busy session \<and> \<not> tn_leaseExpiresAt session > now"

primrec removeContainers :: "exec_env \<Rightarrow> string list \<Rightarrow> manager \<Rightarrow> manager" where
  "removeContainers env [] m = m"
| "removeContainers env (c # cs) m = removeContainers env cs (forceRemoveContainer env c (ee_step env m))"

definition cleanupExpiredSessions :: "exec_env \<Rightarrow> manager \<Rightarrow> manager" where
  "cleanupExpiredSessions env m =
     removeContainers env
       (map (tn_containerName \<circ> snd) (filter (\<lambda>(_, session). expiredSession (tm_now m) session) (tm_sessions m)))
       (m\<lparr>tm_sessions := filter (\<lambda>(_, session). \<not> expiredSession (tm_now m) session) (tm_sessions m)\<rparr>)"

text \<open>\<open>Close\<close>, after the janitor has ended.\<close>

definition closeManager :: "exec_env \<Rightarrow> manager \<Rightarrow> manager" where
  "closeManager env m =
     (if tm_closed m then m
      else let m = ee_step env (m\<lparr>tm_closed := True\<rparr>)
           in removeContainers env (map (tn_containerName \<circ> snd) (tm_sessions m)) (m\<lparr>tm_sessions := []\<rparr>))"

section \<open>Executing a command\<close>

text \<open>The critical section of \<open>Execute\<close>: the session's id and container, and whether it is new.\<close>

definition addSession :: "string \<Rightarrow> string \<Rightarrow> gtime \<Rightarrow> manager \<Rightarrow> manager" where
  "addSession sessionID containerName leaseTarget m =
     m\<lparr>tm_sessions := AList.update sessionID
         \<lparr>tn_sessionID = sessionID, tn_containerName = containerName, tn_leaseExpiresAt = leaseTarget, tn_busy = True\<rparr>
         (tm_sessions m)\<rparr>"

definition acquireSession ::
  "exec_env \<Rightarrow> terminalExecRequest \<Rightarrow> gtime \<Rightarrow> manager \<Rightarrow> (worker_error + string \<times> string \<times> bool) \<times> manager" where
  "acquireSession env req leaseTarget m =
     (let sessionID = trimSpace (rq_sessionID req);
          create = (\<lambda>sessionID. case newTerminalExecContainerName (ee_random env) of
            Inl e \<Rightarrow> (Inl (WrapError ''allocate terminal container name: '' e), m)
          | Inr containerName \<Rightarrow>
              (Inr (sessionID, containerName, True), addSession sessionID containerName leaseTarget m))
      in if sessionID = [] then create (ee_uuid env)
         else case map_of (tm_sessions m) sessionID of
                None \<Rightarrow>
                  if \<not> rq_createIfMissing req
                  then (Inl (newWorkerError terminalExecCodeSessionNotFound terminalExecNoSessionMessage), m)
                  else create sessionID
              | Some existing \<Rightarrow>
                  if tn_busy existing
                  then (Inl (newWorkerError terminalExecCodeSessionBusy terminalExecBusyMessage), m)
                  else (Inr (tn_sessionID existing, tn_containerName existing, False),
                        m\<lparr>tm_sessions := AList.update sessionID
                            (existing\<lparr>tn_busy := True, tn_leaseExpiresAt := max (tn_leaseExpiresAt existing) leaseTarget\<rparr>)
                            (tm_sessions m)\<rparr>))"

definition createAndStartContainer :: "exec_env \<Rightarrow> string \<Rightarrow> manager \<Rightarrow> worker_error option \<times> manager" where
  "createAndStartContainer env containerName m =
     (case docker env (terminalExecDockerCreateArgs containerName (tm_dockerImage m) (tm_memoryLimit m) (tm_cpuLimit m)
             (tm_pidsLimit m)) m of
        (r, m) \<Rightarrow>
      case dr_err r of
        Some e \<Rightarrow> (Some (WrapError ''docker create failed: '' e), m)
      | None \<Rightarrow>
          if dr_exitCode r \<noteq> 0
          then (Some (TextError (''docker create failed: '' @
                  dockerCommandFailureMessage ''exit code'' (dr_exitCode r) (dr_stderr r))), m)
          else case docker env (terminalExecDockerStartArgs containerName) (ee_step env m) of
                 (r, m) \<Rightarrow>
               case dr_err r of
                 Some e \<Rightarrow>
                   (Some (WrapError ''docker start failed: '' e), forceRemoveContainer env containerName (ee_step env m))
               | None \<Rightarrow>
                   if dr_exitCode r \<noteq> 0
                   then (Some (TextError (''docker start failed: '' @
                           dockerCommandFailureMessage ''exit code'' (dr_exitCode r) (dr_stderr r))),
                         forceRemoveContainer env containerName (ee_step env m))
                   else (None, m))"

text \<open>The end of \<open>Execute\<close>, from the \<open>docker exec\<close> on.\<close>

definition runInSession ::
  "exec_env \<Rightarrow> string \<Rightarrow> string \<Rightarrow> string \<Rightarrow> bool \<Rightarrow> manager \<Rightarrow> (worker_error + terminalExecRunResult) \<times> manager" where
  "runInSession env command sessionID containerName created m =
     (case docker env (terminalExecDockerExecArgs containerName command) m of
        (r, m) \<Rightarrow>
      let m = ee_step env m in
      case dr_err r of
        Some e \<Rightarrow>
          if isContextError e then (Inl (WrapError [] e), destroySession env sessionID m)
          else (Inl (WrapError ''docker exec failed: '' e), snd (markSessionIdle sessionID m))
      | None \<Rightarrow>
          if isNoSuchContainerMessage (dr_stderr r)
          then (Inl (newWorkerError terminalExecCodeSessionNotFound terminalExecNoSessionMessage),
                destroySession env sessionID m)
          else case markSessionIdle sessionID m of
                 (None, m) \<Rightarrow> (Inl (newWorkerError terminalExecCodeSessionNotFound terminalExecNoSessionMessage), m)
               | (Some leaseExpiresAt, m) \<Rightarrow>
                   (Inr \<lparr>rr_sessionID = sessionID, rr_created = created,
                      rr_stdout = fst (truncateByBytes (dr_stdout r) (tm_outputLimitBytes m)),
                      rr_stderr = fst (truncateByBytes (dr_stderr r) (tm_outputLimitBytes m)),
                      rr_exitCode = dr_exitCode r,
                      rr_stdoutTruncated = snd (truncateByBytes (dr_stdout r) (tm_outputLimitBytes m)),
                      rr_stderrTruncated = snd (truncateByBytes (dr_stderr r) (tm_outputLimitBytes m)),
                      rr_leaseExpiresUnixMS = unixMilli leaseExpiresAt\<rparr>, m))"

definition execute ::
  "exec_env \<Rightarrow> terminalExecRequest \<Rightarrow> manager \<Rightarrow> (worker_error + terminalExecRunResult) \<times> manager" where
  "execute env req m =
     (let command = trimSpace (rq_command req)
      in if command = [] then (Inl (newWorkerError terminalExecCodeInvalidPayload ''command is required''), m)
         else case resolveLeaseDuration (rq_leaseTTLSec req) m of
           Inl e \<Rightarrow> (Inl e, m)
         | Inr leaseDuration \<Rightarrow>
             (case acquireSession env req (tm_now m + leaseDuration) (ee_step env m) of
                (Inl e, m) \<Rightarrow> (Inl e, m)
              | (Inr (sessionID, containerName, created), m) \<Rightarrow>
                  let m = ee_step env m in
                  if created
                  then (case createAndStartContainer env containerName m of
                          (Some e, m) \<Rightarrow> (Inl e, dropSession sessionID (ee_step env m))
                        | (None, m) \<Rightarrow> runInSession env command sessionID containerName created (ee_step env m))
                  else runInSession env command sessionID containerName created m))"

end
