(* ===== verification/Base64.thy ===== *)
theory Base64
  imports Prelude
begin

text \<open>
  \<open>encoding/base64\<close>'s \<open>StdEncoding\<close>: what the workers encode file contents with (\<open>encoding/json\<close> writes a byte
  slice so) and decode them with. The decoder skips line breaks, insists on padding and ignores the unused bits
  of the last group.
\<close>

definition b64Alphabet :: string where
  "b64Alphabet = ''ABCDEFGHIJKLMNOPQRSTUVWXYZabcdefghijklmnopqrstuvwxyz0123456789+/''"

definition b64Char :: "nat \<Rightarrow> char" where "b64Char n = b64Alphabet ! (n mod 64)"

definition b64Index :: "char \<Rightarrow> nat option" where
  "b64Index c = map_option fst (List.find (\<lambda>(i, d). d = c) (List.enumerate 0 b64Alphabet))"

definition byteOf :: "nat \<Rightarrow> char" where "byteOf n = char_of (n mod 256)"

fun b64Encode :: "string \<Rightarrow> string" where
  "b64Encode [] = []"
| "b64Encode [a] =
     (let n = of_char a * 16 in [b64Char (n div 64), b64Char n, CHR ''='', CHR ''=''])"
| "b64Encode [a, b] =
     (let n = (of_char a * 256 + of_char b) * 4
      in [b64Char (n div 4096), b64Char (n div 64), b64Char n, CHR ''=''])"
| "b64Encode (a # b # c # rest) =
     (let n = of_char a * 65536 + of_char b * 256 + of_char c
      in [b64Char (n div 262144), b64Char (n div 4096), b64Char (n div 64), b64Char n] @ b64Encode rest)"

definition b64Value :: "string \<Rightarrow> nat option" where
  "b64Value cs = fold (\<lambda>c acc. case acc of None \<Rightarrow> None | Some n \<Rightarrow>
     (case b64Index c of None \<Rightarrow> None | Some d \<Rightarrow> Some (n * 64 + d))) cs (Some 0)"

fun b64Groups :: "string \<Rightarrow> string option" where
  "b64Groups [] = Some []"
| "b64Groups [a, b, c, d] =
     (if d \<noteq> CHR ''=''
      then map_option (\<lambda>n. [byteOf (n div 65536), byteOf (n div 256), byteOf n]) (b64Value [a, b, c, d])
      else if c \<noteq> CHR ''=''
      then map_option (\<lambda>n. [byteOf (n div 1024), byteOf (n div 4)]) (b64Value [a, b, c])
      else map_option (\<lambda>n. [byteOf (n div 16)]) (b64Value [a, b]))"
| "b64Groups (a # b # c # d # rest) =
     (case b64Value [a, b, c, d] of
        None \<Rightarrow> None
      | Some n \<Rightarrow> map_option (\<lambda>out. [byteOf (n div 65536), byteOf (n div 256), byteOf n] @ out) (b64Groups rest))"
| "b64Groups _ = None"

definition b64Decode :: "string \<Rightarrow> string option" where
  "b64Decode s = b64Groups (filter (\<lambda>c. c \<noteq> CHR 0x0A \<and> c \<noteq> CHR 0x0D) s)"

section \<open>Round trip\<close>

lemma b64Index_Char [simp]: "b64Index (b64Char n) = Some (n mod 64)"
proof -
  have "\<forall>i \<in> set [0..<64]. b64Index (b64Alphabet ! i) = Some i" by code_simp
  then show ?thesis unfolding b64Char_def by (rule bspec) simp
qed

lemma b64Char_neq: "b64Char n \<noteq> CHR ''=''" "b64Char n \<noteq> CHR 0x0A" "b64Char n \<noteq> CHR 0x0D"
proof -
  have "\<forall>i \<in> set [0..<64]. b64Alphabet ! i \<noteq> CHR ''='' \<and> b64Alphabet ! i \<noteq> CHR 0x0A \<and> b64Alphabet ! i \<noteq> CHR 0x0D"
    by code_simp
  then have "b64Alphabet ! (n mod 64) \<noteq> CHR ''='' \<and> b64Alphabet ! (n mod 64) \<noteq> CHR 0x0A \<and> b64Alphabet ! (n mod 64) \<noteq> CHR 0x0D"
    by (rule bspec) simp
  then show "b64Char n \<noteq> CHR ''=''" "b64Char n \<noteq> CHR 0x0A" "b64Char n \<noteq> CHR 0x0D" by (simp_all add: b64Char_def)
qed

lemma b64Value_chars:
  "b64Value [b64Char i, b64Char j] = Some (i mod 64 * 64 + j mod 64)"
  "b64Value [b64Char i, b64Char j, b64Char k] = Some ((i mod 64 * 64 + j mod 64) * 64 + k mod 64)"
  "b64Value [b64Char i, b64Char j, b64Char k, b64Char l] =
     Some (((i mod 64 * 64 + j mod 64) * 64 + k mod 64) * 64 + l mod 64)"
  by (simp_all add: b64Value_def)

text \<open>Four digits of six bits make up a number of 24 bits.\<close>

lemma digits64:
  fixes n :: nat
  shows "n < 4096 \<Longrightarrow> n div 64 mod 64 * 64 + n mod 64 = n"
    "n < 262144 \<Longrightarrow> (n div 4096 mod 64 * 64 + n div 64 mod 64) * 64 + n mod 64 = n"
    "n < 16777216 \<Longrightarrow> ((n div 262144 mod 64 * 64 + n div 4096 mod 64) * 64 + n div 64 mod 64) * 64 + n mod 64 = n"
proof -
  have q: "q div 64 * 64 + q mod 64 = q" for q :: nat by simp
  have d: "n div 4096 = n div 64 div 64" "n div 262144 = n div 64 div 64 div 64"
    using div_mult2_eq [of n 64 64] div_mult2_eq [of n 4096 64] by simp_all
  show "n < 4096 \<Longrightarrow> n div 64 mod 64 * 64 + n mod 64 = n"
    "n < 262144 \<Longrightarrow> (n div 4096 mod 64 * 64 + n div 64 mod 64) * 64 + n mod 64 = n"
    "n < 16777216 \<Longrightarrow> ((n div 262144 mod 64 * 64 + n div 4096 mod 64) * 64 + n div 64 mod 64) * 64 + n mod 64 = n"
    by (simp_all only: d q mod_less less_mult_imp_div_less)
qed

lemma char_lt: "of_char (c :: char) < (256 :: nat)"
  using of_char_mod_256 [of c, where 'a = nat] by (metis mod_less_divisor zero_less_numeral)

lemma byteOf_char: "byteOf (of_char c) = c" "k mod 256 = 0 \<Longrightarrow> byteOf (k + of_char c) = c"
  using char_lt [of c] by (simp_all add: byteOf_def mod_add_left_eq [symmetric] del: mod_add_left_eq)

lemma bytes3:
  fixes a b c :: nat assumes "a < 256" "b < 256" "c < 256"
  shows "(a * 65536 + b * 256 + c) div 65536 = a" "(a * 65536 + b * 256 + c) div 256 mod 256 = b"
    "(a * 65536 + b * 256 + c) mod 256 = c" "a * 65536 + b * 256 + c < 16777216"
proof -
  have e: "a * 65536 + b * 256 + c = (a * 256 + b) * 256 + c" by simp
  have d: "(a * 65536 + b * 256 + c) div 256 = a * 256 + b"
    by (subst e) (use assms(3) in \<open>simp only: div_mult_self3 div_less zero_neq_numeral not_False_eq_True add_0_right\<close>)
  show "(a * 65536 + b * 256 + c) div 65536 = a" using assms by (intro div_nat_eqI) simp_all
  show "(a * 65536 + b * 256 + c) div 256 mod 256 = b" using assms(2) by (simp only: d mod_mult_self3 mod_less)
  show "(a * 65536 + b * 256 + c) mod 256 = c"
    by (subst e) (use assms(3) in \<open>simp only: mod_mult_self3 mod_less\<close>)
  show "a * 65536 + b * 256 + c < 16777216" using assms by simp
qed

lemma b64Groups_cons:
  "d \<noteq> CHR ''='' \<Longrightarrow> b64Groups (a # b # c # d # rest) =
     (case b64Value [a, b, c, d] of
        None \<Rightarrow> None
      | Some n \<Rightarrow> map_option (\<lambda>out. [byteOf (n div 65536), byteOf (n div 256), byteOf n] @ out) (b64Groups rest))"
  by (cases rest) (auto split: option.split simp: option.map_comp comp_def fun_eq_iff intro!: arg_cong2 [where f = map_option])

lemma b64Groups_encode: "b64Groups (b64Encode s) = Some s"
proof (induction s rule: b64Encode.induct)
  case (2 a)
  let ?n = "of_char a * 16 :: nat"
  have "?n < 4096" "?n div 16 = of_char a" using char_lt [of a] by simp_all
  then show ?case
    by (simp only: b64Encode.simps Let_def b64Groups.simps b64Char_neq b64Value_chars digits64 byteOf_def) simp
next
  case (3 a b)
  let ?n = "(of_char a * 256 + of_char b) * 4 :: nat"
  have "(x * 256 + y) * 4 < 262144 \<and> (x * 256 + y) * 4 div 1024 = x" if "x < 256" "y < 256" for x y :: nat
    using that by (auto intro!: div_nat_eqI)
  then have lt: "?n < 262144" "?n div 1024 = of_char a" using char_lt by blast+
  have "?n div 4 = of_char a * 256 + of_char b" by simp
  then have m: "?n div 4 mod 256 = of_char b" using char_lt [of b] by (simp only: mod_mult_self3 mod_less)
  have v: "b64Value [b64Char (?n div 4096), b64Char (?n div 64), b64Char ?n] = Some ?n"
    by (simp only: b64Value_chars digits64 lt)
  have "byteOf (?n div 1024) = a" "byteOf (?n div 4) = b"
    unfolding byteOf_def m unfolding lt by simp_all
  with v show ?case by (simp only: b64Encode.simps Let_def b64Groups.simps b64Char_neq if_True if_False option.map) simp
next
  case (4 a b c rest)
  let ?n = "of_char a * 65536 + of_char b * 256 + of_char c :: nat"
  note n = bytes3 [OF char_lt char_lt char_lt, of a b c]
  have v: "b64Value [b64Char (?n div 262144), b64Char (?n div 4096), b64Char (?n div 64), b64Char ?n] = Some ?n"
    by (simp only: b64Value_chars digits64 n(4))
  have "?n div 65536 mod 256 = of_char a" using n(1) char_lt [of a] by (simp only: mod_less)
  then have b: "byteOf (?n div 65536) = a" "byteOf (?n div 256) = b" "byteOf ?n = c"
    by (simp_all only: byteOf_def n) simp_all
  have "b64Groups (b64Encode (a # b # c # rest)) =
      map_option (\<lambda>out. [byteOf (?n div 65536), byteOf (?n div 256), byteOf ?n] @ out) (b64Groups (b64Encode rest))"
    by (simp only: b64Encode.simps Let_def append.simps b64Groups_cons b64Char_neq not_False_eq_True v option.case)
  with 4 show ?case by (simp only: b) simp
qed simp

lemma b64Encode_clean: "c \<in> set (b64Encode s) \<Longrightarrow> c \<noteq> CHR 0x0A \<and> c \<noteq> CHR 0x0D"
  by (induction s rule: b64Encode.induct) (auto simp: Let_def b64Char_neq)

lemma b64_roundtrip: "b64Decode (b64Encode s) = Some s"
proof -
  have "filter (\<lambda>c. c \<noteq> CHR 0x0A \<and> c \<noteq> CHR 0x0D) (b64Encode s) = b64Encode s"
    by (rule filter_True) (use b64Encode_clean in blast)
  then show ?thesis by (simp only: b64Decode_def b64Groups_encode)
qed

end
