(* ===== verification/TerminalResource.thy ===== *)
theory TerminalResource
  imports TerminalSessions Base64
begin

text \<open>
  Files of a terminal session: \<open>worker-docker/internal/runner/terminal_resource.go\<close>. A Python script inside the
  container probes or reads the file and prints a JSON document; \<open>parse\<close> is \<open>encoding/json\<close>'s parser.
\<close>

definition terminalResourceActionValidate :: string where "terminalResourceActionValidate = ''validate''"
definition terminalResourceActionRead :: string where "terminalResourceActionRead = ''read''"

record terminalResourceRequest =
  tq_sessionID :: string
  tq_filePath :: string
  tq_action :: string

record terminalResourceRunResult =
  tf_sessionID :: string
  tf_filePath :: string
  tf_mimeType :: string
  tf_sizeBytes :: int
  tf_blob :: string

record terminalResourceProbeResult =
  tp_error :: string
  tp_message :: string
  tp_mimeType :: string
  tp_size :: int
  tp_blob :: string

text \<open>The script is data of the command line; only its presence matters here.\<close>

definition terminalExecDockerResourceArgs :: "string \<Rightarrow> string \<Rightarrow> string \<Rightarrow> string \<Rightarrow> int \<Rightarrow> string list" where
  "terminalExecDockerResourceArgs script containerName action filePath maxReadBytes =
     (let limit = (if maxReadBytes \<le> 0 then 1 else maxReadBytes)
      in [''exec'', containerName, ''python'', ''-c'', script, ''--action'', action, ''--file-path'', filePath,
          ''--max-read-bytes'', itoa limit])"

definition normalizeTerminalResourceAction :: "string \<Rightarrow> string" where
  "normalizeTerminalResourceAction action =
     (let a = trimSpace (toLower action)
      in if a = [] \<or> a = terminalResourceActionValidate then terminalResourceActionValidate
         else if a = terminalResourceActionRead then terminalResourceActionRead else [])"

definition decodeTerminalResourceProbeOutput ::
  "(string \<Rightarrow> json option) \<Rightarrow> string \<Rightarrow> go_error + terminalResourceProbeResult" where
  "decodeTerminalResourceProbeOutput parse stdout =
     (let trimmed = trimSpace stdout
      in if trimmed = [] then Inl (OtherError ''empty output'')
         else case Option.bind (parse trimmed) (\<lambda>doc. objectEntries (Document doc)) of
           None \<Rightarrow> Inl (OtherError ''invalid JSON'')
         | Some es \<Rightarrow>
             (case (fieldStr ''error'' es, fieldStr ''message'' es, fieldStr ''mime_type'' es, fieldInt ''size_bytes'' es,
                    fieldStr ''blob'' es) of
                (Some e, Some m, Some mt, Some n, Some b) \<Rightarrow>
                  Inr \<lparr>tp_error = e, tp_message = m, tp_mimeType = mt, tp_size = n, tp_blob = b\<rparr>
              | _ \<Rightarrow> Inl (OtherError ''invalid JSON'')))"

definition terminalResourceErrorMessage :: "string \<Rightarrow> string \<Rightarrow> string" where
  "terminalResourceErrorMessage code fallback =
     (if trimSpace fallback \<noteq> [] then trimSpace fallback
      else if trimSpace code = ''file_not_found'' then ''file not found''
      else if trimSpace code = ''path_is_directory'' then ''path is directory''
      else if trimSpace code = ''file_too_large'' then ''file exceeds read limit''
      else ''terminal resource operation failed'')"

text \<open>What the probe's answer becomes.\<close>

definition resourceResult ::
  "(string \<Rightarrow> json option) \<Rightarrow> string \<Rightarrow> string \<Rightarrow> string \<Rightarrow> dockerCommandResult \<Rightarrow> worker_error + terminalResourceRunResult" where
  "resourceResult parse sessionID filePath action r =
     (case decodeTerminalResourceProbeOutput parse (dr_stdout r) of
        Inl e \<Rightarrow> Inl (WrapError ''invalid terminalResource result: '' e)
      | Inr probe \<Rightarrow>
          if trimSpace (tp_error probe) \<noteq> []
          then Inl (newWorkerError (trimSpace (tp_error probe))
                 (terminalResourceErrorMessage (trimSpace (tp_error probe)) (tp_message probe)))
          else if dr_exitCode r \<noteq> 0
          then Inl (TextError (''docker exec failed: '' @
                 dockerCommandFailureMessage ''exit code'' (dr_exitCode r) (dr_stderr r)))
          else
            let mimeType = (if trimSpace (tp_mimeType probe) = [] then ''application/octet-stream''
                            else trimSpace (tp_mimeType probe));
                result = \<lparr>tf_sessionID = sessionID, tf_filePath = filePath, tf_mimeType = mimeType,
                          tf_sizeBytes = tp_size probe, tf_blob = []\<rparr>
            in if action \<noteq> terminalResourceActionRead then Inr result
               else if trimSpace (tp_blob probe) = [] then Inr result
               else case b64Decode (trimSpace (tp_blob probe)) of
                      None \<Rightarrow> Inl (WrapError ''decode resource blob: '' (OtherError ''illegal base64 data''))
                    | Some decoded \<Rightarrow> Inr (result\<lparr>tf_blob := decoded\<rparr>))"

definition resolveResource ::
  "exec_env \<Rightarrow> (string \<Rightarrow> json option) \<Rightarrow> string \<Rightarrow> terminalResourceRequest \<Rightarrow> manager \<Rightarrow>
   (worker_error + terminalResourceRunResult) \<times> manager" where
  "resolveResource env parse script req m =
     (let sessionID = trimSpace (tq_sessionID req); filePath = trimSpace (tq_filePath req)
      in if sessionID = [] \<or> filePath = []
         then (Inl (newWorkerError terminalExecCodeInvalidPayload ''session_id and file_path are required''), m)
         else
           let action = normalizeTerminalResourceAction (tq_action req)
           in if action = []
              then (Inl (newWorkerError terminalExecCodeInvalidPayload ''action must be validate or read''), m)
              else case map_of (tm_sessions m) sessionID of
                None \<Rightarrow> (Inl (newWorkerError terminalExecCodeSessionNotFound terminalExecNoSessionMessage), m)
              | Some session \<Rightarrow>
                  if tn_busy session
                  then (Inl (newWorkerError terminalExecCodeSessionBusy terminalExecBusyMessage), m)
                  else
                    case docker env
                        (terminalExecDockerResourceArgs script (tn_containerName session) action filePath
                          (tm_outputLimitBytes m))
                        (ee_step env (m\<lparr>tm_sessions :=
                           AList.update sessionID (session\<lparr>tn_busy := True\<rparr>) (tm_sessions m)\<rparr>)) of
                      (r, m) \<Rightarrow>
                    let m = ee_step env m in
                    case dr_err r of
                      Some e \<Rightarrow>
                        if isContextError e then (Inl (WrapError [] e), destroySession env sessionID m)
                        else (Inl (WrapError ''docker exec failed: '' e), snd (markSessionIdle sessionID m))
                    | None \<Rightarrow>
                        if isNoSuchContainerMessage (dr_stderr r)
                        then (Inl (newWorkerError terminalExecCodeSessionNotFound terminalExecNoSessionMessage),
                              destroySession env sessionID m)
                        else case markSessionIdle sessionID m of
                               (None, m) \<Rightarrow>
                                 (Inl (newWorkerError terminalExecCodeSessionNotFound terminalExecNoSessionMessage), m)
                             | (Some _, m) \<Rightarrow> (resourceResult parse sessionID filePath action r, m))"

end
