(* ===== verification/TerminalProperties.thy ===== *)
theory TerminalProperties
  imports TerminalResource
begin

text \<open>
  What the docker worker's terminal sessions guarantee: a busy session is left alone by everything but the call
  that made it busy, every container that was created is in the table or has been removed, and a command's result
  says what happened, except for what \<open>os/exec\<close> makes of a deadline (the last section).
\<close>

section \<open>Containers\<close>

text \<open>The container a docker call is about.\<close>

definition dockerTarget :: "string list \<Rightarrow> string option" where
  "dockerTarget args = (case args of
     [] \<Rightarrow> None
   | [_] \<Rightarrow> None
   | [_, a] \<Rightarrow> Some a
   | cmd # a # b # _ \<Rightarrow> Some (if cmd = ''create'' \<or> cmd = ''rm'' then b else a))"

lemma dockerTarget_simps [simp]:
  "dockerTarget (dockerRemoveArgs c) = Some c"
  "dockerTarget (terminalExecDockerCreateArgs c i m p n) = Some c"
  "dockerTarget (terminalExecDockerStartArgs c) = Some c"
  "dockerTarget (terminalExecDockerExecArgs c command) = Some c"
  "dockerTarget (terminalExecDockerResourceArgs script c action path limit) = Some c"
  by (simp_all add: dockerTarget_def dockerRemoveArgs_def terminalExecDockerCreateArgs_def
      terminalExecDockerStartArgs_def terminalExecDockerExecArgs_def terminalExecDockerResourceArgs_def Let_def)

text \<open>The containers a log of calls leaves behind, and the names it mentions.\<close>

definition applyDocker :: "(string list \<times> dockerCommandResult) \<Rightarrow> string set \<Rightarrow> string set" where
  "applyDocker e cs = (case e of (args, r) \<Rightarrow>
     (case dockerTarget args of
        None \<Rightarrow> cs
      | Some c \<Rightarrow>
          if hd args = ''create'' then (if succeeded r then insert c cs else cs)
          else if hd args = ''rm'' then cs - {c} else cs))"

definition existing :: "docker_log \<Rightarrow> string set" where
  "existing log = fold applyDocker log {}"

definition mentioned :: "docker_log \<Rightarrow> string set" where
  "mentioned log = {c. \<exists>e \<in> set log. dockerTarget (fst e) = Some c}"

lemma existing_Nil [simp]: "existing [] = {}" and existing_snoc [simp]: "existing (log @ [e]) = applyDocker e (existing log)"
  by (simp_all add: existing_def)

lemma mentioned_simps [simp]: "mentioned [] = {}" "mentioned (a @ b) = mentioned a \<union> mentioned b"
  "dockerTarget (fst e) = Some c \<Longrightarrow> mentioned [e] = {c}"
  by (auto simp: mentioned_def)

lemma existing_mentioned: "existing log \<subseteq> mentioned log"
  by (induction log rule: rev_induct)
    (auto simp: applyDocker_def mentioned_def split: prod.splits option.splits if_splits)

lemma existing_untargeted:
  "\<forall>e \<in> set added. dockerTarget (fst e) \<noteq> Some c \<Longrightarrow> c \<in> existing (log @ added) \<longleftrightarrow> c \<in> existing log"
proof (induction added rule: rev_induct)
  case (snoc e added)
  then have "c \<in> existing (log @ added @ [e]) \<longleftrightarrow> c \<in> existing (log @ added)"
    by (auto simp: append_assoc [symmetric] applyDocker_def simp del: append_assoc split: prod.splits option.splits)
  with snoc show ?case by simp
qed simp

section \<open>What operations leave alone\<close>

definition containers :: "manager \<Rightarrow> string set" where
  "containers m = tn_containerName ` ran (map_of (tm_sessions m))"

definition leaked :: "manager \<Rightarrow> string set" where
  "leaked m = existing (tm_docker m) - containers m"

definition terminalSession_ok :: "string \<Rightarrow> terminalSession \<Rightarrow> bool" where
  "terminalSession_ok sessionID s \<longleftrightarrow> tn_sessionID s = sessionID \<and> trimSpace sessionID = sessionID \<and> sessionID \<noteq> [] \<and>
     trimSpace (tn_containerName s) = tn_containerName s \<and> tn_containerName s \<noteq> []"

definition manager_wf :: "manager \<Rightarrow> bool" where
  "manager_wf m \<longleftrightarrow> keys_distinct (tm_sessions m) \<and>
     (\<forall>x y s u. map_of (tm_sessions m) x = Some s \<and> map_of (tm_sessions m) y = Some u \<and>
        tn_containerName s = tn_containerName u \<longrightarrow> x = y) \<and>
     (\<forall>x s. map_of (tm_sessions m) x = Some s \<longrightarrow> terminalSession_ok x s \<and>
        (tn_busy s \<or> tn_containerName s \<in> mentioned (tm_docker m)))"

text \<open>
  How a step may change the manager: well-formedness stays, docker calls are only added, a container name that was
  used before never enters the table again, no container leaks except those of \<open>C\<close>, and every session that was
  busy, except those of \<open>X\<close>, is exactly as it was and no docker call is about its container.
\<close>

definition keeps :: "string set \<Rightarrow> string set \<Rightarrow> manager \<Rightarrow> manager \<Rightarrow> bool" where
  "keeps X C m m' \<longleftrightarrow> manager_wf m' \<and> tm_outputLimitBytes m' = tm_outputLimitBytes m \<and>
     containers m' \<inter> mentioned (tm_docker m) \<subseteq> containers m \<and> leaked m' \<subseteq> leaked m \<union> C \<and>
     (\<exists>added. tm_docker m' = tm_docker m @ added \<and>
        (\<forall>x s. map_of (tm_sessions m) x = Some s \<and> tn_busy s \<and> x \<notin> X \<longrightarrow>
           map_of (tm_sessions m') x = Some s \<and> (\<forall>e \<in> set added. dockerTarget (fst e) \<noteq> Some (tn_containerName s))))"

lemma keepsD:
  assumes "keeps X C m m'"
  shows "manager_wf m'" "tm_outputLimitBytes m' = tm_outputLimitBytes m" "leaked m' \<subseteq> leaked m \<union> C"
    "c \<in> mentioned (tm_docker m) \<Longrightarrow> c \<in> mentioned (tm_docker m')"
    "c \<in> mentioned (tm_docker m) \<Longrightarrow> c \<notin> containers m \<Longrightarrow> c \<notin> containers m'"
    "map_of (tm_sessions m) x = Some s \<Longrightarrow> tn_busy s \<Longrightarrow> x \<notin> X \<Longrightarrow>
       map_of (tm_sessions m') x = Some s \<and> (tn_containerName s \<in> existing (tm_docker m') \<longleftrightarrow> tn_containerName s \<in> existing (tm_docker m))"
  using assms unfolding keeps_def by (auto simp: existing_untargeted)

lemma keeps_refl: "manager_wf m \<Longrightarrow> keeps X C m m"
  by (auto simp: keeps_def intro: exI [of _ "[]"])

lemma keeps_trans:
  assumes a: "keeps X C m m'" and b: "keeps X C m' m''"
  shows "keeps X C m m''"
proof -
  obtain added where m: "tm_docker m' = tm_docker m @ added" "\<And>x s. map_of (tm_sessions m) x = Some s \<Longrightarrow> tn_busy s \<Longrightarrow> x \<notin> X \<Longrightarrow>
      map_of (tm_sessions m') x = Some s \<and> (\<forall>e \<in> set added. dockerTarget (fst e) \<noteq> Some (tn_containerName s))"
    using a unfolding keeps_def by blast
  obtain rest where r: "tm_docker m'' = tm_docker m' @ rest" "\<And>x s. map_of (tm_sessions m') x = Some s \<Longrightarrow> tn_busy s \<Longrightarrow> x \<notin> X \<Longrightarrow>
      map_of (tm_sessions m'') x = Some s \<and> (\<forall>e \<in> set rest. dockerTarget (fst e) \<noteq> Some (tn_containerName s))"
    using b unfolding keeps_def by blast
  have "tm_docker m'' = tm_docker m @ (added @ rest)" using m(1) r(1) by simp
  moreover have "\<forall>x s. map_of (tm_sessions m) x = Some s \<and> tn_busy s \<and> x \<notin> X \<longrightarrow>
      map_of (tm_sessions m'') x = Some s \<and> (\<forall>e \<in> set (added @ rest). dockerTarget (fst e) \<noteq> Some (tn_containerName s))"
    using m(2) r(2) by (metis Un_iff set_append)
  moreover have "containers m'' \<inter> mentioned (tm_docker m) \<subseteq> containers m"
    using a b m(1) unfolding keeps_def by (auto simp: mentioned_def)
  moreover have "leaked m'' \<subseteq> leaked m \<union> C" "manager_wf m''" "tm_outputLimitBytes m'' = tm_outputLimitBytes m"
    using keepsD(1-3) [OF a] keepsD(1-3) [OF b] by auto
  ultimately show ?thesis unfolding keeps_def by blast
qed

lemma keeps_mono: "keeps X C m m' \<Longrightarrow> X \<subseteq> X' \<Longrightarrow> C \<subseteq> C' \<Longrightarrow> keeps X' C' m m'"
  unfolding keeps_def by blast

text \<open>Once the container of the exempt call is gone, the exemption is too.\<close>

lemma keeps_shrink:
  assumes "keeps X' C' m m'"
    and "\<And>x s. x \<in> X' \<Longrightarrow> x \<notin> X \<Longrightarrow> map_of (tm_sessions m) x = Some s \<Longrightarrow> \<not> tn_busy s"
    and "leaked m' \<subseteq> leaked m \<union> C"
  shows "keeps X C m m'"
  using assms unfolding keeps_def by blast

section \<open>Single steps\<close>

lemma containers_iff:
  "c \<in> containers m \<longleftrightarrow> (\<exists>x s. map_of (tm_sessions m) x = Some s \<and> tn_containerName s = c)"
  by (auto simp: containers_def ran_def)

lemma wf_unique:
  "manager_wf m \<Longrightarrow> map_of (tm_sessions m) x = Some s \<Longrightarrow> map_of (tm_sessions m) y = Some u \<Longrightarrow> x \<noteq> y \<Longrightarrow>
     tn_containerName s \<noteq> tn_containerName u"
  unfolding manager_wf_def by blast

lemma wf_session: "manager_wf m \<Longrightarrow> map_of (tm_sessions m) x = Some s \<Longrightarrow> terminalSession_ok x s"
  "manager_wf m \<Longrightarrow> map_of (tm_sessions m) x = Some s \<Longrightarrow> \<not> tn_busy s \<Longrightarrow> tn_containerName s \<in> mentioned (tm_docker m)"
  "manager_wf m \<Longrightarrow> keys_distinct (tm_sessions m)"
  unfolding manager_wf_def by blast+

lemma manager_wfI:
  assumes "keys_distinct (tm_sessions m)"
    and "\<And>x y s u. map_of (tm_sessions m) x = Some s \<Longrightarrow> map_of (tm_sessions m) y = Some u \<Longrightarrow> x \<noteq> y \<Longrightarrow>
      tn_containerName s \<noteq> tn_containerName u"
    and "\<And>x s. map_of (tm_sessions m) x = Some s \<Longrightarrow>
      terminalSession_ok x s \<and> (tn_busy s \<or> tn_containerName s \<in> mentioned (tm_docker m))"
  shows "manager_wf m"
  using assms unfolding manager_wf_def by metis

lemma docker_result: "docker env args m = (r, m') \<Longrightarrow> r = runDockerCommandCLI (ee_docker env args) \<and>
    m' = m\<lparr>tm_docker := tm_docker m @ [(args, r)]\<rparr>"
  by (auto simp: docker_def runDocker_def Let_def)

lemma wf_log: "manager_wf m \<Longrightarrow> manager_wf (m\<lparr>tm_docker := tm_docker m @ [e]\<rparr>)"
  unfolding manager_wf_def by auto

lemma docker_own:
  assumes "manager_wf m" "map_of (tm_sessions m) x = Some s" "dockerTarget args = Some (tn_containerName s)"
  shows "keeps {x} {} m (m\<lparr>tm_docker := tm_docker m @ [(args, r)]\<rparr>)"
proof -
  have "tn_containerName s \<in> containers m" using assms(2) by (auto simp: containers_iff)
  then have "leaked (m\<lparr>tm_docker := tm_docker m @ [(args, r)]\<rparr>) \<subseteq> leaked m"
    using assms(3) by (auto simp: leaked_def containers_def applyDocker_def split: if_splits)
  then show ?thesis
    using wf_log [OF assms(1)] wf_unique [OF assms(1,2)] assms(3) unfolding keeps_def
    by (fastforce simp: containers_def)
qed

lemma docker_gone:
  assumes "manager_wf m" "c \<notin> containers m"
  shows "keeps X C m (m\<lparr>tm_docker := tm_docker m @ [(dockerRemoveArgs c, r)]\<rparr>)"
    "leaked (m\<lparr>tm_docker := tm_docker m @ [(dockerRemoveArgs c, r)]\<rparr>) = leaked m - {c}"
proof -
  show l: "leaked (m\<lparr>tm_docker := tm_docker m @ [(dockerRemoveArgs c, r)]\<rparr>) = leaked m - {c}"
    by (auto simp: leaked_def containers_def applyDocker_def) (simp_all add: dockerRemoveArgs_def)
  have "tn_containerName s \<noteq> c" if "map_of (tm_sessions m) x = Some s" for x s
    using that assms(2) by (auto simp: containers_iff)
  then show "keeps X C m (m\<lparr>tm_docker := tm_docker m @ [(dockerRemoveArgs c, r)]\<rparr>)"
    using wf_log [OF assms(1)] l unfolding keeps_def by (fastforce simp: containers_def)
qed

lemma update_own:
  assumes wf: "manager_wf m" and s: "map_of (tm_sessions m) x = Some s"
    and s': "tn_sessionID s' = tn_sessionID s" "tn_containerName s' = tn_containerName s"
      "tn_busy s' \<or> tn_containerName s \<in> mentioned (tm_docker m)"
  shows "keeps {x} {} m (m\<lparr>tm_sessions := AList.update x s' (tm_sessions m)\<rparr>)"
proof -
  let ?m = "m\<lparr>tm_sessions := AList.update x s' (tm_sessions m)\<rparr>"
  have k: "keys_distinct (tm_sessions m)" "keys_distinct (tm_sessions ?m)" using wf_session(3) [OF wf] by simp_all
  have mo: "map_of (tm_sessions ?m) = (map_of (tm_sessions m))(x \<mapsto> s')" by (simp add: update_conv')
  have c: "containers ?m = containers m"
  proof (rule set_eqI)
    fix d show "d \<in> containers ?m \<longleftrightarrow> d \<in> containers m"
      unfolding containers_iff mo using s s'(2) by (metis fun_upd_apply option.inject)
  qed
  have "manager_wf ?m"
  proof (rule manager_wfI; (unfold mo)?)
    fix y z u v assume "((map_of (tm_sessions m))(x \<mapsto> s')) y = Some u" "((map_of (tm_sessions m))(x \<mapsto> s')) z = Some v" "y \<noteq> z"
    then show "tn_containerName u \<noteq> tn_containerName v"
      using wf_unique [OF wf] s s'(2) by (metis fun_upd_apply option.inject)
  next
    fix y u assume y: "((map_of (tm_sessions m))(x \<mapsto> s')) y = Some u"
    show "terminalSession_ok y u \<and> (tn_busy u \<or> tn_containerName u \<in> mentioned (tm_docker ?m))"
    proof (cases "y = x")
      case True
      with y s' wf_session(1) [OF wf s] show ?thesis by (auto simp: terminalSession_ok_def)
    next
      case False
      with y wf_session(1,2) [OF wf] show ?thesis by auto
    qed
  qed (use k(2) in simp)
  then show ?thesis using c unfolding keeps_def leaked_def
    by (auto simp: mo intro!: exI [of _ "[]"])
qed

lemma add_keeps:
  assumes wf: "manager_wf m" and x: "map_of (tm_sessions m) x = None" "trimSpace x = x" "x \<noteq> []"
    and c: "c \<notin> containers m" "c \<notin> mentioned (tm_docker m)" "trimSpace c = c" "c \<noteq> []"
  shows "keeps {} {} m (addSession x c lease m)"
proof -
  let ?s = "\<lparr>tn_sessionID = x, tn_containerName = c, tn_leaseExpiresAt = lease, tn_busy = True\<rparr>"
  let ?m = "addSession x c lease m"
  have k: "keys_distinct (tm_sessions m)" "keys_distinct (tm_sessions ?m)"
    using wf_session(3) [OF wf] by (simp_all add: addSession_def)
  have mo: "map_of (tm_sessions ?m) = (map_of (tm_sessions m))(x \<mapsto> ?s)" by (simp add: addSession_def update_conv')
  have n: "tn_containerName u \<noteq> c" if "map_of (tm_sessions m) y = Some u" for y u
    using that c(1) by (auto simp: containers_iff)
  have cs: "containers ?m = insert c (containers m)" by (simp add: containers_def mo x(1))
  have "manager_wf ?m"
  proof (rule manager_wfI; (unfold mo)?)
    fix y z u v assume "((map_of (tm_sessions m))(x \<mapsto> ?s)) y = Some u" "((map_of (tm_sessions m))(x \<mapsto> ?s)) z = Some v" "y \<noteq> z"
    then show "tn_containerName u \<noteq> tn_containerName v"
      using wf_unique [OF wf, of y u z v] n [of y u] n [of z v] by (cases "y = x"; cases "z = x") auto
  next
    fix y u assume y: "((map_of (tm_sessions m))(x \<mapsto> ?s)) y = Some u"
    show "terminalSession_ok y u \<and> (tn_busy u \<or> tn_containerName u \<in> mentioned (tm_docker ?m))"
    proof (cases "y = x")
      case True
      with y x c show ?thesis by (auto simp: terminalSession_ok_def)
    next
      case False
      with y wf_session(1,2) [OF wf] show ?thesis by (auto simp: addSession_def)
    qed
  qed (use k(2) in simp)
  moreover have "leaked ?m \<subseteq> leaked m" using cs by (auto simp: leaked_def addSession_def)
  ultimately show ?thesis using cs c(2) x(1) unfolding keeps_def
    by (auto simp: mo addSession_def intro!: exI [of _ "[]"])
qed

lemma delete_own:
  assumes wf: "manager_wf m" and s: "map_of (tm_sessions m) x = Some s"
  shows "keeps {x} {tn_containerName s} m (m\<lparr>tm_sessions := AList.delete x (tm_sessions m)\<rparr>)"
    "tn_containerName s \<notin> containers (m\<lparr>tm_sessions := AList.delete x (tm_sessions m)\<rparr>)"
    "leaked (m\<lparr>tm_sessions := AList.delete x (tm_sessions m)\<rparr>) \<subseteq>
       leaked m \<union> ({tn_containerName s} \<inter> existing (tm_docker m))"
proof -
  let ?m = "m\<lparr>tm_sessions := AList.delete x (tm_sessions m)\<rparr>"
  have k: "keys_distinct (tm_sessions m)" "keys_distinct (tm_sessions ?m)" using wf_session(3) [OF wf] by simp_all
  have mo: "map_of (tm_sessions ?m) = (map_of (tm_sessions m))(x := None)" by (simp add: delete_conv')
  show g: "tn_containerName s \<notin> containers ?m"
    unfolding containers_iff mo using wf_unique [OF wf s] by (auto split: if_splits) metis
  have c: "containers m \<subseteq> insert (tn_containerName s) (containers ?m)"
  proof
    fix d assume "d \<in> containers m"
    then show "d \<in> insert (tn_containerName s) (containers ?m)"
      unfolding containers_iff mo insert_iff using s by (metis fun_upd_apply option.inject)
  qed
  show l: "leaked ?m \<subseteq> leaked m \<union> ({tn_containerName s} \<inter> existing (tm_docker m))"
    using c by (auto simp: leaked_def)
  have "manager_wf ?m"
    by (rule manager_wfI; (unfold mo)?)
      (use k(2) wf_session(1,2) [OF wf] wf_unique [OF wf] in \<open>auto split: if_splits\<close>)
  moreover have "containers ?m \<subseteq> containers m"
    by (auto simp: containers_iff mo split: if_splits) blast
  ultimately show "keeps {x} {tn_containerName s} m ?m" using l unfolding keeps_def
    by (auto simp: mo intro!: exI [of _ "[]"])
qed

section \<open>Operations under interference\<close>

text \<open>
  The contract between concurrent calls: whatever runs in between keeps busy sessions and leaks nothing, except for
  the sessions \<open>X\<close> and the containers \<open>C\<close> of other running calls. Each operation is shown to keep the
  contract itself when everything in between does, provided its own session and container are not exempt.
\<close>

locale interference =
  fixes i :: "manager \<Rightarrow> manager" and X C :: "string set"
  assumes keeps_i: "manager_wf m \<Longrightarrow> keeps X C m (i m)"
begin

lemma keeps_iX: "manager_wf m \<Longrightarrow> X \<subseteq> X' \<Longrightarrow> C \<subseteq> C' \<Longrightarrow> keeps X' C' m (i m)"
  by (rule keeps_mono [OF keeps_i])

lemma forceRemove_own:
  assumes "manager_wf m" "map_of (tm_sessions m) x = Some s" "ee_step env = i"
  shows "keeps {x} {} m (forceRemoveContainer env (tn_containerName s) m)"
    "tm_sessions (forceRemoveContainer env (tn_containerName s) m) = tm_sessions m"
    "tn_containerName s \<notin> existing (tm_docker (forceRemoveContainer env (tn_containerName s) m))"
proof -
  have t: "trimSpace (tn_containerName s) = tn_containerName s" "tn_containerName s \<noteq> []"
    using wf_session(1) [OF assms(1,2)] by (auto simp: terminalSession_ok_def)
  obtain r m' where d: "docker env (dockerRemoveArgs (tn_containerName s)) m = (r, m')" by fastforce
  note m' = docker_result [OF d]
  show "keeps {x} {} m (forceRemoveContainer env (tn_containerName s) m)"
    "tm_sessions (forceRemoveContainer env (tn_containerName s) m) = tm_sessions m"
    using docker_own [OF assms(1,2), of "dockerRemoveArgs (tn_containerName s)" r] m'
    by (simp_all add: forceRemoveContainer_def t d)
  show "tn_containerName s \<notin> existing (tm_docker (forceRemoveContainer env (tn_containerName s) m))"
    using m' by (simp add: forceRemoveContainer_def t d applyDocker_def) (simp add: dockerRemoveArgs_def)
qed

lemma forceRemove_gone:
  assumes "manager_wf m" "c \<notin> containers m" "trimSpace c = c" "c \<noteq> []"
  shows "keeps X C m (forceRemoveContainer env c m)" "leaked (forceRemoveContainer env c m) = leaked m - {c}"
    "containers (forceRemoveContainer env c m) = containers m"
    "mentioned (tm_docker m) \<subseteq> mentioned (tm_docker (forceRemoveContainer env c m))"
proof -
  obtain r m' where d: "docker env (dockerRemoveArgs c) m = (r, m')" by fastforce
  note m' = docker_result [OF d]
  show "keeps X C m (forceRemoveContainer env c m)" "leaked (forceRemoveContainer env c m) = leaked m - {c}"
    "containers (forceRemoveContainer env c m) = containers m"
    "mentioned (tm_docker m) \<subseteq> mentioned (tm_docker (forceRemoveContainer env c m))"
    using docker_gone [OF assms(1,2), where r = r] m' by (auto simp: forceRemoveContainer_def assms(3,4) d containers_def)
qed

lemma destroy_own:
  assumes wf: "manager_wf m" and s: "map_of (tm_sessions m) x = Some s" and e: "ee_step env = i"
    and c: "tn_containerName s \<in> mentioned (tm_docker m)"
  shows "keeps (insert x X) (insert (tn_containerName s) C) m (destroySession env x m)"
    "leaked (destroySession env x m) \<subseteq> leaked m \<union> C"
proof -
  let ?c = "tn_containerName s"
  let ?d = "m\<lparr>tm_sessions := AList.delete x (tm_sessions m)\<rparr>"
  have x: "trimSpace x = x" "x \<noteq> []" "trimSpace ?c = ?c" "?c \<noteq> []" using wf_session(1) [OF wf s] by (auto simp: terminalSession_ok_def)
  note d = delete_own [OF wf s]
  have wd: "manager_wf ?d" by (rule keepsD(1) [OF d(1)])
  note k = keeps_i [OF wd]
  have g: "?c \<notin> containers (i ?d)" by (rule keepsD(5) [OF k]) (use c d(2) in simp_all)
  note f = forceRemove_gone [OF keepsD(1) [OF k] g x(3,4), where env = env]
  have ds: "destroySession env x m = forceRemoveContainer env ?c (i ?d)"
    using x s e by (simp add: destroySession_def)
  show "keeps (insert x X) (insert ?c C) m (destroySession env x m)"
  proof -
    have "keeps (insert x X) (insert ?c C) m ?d" by (rule keeps_mono [OF d(1)]) auto
    moreover have "keeps (insert x X) (insert ?c C) ?d (i ?d)" by (rule keeps_iX [OF wd]) auto
    moreover have "keeps (insert x X) (insert ?c C) (i ?d) (forceRemoveContainer env ?c (i ?d))" by (rule keeps_mono [OF f(1)]) auto
    ultimately show ?thesis unfolding ds using keeps_trans by blast
  qed
  show "leaked (destroySession env x m) \<subseteq> leaked m \<union> C"
    unfolding ds f(2) using keepsD(3) [OF k] keepsD(3) [OF d(1)] by auto
qed

lemma markIdle_own:
  assumes wf: "manager_wf m" and s: "map_of (tm_sessions m) x = Some s" and c: "tn_containerName s \<in> mentioned (tm_docker m)"
  shows "fst (markSessionIdle x m) = Some (tn_leaseExpiresAt s)"
    "snd (markSessionIdle x m) = m\<lparr>tm_sessions := AList.update x (s\<lparr>tn_busy := False\<rparr>) (tm_sessions m)\<rparr>"
    "keeps {x} {} m (snd (markSessionIdle x m))"
proof -
  have x: "trimSpace x = x" "x \<noteq> []" using wf_session(1) [OF wf s] by (auto simp: terminalSession_ok_def)
  show "fst (markSessionIdle x m) = Some (tn_leaseExpiresAt s)"
    and e: "snd (markSessionIdle x m) = m\<lparr>tm_sessions := AList.update x (s\<lparr>tn_busy := False\<rparr>) (tm_sessions m)\<rparr>"
    by (simp_all add: markSessionIdle_def x s)
  show "keeps {x} {} m (snd (markSessionIdle x m))" unfolding e by (rule update_own [OF wf s]) (simp_all add: c)
qed

text \<open>A call that has its session busy, before and after a docker call of its own and whatever runs then.\<close>

lemma docker_step:
  assumes wf: "manager_wf m" and s: "map_of (tm_sessions m) x = Some s" "tn_busy s"
    and a: "dockerTarget args = Some (tn_containerName s)" and x: "x \<notin> X" and e: "ee_step env = i"
    and d: "docker env args m = (r, m1)"
  shows "r = runDockerCommandCLI (ee_docker env args)" "manager_wf (i m1)" "map_of (tm_sessions (i m1)) x = Some s"
    "tn_containerName s \<in> mentioned (tm_docker (i m1))" "keeps (insert x X) C m (i m1)"
    "tn_containerName s \<in> existing (tm_docker (i m1)) \<longleftrightarrow> tn_containerName s \<in> applyDocker (args, r) (existing (tm_docker m))"
    "manager_wf m1" "map_of (tm_sessions m1) x = Some s" "keeps {x} {} m m1"
    "tn_containerName s \<in> existing (tm_docker m1) \<longleftrightarrow> tn_containerName s \<in> applyDocker (args, r) (existing (tm_docker m))"
    "tm_outputLimitBytes (i m1) = tm_outputLimitBytes m"
proof -
  have m1: "m1 = m\<lparr>tm_docker := tm_docker m @ [(args, r)]\<rparr>" and "r = runDockerCommandCLI (ee_docker env args)"
    using docker_result [OF d] by auto
  then show "r = runDockerCommandCLI (ee_docker env args)" by simp
  show k: "keeps {x} {} m m1" unfolding m1 by (rule docker_own [OF wf s(1) a])
  show w: "manager_wf m1" by (rule keepsD(1) [OF k])
  show s1: "map_of (tm_sessions m1) x = Some s" using s by (simp add: m1)
  note ki = keeps_i [OF w]
  show "manager_wf (i m1)" by (rule keepsD(1) [OF ki])
  show "map_of (tm_sessions (i m1)) x = Some s" using keepsD(6) [OF ki s1 s(2) x] by simp
  have "tn_containerName s \<in> mentioned (tm_docker m1)" using a by (simp add: m1)
  then show "tn_containerName s \<in> mentioned (tm_docker (i m1))" by (rule keepsD(4) [OF ki])
  show "keeps (insert x X) C m (i m1)" by (rule keeps_trans [OF keeps_mono [OF k] keeps_iX [OF w]]) auto
  show "tn_containerName s \<in> existing (tm_docker m1) \<longleftrightarrow> tn_containerName s \<in> applyDocker (args, r) (existing (tm_docker m))"
    by (simp add: m1)
  then show "tn_containerName s \<in> existing (tm_docker (i m1)) \<longleftrightarrow> tn_containerName s \<in> applyDocker (args, r) (existing (tm_docker m))"
    using keepsD(6) [OF ki s1 s(2) x] by simp
  show "tm_outputLimitBytes (i m1) = tm_outputLimitBytes m" using keepsD(2) [OF ki] by (simp add: m1)
qed

lemma runInSession_keeps:
  assumes wf: "manager_wf m" and s: "map_of (tm_sessions m) x = Some s" "tn_busy s" and x: "x \<notin> X" and e: "ee_step env = i"
  shows "keeps (insert x X) (insert (tn_containerName s) C) m (snd (runInSession env command x (tn_containerName s) created m)) \<and>
    leaked (snd (runInSession env command x (tn_containerName s) created m)) \<subseteq> leaked m \<union> C"
proof -
  let ?c = "tn_containerName s"
  obtain r m1 where d: "docker env (terminalExecDockerExecArgs ?c command) m = (r, m1)" by fastforce
  note st = docker_step [OF wf s _ x e d, simplified]
  let ?keeps = "keeps (insert x X) (insert ?c C)"
  have k: "?keeps m (i m1)" "leaked (i m1) \<subseteq> leaked m \<union> C"
    by (rule keeps_mono [OF st(5)], auto) (use keepsD(3) [OF st(5)] in auto)
  note dest = destroy_own [OF st(2,3) e st(4)] and idle = markIdle_own [OF st(2,3,4)]
  have idle': "?keeps m (snd (markSessionIdle x (i m1)))" "leaked (snd (markSessionIdle x (i m1))) \<subseteq> leaked m \<union> C"
    using keeps_trans [OF k(1)] keeps_mono [OF idle(3), of "insert x X" "insert ?c C"] keepsD(3) [OF idle(3)] k(2) by auto
  have dest': "?keeps m (destroySession env x (i m1))" "leaked (destroySession env x (i m1)) \<subseteq> leaked m \<union> C"
    using keeps_trans [OF k(1) dest(1)] dest(2) k(2) by auto
  obtain m2 where mi: "markSessionIdle x (i m1) = (Some (tn_leaseExpiresAt s), m2)"
    using idle(1) by (metis prod.collapse)
  show ?thesis using idle' dest' by (simp add: runInSession_def d e mi Let_def split: option.split)
qed

lemma createAndStart_keeps:
  assumes wf: "manager_wf m" and s: "map_of (tm_sessions m) x = Some s" "tn_busy s" and x: "x \<notin> X" and e: "ee_step env = i"
    and c: "tn_containerName s \<notin> existing (tm_docker m)"
    and run: "createAndStartContainer env (tn_containerName s) m = (res, m')"
  shows "keeps (insert x X) C m m' \<and> manager_wf m' \<and> map_of (tm_sessions m') x = Some s \<and>
    (res \<noteq> None \<longrightarrow> tn_containerName s \<notin> existing (tm_docker m'))"
proof -
  let ?c = "tn_containerName s"
  let ?create = "terminalExecDockerCreateArgs ?c (tm_dockerImage m) (tm_memoryLimit m) (tm_cpuLimit m) (tm_pidsLimit m)"
  obtain r1 m1 where d1: "docker env ?create m = (r1, m1)" by fastforce
  note st1 = docker_step [OF wf s _ x e d1, simplified]
  obtain r2 m2 where d2: "docker env (terminalExecDockerStartArgs ?c) (i m1) = (r2, m2)" by fastforce
  note st2 = docker_step [OF st1(2,3) s(2) _ x e d2, simplified]
  have failed: "?c \<notin> existing (tm_docker m1)" if "\<not> succeeded r1"
    using that c by (simp add: st1(10) applyDocker_def)
  note f = forceRemove_own [OF st2(2,3) e]
  have k1: "keeps (insert x X) C m m1" by (rule keeps_mono [OF st1(9)]) auto
  have k2: "keeps (insert x X) C m m2" "keeps (insert x X) C m (i m2)"
    using keeps_trans [OF st1(5)] keeps_mono [OF st2(9), of "insert x X" C] st2(5) by auto
  have k3: "keeps (insert x X) C m (forceRemoveContainer env ?c (i m2))"
    by (rule keeps_trans [OF k2(2) keeps_mono [OF f(1)]]) auto
  show ?thesis using run st1(7,8) k1 failed st2(7,8) k2(1) k3 f(2,3) st2(3) keepsD(1) [OF f(1)]
    by (auto simp: createAndStartContainer_def d1 d2 e succeeded_def split: option.splits if_splits)
qed

end



section \<open>Whole calls\<close>

text \<open>The session a request is about.\<close>

definition targetSession :: "exec_env \<Rightarrow> terminalExecRequest \<Rightarrow> string" where
  "targetSession env req = (if trimSpace (rq_sessionID req) = [] then ee_uuid env else trimSpace (rq_sessionID req))"

text \<open>The random names are new: the container's was never used, and a generated session id is not in the table.\<close>

definition fresh_names :: "exec_env \<Rightarrow> manager \<Rightarrow> bool" where
  "fresh_names env m \<longleftrightarrow>
     (case newTerminalExecContainerName (ee_random env) of
        Inl _ \<Rightarrow> True | Inr c \<Rightarrow> c \<notin> containers m \<and> c \<notin> mentioned (tm_docker m)) \<and>
     trimSpace (ee_uuid env) = ee_uuid env \<and> ee_uuid env \<noteq> [] \<and> map_of (tm_sessions m) (ee_uuid env) = None"

lemma containerName_trimmed:
  assumes "newTerminalExecContainerName rnd = Inr c"
  shows "trimSpace c = c" "c \<noteq> []"
proof -
  obtain raw where c: "c = terminalExecContainerPrefix @ hexEncode raw"
    using assms by (auto simp: newTerminalExecContainerName_def randomHex_def split: sum.splits)
  then show ne: "c \<noteq> []" by (simp add: terminalExecContainerPrefix_def)
  have "plain_byte (CHR ''o'')" "plain_byte (CHR ''-'')" by code_simp+
  then have "plain_byte (hd c)" "plain_byte (last c)"
    using hex_wordChar [of "last (hexEncode raw)" raw] wordChar_plain last_in_set [of "hexEncode raw"]
    by (auto simp: c terminalExecContainerPrefix_def last_append)
  then show "trimSpace c = c" using ne by (intro trimmed_id trimmed_plain_ends)
qed

lemma acquire_cases:
  assumes wf: "manager_wf m" and f: "fresh_names env m" and a: "acquireSession env req lease m = (Inr (x, c, created), m')"
  obtains s where "map_of (tm_sessions m') x = Some s" "tn_busy s" "tn_containerName s = c" "manager_wf m'"
    "keeps {x} {} m m'" "created \<Longrightarrow> c \<notin> existing (tm_docker m') \<and> map_of (tm_sessions m) x = None"
    "lease \<le> tn_leaseExpiresAt s" "tm_docker m' = tm_docker m"
    "\<And>s0. map_of (tm_sessions m) x = Some s0 \<Longrightarrow> \<not> created \<and> \<not> tn_busy s0 \<and> tn_containerName s0 = c \<and>
       tn_leaseExpiresAt s = max (tn_leaseExpiresAt s0) lease"
    "x = targetSession env req"
    "created \<Longrightarrow> tn_leaseExpiresAt s = lease" "\<not> created \<Longrightarrow> map_of (tm_sessions m) x \<noteq> None"
proof (cases created)
  case True
  then have n: "newTerminalExecContainerName (ee_random env) = Inr c" and x: "map_of (tm_sessions m) x = None"
      "trimSpace x = x" "x \<noteq> []" "x = targetSession env req"
    and m': "m' = addSession x c lease m"
    using a f by (auto simp: acquireSession_def fresh_names_def targetSession_def Let_def split: if_splits sum.splits option.splits)
  have c: "c \<notin> containers m" "c \<notin> mentioned (tm_docker m)" using f n by (auto simp: fresh_names_def)
  note k = add_keeps [OF wf x(1-3) c containerName_trimmed [OF n], where lease = lease]
  let ?s = "\<lparr>tn_sessionID = x, tn_containerName = c, tn_leaseExpiresAt = lease, tn_busy = True\<rparr>"
  have "map_of (tm_sessions m') x = Some ?s" by (simp add: m' addSession_def update_conv')
  then show ?thesis
    by (rule that) (use True x c k keepsD(1) [OF k] keeps_mono [OF k] existing_mentioned in \<open>auto simp: m' addSession_def\<close>)
next
  case False
  then obtain s0 where s0: "map_of (tm_sessions m) (trimSpace (rq_sessionID req)) = Some s0" "\<not> tn_busy s0"
    and x: "x = tn_sessionID s0" "c = tn_containerName s0" "trimSpace (rq_sessionID req) \<noteq> []"
    and m': "m' = m\<lparr>tm_sessions := AList.update (trimSpace (rq_sessionID req))
      (s0\<lparr>tn_busy := True, tn_leaseExpiresAt := max (tn_leaseExpiresAt s0) lease\<rparr>) (tm_sessions m)\<rparr>"
    using a by (auto simp: acquireSession_def Let_def split: if_splits sum.splits option.splits)
  have x': "trimSpace (rq_sessionID req) = x" using wf_session(1) [OF wf s0(1)] x(1) by (simp add: terminalSession_ok_def)
  let ?s = "s0\<lparr>tn_busy := True, tn_leaseExpiresAt := max (tn_leaseExpiresAt s0) lease\<rparr>"
  have k: "keeps {x} {} m m'" unfolding m' x' by (rule update_own [OF wf s0(1) [unfolded x']]) simp_all
  have "map_of (tm_sessions m') x = Some ?s" by (simp add: m' x' update_conv')
  then show ?thesis
    by (rule that) (use False s0 x x' k keepsD(1) [OF k] in \<open>auto simp: m' targetSession_def\<close>)
qed

context interference
begin

lemma execute_keeps:
  assumes wf: "manager_wf m" and e: "ee_step env = i" and f: "fresh_names env (i m)"
    and x: "targetSession env req \<notin> X"
  shows "keeps X C m (snd (execute env req m))"
proof -
  note k0 = keeps_i [OF wf]
  note w0 = keepsD(1) [OF k0]
  have idle: "keeps X C m (i m)" "keeps X C m m" using k0 keeps_refl [OF wf] by auto
  have acq: "keeps X C m m2 \<and> keeps X C m (snd (if created
      then (case createAndStartContainer env c (i m2) of
         (Some e, m) \<Rightarrow> (Inl e, dropSession x (i m))
       | (None, m) \<Rightarrow> runInSession env command x c created (i m))
      else runInSession env command x c created (i m2)))"
    if a: "acquireSession env req lease (i m) = (Inr (x, c, created), m2)" for lease x c created m2 command
  proof (rule acquire_cases [OF w0 f a])
    fix s assume s: "map_of (tm_sessions m2) x = Some s" "tn_busy s" "tn_containerName s = c" "manager_wf m2" "keeps {x} {} (i m) m2"
      and cr: "created \<Longrightarrow> c \<notin> existing (tm_docker m2) \<and> map_of (tm_sessions (i m)) x = None"
      and old: "\<And>s0. map_of (tm_sessions (i m)) x = Some s0 \<Longrightarrow> \<not> created \<and> \<not> tn_busy s0 \<and> tn_containerName s0 = c \<and>
       tn_leaseExpiresAt s = max (tn_leaseExpiresAt s0) lease"
      and xt: "x = targetSession env req"
    have xX: "x \<notin> X" using x xt by simp
    have nb: "\<And>y u. y \<in> insert x X \<Longrightarrow> y \<notin> X \<Longrightarrow> map_of (tm_sessions (i m)) y = Some u \<Longrightarrow> \<not> tn_busy u"
      using old by auto
    have fin: "keeps X C m m'" if "keeps (insert x X) (insert c C) (i m) m'" "leaked m' \<subseteq> leaked (i m) \<union> C" for m'
      by (rule keeps_trans [OF k0 keeps_shrink [OF that(1) nb that(2)]])
    have acqd: "keeps X C m m2" by (rule fin [OF keeps_mono [OF s(5)]]) (use keepsD(3) [OF s(5)] in auto)
    note k2 = keeps_i [OF s(4)]
    note w2 = keepsD(1) [OF k2]
    have s2: "map_of (tm_sessions (i m2)) x = Some s" "c \<in> existing (tm_docker (i m2)) \<longleftrightarrow> c \<in> existing (tm_docker m2)"
      using keepsD(6) [OF k2 s(1,2) xX] s(3) by auto
    have k02: "keeps (insert x X) C (i m) (i m2)"
      by (rule keeps_trans [OF keeps_mono [OF s(5)] keeps_iX [OF s(4)]]) auto
    have run: "keeps X C m (snd (runInSession env command x c created m3))"
      if m3: "keeps (insert x X) C (i m) m3" "manager_wf m3" "map_of (tm_sessions m3) x = Some s" for m3
    proof -
      note r = runInSession_keeps [OF m3(2,3) s(2) xX e, where command = command and created = created, unfolded s(3)]
      show ?thesis
        by (rule fin, rule keeps_trans [OF keeps_mono [OF m3(1)]]) (use r keepsD(3) [OF m3(1)] in auto)
    qed
    show ?thesis
    proof (cases created)
      case False
      with run [OF k02 w2 s2(1)] acqd show ?thesis by simp
    next
      case True
      obtain res m4 where cs: "createAndStartContainer env c (i m2) = (res, m4)" by fastforce
      note c4 = createAndStart_keeps [OF w2 s2(1) s(2) xX e, unfolded s(3), OF _ cs]
      have ok: "keeps (insert x X) C (i m2) m4" "manager_wf m4" "map_of (tm_sessions m4) x = Some s" "res \<noteq> None \<longrightarrow> c \<notin> existing (tm_docker m4)"
        using c4 cr True s2(2) by auto
      note k4 = keeps_i [OF ok(2)]
      have s5: "map_of (tm_sessions (i m4)) x = Some s" "c \<in> existing (tm_docker (i m4)) \<longleftrightarrow> c \<in> existing (tm_docker m4)"
        using keepsD(6) [OF k4 ok(3) s(2) xX] s(3) by auto
      have k05: "keeps (insert x X) C (i m) (i m4)"
        by (rule keeps_trans [OF keeps_trans [OF k02 ok(1)] keeps_iX [OF ok(2)]]) auto
      have x: "trimSpace x = x" "x \<noteq> []" using wf_session(1) [OF s(4,1)] by (auto simp: terminalSession_ok_def)
      note dl = delete_own [OF keepsD(1) [OF k4] s5(1), unfolded s(3)]
      have drop: "keeps X C m (dropSession x (i m4))" if "res \<noteq> None"
      proof -
        have "dropSession x (i m4) = (i m4)\<lparr>tm_sessions := AList.delete x (tm_sessions (i m4))\<rparr>"
          by (simp add: dropSession_def x)
        moreover have "leaked (dropSession x (i m4)) \<subseteq> leaked (i m4)"
          using dl(3) s5(2) ok(4) that unfolding calculation by auto
        moreover have "keeps (insert x X) (insert c C) (i m) (i m4)" by (rule keeps_mono [OF k05]) auto
        moreover have "keeps (insert x X) (insert c C) (i m4) (dropSession x (i m4))"
          unfolding calculation(1) by (rule keeps_mono [OF dl(1)]) auto
        ultimately show ?thesis using keepsD(3) [OF k05] by (intro fin) (rule keeps_trans, auto)
      qed
      show ?thesis using True cs run [OF k05 keepsD(1) [OF k4] s5(1)] drop acqd
        by (auto split: option.split)
    qed
  qed
  have inl: "m2 = i m" if "acquireSession env req lease (i m) = (Inl er, m2)" for lease er m2
    using that by (auto simp: acquireSession_def Let_def split: if_splits sum.splits option.splits)
  show ?thesis
  proof (cases "trimSpace (rq_command req) = []")
    case False
    show ?thesis
    proof (cases "resolveLeaseDuration (rq_leaseTTLSec req) m")
      case (Inl er)
      with False idle show ?thesis by (simp add: execute_def Let_def)
    next
      case (Inr d)
      obtain res m2 where a: "acquireSession env req (tm_now m + d) (i m) = (res, m2)" by fastforce
      show ?thesis
      proof (cases res)
        case (Inl er)
        with False Inr idle a inl [of "tm_now m + d" er m2] show ?thesis by (simp add: execute_def Let_def e)
      next
        case (Inr t)
        obtain x c created where t: "t = (x, c, created)" by (cases t)
        from acq [of "tm_now m + d" x c created m2 "trimSpace (rq_command req)"] a Inr t
        show ?thesis using False \<open>resolveLeaseDuration (rq_leaseTTLSec req) m = Inr d\<close>
          unfolding execute_def e by (simp add: Let_def)
      qed
    qed
  qed (use idle in \<open>simp add: execute_def\<close>)
qed

end

context interference
begin

lemma resource_keeps:
  assumes wf: "manager_wf m" and e: "ee_step env = i"
    and xX: "trimSpace (tq_sessionID req) \<notin> X"
  shows "keeps X C m (snd (resolveResource env parse script req m))"
proof (cases "map_of (tm_sessions m) (trimSpace (tq_sessionID req))")
  case None
  with keeps_refl [OF wf] show ?thesis by (simp add: resolveResource_def Let_def)
next
  case (Some s)
  let ?x = "trimSpace (tq_sessionID req)"
  let ?b = "s\<lparr>tn_busy := True\<rparr>"
  let ?m1 = "m\<lparr>tm_sessions := AList.update ?x ?b (tm_sessions m)\<rparr>"
  let ?c = "tn_containerName s"
  show ?thesis
  proof (cases "tn_busy s")
    case True
    with Some keeps_refl [OF wf] show ?thesis by (simp add: resolveResource_def Let_def)
  next
    case False
    have nb: "\<And>y u. y \<in> insert ?x X \<Longrightarrow> y \<notin> X \<Longrightarrow> map_of (tm_sessions m) y = Some u \<Longrightarrow> \<not> tn_busy u" using Some False by auto
    have k1: "keeps {?x} {} m ?m1" by (rule update_own [OF wf Some]) simp_all
    have s1: "map_of (tm_sessions ?m1) ?x = Some ?b" "tn_busy ?b" by (simp_all add: update_conv')
    note ki = keeps_i [OF keepsD(1) [OF k1]]
    have s2: "map_of (tm_sessions (i ?m1)) ?x = Some ?b" using keepsD(6) [OF ki s1 xX] by simp
    have k2: "keeps (insert ?x X) C m (i ?m1)"
      by (rule keeps_trans [OF keeps_mono [OF k1] keeps_iX [OF keepsD(1) [OF k1]]]) auto
    obtain r m3 where d: "docker env (terminalExecDockerResourceArgs script ?c (normalizeTerminalResourceAction (tq_action req))
        (trimSpace (tq_filePath req)) (tm_outputLimitBytes m)) (i ?m1) = (r, m3)" by fastforce
    note st = docker_step [OF keepsD(1) [OF ki] s2 s1(2) _ xX e d, simplified]
    have k4: "keeps (insert ?x X) C m (i m3)" by (rule keeps_trans [OF k2 st(5)])
    have fin: "keeps X C m m'" if "keeps (insert ?x X) (insert ?c C) (i m3) m'" "leaked m' \<subseteq> leaked (i m3) \<union> C" for m'
      by (rule keeps_shrink [OF keeps_trans [OF keeps_mono [OF k4] that(1)] nb]) (use keepsD(3) [OF k4] that(2) in auto)
    note dest = destroy_own [OF st(2,3) e, simplified, OF st(4)] and idle = markIdle_own [OF st(2,3), simplified, OF st(4)]
    have k5: "keeps X C m (destroySession env ?x (i m3))" "keeps X C m (snd (markSessionIdle ?x (i m3)))"
      by (rule fin [OF dest]) (rule fin [OF keeps_mono [OF idle(3)]], use keepsD(3) [OF idle(3)] in auto)
    obtain t m5 where mi: "markSessionIdle ?x (i m3) = (Some t, m5)" using idle(1) by (metis prod.collapse)
    have l: "tm_outputLimitBytes (i ?m1) = tm_outputLimitBytes m" using keepsD(2) [OF k2] .
    show ?thesis using k5 keeps_refl [OF wf] mi Some False d
      unfolding resolveResource_def e by (simp add: Let_def split: option.split)
  qed
qed

lemma removeContainers_keeps:
  assumes "ee_step env = i"
  shows "manager_wf m \<Longrightarrow> \<forall>c \<in> set cs. c \<notin> containers m \<and> c \<in> mentioned (tm_docker m) \<and> trimSpace c = c \<and> c \<noteq> [] \<Longrightarrow>
    keeps X C m (removeContainers env cs m) \<and> leaked (removeContainers env cs m) \<inter> set cs \<subseteq> C"
proof (induction cs arbitrary: m)
  case Nil
  then show ?case by (simp add: keeps_refl)
next
  case (Cons c cs)
  note k = keeps_i [OF Cons.prems(1)]
  have cs: "\<forall>d \<in> set (c # cs). d \<notin> containers (i m) \<and> d \<in> mentioned (tm_docker (i m))"
    using Cons.prems(2) keepsD(4,5) [OF k] by blast
  note f = forceRemove_gone [OF keepsD(1) [OF k], where c = c and env = env]
  have f': "keeps X C (i m) (forceRemoveContainer env c (i m))" "leaked (forceRemoveContainer env c (i m)) = leaked (i m) - {c}"
      "containers (forceRemoveContainer env c (i m)) = containers (i m)"
      "mentioned (tm_docker (i m)) \<subseteq> mentioned (tm_docker (forceRemoveContainer env c (i m)))"
    using f cs Cons.prems(2) by auto
  have "keeps X C (forceRemoveContainer env c (i m)) (removeContainers env cs (forceRemoveContainer env c (i m))) \<and>
      leaked (removeContainers env cs (forceRemoveContainer env c (i m))) \<inter> set cs \<subseteq> C"
    by (rule Cons.IH) (use keepsD(1) [OF f'(1)] cs f'(3,4) Cons.prems(2) in auto)
  moreover from this have "leaked (removeContainers env cs (forceRemoveContainer env c (i m))) \<subseteq> (leaked (i m) - {c}) \<union> C"
    using keepsD(3) f'(2) by blast
  ultimately show ?case using keeps_trans [OF k keeps_trans [OF f'(1)]] assms by auto
qed

lemma cleanup_keeps:
  assumes wf: "manager_wf m" and e: "ee_step env = i"
  shows "keeps X C m (cleanupExpiredSessions env m)"
proof -
  let ?P = "\<lambda>(x :: string, s). expiredSession (tm_now m) s"
  let ?m = "m\<lparr>tm_sessions := filter (\<lambda>e. \<not> ?P e) (tm_sessions m)\<rparr>"
  let ?cs = "map (tn_containerName \<circ> snd) (filter ?P (tm_sessions m))"
  have kd: "keys_distinct (tm_sessions m)" by (rule wf_session(3) [OF wf])
  have mo: "map_of (tm_sessions ?m) x = Some s \<longleftrightarrow> map_of (tm_sessions m) x = Some s \<and> \<not> expiredSession (tm_now m) s" for x s
    using kd map_of_filter_distinct [OF kd, of "\<lambda>_ s. \<not> expiredSession (tm_now m) s"]
    by (auto simp: case_prod_unfold split: option.splits if_splits)
  have w: "manager_wf ?m"
    by (rule manager_wfI; (unfold mo)?) (use kd wf_session(1,2) [OF wf] wf_unique [OF wf] in \<open>auto simp: keys_filter\<close>)
  have cs: "\<exists>x s. c = tn_containerName s \<and> map_of (tm_sessions m) x = Some s \<and> expiredSession (tm_now m) s" if "c \<in> set ?cs" for c
    using that map_of_is_SomeI [OF kd] by fastforce
  have gone: "c \<notin> containers ?m \<and> c \<in> mentioned (tm_docker m) \<and> trimSpace c = c \<and> c \<noteq> []" if c: "c \<in> set ?cs" for c
  proof -
    obtain x s where s: "c = tn_containerName s" "map_of (tm_sessions m) x = Some s" "expiredSession (tm_now m) s"
      using cs [OF c] by blast
    have "c \<notin> containers ?m"
    proof
      assume "c \<in> containers ?m"
      then obtain y u where u: "map_of (tm_sessions m) y = Some u" "\<not> expiredSession (tm_now m) u" "tn_containerName u = c"
        unfolding containers_iff mo by blast
      then have "y = x" using wf_unique [OF wf s(2) u(1)] s(1) by auto
      with u s show False by simp
    qed
    then show ?thesis using s wf_session(1,2) [OF wf s(2)] by (auto simp: expiredSession_def terminalSession_ok_def)
  qed
  have "containers m \<subseteq> containers ?m \<union> set ?cs"
  proof
    fix c assume "c \<in> containers m"
    then obtain x s where s: "map_of (tm_sessions m) x = Some s" "tn_containerName s = c" unfolding containers_iff by blast
    show "c \<in> containers ?m \<union> set ?cs"
    proof (cases "expiredSession (tm_now m) s")
      case True
      with s map_of_SomeD [OF s(1)] show ?thesis by force
    next
      case False
      with s have "c \<in> containers ?m" unfolding containers_iff mo by blast
      then show ?thesis by blast
    qed
  qed
  then have l: "leaked ?m \<subseteq> leaked m \<union> set ?cs" by (auto simp: leaked_def)
  have "keeps X (set ?cs \<union> C) m ?m" unfolding keeps_def
  proof (intro conjI exI [of _ "[]"])
    show "containers ?m \<inter> mentioned (tm_docker m) \<subseteq> containers m"
      by (rule subsetI, elim IntE) (unfold containers_iff mo, blast)
    show "\<forall>x s. map_of (tm_sessions m) x = Some s \<and> tn_busy s \<and> x \<notin> X \<longrightarrow>
        map_of (tm_sessions ?m) x = Some s \<and> (\<forall>e \<in> set []. dockerTarget (fst e) \<noteq> Some (tn_containerName s))"
      unfolding mo by (simp add: expiredSession_def)
    show "leaked ?m \<subseteq> leaked m \<union> (set ?cs \<union> C)" using l by blast
  qed (use w in simp_all)
  moreover note r = removeContainers_keeps [OF e w, of ?cs]
  have r': "keeps X C ?m (removeContainers env ?cs ?m)" "leaked (removeContainers env ?cs ?m) \<inter> set ?cs \<subseteq> C"
    using r gone by auto
  have "leaked (removeContainers env ?cs ?m) \<subseteq> leaked m \<union> C" using keepsD(3) [OF r'(1)] r'(2) l by blast
  ultimately have "keeps X C m (removeContainers env ?cs ?m)"
    by (intro keeps_shrink [OF keeps_trans [OF _ keeps_mono [OF r'(1)]]]) auto
  then show ?thesis by (simp add: cleanupExpiredSessions_def case_prod_unfold)
qed

end


context interference
begin

text \<open>What the result of a command says: the answer of docker, cut to the limit, and the lease as the table has it.\<close>

lemma runInSession_Inr:
  assumes wf: "manager_wf m" and s: "map_of (tm_sessions m) x = Some s" "tn_busy s" and x: "x \<notin> X" and e: "ee_step env = i"
    and run: "runInSession env command x (tn_containerName s) created m = (Inr r, m')"
  shows "map_of (tm_sessions m') x = Some (s\<lparr>tn_busy := False\<rparr>)"
    "r = (let d = runDockerCommandCLI (ee_docker env (terminalExecDockerExecArgs (tn_containerName s) command)) in
      \<lparr>rr_sessionID = x, rr_created = created, rr_stdout = fst (truncateByBytes (dr_stdout d) (tm_outputLimitBytes m)),
       rr_stderr = fst (truncateByBytes (dr_stderr d) (tm_outputLimitBytes m)), rr_exitCode = dr_exitCode d,
       rr_stdoutTruncated = snd (truncateByBytes (dr_stdout d) (tm_outputLimitBytes m)),
       rr_stderrTruncated = snd (truncateByBytes (dr_stderr d) (tm_outputLimitBytes m)),
       rr_leaseExpiresUnixMS = unixMilli (tn_leaseExpiresAt s)\<rparr>)"
    "dr_err (runDockerCommandCLI (ee_docker env (terminalExecDockerExecArgs (tn_containerName s) command))) = None"
proof -
  obtain d m1 where d: "docker env (terminalExecDockerExecArgs (tn_containerName s) command) m = (d, m1)" by fastforce
  note st = docker_step [OF wf s _ x e d, simplified]
  note idle = markIdle_own [OF st(2,3,4)]
  have mi: "markSessionIdle x (i m1) = (Some (tn_leaseExpiresAt s),
      (i m1)\<lparr>tm_sessions := AList.update x (s\<lparr>tn_busy := False\<rparr>) (tm_sessions (i m1))\<rparr>)"
    using idle(1,2) by (metis prod.collapse)
  show "map_of (tm_sessions m') x = Some (s\<lparr>tn_busy := False\<rparr>)"
    "dr_err (runDockerCommandCLI (ee_docker env (terminalExecDockerExecArgs (tn_containerName s) command))) = None"
    using run st(1) by (auto simp: runInSession_def d e mi Let_def update_conv' split: option.splits if_splits)
  show "r = (let d = runDockerCommandCLI (ee_docker env (terminalExecDockerExecArgs (tn_containerName s) command)) in
      \<lparr>rr_sessionID = x, rr_created = created, rr_stdout = fst (truncateByBytes (dr_stdout d) (tm_outputLimitBytes m)),
       rr_stderr = fst (truncateByBytes (dr_stderr d) (tm_outputLimitBytes m)), rr_exitCode = dr_exitCode d,
       rr_stdoutTruncated = snd (truncateByBytes (dr_stdout d) (tm_outputLimitBytes m)),
       rr_stderrTruncated = snd (truncateByBytes (dr_stderr d) (tm_outputLimitBytes m)),
       rr_leaseExpiresUnixMS = unixMilli (tn_leaseExpiresAt s)\<rparr>)"
    using run st(1,11) by (auto simp: runInSession_def d e mi Let_def split: option.splits if_splits)
qed

lemma execute_Inr:
  assumes wf: "manager_wf m" and e: "ee_step env = i" and f: "fresh_names env (i m)"
    and x: "targetSession env req \<notin> X" and run: "execute env req m = (Inr r, m')"
  obtains s d where "map_of (tm_sessions m') (targetSession env req) = Some s" "\<not> tn_busy s"
    "d = runDockerCommandCLI (ee_docker env (terminalExecDockerExecArgs (tn_containerName s) (trimSpace (rq_command req))))"
    "dr_err d = None"
    "r = \<lparr>rr_sessionID = targetSession env req,
       rr_created = (map_of (tm_sessions (i m)) (targetSession env req) = None),
       rr_stdout = fst (truncateByBytes (dr_stdout d) (tm_outputLimitBytes m)),
       rr_stderr = fst (truncateByBytes (dr_stderr d) (tm_outputLimitBytes m)), rr_exitCode = dr_exitCode d,
       rr_stdoutTruncated = snd (truncateByBytes (dr_stdout d) (tm_outputLimitBytes m)),
       rr_stderrTruncated = snd (truncateByBytes (dr_stderr d) (tm_outputLimitBytes m)),
       rr_leaseExpiresUnixMS = unixMilli (tn_leaseExpiresAt s)\<rparr>"
    "\<exists>lease. resolveLeaseDuration (rq_leaseTTLSec req) m = Inr lease \<and> tm_now m + lease \<le> tn_leaseExpiresAt s"
    "\<And>s0. map_of (tm_sessions (i m)) (targetSession env req) = Some s0 \<Longrightarrow>
       \<not> tn_busy s0 \<and> tn_containerName s0 = tn_containerName s \<and> tn_leaseExpiresAt s0 \<le> tn_leaseExpiresAt s"
proof -
  note k0 = keeps_i [OF wf]
  obtain lease y c created m2 where l: "resolveLeaseDuration (rq_leaseTTLSec req) m = Inr lease"
    and a: "acquireSession env req (tm_now m + lease) (i m) = (Inr (y, c, created), m2)"
    using run by (auto simp: execute_def Let_def e split: if_splits sum.splits prod.splits)
  show thesis
  proof (rule acquire_cases [OF keepsD(1) [OF k0] f a])
    fix s assume s: "map_of (tm_sessions m2) y = Some s" "tn_busy s" "tn_containerName s = c" "manager_wf m2" "keeps {y} {} (i m) m2"
      and cr: "created \<Longrightarrow> c \<notin> existing (tm_docker m2) \<and> map_of (tm_sessions (i m)) y = None"
      and le: "tm_now m + lease \<le> tn_leaseExpiresAt s"
      and old: "\<And>s0. map_of (tm_sessions (i m)) y = Some s0 \<Longrightarrow> \<not> created \<and> \<not> tn_busy s0 \<and> tn_containerName s0 = c \<and>
         tn_leaseExpiresAt s = max (tn_leaseExpiresAt s0) (tm_now m + lease)"
      and y: "y = targetSession env req" and new: "\<not> created \<Longrightarrow> map_of (tm_sessions (i m)) y \<noteq> None"
    have yX: "y \<notin> X" using x y by simp
    note k2 = keeps_i [OF s(4)]
    have s2: "map_of (tm_sessions (i m2)) y = Some s" "c \<in> existing (tm_docker (i m2)) \<longleftrightarrow> c \<in> existing (tm_docker m2)"
      using keepsD(6) [OF k2 s(1,2) yX] s(3) by auto
    have lim: "tm_outputLimitBytes (i m2) = tm_outputLimitBytes m"
      using keepsD(2) [OF k2] keepsD(2) [OF s(5)] keepsD(2) [OF k0] by simp
    have "\<exists>m3. runInSession env (trimSpace (rq_command req)) y c created m3 = (Inr r, m') \<and> manager_wf m3 \<and>
        map_of (tm_sessions m3) y = Some s \<and> tm_outputLimitBytes m3 = tm_outputLimitBytes m"
    proof (cases created)
      case False
      then show ?thesis using run l a keepsD(1) [OF k2] s2(1) lim
        by (auto simp: execute_def Let_def e split: if_splits)
    next
      case True
      obtain res m4 where cs: "createAndStartContainer env c (i m2) = (res, m4)" by fastforce
      note c4 = createAndStart_keeps [OF keepsD(1) [OF k2] s2(1) s(2) yX e, unfolded s(3), OF _ cs]
      have ok: "keeps (insert y X) C (i m2) m4" "manager_wf m4" "map_of (tm_sessions m4) y = Some s"
        using c4 cr True s2(2) by auto
      note k4 = keeps_i [OF ok(2)]
      show ?thesis using run l a True cs keepsD(1) [OF k4] keepsD(6) [OF k4 ok(3) s(2) yX] keepsD(2) [OF k4] keepsD(2) [OF ok(1)] lim
        by (auto simp: execute_def Let_def e split: if_splits option.splits)
    qed
    then obtain m3 where m3: "runInSession env (trimSpace (rq_command req)) y c created m3 = (Inr r, m')" "manager_wf m3"
      "map_of (tm_sessions m3) y = Some s" "tm_outputLimitBytes m3 = tm_outputLimitBytes m" by blast
    note R = runInSession_Inr [OF m3(2,3) s(2) yX e, unfolded s(3), OF m3(1)]
    have created: "created \<longleftrightarrow> map_of (tm_sessions (i m)) y = None" using cr new by blast
    show thesis
      by (rule that [OF R(1) [unfolded y] _ refl]) (use R(2,3) s(3) l le old created m3(4) y in \<open>auto simp: Let_def\<close>)
  qed
qed

end

section \<open>The worker's calls\<close>

interpretation quiet: interference id "{}" "{}"
  by unfold_locales (simp add: keeps_refl)

definition undisturbed :: "exec_env \<Rightarrow> exec_env" where "undisturbed env = env\<lparr>ee_step := id\<rparr>"

lemma undisturbed_simps [simp]: "ee_step (undisturbed env) = id" "ee_docker (undisturbed env) = ee_docker env"
  "ee_uuid (undisturbed env) = ee_uuid env" "ee_random (undisturbed env) = ee_random env"
  by (simp_all add: undisturbed_def)

text \<open>The janitor and the readers of files are such interference.\<close>

interpretation janitor: interference "cleanupExpiredSessions (undisturbed env)" "{}" "{}" for env
  by unfold_locales (simp add: quiet.cleanup_keeps)

interpretation reader: interference "\<lambda>m. snd (resolveResource (undisturbed env) parse script req m)" "{}" "{}" for env parse script req
  by unfold_locales (simp add: quiet.resource_keeps)

text \<open>The calls of the worker one after the other, each with any number of whole calls inside it, and the clock.\<close>

inductive manager_step :: "manager \<Rightarrow> manager \<Rightarrow> bool" where
  ms_execute: "interference (ee_step env) {} {} \<Longrightarrow> fresh_names env (ee_step env m) \<Longrightarrow> manager_step m (snd (execute env req m))"
| ms_resource: "interference (ee_step env) {} {} \<Longrightarrow> manager_step m (snd (resolveResource env parse script rreq m))"
| ms_cleanup: "interference (ee_step env) {} {} \<Longrightarrow> manager_step m (cleanupExpiredSessions env m)"
| ms_clock: "tm_now m \<le> t \<Longrightarrow> manager_step m (m\<lparr>tm_now := t\<rparr>)"

inductive_cases manager_stepE: "manager_step m m'"

lemma manager_step_keeps:
  assumes "manager_step m m'" and wf: "manager_wf m"
  shows "keeps {} {} m m'"
  using assms(1)
proof cases
  case (ms_execute env req)
  with interference.execute_keeps [OF ms_execute(2) wf refl ms_execute(3)] show ?thesis by simp
next
  case (ms_resource env parse script rreq)
  with interference.resource_keeps [OF ms_resource(2) wf refl] show ?thesis by simp
next
  case (ms_cleanup env)
  with interference.cleanup_keeps [OF ms_cleanup(2) wf refl] show ?thesis by simp
next
  case (ms_clock t)
  have "manager_wf (m\<lparr>tm_now := t\<rparr>)" by (rule manager_wfI) (use wf_session [OF wf] wf_unique [OF wf] in auto)
  with ms_clock show ?thesis
    by (auto simp: keeps_def leaked_def containers_def intro!: exI [of _ "[]"])
qed

lemma newManager_wf: "manager_wf (newTerminalSessionManager cfg now)" "leaked (newTerminalSessionManager cfg now) = {}"
  by (auto simp: newTerminalSessionManager_def Let_def manager_wf_def leaked_def)

section \<open>Properties\<close>

text \<open>C12: While \<open>Execute\<close> runs for one session, a session that another command has made busy stays exactly as it
  was in the table, and none of the docker calls made in the meantime, by this call or in between, is about that
  session's container. The calls in between may do anything of the kind to the sessions \<open>X\<close> they hold themselves.\<close>

theorem busy_session_left_alone:
  assumes "interference (ee_step env) X C" "manager_wf m" "fresh_names env (ee_step env m)" "targetSession env req \<notin> X"
    and "map_of (tm_sessions m) x = Some s" "tn_busy s" "x \<notin> X"
  shows "map_of (tm_sessions (snd (execute env req m))) x = Some s \<and>
    (\<exists>added. tm_docker (snd (execute env req m)) = tm_docker m @ added \<and>
       (\<forall>e \<in> set added. dockerTarget (fst e) \<noteq> Some (tn_containerName s)))"
  using interference.execute_keeps [OF assms(1,2) refl assms(3,4)] assms(5-7) unfolding keeps_def by blast

definition demoConfig :: terminalSessionManagerConfig where
  "demoConfig = \<lparr>tc_leaseMinSec = 0, tc_leaseMaxSec = 0, tc_leaseDefaultSec = 0, tc_outputLimitBytes = 4,
     tc_dockerImage = [], tc_memoryLimit = [], tc_cpuLimit = [], tc_pidsLimit = 0\<rparr>"

definition terminalEnv :: "docker \<Rightarrow> exec_env" where
  "terminalEnv dk = \<lparr>ee_step = id, ee_docker = dk, ee_uuid = ''u1'', ee_random = Inr (replicate 8 0)\<rparr>"

definition demoSession :: "bool \<Rightarrow> string \<Rightarrow> terminalSession" where
  "demoSession busy x = \<lparr>tn_sessionID = x, tn_containerName = ''c-'' @ x, tn_leaseExpiresAt = 100, tn_busy = busy\<rparr>"

definition demoManager :: "bool \<Rightarrow> manager" where
  "demoManager busy = (newTerminalSessionManager demoConfig 0)\<lparr>tm_sessions := [(''s1'', demoSession busy ''s1'')],
     tm_docker := [([''create'', ''--name'', ''c-s1''], runDockerCommandCLI \<lparr>pr_stdout = [], pr_stderr = [], pr_end = Exited 0\<rparr>)]\<rparr>"

definition terminalRequest :: "string \<Rightarrow> terminalExecRequest" where
  "terminalRequest x = \<lparr>rq_command = ''echo hello'', rq_sessionID = x, rq_createIfMissing = True, rq_leaseTTLSec = None\<rparr>"

lemma demo_env [simp]: "ee_step (terminalEnv dk) = id" "ee_docker (terminalEnv dk) = dk" "interference id {} {}"
  using quiet.interference_axioms by (simp_all add: terminalEnv_def)

lemma demo_session: "map_of (tm_sessions (demoManager b)) x = Some s \<longleftrightarrow> x = ''s1'' \<and> s = demoSession b ''s1''"
  by (auto simp: demoManager_def)

lemma demoSession_simps [simp]: "tn_busy (demoSession b x) = b" "tn_containerName (demoSession b x) = ''c-'' @ x"
  by (simp_all add: demoSession_def)

lemma demo_wf: "manager_wf (demoManager b)"
proof -
  have "trimSpace ''s1'' = ''s1''" "trimSpace ''c-s1'' = ''c-s1''" by code_simp+
  then show ?thesis unfolding manager_wf_def demo_session
    by (auto simp: demoManager_def demoSession_def terminalSession_ok_def mentioned_def dockerTarget_def)
qed

lemma demo_fresh: "fresh_names (terminalEnv dk) (demoManager b)"
proof -
  have n: "newTerminalExecContainerName (ee_random (terminalEnv dk)) = Inr ''onlyboxes-terminalexec-0000000000000000''"
    unfolding terminalEnv_def by code_simp
  have "trimSpace (ee_uuid (terminalEnv dk)) = ee_uuid (terminalEnv dk)" unfolding terminalEnv_def by code_simp
  moreover have "map_of (tm_sessions (demoManager b)) ''u1'' = None" by (simp add: demoManager_def)
  moreover have "containers (demoManager b) = {''c-s1''}"
    by (auto simp: containers_iff demo_session demoSession_def)
  moreover have "mentioned (tm_docker (demoManager b)) = {''c-s1''}" by (simp add: demoManager_def mentioned_def dockerTarget_def)
  ultimately show ?thesis unfolding fresh_names_def n by (simp add: terminalEnv_def)
qed

definition demoDocker :: "process_end \<Rightarrow> docker" where
  "demoDocker ending args = \<lparr>pr_stdout = ''hello'', pr_stderr = [], pr_end = ending\<rparr>"

lemma demo_target: "targetSession (terminalEnv dk) (terminalRequest ''s1'') = ''s1''" "targetSession (terminalEnv dk) (terminalRequest ''s2'') = ''s2''"
  unfolding targetSession_def terminalRequest_def terminalEnv_def by code_simp+

lemma busy_session_left_alone_witness:
  "map_of (tm_sessions (snd (execute (terminalEnv (demoDocker (Exited 0))) (terminalRequest ''s2'') (demoManager True)))) ''s1'' =
     Some (demoSession True ''s1'')"
  using busy_session_left_alone [of "terminalEnv (demoDocker (Exited 0))" "{}" "{}" "demoManager True" "terminalRequest ''s2''"
      "''s1''" "demoSession True ''s1''"] demo_wf demo_fresh
  by (simp add: demo_session demo_target)



text \<open>C36: A command that \<open>Execute\<close> reports as done has run, by \<open>docker exec\<close>, the trimmed command in the
  container of the session it names; the result is docker's output cut to the limit and its exit code, \<open>created\<close>
  says whether the session was new, the lease reported is the one in the table, it lasts at least as long as the
  request asked for, and never shrinks; the session is idle again, and it was not busy before.\<close>

theorem execute_result:
  assumes "interference (ee_step env) X C" "manager_wf m" "fresh_names env (ee_step env m)" "targetSession env req \<notin> X"
    and "execute env req m = (Inr r, m')"
  shows "\<exists>s d lease. map_of (tm_sessions m') (rr_sessionID r) = Some s \<and> \<not> tn_busy s \<and> rr_sessionID r = targetSession env req \<and>
    d = runDockerCommandCLI (ee_docker env (terminalExecDockerExecArgs (tn_containerName s) (trimSpace (rq_command req)))) \<and>
    dr_err d = None \<and> rr_exitCode r = dr_exitCode d \<and>
    (rr_stdout r, rr_stdoutTruncated r) = truncateByBytes (dr_stdout d) (tm_outputLimitBytes m) \<and>
    (rr_stderr r, rr_stderrTruncated r) = truncateByBytes (dr_stderr d) (tm_outputLimitBytes m) \<and>
    rr_leaseExpiresUnixMS r = unixMilli (tn_leaseExpiresAt s) \<and>
    resolveLeaseDuration (rq_leaseTTLSec req) m = Inr lease \<and> tm_now m + lease \<le> tn_leaseExpiresAt s \<and>
    (case map_of (tm_sessions (ee_step env m)) (rr_sessionID r) of
       None \<Rightarrow> rr_created r
     | Some s0 \<Rightarrow> \<not> rr_created r \<and> \<not> tn_busy s0 \<and> tn_containerName s0 = tn_containerName s \<and>
         tn_leaseExpiresAt s0 \<le> tn_leaseExpiresAt s)"
proof (rule interference.execute_Inr [OF assms(1,2) refl assms(3-5)])
  fix s d
  assume a: "map_of (tm_sessions m') (targetSession env req) = Some s" "\<not> tn_busy s"
    "d = runDockerCommandCLI (ee_docker env (terminalExecDockerExecArgs (tn_containerName s) (trimSpace (rq_command req))))"
    "dr_err d = None"
    "\<exists>lease. resolveLeaseDuration (rq_leaseTTLSec req) m = Inr lease \<and> tm_now m + lease \<le> tn_leaseExpiresAt s"
    and r: "r = \<lparr>rr_sessionID = targetSession env req,
       rr_created = (map_of (tm_sessions (ee_step env m)) (targetSession env req) = None),
       rr_stdout = fst (truncateByBytes (dr_stdout d) (tm_outputLimitBytes m)),
       rr_stderr = fst (truncateByBytes (dr_stderr d) (tm_outputLimitBytes m)), rr_exitCode = dr_exitCode d,
       rr_stdoutTruncated = snd (truncateByBytes (dr_stdout d) (tm_outputLimitBytes m)),
       rr_stderrTruncated = snd (truncateByBytes (dr_stderr d) (tm_outputLimitBytes m)),
       rr_leaseExpiresUnixMS = unixMilli (tn_leaseExpiresAt s)\<rparr>"
    and old: "\<And>s0. map_of (tm_sessions (ee_step env m)) (targetSession env req) = Some s0 \<Longrightarrow>
       \<not> tn_busy s0 \<and> tn_containerName s0 = tn_containerName s \<and> tn_leaseExpiresAt s0 \<le> tn_leaseExpiresAt s"
  then show ?thesis
    by (intro exI [of _ s] exI [of _ d]) (auto split: option.split)
qed

definition demoResult :: terminalExecRunResult where
  "demoResult = \<lparr>rr_sessionID = ''s1'', rr_created = False, rr_stdout = ''hell'', rr_stderr = [], rr_exitCode = 3,
     rr_stdoutTruncated = True, rr_stderrTruncated = False, rr_leaseExpiresUnixMS = 60000\<rparr>"

lemma execute_result_witness:
  "\<exists>m' s. execute (terminalEnv (demoDocker (Exited 3))) (terminalRequest ''s1'') (demoManager False) = (Inr demoResult, m') \<and>
     map_of (tm_sessions m') ''s1'' = Some s \<and> \<not> tn_busy s"
proof -
  have e: "fst (execute (terminalEnv (demoDocker (Exited 3))) (terminalRequest ''s1'') (demoManager False)) = Inr demoResult"
    unfolding terminalEnv_def demoDocker_def terminalRequest_def demoManager_def demoResult_def demoConfig_def demoSession_def by code_simp
  obtain m' where m': "execute (terminalEnv (demoDocker (Exited 3))) (terminalRequest ''s1'') (demoManager False) = (Inr demoResult, m')"
    using e by (metis prod.collapse)
  show ?thesis
    using execute_result [of "terminalEnv (demoDocker (Exited 3))" "{}" "{}" "demoManager False" "terminalRequest ''s1''" demoResult m']
      m' demo_fresh demo_wf
    by (auto simp: demoResult_def)
qed
lemma removeContainers_log:
  assumes "ee_step env = id"
  shows "\<forall>c \<in> set cs. trimSpace c = c \<and> c \<noteq> [] \<Longrightarrow> tm_sessions (removeContainers env cs m) = tm_sessions m \<and>
    map fst (tm_docker (removeContainers env cs m)) = map fst (tm_docker m) @ map dockerRemoveArgs cs"
  by (induction cs arbitrary: m)
    (simp_all add: assms forceRemoveContainer_def docker_def runDocker_def Let_def case_prod_unfold)

text \<open>An undisturbed round of the janitor drops exactly the sessions that are idle and past their lease, and
  asks docker, once each and for nothing else, to remove their containers.\<close>

theorem cleanup_exactly:
  assumes "manager_wf m" "ee_step env = id"
  shows "tm_sessions (cleanupExpiredSessions env m) =
      filter (\<lambda>(_, s). tn_busy s \<or> tn_leaseExpiresAt s > tm_now m) (tm_sessions m) \<and>
    map fst (tm_docker (cleanupExpiredSessions env m)) = map fst (tm_docker m) @
      map (\<lambda>(_, s). dockerRemoveArgs (tn_containerName s))
        (filter (\<lambda>(_, s). \<not> tn_busy s \<and> tn_leaseExpiresAt s \<le> tm_now m) (tm_sessions m))"
proof -
  have ok: "\<forall>c \<in> set (map (tn_containerName \<circ> snd) (tm_sessions m)). trimSpace c = c \<and> c \<noteq> []"
  proof
    fix c assume "c \<in> set (map (tn_containerName \<circ> snd) (tm_sessions m))"
    then obtain x s where "(x, s) \<in> set (tm_sessions m)" "c = tn_containerName s" by auto
    with wf_session(1) [OF assms(1) map_of_is_SomeI [OF wf_session(3) [OF assms(1)]]]
    show "trimSpace c = c \<and> c \<noteq> []" by (auto simp: terminalSession_ok_def)
  qed
  have r: "tm_sessions (removeContainers env cs n) = tm_sessions n"
    "map fst (tm_docker (removeContainers env cs n)) = map fst (tm_docker n) @ map dockerRemoveArgs cs"
    if "set cs \<subseteq> set (map (tn_containerName \<circ> snd) (tm_sessions m))" for cs n
    using removeContainers_log [OF assms(2), of cs n] subsetD [OF that, THEN bspec [OF ok]] by blast+
  show ?thesis unfolding cleanupExpiredSessions_def
    by (subst r, force, subst r, force)
      (simp add: expiredSession_def case_prod_unfold not_less not_le)
qed

lemma cleanup_exactly_witness:
  "tm_sessions (cleanupExpiredSessions (terminalEnv (demoDocker (Exited 0))) ((demoManager False)\<lparr>tm_now := 200\<rparr>)) = []"
proof -
  have "keeps {} {} (demoManager False) ((demoManager False)\<lparr>tm_now := 200\<rparr>)"
    by (rule manager_step_keeps [OF ms_clock demo_wf])
      (simp add: demoManager_def newTerminalSessionManager_def Let_def)
  from cleanup_exactly [OF keepsD(1) [OF this], of "terminalEnv (demoDocker (Exited 0))"]
  show ?thesis by (simp add: demoManager_def demoSession_def)
qed

section \<open>Deadlines\<close>

text \<open>When the deadline of a command kills \<open>docker exec\<close>, the call does not end as timed out: \<open>Run\<close> reports the
  killed client as an exit error, so \<open>Execute\<close> returns a result, with exit code -1, and the session is idle again
  although nothing was done about the command inside the container; the branch that destroys the session is only
  for a deadline that passed before the client started.\<close>

theorem killed_command_reported_done:
  fixes req :: terminalExecRequest
  defines "x \<equiv> trimSpace (rq_sessionID req)"
  assumes "map_of (tm_sessions m) x = Some s" "\<not> tn_busy s" "terminalSession_ok x s" "ee_step env = id"
    and "trimSpace (rq_command req) \<noteq> []" "resolveLeaseDuration (rq_leaseTTLSec req) m = Inr lease"
    and "ee_docker env (terminalExecDockerExecArgs (tn_containerName s) (trimSpace (rq_command req))) = p"
    and "pr_end p = KilledByContext" "\<not> isNoSuchContainerMessage (pr_stderr p)"
  shows "\<exists>r m' s'. execute env req m = (Inr r, m') \<and> rr_exitCode r = -1 \<and>
    map_of (tm_sessions m') x = Some s' \<and> \<not> tn_busy s' \<and>
    map fst (tm_docker m') = map fst (tm_docker m) @
      [terminalExecDockerExecArgs (tn_containerName s) (trimSpace (rq_command req))]"
  using assms(2-) unfolding x_def terminalSession_ok_def
  by (auto simp: execute_def Let_def acquireSession_def runInSession_def docker_def runDocker_def runDockerCommandCLI_def
      commandRun_def markSessionIdle_def update_conv')

lemma killed_command_reported_done_witness:
  "\<exists>r m'. execute (terminalEnv (demoDocker KilledByContext)) (terminalRequest ''s1'') (demoManager False) = (Inr r, m') \<and>
     rr_exitCode r = -1"
proof -
  have t: "trimSpace (rq_sessionID (terminalRequest ''s1'')) = ''s1''" "trimSpace (rq_command (terminalRequest ''s1'')) = ''echo hello''"
    "\<not> isNoSuchContainerMessage []" "terminalSession_ok ''s1'' (demoSession False ''s1'')"
    "resolveLeaseDuration (rq_leaseTTLSec (terminalRequest ''s1'')) (demoManager False) = Inr (60 * second)"
    unfolding terminalRequest_def demoSession_def demoManager_def demoConfig_def by code_simp+
  then show ?thesis
    using killed_command_reported_done [of "demoManager False" "terminalRequest ''s1''" "demoSession False ''s1''"
        "terminalEnv (demoDocker KilledByContext)" "60 * second" "demoDocker KilledByContext (terminalExecDockerExecArgs ''c-s1'' ''echo hello'')"]
    by (auto simp: demo_session demoDocker_def)
qed

text \<open>A deadline that kills \<open>docker create\<close> leaves no session and asks for no removal, although the daemon may well
  have created the container under the name it was given.\<close>

lemma killed_create_leaks:
  fixes req :: terminalExecRequest
  assumes "map_of (tm_sessions m) (trimSpace (rq_sessionID req)) = None" "trimSpace (rq_sessionID req) \<noteq> []" "rq_createIfMissing req"
    and "ee_step env = id" "trimSpace (rq_command req) \<noteq> []" "resolveLeaseDuration (rq_leaseTTLSec req) m = Inr lease"
    and "newTerminalExecContainerName (ee_random env) = Inr c"
    and "args = terminalExecDockerCreateArgs c (tm_dockerImage m) (tm_memoryLimit m) (tm_cpuLimit m) (tm_pidsLimit m)"
    and "pr_end (ee_docker env args) = KilledByContext"
  shows "\<exists>msg m'. execute env req m = (Inl (TextError msg), m') \<and> map_of (tm_sessions m') (trimSpace (rq_sessionID req)) = None \<and>
    map fst (tm_docker m') = map fst (tm_docker m) @ [args]"
  using assms trimSpace_idem [of "rq_sessionID req"]
  by (auto simp: execute_def Let_def acquireSession_def addSession_def createAndStartContainer_def docker_def runDocker_def
      runDockerCommandCLI_def commandRun_def dropSession_def delete_conv' map_of_delete)


end
