(* ===== verification/GoStrings.thy ===== *)
theory GoStrings
  imports Process
begin

text \<open>
  The functions of Go's \<open>strings\<close> on separators that the configuration, the docker client and the path rules use:
  \<open>Split\<close>, \<open>SplitN\<close> with two parts, and \<open>Join\<close>, each for a separator of one byte.
\<close>

fun splitOn :: "char \<Rightarrow> string \<Rightarrow> string list" where
  "splitOn sep [] = [[]]"
| "splitOn sep (c # cs) =
     (if c = sep then [] # splitOn sep cs
      else case splitOn sep cs of [] \<Rightarrow> [[c]] | p # ps \<Rightarrow> (c # p) # ps)"

fun joinWith :: "char \<Rightarrow> string list \<Rightarrow> string" where
  "joinWith sep [] = []"
| "joinWith sep [p] = p"
| "joinWith sep (p # q # ps) = p @ sep # joinWith sep (q # ps)"

definition splitTwo :: "char \<Rightarrow> string \<Rightarrow> string list" where
  "splitTwo sep s =
     (case dropWhile (\<lambda>c. c \<noteq> sep) s of [] \<Rightarrow> [s] | _ # rest \<Rightarrow> [takeWhile (\<lambda>c. c \<noteq> sep) s, rest])"

lemma splitOn_nonempty [simp]: "splitOn sep s \<noteq> []"
  by (induction s) (auto split: list.split)

lemma splitOn_parts: "p \<in> set (splitOn sep s) \<Longrightarrow> sep \<notin> set p"
  by (induction s arbitrary: p) (auto split: if_splits list.splits)

lemma joinWith_Cons: "ps \<noteq> [] \<Longrightarrow> joinWith sep (p # ps) = p @ sep # joinWith sep ps"
  by (cases ps) simp_all

lemma joinWith_consHead: "joinWith sep ((c # p) # ps) = c # joinWith sep (p # ps)"
  by (cases ps) simp_all

lemma join_splitOn [simp]: "joinWith sep (splitOn sep s) = s"
  by (induction s) (auto simp: joinWith_Cons joinWith_consHead split: list.split)

lemma splitOn_plain: "sep \<notin> set p \<Longrightarrow> splitOn sep p = [p]"
  by (induction p) auto

lemma splitOn_append: "sep \<notin> set p \<Longrightarrow> splitOn sep (p @ sep # s) = p # splitOn sep s"
  by (induction p) auto

lemma splitOn_join: "ps \<noteq> [] \<Longrightarrow> \<forall>p \<in> set ps. sep \<notin> set p \<Longrightarrow> splitOn sep (joinWith sep ps) = ps"
  by (induction sep ps rule: joinWith.induct) (simp_all add: splitOn_plain splitOn_append)

lemma splitTwo_cases:
  "splitTwo sep s = [s] \<and> sep \<notin> set s \<or>
   (\<exists>a b. splitTwo sep s = [a, b] \<and> s = a @ sep # b \<and> sep \<notin> set a)"
proof (cases "dropWhile (\<lambda>c. c \<noteq> sep) s")
  case Nil
  then have "sep \<notin> set s" by (auto simp: dropWhile_eq_Nil_conv)
  moreover from Nil have "splitTwo sep s = [s]" unfolding splitTwo_def by (simp only: list.case)
  ultimately show ?thesis by blast
next
  case (Cons c rest)
  then have "c = sep" using hd_dropWhile [of "\<lambda>c. c \<noteq> sep" s] by simp
  moreover have "s = takeWhile (\<lambda>c. c \<noteq> sep) s @ c # rest" using Cons takeWhile_dropWhile_id [of "\<lambda>c. c \<noteq> sep" s] by simp
  moreover have "sep \<notin> set (takeWhile (\<lambda>c. c \<noteq> sep) s)" by (auto dest: set_takeWhileD)
  ultimately show ?thesis using Cons by (auto simp: splitTwo_def)
qed

end
