(* ===== verification/PythonExec.thy ===== *)
theory PythonExec
  imports TerminalProperties GoStrings
begin

text \<open>
  One Python program in a container of its own: \<open>worker-docker/internal/runner/python_runtime.go\<close>. The state is the
  log of docker calls; the random bytes of the container's name and docker's answers are arguments. Inspecting and
  removing the container have contexts of their own, so their processes end independently of the command's deadline.
  The texts of \<open>strconv\<close>'s errors and Go's quoting are left out of the messages.
\<close>

definition defaultPythonExecDockerImage :: string where "defaultPythonExecDockerImage = ''python:slim''"
definition defaultPythonExecMemoryLimit :: string where "defaultPythonExecMemoryLimit = ''256m''"
definition defaultPythonExecCPULimit :: string where "defaultPythonExecCPULimit = ''1.0''"
definition defaultPythonExecPidsLimit :: int where "defaultPythonExecPidsLimit = 128"
definition pythonExecContainerPrefix :: string where "pythonExecContainerPrefix = ''onlyboxes-pythonexec-''"
definition pythonExecCapabilityLabel :: string where
  "pythonExecCapabilityLabel = ''onlyboxes.capability=pythonExec''"

record pythonExecRunResult =
  pr_output :: string
  pr_errors :: string
  pr_exitCode :: int

record dockerContainerState =
  ds_status :: string
  ds_exitCode :: int

definition pythonExecDockerCreateArgs :: "string \<Rightarrow> string \<Rightarrow> string \<Rightarrow> string list" where
  "pythonExecDockerCreateArgs containerName dockerImage code =
     (let img = (if trimSpace dockerImage = [] then defaultPythonExecDockerImage else trimSpace dockerImage)
      in [''create'', ''--name'', containerName, ''--label'', pythonExecManagedLabel,
          ''--label'', pythonExecCapabilityLabel, ''--label'', pythonExecRuntimeLabel,
          ''--memory'', defaultPythonExecMemoryLimit, ''--cpus'', defaultPythonExecCPULimit,
          ''--pids-limit'', itoa defaultPythonExecPidsLimit, img, ''python'', ''-c'', code])"

definition pythonExecDockerStartArgs :: "string \<Rightarrow> string list" where
  "pythonExecDockerStartArgs containerName = [''start'', ''-a'', containerName]"

definition pythonExecDockerInspectArgs :: "string \<Rightarrow> string list" where
  "pythonExecDockerInspectArgs containerName =
     [''inspect'', ''-f'', ''{{.State.Status}}|{{.State.ExitCode}}'', containerName]"

definition newPythonExecContainerName :: "random \<Rightarrow> go_error + string" where
  "newPythonExecContainerName rnd =
     (case randomHex 8 rnd of Inl e \<Rightarrow> Inl e | Inr ending \<Rightarrow> Inr (pythonExecContainerPrefix @ ending))"

definition isTerminalPythonExecContainerState :: "string \<Rightarrow> bool" where
  "isTerminalPythonExecContainerState state \<longleftrightarrow> trimSpace (toLower state) \<in> {''exited'', ''dead''}"

text \<open>What \<open>docker inspect\<close> printed: the status and the exit code.\<close>

definition parseContainerState :: "string \<Rightarrow> go_error + dockerContainerState" where
  "parseContainerState stdout =
     (case splitOn (CHR ''|'') (trimSpace stdout) of
        [status, code] \<Rightarrow>
          (case atoi (trimSpace code) of
             None \<Rightarrow> Inl (OtherError ''invalid container exit code'')
           | Some n \<Rightarrow> Inr \<lparr>ds_status = trimSpace status, ds_exitCode = n\<rparr>)
      | _ \<Rightarrow> Inl (OtherError (''unexpected docker inspect output: '' @ trimSpace stdout)))"

definition inspectPythonExecContainerState ::
  "docker \<Rightarrow> string \<Rightarrow> docker_log \<Rightarrow> (go_error + dockerContainerState) \<times> docker_log" where
  "inspectPythonExecContainerState dk containerName log =
     (case runDocker dk (pythonExecDockerInspectArgs containerName) log of
        (r, log) \<Rightarrow>
          (case dr_err r of
             Some e \<Rightarrow> Inl e
           | None \<Rightarrow>
               if dr_exitCode r \<noteq> 0
               then Inl (OtherError (dockerCommandFailureMessage ''exit code'' (dr_exitCode r) (dr_stderr r)))
               else parseContainerState (dr_stdout r), log))"

text \<open>A failed removal is only logged.\<close>

definition cleanupPythonExecContainer :: "docker \<Rightarrow> string \<Rightarrow> docker_log \<Rightarrow> docker_log" where
  "cleanupPythonExecContainer dk containerName log = snd (runDocker dk (dockerRemoveArgs containerName) log)"

text \<open>From the start of the container to the result, before the deferred removal.\<close>

definition startPythonExec ::
  "docker \<Rightarrow> string \<Rightarrow> docker_log \<Rightarrow> (worker_error + pythonExecRunResult) \<times> docker_log" where
  "startPythonExec dk containerName log =
     (case runDocker dk (pythonExecDockerStartArgs containerName) log of
        (r, log) \<Rightarrow>
      case dr_err r of
        Some e \<Rightarrow> (Inl (WrapError (if isContextError e then [] else ''docker start failed: '') e), log)
      | None \<Rightarrow>
          if dr_exitCode r = 0
          then (Inr \<lparr>pr_output = dr_stdout r, pr_errors = dr_stderr r, pr_exitCode = 0\<rparr>, log)
          else case inspectPythonExecContainerState dk containerName log of
                 (Inl e, log) \<Rightarrow>
                   (Inl (WrapError (''docker start failed with exit code '' @ itoa (dr_exitCode r) @
                      '': inspect failed: '') e), log)
               | (Inr state, log) \<Rightarrow>
                   if \<not> isTerminalPythonExecContainerState (ds_status state)
                   then (Inl (TextError (''docker start failed: state='' @ ds_status state @ '' '' @
                          dockerCommandFailureMessage ''exit code'' (dr_exitCode r) (dr_stderr r))), log)
                   else (Inr \<lparr>pr_output = dr_stdout r, pr_errors = dr_stderr r, pr_exitCode = ds_exitCode state\<rparr>,
                         log))"

definition runPythonExecInDockerWithImage ::
  "docker \<Rightarrow> random \<Rightarrow> string \<Rightarrow> string \<Rightarrow> docker_log \<Rightarrow> (worker_error + pythonExecRunResult) \<times> docker_log" where
  "runPythonExecInDockerWithImage dk rnd dockerImage code log =
     (case newPythonExecContainerName rnd of
        Inl e \<Rightarrow> (Inl (WrapError ''allocate pythonExec container name: '' e), log)
      | Inr containerName \<Rightarrow>
          (case runDocker dk (pythonExecDockerCreateArgs containerName dockerImage code) log of
             (r, log) \<Rightarrow>
           case dr_err r of
             Some e \<Rightarrow> (Inl (WrapError ''docker create failed: '' e), log)
           | None \<Rightarrow>
               if dr_exitCode r \<noteq> 0
               then (Inl (TextError (''docker create failed: '' @
                       dockerCommandFailureMessage ''exit code'' (dr_exitCode r) (dr_stderr r))), log)
               else case startPythonExec dk containerName log of
                      (res, log) \<Rightarrow> (res, cleanupPythonExecContainer dk containerName log)))"

section \<open>The container goes whatever happens\<close>

lemma dockerTarget_python [simp]: "dockerTarget (pythonExecDockerCreateArgs c img code) = Some c"
  by (simp add: dockerTarget_def pythonExecDockerCreateArgs_def Let_def)

lemma runDocker_simp [simp]:
  "runDocker dk args log = (runDockerCommandCLI (dk args), log @ [(args, runDockerCommandCLI (dk args))])"
  by (simp add: runDocker_def Let_def)

lemma hd_args [simp]: "hd (pythonExecDockerCreateArgs c img code) = ''create''" "hd (pythonExecDockerStartArgs c) = ''start''"
  "hd (pythonExecDockerInspectArgs c) = ''inspect''" "hd (dockerRemoveArgs c) = ''rm''"
  by (simp_all add: pythonExecDockerCreateArgs_def Let_def pythonExecDockerStartArgs_def pythonExecDockerInspectArgs_def
      dockerRemoveArgs_def)

lemma applyDocker_other [simp]: "hd args = ''start'' \<or> hd args = ''inspect'' \<Longrightarrow> applyDocker (args, r) cs = cs"
  by (auto simp: applyDocker_def split: option.split)

lemma existing_two: "existing (log @ [a, b]) = applyDocker b (applyDocker a (existing log))"
  by (simp add: existing_def)

lemma startPythonExec_log:
  obtains s where "snd (startPythonExec dk c log) = log @ s"
    "\<forall>e \<in> set s. fst e \<in> {pythonExecDockerStartArgs c, pythonExecDockerInspectArgs c}"
    "existing (snd (startPythonExec dk c log)) = existing log"
proof -
  let ?a = "(pythonExecDockerStartArgs c, runDockerCommandCLI (dk (pythonExecDockerStartArgs c)))"
  let ?b = "(pythonExecDockerInspectArgs c, runDockerCommandCLI (dk (pythonExecDockerInspectArgs c)))"
  obtain res where i: "inspectPythonExecContainerState dk c (log @ [?a]) = (res, log @ [?a, ?b])"
    by (auto simp: inspectPythonExecContainerState_def)
  have "snd (startPythonExec dk c log) = log @ [?a] \<or> snd (startPythonExec dk c log) = log @ [?a, ?b]"
    by (auto simp: startPythonExec_def i split: option.splits sum.splits)
  then show thesis
    by (elim disjE) (rule that, assumption, simp, simp add: existing_two)+
qed


definition demoPython :: "process_end \<Rightarrow> process_end \<Rightarrow> string \<Rightarrow> docker" where
  "demoPython creating running inspected args =
     (if hd args = ''create'' then \<lparr>pr_stdout = ''id'', pr_stderr = [], pr_end = creating\<rparr>
      else if hd args = ''inspect'' then \<lparr>pr_stdout = inspected, pr_stderr = [], pr_end = Exited 0\<rparr>
      else \<lparr>pr_stdout = ''out'', pr_stderr = [], pr_end = running\<rparr>)"

definition demoBytes :: random where "demoBytes = Inr (replicate 8 0)"


text \<open>A successful create is followed by one of these answers: the output with exit code 0 when \<open>docker start -a\<close>
  says so, otherwise the exit code that \<open>docker inspect\<close> printed as a decimal number behind a terminal status, and an
  error in every other case, never a made-up exit code.\<close>

theorem python_exit_code:
  assumes "runPythonExecInDockerWithImage dk rnd img code log = (Inr r, log')"
  shows "\<exists>c d. newPythonExecContainerName rnd = Inr c \<and> d = runDockerCommandCLI (dk (pythonExecDockerStartArgs c)) \<and>
    succeeded (runDockerCommandCLI (dk (pythonExecDockerCreateArgs c img code))) \<and> dr_err d = None \<and>
    pr_output r = dr_stdout d \<and> pr_errors r = dr_stderr d \<and>
    (if dr_exitCode d = 0 then pr_exitCode r = 0
     else \<exists>status number. splitOn (CHR ''|'') (trimSpace (dr_stdout (runDockerCommandCLI (dk (pythonExecDockerInspectArgs c)))))
              = [status, number] \<and>
            succeeded (runDockerCommandCLI (dk (pythonExecDockerInspectArgs c))) \<and>
            isTerminalPythonExecContainerState (trimSpace status) \<and> atoi (trimSpace number) = Some (pr_exitCode r))"
proof -
  obtain c log1 where c: "newPythonExecContainerName rnd = Inr c" "succeeded (runDockerCommandCLI (dk (pythonExecDockerCreateArgs c img code)))"
    and run: "fst (startPythonExec dk c log1) = Inr r"
    using assms by (auto simp: runPythonExecInDockerWithImage_def succeeded_def case_prod_unfold split: sum.splits option.splits if_splits)
  let ?d = "runDockerCommandCLI (dk (pythonExecDockerStartArgs c))"
  let ?i = "runDockerCommandCLI (dk (pythonExecDockerInspectArgs c))"
  have d: "dr_err ?d = None" using run by (auto simp: startPythonExec_def split: option.splits)
  show ?thesis
  proof (cases "dr_exitCode ?d = 0")
    case True
    then have "r = \<lparr>pr_output = dr_stdout ?d, pr_errors = dr_stderr ?d, pr_exitCode = 0\<rparr>"
      using run d by (simp add: startPythonExec_def)
    with c d True show ?thesis by (intro exI [of _ c] exI [of _ ?d]) simp
  next
    case False
    then obtain state log2 where i: "inspectPythonExecContainerState dk c (log1 @ [(pythonExecDockerStartArgs c, ?d)]) = (Inr state, log2)"
      and r: "r = \<lparr>pr_output = dr_stdout ?d, pr_errors = dr_stderr ?d, pr_exitCode = ds_exitCode state\<rparr>"
      and t: "isTerminalPythonExecContainerState (ds_status state)"
      using run d by (auto simp: startPythonExec_def split: sum.splits if_splits prod.splits)
    have p: "succeeded ?i" "parseContainerState (dr_stdout ?i) = Inr state"
      using i by (auto simp: inspectPythonExecContainerState_def succeeded_def split: option.splits if_splits)
    then obtain status number where "splitOn (CHR ''|'') (trimSpace (dr_stdout ?i)) = [status, number]"
      "atoi (trimSpace number) = Some (ds_exitCode state)" "trimSpace status = ds_status state"
      by (auto simp: parseContainerState_def split: list.splits option.splits)
    with c d False p(1) r t show ?thesis by (intro exI [of _ c] exI [of _ ?d]) simp
  qed
qed

lemma python_exit_code_witness:
  "\<exists>r log'. runPythonExecInDockerWithImage (demoPython (Exited 0) (Exited 7) ''exited|7'') demoBytes [] ''x'' [] = (Inr r, log') \<and>
     pr_exitCode r = 7"
proof -
  have f: "fst (runPythonExecInDockerWithImage (demoPython (Exited 0) (Exited 7) ''exited|7'') demoBytes [] ''x'' [])
      = Inr \<lparr>pr_output = ''out'', pr_errors = [], pr_exitCode = 7\<rparr>"
    unfolding demoPython_def demoBytes_def by code_simp
  obtain log' where run: "runPythonExecInDockerWithImage (demoPython (Exited 0) (Exited 7) ''exited|7'') demoBytes [] ''x'' []
      = (Inr \<lparr>pr_output = ''out'', pr_errors = [], pr_exitCode = 7\<rparr>, log')" using f by (metis prod.collapse)
  with python_exit_code [OF run] show ?thesis by auto
qed

text \<open>A deadline that kills \<open>docker start -a\<close> while the program runs is not an error of the context: the container is
  still running, so the answer is a plain failure, and the console hears \<open>execution_failed\<close>.\<close>

lemma killed_python_not_timeout:
  assumes "newPythonExecContainerName rnd = Inr c" "succeeded (runDockerCommandCLI (dk (pythonExecDockerCreateArgs c img code)))"
    and "pr_end (dk (pythonExecDockerStartArgs c)) = KilledByContext"
    and "dk (pythonExecDockerInspectArgs c) = \<lparr>pr_stdout = ''running|0'', pr_stderr = [], pr_end = Exited 0\<rparr>"
  shows "\<exists>msg log'. runPythonExecInDockerWithImage dk rnd img code log = (Inl (TextError msg), log')"
proof -
  have p: "parseContainerState ''running|0'' = Inr \<lparr>ds_status = ''running'', ds_exitCode = 0\<rparr>"
    "\<not> isTerminalPythonExecContainerState ''running''" by code_simp+
  have "runDockerCommandCLI (dk (pythonExecDockerInspectArgs c)) = \<lparr>dr_stdout = ''running|0'', dr_stderr = [], dr_exitCode = 0, dr_err = None\<rparr>"
    by (simp add: assms(4) runDockerCommandCLI_def commandRun_def)
  moreover have "dr_err (runDockerCommandCLI (dk (pythonExecDockerStartArgs c))) = None"
    "dr_exitCode (runDockerCommandCLI (dk (pythonExecDockerStartArgs c))) = -1"
    by (simp_all add: runDockerCommandCLI_def commandRun_def assms(3) Let_def)
  ultimately show ?thesis using assms(1,2) p
    by (simp add: runPythonExecInDockerWithImage_def startPythonExec_def inspectPythonExecContainerState_def succeeded_def)
qed

end
