(* ===== verification/Paths.thy ===== *)
theory Paths
  imports GoStrings
begin

text \<open>
  Go's \<open>path/filepath\<close> on Unix as the file rules use it: \<open>Clean\<close>, \<open>Abs\<close>, \<open>Rel\<close> and \<open>Ext\<close>, on byte strings. The
  working directory is an argument. A clean absolute path is determined by its elements, and \<open>Rel\<close> is understood
  through them.
\<close>

section \<open>The functions\<close>

definition sep :: char where "sep = CHR ''/''"

definition isAbs :: "string \<Rightarrow> bool" where "isAbs p \<longleftrightarrow> p \<noteq> [] \<and> hd p = sep"

text \<open>One element: \<open>acc\<close> holds the elements so far, the last one first.\<close>

definition cleanStep :: "bool \<Rightarrow> string \<Rightarrow> string list \<Rightarrow> string list" where
  "cleanStep rooted c acc =
     (if c = [] \<or> c = ''.'' then acc
      else if c = ''..'' then
        (case acc of
           [] \<Rightarrow> if rooted then [] else [''..'']
         | t # rest \<Rightarrow> if t = ''..'' then ''..'' # acc else rest)
      else c # acc)"

definition cleanPath :: "string \<Rightarrow> string" where
  "cleanPath p =
     (let rooted = isAbs p; parts = rev (fold (cleanStep rooted) (splitOn sep p) [])
      in if rooted then sep # joinWith sep parts
         else if parts = [] then ''.'' else joinWith sep parts)"

text \<open>\<open>Abs\<close> joins a relative path to the working directory, if that can be found out.\<close>

definition absOf :: "string option \<Rightarrow> string \<Rightarrow> string option" where
  "absOf cwd p = (if isAbs p then Some (cleanPath p)
     else case cwd of None \<Rightarrow> None | Some d \<Rightarrow> Some (cleanPath (d @ sep # p)))"

definition pathParts :: "string \<Rightarrow> string list" where
  "pathParts p = filter (\<lambda>c. c \<noteq> []) (splitOn sep p)"

fun stripCommon :: "'a list \<Rightarrow> 'a list \<Rightarrow> 'a list \<times> 'a list" where
  "stripCommon (b # bs) (t # ts) = (if b = t then stripCommon bs ts else (b # bs, t # ts))"
| "stripCommon bs ts = (bs, ts)"

definition relPath :: "string \<Rightarrow> string \<Rightarrow> string option" where
  "relPath basepath targpath =
     (let base = cleanPath basepath; targ = cleanPath targpath
      in if targ = base then Some ''.''
         else
           let base = (if base = ''.'' then [] else base)
           in if isAbs base \<noteq> isAbs targ then None
              else case stripCommon (pathParts base) (pathParts targ) of
                (bs, ts) \<Rightarrow>
                  if bs \<noteq> [] \<and> ts \<noteq> [] \<and> hd bs = ''..'' then None
                  else Some (joinWith sep (replicate (length bs) ''..'' @ ts)))"

text \<open>The ending from the last dot of the last element on.\<close>

definition pathExt :: "string \<Rightarrow> string" where
  "pathExt p =
     (let last_part = rev (takeWhile (\<lambda>c. c \<noteq> sep) (rev p))
      in if CHR ''.'' \<in> set last_part
         then CHR ''.'' # rev (takeWhile (\<lambda>c. c \<noteq> CHR ''.'') (rev last_part)) else [])"

section \<open>Clean absolute paths\<close>

definition plainPart :: "string \<Rightarrow> bool" where
  "plainPart c \<longleftrightarrow> c \<noteq> [] \<and> c \<noteq> ''.'' \<and> c \<noteq> ''..'' \<and> sep \<notin> set c"

definition absPath :: "string list \<Rightarrow> string" where "absPath ps = sep # joinWith sep ps"

definition cleanAbs :: "string \<Rightarrow> bool" where
  "cleanAbs p \<longleftrightarrow> p = absPath (pathParts p) \<and> list_all plainPart (pathParts p)"

lemma isAbs_absPath [simp]: "isAbs (absPath ps)" and isAbs_Cons [simp]: "isAbs (c # cs) \<longleftrightarrow> c = sep"
  by (simp_all add: isAbs_def absPath_def)

lemma splitOn_absPath: "list_all plainPart ps \<Longrightarrow> splitOn sep (absPath ps) = [] # (if ps = [] then [[]] else ps)"
  by (auto simp: absPath_def splitOn_join plainPart_def list_all_iff)

lemma pathParts_absPath [simp]: "list_all plainPart ps \<Longrightarrow> pathParts (absPath ps) = ps"
  unfolding pathParts_def by (simp add: splitOn_absPath) (simp add: plainPart_def list_all_iff filter_id_conv)

lemma cleanAbs_absPath [simp]: "list_all plainPart ps \<Longrightarrow> cleanAbs (absPath ps)"
  by (simp add: cleanAbs_def)

lemma cleanAbsE: "cleanAbs p \<Longrightarrow> (\<And>ps. p = absPath ps \<Longrightarrow> list_all plainPart ps \<Longrightarrow> pathParts p = ps \<Longrightarrow> R) \<Longrightarrow> R"
  unfolding cleanAbs_def by metis

lemma fold_clean_plain: "list_all plainPart ps \<Longrightarrow> fold (cleanStep r) ps acc = rev ps @ acc"
  by (induction ps arbitrary: acc) (auto simp: cleanStep_def plainPart_def)

lemma cleanStep_plain: "list_all plainPart acc \<Longrightarrow> sep \<notin> set c \<Longrightarrow> list_all plainPart (cleanStep True c acc)"
  by (auto simp: cleanStep_def plainPart_def split: list.split)

lemma fold_clean_rooted:
  "list_all plainPart acc \<Longrightarrow> \<forall>c \<in> set cs. sep \<notin> set c \<Longrightarrow> list_all plainPart (fold (cleanStep True) cs acc)"
  by (induction cs arbitrary: acc) (simp_all add: cleanStep_plain)

lemma cleanPath_abs: "isAbs p \<Longrightarrow> cleanAbs (cleanPath p)"
proof -
  assume a: "isAbs p"
  have "list_all plainPart (rev (fold (cleanStep True) (splitOn sep p) []))"
    using fold_clean_rooted [of "[]" "splitOn sep p"] splitOn_parts [of _ sep p] by (auto simp: list_all_iff)
  then have "cleanAbs (absPath (rev (fold (cleanStep True) (splitOn sep p) [])))" by (rule cleanAbs_absPath)
  with a show ?thesis by (simp add: cleanPath_def absPath_def)
qed

lemma absOf_clean: "absOf cwd p = Some q \<Longrightarrow> (\<And>d. cwd = Some d \<Longrightarrow> isAbs d) \<Longrightarrow> cleanAbs q"
  by (auto simp: absOf_def isAbs_def split: if_splits option.splits intro!: cleanPath_abs)

lemma cleanPath_absPath [simp]:
  assumes "list_all plainPart ps"
  shows "cleanPath (absPath ps) = absPath ps"
proof -
  have "fold (cleanStep True) (splitOn sep (absPath ps)) [] = rev ps"
    using fold_clean_plain [OF assms, of True "[]"]
    unfolding splitOn_absPath [OF assms] by (cases ps) (simp_all add: cleanStep_def)
  then show ?thesis unfolding cleanPath_def isAbs_absPath Let_def if_True by (simp add: absPath_def)
qed

lemma cleanAbs_fix: "cleanAbs p \<Longrightarrow> cleanPath p = p"
  by (erule cleanAbsE) simp

lemma stripCommon_split:
  "stripCommon bs ts = (b', t') \<Longrightarrow> \<exists>c. bs = c @ b' \<and> ts = c @ t' \<and> (b' = [] \<longleftrightarrow> prefix bs ts) \<and> (b' = [] \<and> t' = [] \<longleftrightarrow> bs = ts)"
proof (induction bs ts rule: stripCommon.induct)
  case (1 b bs t ts)
  then show ?case
    by (cases "b = t") (force intro: exI [of _ "b # c" for c], auto)
qed auto

lemma replicate_dots: "fold (cleanStep False) (replicate k ''..'') acc = replicate k ''..'' @ acc"
  if "acc = [] \<or> hd acc = ''..''"
  using that
proof (induction k arbitrary: acc)
  case (Suc k)
  have "cleanStep False ''..'' acc = ''..'' # acc" using Suc.prems by (auto simp: cleanStep_def split: list.split)
  with Suc.IH [of "''..'' # acc"] show ?case by (simp add: replicate_app_Cons_same)
qed simp

lemma joinWith_head: "ps \<noteq> [] \<Longrightarrow> hd ps \<noteq> [] \<Longrightarrow> joinWith s ps \<noteq> [] \<and> hd (joinWith s ps) = hd (hd ps)"
  by (cases "(s, ps)" rule: joinWith.cases) auto

text \<open>What \<open>Clean\<close> makes of a path upwards and down again.\<close>

lemma cleanPath_relative:
  assumes "list_all plainPart ts" "ps = replicate k ''..'' @ ts" "ps \<noteq> []"
  shows "cleanPath (joinWith sep ps) = joinWith sep ps"
proof -
  have el: "\<forall>c \<in> set ps. sep \<notin> set c \<and> c \<noteq> []"
  proof
    fix c assume "c \<in> set ps"
    then have "c = ''..'' \<or> plainPart c" using assms(1) unfolding assms(2) list_all_iff by fastforce
    then show "sep \<notin> set c \<and> c \<noteq> []" unfolding plainPart_def sep_def by (elim disjE) simp_all
  qed
  have h1: "hd ps \<noteq> []" using bspec [OF el hd_in_set [OF assms(3)]] ..
  have "hd (hd ps) \<in> set (hd ps)" using h1 by simp
  then have h2: "hd (hd ps) \<noteq> sep" using bspec [OF el hd_in_set [OF assms(3)]] by metis
  have na: "\<not> isAbs (joinWith sep ps)" using joinWith_head [OF assms(3) h1] h2 by (simp add: isAbs_def)
  have "fold (cleanStep False) ps [] = rev ps"
    using fold_clean_plain [OF assms(1)] replicate_dots [of "[]" k] by (simp add: assms(2))
  moreover have "splitOn sep (joinWith sep ps) = ps" by (rule splitOn_join) (use el assms(3) in auto)
  ultimately show ?thesis using na assms(3) by (simp add: cleanPath_def)
qed

lemma relPath_absPath:
  assumes "list_all plainPart bs" "list_all plainPart ts" "stripCommon bs ts = (b', t')"
  shows "relPath (absPath bs) (absPath ts) =
    Some (if bs = ts then ''.'' else joinWith sep (replicate (length b') ''..'' @ t'))"
proof -
  have eq: "absPath ts = absPath bs \<longleftrightarrow> bs = ts" using assms(1,2) pathParts_absPath by metis
  have nd: "absPath bs \<noteq> ''.''" by (simp add: absPath_def sep_def)
  have "hd b' \<noteq> ''..''" if "b' \<noteq> []"
  proof -
    obtain c where "bs = c @ b'" using stripCommon_split [OF assms(3)] by blast
    then have "hd b' \<in> set bs" using that by simp
    with assms(1) show ?thesis by (auto simp: list_all_iff plainPart_def)
  qed
  then have "\<not> (b' \<noteq> [] \<and> t' \<noteq> [] \<and> hd b' = ''..'')" by blast
  with assms eq nd show ?thesis by (auto simp: relPath_def)
qed

end
