(* ===== verification/ReadImage.thy ===== *)
theory ReadImage
  imports Paths
begin

text \<open>
  Reading files through the system worker: \<open>worker-sys/internal/runner/read_image.go\<close>. The operating system is an
  argument: a history of file systems, one for the moment of each system call, since other processes may change files
  between two calls of one request. A file system says what \<open>EvalSymlinks\<close> answers for a path and which file \<open>Open\<close>
  and \<open>Stat\<close> find under it. Working directory, MIME tables and sniffing are arguments too.
\<close>

section \<open>Files\<close>

datatype fs_error = NotExist | OsError string

definition fsGoError :: "fs_error \<Rightarrow> go_error" where
  "fsGoError e = (case e of NotExist \<Rightarrow> OtherError ''file does not exist'' | OsError m \<Rightarrow> OtherError m)"

text \<open>What \<open>Stat\<close> tells of a file: which one it is (for \<open>SameFile\<close>), whether it is a directory, its size.\<close>

record file_info =
  fi_file :: nat
  fi_isDir :: bool
  fi_size :: int

record file_system =
  fs_eval :: "string \<Rightarrow> fs_error + string"
  fs_lookup :: "string \<Rightarrow> fs_error + file_info"
  fs_content :: "nat \<Rightarrow> fs_error + string"

text \<open>A path and what its symbolic links resolve to name the same file.\<close>

definition resolving :: "file_system \<Rightarrow> bool" where
  "resolving fs \<longleftrightarrow> (\<forall>p r. fs_eval fs p = Inr r \<longrightarrow> fs_lookup fs r = fs_lookup fs p)"

record mime_tables =
  mt_byExtension :: "string \<Rightarrow> string"
  mt_parse :: "string \<Rightarrow> string option"
  mt_sniff :: "string \<Rightarrow> string"

section \<open>Requests and rules\<close>

record readImageRequest =
  iq_sessionID :: string
  iq_filePath :: string
  iq_action :: string

record readImageRunResult =
  ir_sessionID :: string
  ir_filePath :: string
  ir_mimeType :: string
  ir_sizeBytes :: int
  ir_blob :: string

record readImagePathRule =
  pl_path :: string
  pl_isDir :: bool

definition readImageSessionComputerUse :: string where "readImageSessionComputerUse = ''computerUse''"
definition readImageActionValidate :: string where "readImageActionValidate = ''validate''"
definition readImageActionRead :: string where "readImageActionRead = ''read''"
definition readImageCodePathNotAllowed :: string where "readImageCodePathNotAllowed = ''path_not_allowed''"
definition readImageDetectSniffByteLimit :: nat where "readImageDetectSniffByteLimit = 512"

definition pathNotAllowed :: worker_error where
  "pathNotAllowed = newWorkerError readImageCodePathNotAllowed ''file path is not allowed''"

definition normalizeReadImageAction :: "string \<Rightarrow> string" where
  "normalizeReadImageAction action =
     (let a = trimSpace (toLower action)
      in if a = [] \<or> a = readImageActionValidate then readImageActionValidate
         else if a = readImageActionRead then readImageActionRead else [])"

definition normalizeReadImagePath :: "string option \<Rightarrow> string \<Rightarrow> string option" where
  "normalizeReadImagePath cwd rawPath =
     (let pathValue = trimSpace rawPath
      in if pathValue = [] then None else map_option cleanPath (absOf cwd (cleanPath pathValue)))"

definition hasTrailingPathSeparator :: "string \<Rightarrow> bool" where
  "hasTrailingPathSeparator p \<longleftrightarrow> p \<noteq> [] \<and> last p \<in> {CHR ''/'', CHR 0x5C}"

definition compileReadImagePathRule :: "string option \<Rightarrow> file_system \<Rightarrow> string \<Rightarrow> readImagePathRule option" where
  "compileReadImagePathRule cwd fs rawPath =
     (let pathValue = trimSpace rawPath
      in if pathValue = [] then None
         else case normalizeReadImagePath cwd pathValue of
           None \<Rightarrow> None
         | Some p \<Rightarrow>
             Some \<lparr>pl_path = p, pl_isDir = (case fs_lookup fs p of
                      Inl _ \<Rightarrow> hasTrailingPathSeparator pathValue | Inr info \<Rightarrow> fi_isDir info)\<rparr>)"

definition ruleKey :: "readImagePathRule \<Rightarrow> string" where
  "ruleKey rule = pl_path rule @ (if pl_isDir rule then ''|dir'' else ''|file'')"

primrec compileReadImagePathRules ::
  "string option \<Rightarrow> file_system \<Rightarrow> string list \<Rightarrow> string list \<Rightarrow> readImagePathRule list" where
  "compileReadImagePathRules cwd fs seen [] = []"
| "compileReadImagePathRules cwd fs seen (entry # rest) =
     (case compileReadImagePathRule cwd fs entry of
        None \<Rightarrow> compileReadImagePathRules cwd fs seen rest
      | Some rule \<Rightarrow>
          if ruleKey rule \<in> set seen then compileReadImagePathRules cwd fs seen rest
          else rule # compileReadImagePathRules cwd fs (ruleKey rule # seen) rest)"

definition readImagePathWithin :: "string \<Rightarrow> string \<Rightarrow> bool" where
  "readImagePathWithin basePath targetPath =
     (case relPath basePath targetPath of
        None \<Rightarrow> False
      | Some rel \<Rightarrow>
          let cleanRel = cleanPath rel
          in if cleanRel = ''.'' then True
             else if cleanRel = ''..'' \<or> prefix ''../'' cleanRel then False
             else \<not> isAbs cleanRel)"

definition readImagePathsEqual :: "string \<Rightarrow> string \<Rightarrow> bool" where
  "readImagePathsEqual left right =
     (case relPath left right of None \<Rightarrow> False | Some rel \<Rightarrow> cleanPath rel = ''.'')"

definition readImagePathRuleMatches :: "readImagePathRule \<Rightarrow> string \<Rightarrow> bool" where
  "readImagePathRuleMatches rule pathValue =
     (if pl_isDir rule then readImagePathWithin (pl_path rule) pathValue
      else readImagePathsEqual (pl_path rule) pathValue)"

definition isPathLexicallyAllowed :: "readImagePathRule list \<Rightarrow> string \<Rightarrow> bool" where
  "isPathLexicallyAllowed rules pathValue \<longleftrightarrow> list_ex (\<lambda>rule. readImagePathRuleMatches rule pathValue) rules"

text \<open>A failing \<open>Getwd\<close> inside \<open>Abs\<close> is some other error.\<close>

definition evalReadImageRealPath :: "string option \<Rightarrow> file_system \<Rightarrow> string \<Rightarrow> fs_error + string" where
  "evalReadImageRealPath cwd fs pathValue =
     (case fs_eval fs pathValue of
        Inl e \<Rightarrow> Inl e
      | Inr resolved \<Rightarrow>
          (case absOf cwd resolved of None \<Rightarrow> Inl (OsError ''getwd'') | Some p \<Rightarrow> Inr (cleanPath p)))"

text \<open>The loop over the rules; the \<open>n\<close>-th system call sees the \<open>n\<close>-th file system.\<close>

fun reallyAllowedLoop ::
  "string option \<Rightarrow> (nat \<Rightarrow> file_system) \<Rightarrow> nat \<Rightarrow> string \<Rightarrow> readImagePathRule list \<Rightarrow> fs_error + bool" where
  "reallyAllowedLoop cwd hist n resolvedPath [] = Inr False"
| "reallyAllowedLoop cwd hist n resolvedPath (rule # rules) =
     (case evalReadImageRealPath cwd (hist n) (pl_path rule) of
        Inl NotExist \<Rightarrow> reallyAllowedLoop cwd hist (Suc n) resolvedPath rules
      | Inl e \<Rightarrow> Inl e
      | Inr resolvedRulePath \<Rightarrow>
          if pl_isDir rule \<and> readImagePathWithin resolvedRulePath resolvedPath then Inr True
          else if \<not> pl_isDir rule \<and> readImagePathsEqual resolvedRulePath resolvedPath then Inr True
          else reallyAllowedLoop cwd hist (Suc n) resolvedPath rules)"

definition isPathReallyAllowed ::
  "string option \<Rightarrow> (nat \<Rightarrow> file_system) \<Rightarrow> nat \<Rightarrow> readImagePathRule list \<Rightarrow> string \<Rightarrow> fs_error + bool" where
  "isPathReallyAllowed cwd hist n rules pathValue =
     (if rules = [] then Inr False
      else case evalReadImageRealPath cwd (hist n) pathValue of
        Inl e \<Rightarrow> Inl e
      | Inr resolvedPath \<Rightarrow> reallyAllowedLoop cwd hist (Suc n) resolvedPath rules)"

section \<open>The executor\<close>

text \<open>Opening: the first system call.\<close>

definition openReadImageFile :: "file_system \<Rightarrow> string \<Rightarrow> worker_error + file_info" where
  "openReadImageFile fs filePath =
     (case fs_lookup fs filePath of
        Inl NotExist \<Rightarrow> Inl (newWorkerError ''file_not_found'' ''file not found'')
      | Inl e \<Rightarrow> Inl (WrapError ''open file failed: '' (fsGoError e))
      | Inr info \<Rightarrow>
          if fi_isDir info then Inl (newWorkerError ''path_is_directory'' ''path is directory'') else Inr info)"

text \<open>The binding of the opened file to the allowed path: the links are resolved from the second call on, and one
  more \<open>Stat\<close> follows them.\<close>

definition ensureReadImagePathBinding ::
  "string option \<Rightarrow> (nat \<Rightarrow> file_system) \<Rightarrow> readImagePathRule list \<Rightarrow> string \<Rightarrow> file_info \<Rightarrow> worker_error option" where
  "ensureReadImagePathBinding cwd hist rules pathValue openedInfo =
     (case isPathReallyAllowed cwd hist 1 rules pathValue of
        Inl NotExist \<Rightarrow> Some pathNotAllowed
      | Inl e \<Rightarrow> Some (WrapError ''validate file binding failed: '' (fsGoError e))
      | Inr False \<Rightarrow> Some pathNotAllowed
      | Inr True \<Rightarrow>
          (case fs_lookup (hist (length rules + 2)) pathValue of
             Inl NotExist \<Rightarrow> Some pathNotAllowed
           | Inl e \<Rightarrow> Some (WrapError ''validate file binding failed: '' (fsGoError e))
           | Inr currentInfo \<Rightarrow>
               if fi_isDir currentInfo then Some pathNotAllowed
               else if fi_file openedInfo \<noteq> fi_file currentInfo then Some pathNotAllowed
               else None))"

definition mimeOr :: "mime_tables \<Rightarrow> string \<Rightarrow> string" where
  "mimeOr mt value =
     (case mt_parse mt value of Some parsed \<Rightarrow> if trimSpace parsed \<noteq> [] then parsed else value | None \<Rightarrow> value)"

definition detectReadImageMIMEFromFile ::
  "mime_tables \<Rightarrow> file_system \<Rightarrow> string \<Rightarrow> file_info \<Rightarrow> fs_error + string" where
  "detectReadImageMIMEFromFile mt fs filePath info =
     (let ext = toLower (trimSpace (pathExt filePath)); byExt = trimSpace (mt_byExtension mt ext)
      in if ext \<noteq> [] \<and> byExt \<noteq> [] then Inr (mimeOr mt byExt)
         else case fs_content fs (fi_file info) of
           Inl e \<Rightarrow> Inl e
         | Inr content \<Rightarrow>
             if content = [] then Inr ''application/octet-stream''
             else let detected = trimSpace (mt_sniff mt (take readImageDetectSniffByteLimit content))
                  in Inr (if detected = [] then ''application/octet-stream'' else mimeOr mt detected))"

definition executeReadImage ::
  "go_error option \<Rightarrow> string option \<Rightarrow> mime_tables \<Rightarrow> (nat \<Rightarrow> file_system) \<Rightarrow> readImagePathRule list \<Rightarrow>
   readImageRequest \<Rightarrow> worker_error + readImageRunResult" where
  "executeReadImage ctxErr cwd mt hist rules req =
     (case ctxErr of
        Some e \<Rightarrow> Inl (WrapError [] e)
      | None \<Rightarrow>
        if trimSpace (iq_sessionID req) \<noteq> readImageSessionComputerUse
        then Inl (newWorkerError ''session_not_found'' ''session not found'')
        else if trimSpace (iq_filePath req) = []
        then Inl (newWorkerError ''invalid_payload'' ''session_id and file_path are required'')
        else if normalizeReadImageAction (iq_action req) = []
        then Inl (newWorkerError ''invalid_payload'' ''action must be validate or read'')
        else case normalizeReadImagePath cwd (trimSpace (iq_filePath req)) of
          None \<Rightarrow> Inl pathNotAllowed
        | Some normalizedPath \<Rightarrow>
            if \<not> isPathLexicallyAllowed rules normalizedPath then Inl pathNotAllowed
            else case openReadImageFile (hist 0) normalizedPath of
              Inl e \<Rightarrow> Inl e
            | Inr openedInfo \<Rightarrow>
                (case ensureReadImagePathBinding cwd hist rules normalizedPath openedInfo of
                   Some e \<Rightarrow> Inl e
                 | None \<Rightarrow>
                     (case detectReadImageMIMEFromFile mt (hist (length rules + 3)) normalizedPath openedInfo of
                        Inl e \<Rightarrow> Inl (WrapError ''detect mime type from file failed: '' (fsGoError e))
                      | Inr mimeType \<Rightarrow>
                          let result = \<lparr>ir_sessionID = readImageSessionComputerUse, ir_filePath = normalizedPath,
                                ir_mimeType = mimeType, ir_sizeBytes = fi_size openedInfo, ir_blob = []\<rparr>
                          in if normalizeReadImageAction (iq_action req) \<noteq> readImageActionRead then Inr result
                             else case fs_content (hist (length rules + 4)) (fi_file openedInfo) of
                               Inl e \<Rightarrow> Inl (WrapError ''read file failed: '' (fsGoError e))
                             | Inr blob \<Rightarrow> Inr (result\<lparr>ir_blob := blob, ir_sizeBytes := int (length blob)\<rparr>))))"

section \<open>Path rules are about elements\<close>

lemma join_dots:
  assumes "list_all plainPart ts" "k > 0"
  shows "joinWith sep (replicate k ''..'' @ ts) = ''..'' \<or> prefix ''../'' (joinWith sep (replicate k ''..'' @ ts))"
proof -
  obtain j where k: "k = Suc j" using assms(2) by (cases k) auto
  show ?thesis
  proof (cases "replicate j ''..'' @ ts")
    case Nil
    with k show ?thesis by simp
  next
    case (Cons q qs)
    then have "joinWith sep (replicate k ''..'' @ ts) = ''../'' @ joinWith sep (q # qs)"
      by (simp add: k sep_def)
    then show ?thesis by simp
  qed
qed

lemma plain_join:
  assumes "list_all plainPart ts" "ts \<noteq> []"
  shows "joinWith sep ts \<noteq> ''.''" "joinWith sep ts \<noteq> ''..''" "\<not> prefix ''../'' (joinWith sep ts)" "\<not> isAbs (joinWith sep ts)"
proof -
  have s: "splitOn sep (joinWith sep ts) = ts"
    by (rule splitOn_join) (use assms in \<open>auto simp: list_all_iff plainPart_def\<close>)
  have h: "plainPart (hd ts)" using assms by (simp add: list_all_iff)
  show "joinWith sep ts \<noteq> ''.''"
  proof
    assume "joinWith sep ts = ''.''"
    then have "ts = [''.'']" using s by (simp add: sep_def)
    with h show False by (simp add: plainPart_def)
  qed
  show "joinWith sep ts \<noteq> ''..''"
  proof
    assume "joinWith sep ts = ''..''"
    then have "ts = [''..'']" using s by (simp add: sep_def)
    with h show False by (simp add: plainPart_def)
  qed
  show "\<not> prefix ''../'' (joinWith sep ts)"
  proof
    assume "prefix ''../'' (joinWith sep ts)"
    then obtain r where "joinWith sep ts = ''..'' @ sep # r" by (auto simp: prefix_def sep_def)
    then have "ts = ''..'' # splitOn sep r" using s splitOn_append [of sep "''..''" r] by (simp add: sep_def)
    with h show False by (simp add: plainPart_def)
  qed
  have "hd ts \<noteq> [] \<and> hd (hd ts) \<noteq> sep" using h unfolding plainPart_def by (metis hd_in_set)
  then show "\<not> isAbs (joinWith sep ts)" using joinWith_head [OF assms(2), of sep] by (simp add: isAbs_def)
qed

lemma rel_clean:
  assumes "list_all plainPart ts" "ps = replicate k ''..'' @ ts" "ps \<noteq> []"
  shows "(cleanPath (joinWith sep ps) = ''.'' \<longleftrightarrow> False) \<and>
    (cleanPath (joinWith sep ps) = ''..'' \<or> prefix ''../'' (cleanPath (joinWith sep ps)) \<longleftrightarrow> k > 0)"
proof (cases "k > 0")
  case True
  have "joinWith sep ps \<noteq> ''.''"
    using join_dots [OF assms(1) True] unfolding assms(2) [symmetric] by auto
  with True show ?thesis
    using join_dots [OF assms(1) True] unfolding cleanPath_relative [OF assms] assms(2) [symmetric] by blast
next
  case False
  then have "ps = ts" using assms(2) by simp
  with assms(3) plain_join [OF assms(1)] False show ?thesis unfolding cleanPath_relative [OF assms] by auto
qed

lemma within_iff:
  assumes "cleanAbs b" "cleanAbs t"
  shows "readImagePathWithin b t \<longleftrightarrow> prefix (pathParts b) (pathParts t)"
    and "readImagePathsEqual b t \<longleftrightarrow> b = t"
proof -
  obtain bs where b: "b = absPath bs" "list_all plainPart bs" "pathParts b = bs" using assms(1) by (rule cleanAbsE)
  obtain ts where t: "t = absPath ts" "list_all plainPart ts" "pathParts t = ts" using assms(2) by (rule cleanAbsE)
  obtain b' t' where st: "stripCommon bs ts = (b', t')" by fastforce
  obtain c where c: "bs = c @ b'" "ts = c @ t'" "b' = [] \<longleftrightarrow> prefix bs ts" "b' = [] \<and> t' = [] \<longleftrightarrow> bs = ts"
    using stripCommon_split [OF st] by blast
  have t': "list_all plainPart t'" using t(2) c(2) by simp
  let ?ps = "replicate (length b') ''..'' @ t'"
  have eq: "b = t \<longleftrightarrow> bs = ts" using b t by metis
  have dot: "cleanPath ''.'' = ''.''" by code_simp
  have abs: "\<not> isAbs (joinWith sep t')" if "t' \<noteq> []" by (rule plain_join(4) [OF t' that])
  note r = relPath_absPath [OF b(2) t(2) st, folded b(1) t(1)]
  show "readImagePathWithin b t \<longleftrightarrow> prefix (pathParts b) (pathParts t)"
  proof (cases "bs = ts")
    case True
    then show ?thesis by (simp add: readImagePathWithin_def b(3) t(3) r dot)
  next
    case False
    then have ne: "?ps \<noteq> []" using c(4) by auto
    note rc = rel_clean [OF t' refl ne]
    show ?thesis
    proof (cases "b' = []")
      case True
      then have "t' \<noteq> []" using ne by simp
      with True c(3) rc abs cleanPath_relative [OF t' refl ne] False
      show ?thesis by (simp add: readImagePathWithin_def r b(3) t(3) Let_def)
    next
      case b': False
      with c(3) rc False show ?thesis by (auto simp add: readImagePathWithin_def r b(3) t(3) Let_def)
    qed
  qed
  show "readImagePathsEqual b t \<longleftrightarrow> b = t"
  proof (cases "bs = ts")
    case True
    then show ?thesis by (simp add: readImagePathsEqual_def eq r dot)
  next
    case False
    then have ne: "?ps \<noteq> []" using c(4) by auto
    from rel_clean [OF t' refl ne] False eq show ?thesis by (simp add: readImagePathsEqual_def r)
  qed
qed

text \<open>C37: For clean absolute paths, which all paths the rules compare are, the string manipulations with \<open>Rel\<close>,
  \<open>Clean\<close> and prefixes decide exactly that the elements of the directory are the first elements of the path
  (not just a prefix of its text), and equality for file rules.\<close>

theorem path_rules_by_elements:
  assumes "\<And>d. cwd = Some d \<Longrightarrow> isAbs d" "normalizeReadImagePath cwd base = Some b" "normalizeReadImagePath cwd target = Some t"
  shows "readImagePathWithin b t = prefix (pathParts b) (pathParts t) \<and> readImagePathsEqual b t = (b = t) \<and>
    list_all plainPart (pathParts t)"
proof -
  have c: "cleanAbs p" if n: "normalizeReadImagePath cwd raw = Some p" for raw p
  proof -
    obtain q where q: "absOf cwd (cleanPath (trimSpace raw)) = Some q" "p = cleanPath q"
      using n by (auto simp: normalizeReadImagePath_def Let_def split: if_splits)
    from absOf_clean [OF q(1) assms(1)] show ?thesis using cleanAbs_fix q(2) by simp
  qed
  show ?thesis using within_iff [OF c [OF assms(2)] c [OF assms(3)]] c [OF assms(3)] by (simp add: cleanAbs_def)
qed

lemma path_rules_by_elements_witness:
  "readImagePathWithin ''/srv/img'' ''/srv/img/a.png'' \<and> \<not> readImagePathWithin ''/srv/img'' ''/srv/img2/a.png''"
proof -
  have n: "normalizeReadImagePath None ''/srv/img/'' = Some ''/srv/img''"
    "normalizeReadImagePath None ''/srv/./x/../img/a.png'' = Some ''/srv/img/a.png''"
    "normalizeReadImagePath None ''/srv/img/../img2/a.png'' = Some ''/srv/img2/a.png''" by code_simp+
  have p: "pathParts ''/srv/img'' = [''srv'', ''img'']" "pathParts ''/srv/img/a.png'' = [''srv'', ''img'', ''a.png'']"
    "pathParts ''/srv/img2/a.png'' = [''srv'', ''img2'', ''a.png'']" by code_simp+
  show ?thesis
    using path_rules_by_elements [OF _ n(1,2)] path_rules_by_elements [OF _ n(1,3)] p by simp
qed

section \<open>What a request can read\<close>

lemma eval_clean:
  assumes "\<And>d. cwd = Some d \<Longrightarrow> isAbs d" "evalReadImageRealPath cwd fs p = Inr r"
  shows "cleanAbs r"
proof -
  obtain res q where "fs_eval fs p = Inr res" "absOf cwd res = Some q" "r = cleanPath q"
    using assms(2) by (auto simp: evalReadImageRealPath_def split: sum.splits option.splits)
  then show ?thesis using absOf_clean [OF _ assms(1)] cleanAbs_fix by simp
qed

text \<open>A real path lies under a rule.\<close>

definition underRule :: "string option \<Rightarrow> file_system \<Rightarrow> readImagePathRule list \<Rightarrow> string \<Rightarrow> bool" where
  "underRule cwd fs rules real \<longleftrightarrow>
     (\<exists>rule \<in> set rules. \<exists>base. evalReadImageRealPath cwd fs (pl_path rule) = Inr base \<and>
        (if pl_isDir rule then prefix (pathParts base) (pathParts real) else base = real))"

lemma reallyAllowed_under:
  assumes "\<And>d. cwd = Some d \<Longrightarrow> isAbs d" "cleanAbs real"
  shows "reallyAllowedLoop cwd (\<lambda>_. fs) n real rules = Inr True \<Longrightarrow> underRule cwd fs rules real"
proof (induction rules arbitrary: n)
  case (Cons rule rules)
  have u: "underRule cwd fs (rule # rules) real \<longleftrightarrow>
      (\<exists>base. evalReadImageRealPath cwd fs (pl_path rule) = Inr base \<and>
        (if pl_isDir rule then prefix (pathParts base) (pathParts real) else base = real)) \<or> underRule cwd fs rules real"
    by (simp add: underRule_def)
  show ?case
  proof (cases "evalReadImageRealPath cwd fs (pl_path rule)")
    case (Inl e)
    with Cons.prems Cons.IH [of "Suc n"] u show ?thesis by (cases e) simp_all
  next
    case (Inr base)
    note w = within_iff [OF eval_clean [OF assms(1) Inr] assms(2)]
    show ?thesis using Cons.prems Cons.IH [of "Suc n"] unfolding u by (cases "pl_isDir rule") (auto simp: Inr w split: if_splits)
  qed
qed simp

lemma binding_real:
  assumes cwd: "\<And>d. cwd = Some d \<Longrightarrow> isAbs d" and b: "ensureReadImagePathBinding cwd (\<lambda>_. fs) rules p info = None"
  obtains real where "evalReadImageRealPath cwd fs p = Inr real" "underRule cwd fs rules real"
proof -
  have "isPathReallyAllowed cwd (\<lambda>_. fs) 1 rules p = Inr True"
    using b by (auto simp: ensureReadImagePathBinding_def split: sum.splits fs_error.splits bool.splits)
  then obtain real where r: "evalReadImageRealPath cwd fs p = Inr real"
    "reallyAllowedLoop cwd (\<lambda>_. fs) 2 real rules = Inr True"
    by (auto simp: isPathReallyAllowed_def eval_nat_numeral split: if_splits sum.splits)
  with reallyAllowed_under [OF cwd eval_clean [OF cwd r(1)] r(2)] that show thesis by blast
qed

lemma execute_opened:
  assumes "executeReadImage ctxErr cwd mt hist rules req = Inr r"
  obtains info where "normalizeReadImagePath cwd (trimSpace (iq_filePath req)) = Some (ir_filePath r)"
    "isPathLexicallyAllowed rules (ir_filePath r)" "fs_lookup (hist 0) (ir_filePath r) = Inr info" "\<not> fi_isDir info"
    "ensureReadImagePathBinding cwd hist rules (ir_filePath r) info = None"
    "if normalizeReadImageAction (iq_action req) = readImageActionRead
     then fs_content (hist (length rules + 4)) (fi_file info) = Inr (ir_blob r) else ir_blob r = []"
proof -
  obtain p where p: "normalizeReadImagePath cwd (trimSpace (iq_filePath req)) = Some p" "isPathLexicallyAllowed rules p"
    using assms by (auto simp: executeReadImage_def split: option.splits if_splits)
  obtain info where i: "openReadImageFile (hist 0) p = Inr info" "ensureReadImagePathBinding cwd hist rules p info = None"
    using assms p by (auto simp: executeReadImage_def split: option.splits if_splits sum.splits)
  obtain mime where m: "detectReadImageMIMEFromFile mt (hist (length rules + 3)) p info = Inr mime"
    using assms p i by (auto simp: executeReadImage_def split: option.splits if_splits sum.splits)
  have f: "ir_filePath r = p"
    "if normalizeReadImageAction (iq_action req) = readImageActionRead
     then fs_content (hist (length rules + 4)) (fi_file info) = Inr (ir_blob r) else ir_blob r = []"
    using assms p i m by (auto simp: executeReadImage_def Let_def split: option.splits if_splits sum.splits)
  have "fs_lookup (hist 0) p = Inr info" "\<not> fi_isDir info"
    using i(1) by (auto simp: openReadImageFile_def split: sum.splits fs_error.splits if_splits)
  with that p i f show thesis by blast
qed

text \<open>C13: As long as the file system does not change during a request, a request that succeeds has read a regular file
  whose real path, with every symbolic link resolved, is a file rule's or lies below a directory rule's real path; what
  is returned is the content of that very file, and nothing but it. Without rules nothing can be read.\<close>

theorem readImage_confined:
  assumes "\<And>d. cwd = Some d \<Longrightarrow> isAbs d" "resolving fs" "executeReadImage ctxErr cwd mt (\<lambda>_. fs) rules req = Inr r"
  shows "isPathLexicallyAllowed rules (ir_filePath r) \<and>
    (\<exists>res real info. fs_eval fs (ir_filePath r) = Inr res \<and> absOf cwd res = Some real \<and> underRule cwd fs rules real \<and>
       fs_lookup fs res = Inr info \<and> \<not> fi_isDir info \<and> ir_blob r \<in> {[], projr (fs_content fs (fi_file info))} \<and>
       (trimSpace (toLower (iq_action req)) = ''read'' \<longrightarrow> fs_content fs (fi_file info) = Inr (ir_blob r)))"
proof (rule execute_opened [OF assms(3)])
  fix info
  assume l: "isPathLexicallyAllowed rules (ir_filePath r)" and i: "fs_lookup fs (ir_filePath r) = Inr info" "\<not> fi_isDir info"
    and b: "ensureReadImagePathBinding cwd (\<lambda>_. fs) rules (ir_filePath r) info = None"
    and c: "if normalizeReadImageAction (iq_action req) = readImageActionRead
      then fs_content fs (fi_file info) = Inr (ir_blob r) else ir_blob r = []"
  obtain real where real: "evalReadImageRealPath cwd fs (ir_filePath r) = Inr real" "underRule cwd fs rules real"
    using binding_real [OF assms(1) b] by metis
  then obtain res q where res: "fs_eval fs (ir_filePath r) = Inr res" "absOf cwd res = Some q" "real = cleanPath q"
    by (auto simp: evalReadImageRealPath_def split: sum.splits option.splits)
  have "real = q" using absOf_clean [OF res(2) assms(1)] res(3) cleanAbs_fix by simp
  moreover have "fs_lookup fs res = Inr info" using assms(2) res(1) i(1) by (simp add: resolving_def)
  moreover have "trimSpace (toLower (iq_action req)) = ''read'' \<Longrightarrow> normalizeReadImageAction (iq_action req) = readImageActionRead"
    by (simp add: normalizeReadImageAction_def readImageActionRead_def readImageActionValidate_def)
  ultimately show ?thesis using l i res real c by (auto split: if_splits)
qed

text \<open>A picture, a link to it or elsewhere, and a file outside.\<close>

definition demoFiles :: "string \<Rightarrow> file_system" where
  "demoFiles target =
     (let follow = (\<lambda>p. if p = ''/img/a.png'' then target else p);
          find = (\<lambda>p. if p = ''/img'' then Inr \<lparr>fi_file = 0, fi_isDir = True, fi_size = 0\<rparr>
            else if p = ''/img/b.png'' then Inr \<lparr>fi_file = 1, fi_isDir = False, fi_size = 3\<rparr>
            else if p = ''/etc/secret'' then Inr \<lparr>fi_file = 2, fi_isDir = False, fi_size = 4\<rparr> else Inl NotExist)
      in \<lparr>fs_eval = (\<lambda>p. case find (follow p) of Inl e \<Rightarrow> Inl e | Inr _ \<Rightarrow> Inr (follow p)),
          fs_lookup = (\<lambda>p. find (follow p)),
          fs_content = (\<lambda>n. if n = 1 then Inr ''PNG'' else if n = 2 then Inr ''root'' else Inl (OsError ''is a directory''))\<rparr>)"

definition demoMime :: mime_tables where
  "demoMime = \<lparr>mt_byExtension = (\<lambda>_. ''image/png''), mt_parse = Some, mt_sniff = (\<lambda>_. [])\<rparr>"

definition demoRead :: readImageRequest where
  "demoRead = \<lparr>iq_sessionID = ''computerUse'', iq_filePath = ''/img/a.png'', iq_action = ''read''\<rparr>"

lemma demo_resolving: "target \<noteq> ''/img/a.png'' \<Longrightarrow> resolving (demoFiles target)"
  by (auto simp: resolving_def demoFiles_def Let_def split: sum.splits)

lemma readImage_confined_witness:
  "\<exists>r real. executeReadImage None None demoMime (\<lambda>_. demoFiles ''/img/b.png'')
       (compileReadImagePathRules None (demoFiles ''/img/b.png'') [] [''/img'']) demoRead = Inr r \<and>
     ir_blob r = ''PNG'' \<and> underRule None (demoFiles ''/img/b.png'')
       (compileReadImagePathRules None (demoFiles ''/img/b.png'') [] [''/img'']) real"
proof -
  let ?rules = "compileReadImagePathRules None (demoFiles ''/img/b.png'') [] [''/img'']"
  let ?r = "\<lparr>ir_sessionID = ''computerUse'', ir_filePath = ''/img/a.png'', ir_mimeType = ''image/png'', ir_sizeBytes = 3, ir_blob = ''PNG''\<rparr>"
  have run: "executeReadImage None None demoMime (\<lambda>_. demoFiles ''/img/b.png'') ?rules demoRead = Inr ?r"
    unfolding demoMime_def demoFiles_def demoRead_def by code_simp
  show ?thesis using readImage_confined [OF _ demo_resolving run] run by auto
qed

text \<open>The check that binds the opened file to the allowed path does not hold against a link that is switched and
  switched back between the calls: opened and checked last while it points outside, resolved while it points inside,
  it delivers a file whose real path is under no rule. At every moment the file system itself is coherent.\<close>

theorem readImage_race:
  "\<exists>hist rules r. (\<forall>n. resolving (hist n)) \<and>
     rules = compileReadImagePathRules None (hist 0) [] [''/img''] \<and>
     executeReadImage None None demoMime hist rules demoRead = Inr r \<and>
     ir_blob r = ''root'' \<and> fs_lookup (hist 0) ''/etc/secret'' = Inr \<lparr>fi_file = 2, fi_isDir = False, fi_size = 4\<rparr> \<and>
     (\<forall>n. \<not> underRule None (hist n) rules ''/etc/secret'')"
proof (intro exI conjI)
  let ?hist = "\<lambda>n :: nat. if n = 1 then demoFiles ''/img/b.png'' else demoFiles ''/etc/secret''"
  let ?rules = "compileReadImagePathRules None (?hist 0) [] [''/img'']"
  have rules: "?rules = [\<lparr>pl_path = ''/img'', pl_isDir = True\<rparr>]" unfolding demoFiles_def by code_simp
  show "\<forall>n. resolving (?hist n)" using demo_resolving by simp
  show "executeReadImage None None demoMime ?hist ?rules demoRead =
      Inr \<lparr>ir_sessionID = ''computerUse'', ir_filePath = ''/img/a.png'', ir_mimeType = ''image/png'', ir_sizeBytes = 4, ir_blob = ''root''\<rparr>"
    unfolding demoMime_def demoFiles_def demoRead_def by code_simp
  have e: "evalReadImageRealPath None (demoFiles ''/img/b.png'') ''/img'' = Inr ''/img''"
    "evalReadImageRealPath None (demoFiles ''/etc/secret'') ''/img'' = Inr ''/img''"
    and p: "\<not> prefix (pathParts ''/img'') (pathParts ''/etc/secret'')"
    unfolding demoFiles_def by code_simp+
  show "\<forall>n. \<not> underRule None (?hist n) ?rules ''/etc/secret''" unfolding rules underRule_def using e p by simp
qed (simp_all add: demoFiles_def)

end
