(* ===== verification/ComputerUse.thy ===== *)
theory ComputerUse
  imports GoStrings
begin

text \<open>
  The system worker's shell: \<open>worker-sys/internal/runner/computer_use.go\<close>. A command that the white list lets through
  is handed to \<open>/bin/sh -lc\<close>; the shell is an argument, from the command to its process.
\<close>

definition computerUseWhitelistModePrefix :: string where "computerUseWhitelistModePrefix = ''prefix''"
definition computerUseWhitelistModeExact :: string where "computerUseWhitelistModeExact = ''exact''"
definition computerUseWhitelistModeAllowAll :: string where "computerUseWhitelistModeAllowAll = ''allow_all''"
definition computerUseCodeInvalidPayload :: string where "computerUseCodeInvalidPayload = ''invalid_payload''"
definition computerUseCodeCommandNotAllowed :: string where "computerUseCodeCommandNotAllowed = ''command_not_allowed''"

record computerUseExecutor =
  ce_outputLimitBytes :: int
  ce_whitelistMode :: string
  ce_whitelist :: "string list"

record computerUseRunResult =
  ur_stdout :: string
  ur_stderr :: string
  ur_exitCode :: int
  ur_stdoutTruncated :: bool
  ur_stderrTruncated :: bool

definition newComputerUseExecutor :: "int \<Rightarrow> string \<Rightarrow> string list \<Rightarrow> computerUseExecutor" where
  "newComputerUseExecutor outputLimit whitelistMode whitelist =
     \<lparr>ce_outputLimitBytes = (if outputLimit \<le> 0 then 1024 * 1024 else outputLimit),
      ce_whitelistMode = whitelistMode, ce_whitelist = whitelist\<rparr>"

definition isCommandAllowed :: "computerUseExecutor \<Rightarrow> string \<Rightarrow> bool" where
  "isCommandAllowed e command =
     (if ce_whitelistMode e = computerUseWhitelistModeAllowAll then True
      else if ce_whitelistMode e = computerUseWhitelistModePrefix
      then list_ex (\<lambda>entry. prefix entry command) (ce_whitelist e)
      else list_ex (\<lambda>entry. command = entry) (ce_whitelist e))"

text \<open>The shell call, if there is one, and the answer.\<close>

definition executeComputerUse ::
  "computerUseExecutor \<Rightarrow> (string list \<Rightarrow> process) \<Rightarrow> string \<Rightarrow> string list list \<times> (worker_error + computerUseRunResult)" where
  "executeComputerUse e shell rawCommand =
     (let command = trimSpace rawCommand
      in if command = [] then ([], Inl (newWorkerError computerUseCodeInvalidPayload ''command is required''))
         else if \<not> isCommandAllowed e command
         then ([], Inl (newWorkerError computerUseCodeCommandNotAllowed ''command is blocked by whitelist policy''))
         else
           let call = [''/bin/sh'', ''-lc'', command]; p = shell call;
               result = (\<lambda>exitCode.
                 \<lparr>ur_stdout = fst (truncateByBytes (pr_stdout p) (ce_outputLimitBytes e)),
                  ur_stderr = fst (truncateByBytes (pr_stderr p) (ce_outputLimitBytes e)),
                  ur_exitCode = exitCode,
                  ur_stdoutTruncated = snd (truncateByBytes (pr_stdout p) (ce_outputLimitBytes e)),
                  ur_stderrTruncated = snd (truncateByBytes (pr_stderr p) (ce_outputLimitBytes e))\<rparr>)
           in ([call],
               case commandRun (pr_end p) of
                 None \<Rightarrow> Inr (result 0)
               | Some (ExitError c) \<Rightarrow> Inr (result c)
               | Some (RunError err) \<Rightarrow>
                   Inl (WrapError (if isContextError err then [] else ''shell execution failed: '') err)))"

section \<open>Properties\<close>

text \<open>C14: The shell is started at most once per request, only for the trimmed command and only when the mode lets it
  through: under every mode but \<open>allow_all\<close> the command is one of the entries, or begins with one in prefix mode. An
  unknown mode is the exact mode, and an empty white list blocks everything.\<close>

theorem shell_only_allowed:
  "fst (executeComputerUse e shell raw) = [] \<or>
   fst (executeComputerUse e shell raw) = [[''/bin/sh'', ''-lc'', trimSpace raw]] \<and> trimSpace raw \<noteq> [] \<and>
     (if ce_whitelistMode e = ''allow_all'' then True
      else if ce_whitelistMode e = ''prefix'' then \<exists>entry \<in> set (ce_whitelist e). prefix entry (trimSpace raw)
      else trimSpace raw \<in> set (ce_whitelist e))"
  by (auto simp: executeComputerUse_def isCommandAllowed_def Let_def list_ex_iff computerUseWhitelistModeAllowAll_def
      computerUseWhitelistModePrefix_def)

text \<open>A request is answered by a result exactly when the shell ran and ended; then its exit code is the shell's,
  both outputs are cut to the limit, and the flags say whether something was cut off.\<close>

theorem computerUse_result:
  assumes "snd (executeComputerUse (newComputerUseExecutor limit mode entries) shell raw) = Inr r"
  shows "\<exists>p. p = shell [''/bin/sh'', ''-lc'', trimSpace raw] \<and> isCommandAllowed (newComputerUseExecutor limit mode entries) (trimSpace raw) \<and>
    (case pr_end p of NotStarted _ \<Rightarrow> False | Exited c \<Rightarrow> ur_exitCode r = c | KilledByContext \<Rightarrow> ur_exitCode r = -1) \<and>
    prefix (ur_stdout r) (pr_stdout p) \<and> (ur_stdoutTruncated r = (ur_stdout r \<noteq> pr_stdout p)) \<and>
    prefix (ur_stderr r) (pr_stderr p) \<and> (ur_stderrTruncated r = (ur_stderr r \<noteq> pr_stderr p)) \<and>
    int (length (ur_stdout r)) \<le> (if limit \<le> 0 then 1048576 else limit) \<and>
    int (length (ur_stderr r)) \<le> (if limit \<le> 0 then 1048576 else limit)"
proof -
  let ?e = "newComputerUseExecutor limit mode entries"
  let ?p = "shell [''/bin/sh'', ''-lc'', trimSpace raw]"
  have l: "0 < ce_outputLimitBytes ?e" "ce_outputLimitBytes ?e = (if limit \<le> 0 then 1048576 else limit)"
    by (simp_all add: newComputerUseExecutor_def)
  have a: "isCommandAllowed ?e (trimSpace raw)"
    using assms by (auto simp: executeComputerUse_def Let_def split: if_splits)
  obtain c where r: "r = \<lparr>ur_stdout = fst (truncateByBytes (pr_stdout ?p) (ce_outputLimitBytes ?e)),
      ur_stderr = fst (truncateByBytes (pr_stderr ?p) (ce_outputLimitBytes ?e)), ur_exitCode = c,
      ur_stdoutTruncated = snd (truncateByBytes (pr_stdout ?p) (ce_outputLimitBytes ?e)),
      ur_stderrTruncated = snd (truncateByBytes (pr_stderr ?p) (ce_outputLimitBytes ?e))\<rparr>"
    and c: "case pr_end ?p of NotStarted _ \<Rightarrow> False | Exited n \<Rightarrow> c = n | KilledByContext \<Rightarrow> c = -1"
    using assms a by (cases "pr_end ?p") (auto simp: executeComputerUse_def Let_def commandRun_def split: if_splits)
  have "ur_exitCode r = c" by (simp add: r)
  then show ?thesis
    using a c truncateByBytes_fits(1) [OF l(1)] truncateByBytes_fits(2,3) by (intro exI [of _ ?p]) (cases "pr_end ?p"; simp add: r l(2) [symmetric])
qed

lemma computerUse_result_witness:
  "\<exists>r. snd (executeComputerUse (newComputerUseExecutor 3 ''exact'' [''ls''])
      (\<lambda>_. \<lparr>pr_stdout = ''a b c'', pr_stderr = [], pr_end = Exited 2\<rparr>) '' ls '') = Inr r \<and> ur_exitCode r = 2 \<and> ur_stdoutTruncated r"
proof -
  have run: "snd (executeComputerUse (newComputerUseExecutor 3 ''exact'' [''ls''])
      (\<lambda>_. \<lparr>pr_stdout = ''a b c'', pr_stderr = [], pr_end = Exited 2\<rparr>) '' ls '') =
    Inr \<lparr>ur_stdout = ''a b'', ur_stderr = [], ur_exitCode = 2, ur_stdoutTruncated = True, ur_stderrTruncated = False\<rparr>"
    by code_simp
  from computerUse_result [OF run] run show ?thesis by simp
qed

text \<open>The prefix mode is about text, not about commands: behind any entry the request may add whatever the shell
  accepts, so one entry is as good as \<open>allow_all\<close>.\<close>

theorem prefix_mode_runs_anything:
  assumes "entry \<in> set entries" "trimmed (entry @ '' ; '' @ extra)"
  shows "fst (executeComputerUse (newComputerUseExecutor limit ''prefix'' entries) shell (entry @ '' ; '' @ extra)) =
    [[''/bin/sh'', ''-lc'', entry @ '' ; '' @ extra]]"
  using assms(1) trimmed_id [OF assms(2)]
  by (auto intro!: bexI [of _ entry] simp: executeComputerUse_def isCommandAllowed_def newComputerUseExecutor_def list_ex_iff Let_def
      computerUseWhitelistModeAllowAll_def computerUseWhitelistModePrefix_def)

lemma prefix_mode_runs_anything_witness:
  "fst (executeComputerUse (newComputerUseExecutor 0 ''prefix'' [''ls'']) shell ''ls ; reboot'') = [[''/bin/sh'', ''-lc'', ''ls ; reboot'']]"
proof -
  have "trimmed (''ls'' @ '' ; '' @ ''reboot'')" by (rule trimmed_plain_ends) code_simp+
  from prefix_mode_runs_anything [OF _ this, of "[''ls'']"] show ?thesis by simp
qed

end
