(* ===== verification/WorkerCommands.thy ===== *)
theory WorkerCommands
  imports PythonExec ReadImage ComputerUse TerminalProperties OwnerScope Utf8
begin

text \<open>
  From a command frame to its result: \<open>capability_executor.go\<close> of \<open>worker-docker\<close> and \<open>worker-sys\<close>. The deadline of
  a command reaches the executors as what docker, the shell or \<open>ctx.Err()\<close> answer. \<open>json.Marshal\<close> of a result
  makes its strings valid UTF-8; the escapes of \<open>%q\<close> in one message are left out.
\<close>

section \<open>Results\<close>

text \<open>A string in a marshalled document: bytes that are no UTF-8 become U+FFFD.\<close>

definition validRune :: "string \<Rightarrow> string" where
  "validRune r = (if length r = 1 \<and> (128 :: nat) \<le> of_char (hd r) then [CHR 0xEF, CHR 0xBF, CHR 0xBD] else r)"

definition marshalText :: "string \<Rightarrow> json" where
  "marshalText s = JStr (concat (map validRune (runes s)))"

definition commandErrorResult :: "int \<Rightarrow> string \<Rightarrow> string \<Rightarrow> string \<Rightarrow> commandResult" where
  "commandErrorResult now commandID code message =
     \<lparr>cr_commandId = commandID, cr_error = Some (code, message), cr_payloadJson = emptyBytes, cr_completedUnixMs = now\<rparr>"

definition commandOKResult :: "int \<Rightarrow> string \<Rightarrow> payload \<Rightarrow> commandResult" where
  "commandOKResult now commandID resultPayload =
     \<lparr>cr_commandId = commandID, cr_error = None, cr_payloadJson = resultPayload, cr_completedUnixMs = now\<rparr>"

definition workerErrorText :: "worker_error \<Rightarrow> string" where
  "workerErrorText err = (case err of CodedError _ m \<Rightarrow> m | TextError m \<Rightarrow> m | WrapError t e \<Rightarrow> t @ errorText e)"

text \<open>What every executor does with an error.\<close>

definition executionErrorResult :: "int \<Rightarrow> string \<Rightarrow> string \<Rightarrow> worker_error \<Rightarrow> commandResult" where
  "executionErrorResult now commandID name err =
     (if wrapsContextError err then commandErrorResult now commandID ''deadline_exceeded'' ''command deadline exceeded''
      else case err of
        CodedError code message \<Rightarrow> commandErrorResult now commandID code message
      | _ \<Rightarrow> commandErrorResult now commandID ''execution_failed'' (name @ '' execution failed: '' @ workerErrorText err))"

text \<open>The guards before the capability is looked at.\<close>

definition commandGuard :: "int \<Rightarrow> commandDispatch \<Rightarrow> commandResult option" where
  "commandGuard now dispatch =
     (let commandID = trimSpace (cd_commandId dispatch)
      in if commandID = []
         then Some \<lparr>cr_commandId = commandID, cr_error = Some (''invalid_command_id'', ''command_id is required''),
                    cr_payloadJson = emptyBytes, cr_completedUnixMs = 0\<rparr>
         else if cd_deadlineUnixMs dispatch > 0 \<and> now > cd_deadlineUnixMs dispatch
         then Some (commandErrorResult now commandID ''deadline_exceeded'' ''command deadline exceeded'')
         else None)"

definition unsupportedCapability :: "int \<Rightarrow> string \<Rightarrow> commandDispatch \<Rightarrow> commandResult" where
  "unsupportedCapability now commandID dispatch =
     commandErrorResult now commandID ''unsupported_capability''
       (''capability '' @ [CHR 0x22] @ cd_capability dispatch @ [CHR 0x22] @ '' is not supported'')"

section \<open>Docker worker\<close>

definition workerEchoName :: string where "workerEchoName = ''echo''"
definition pythonExecCapabilityName :: string where "pythonExecCapabilityName = ''pythonexec''"
definition terminalExecCapabilityName :: string where "terminalExecCapabilityName = ''terminalexec''"
definition terminalResourceCapabilityName :: string where "terminalResourceCapabilityName = ''terminalresource''"

text \<open>A payload with one string field.\<close>

definition decodeOne :: "string \<Rightarrow> payload \<Rightarrow> string option" where
  "decodeOne name p = (case objectEntries p of None \<Rightarrow> None | Some es \<Rightarrow> fieldStr name es)"

definition buildEchoCommandResult :: "int \<Rightarrow> string \<Rightarrow> commandDispatch \<Rightarrow> commandResult" where
  "buildEchoCommandResult now commandID dispatch =
     (let p = cd_payloadJson dispatch
      in case (if bytesEmpty p then Some [] else decodeOne ''message'' p) of
           None \<Rightarrow> commandErrorResult now commandID ''invalid_payload'' ''payload_json is not valid echo payload''
         | Some message \<Rightarrow>
             if trimSpace message = []
             then commandErrorResult now commandID ''invalid_payload'' ''echo payload is required''
             else commandOKResult now commandID p)"

definition encodePythonResult :: "pythonExecRunResult \<Rightarrow> payload" where
  "encodePythonResult r =
     Document (JObj [(''output'', marshalText (pr_output r)), (''stderr'', marshalText (pr_errors r)),
       (''exit_code'', JInt (pr_exitCode r))])"

definition buildPythonExecCommandResult ::
  "exec_env \<Rightarrow> string \<Rightarrow> string \<Rightarrow> commandDispatch \<Rightarrow> manager \<Rightarrow> commandResult \<times> manager" where
  "buildPythonExecCommandResult env dockerImage commandID dispatch m =
     (let p = cd_payloadJson dispatch; now = unixMilli (tm_now m)
      in if bytesEmpty p
         then (commandErrorResult now commandID ''invalid_payload'' ''pythonExec payload is required'', m)
         else case decodeOne ''code'' p of
           None \<Rightarrow> (commandErrorResult now commandID ''invalid_payload'' ''payload_json is not valid pythonExec payload'', m)
         | Some code \<Rightarrow>
             if trimSpace code = []
             then (commandErrorResult now commandID ''invalid_payload'' ''pythonExec code is required'', m)
             else case runPythonExecInDockerWithImage (ee_docker env) (ee_random env) dockerImage code (tm_docker m) of
               (res, log) \<Rightarrow>
                 (case res of
                    Inl err \<Rightarrow> executionErrorResult now commandID ''pythonExec'' err
                  | Inr r \<Rightarrow> commandOKResult now commandID (encodePythonResult r), m\<lparr>tm_docker := log\<rparr>))"

definition encodeTerminalExecResult :: "terminalExecRunResult \<Rightarrow> payload" where
  "encodeTerminalExecResult r =
     Document (JObj [(''session_id'', marshalText (rr_sessionID r)), (''created'', JBool (rr_created r)),
       (''stdout'', marshalText (rr_stdout r)), (''stderr'', marshalText (rr_stderr r)),
       (''exit_code'', JInt (rr_exitCode r)), (''stdout_truncated'', JBool (rr_stdoutTruncated r)),
       (''stderr_truncated'', JBool (rr_stderrTruncated r)),
       (''lease_expires_unix_ms'', JInt (rr_leaseExpiresUnixMS r))])"

definition buildTerminalExecCommandResult ::
  "exec_env \<Rightarrow> string \<Rightarrow> commandDispatch \<Rightarrow> manager \<Rightarrow> commandResult \<times> manager" where
  "buildTerminalExecCommandResult env commandID dispatch m =
     (let p = cd_payloadJson dispatch; now = unixMilli (tm_now m)
      in if bytesEmpty p
         then (commandErrorResult now commandID terminalExecCodeInvalidPayload ''terminalExec payload is required'', m)
         else case decodeTerminalExec p of
           None \<Rightarrow> (commandErrorResult now commandID terminalExecCodeInvalidPayload
                    ''payload_json is not valid terminalExec payload'', m)
         | Some decoded \<Rightarrow>
             if trimSpace (te_command decoded) = []
             then (commandErrorResult now commandID terminalExecCodeInvalidPayload ''terminalExec command is required'', m)
             else case execute env \<lparr>rq_command = te_command decoded, rq_sessionID = te_session_id decoded,
                    rq_createIfMissing = te_create_if_missing decoded, rq_leaseTTLSec = te_lease_ttl_sec decoded\<rparr> m of
               (Inl err, m) \<Rightarrow> (executionErrorResult (unixMilli (tm_now m)) commandID ''terminalExec'' err, m)
             | (Inr r, m) \<Rightarrow> (commandOKResult (unixMilli (tm_now m)) commandID (encodeTerminalExecResult r), m))"

definition encodeTerminalResourceResult :: "terminalResourceRunResult \<Rightarrow> payload" where
  "encodeTerminalResourceResult r =
     Document (JObj ([(''session_id'', marshalText (tf_sessionID r)), (''file_path'', marshalText (tf_filePath r)),
       (''mime_type'', marshalText (tf_mimeType r)), (''size_bytes'', JInt (tf_sizeBytes r))]
       @ omitempty (tf_blob r = []) ''blob'' (JStr (b64Encode (tf_blob r)))))"

definition buildTerminalResourceCommandResult ::
  "exec_env \<Rightarrow> (string \<Rightarrow> json option) \<Rightarrow> string \<Rightarrow> string \<Rightarrow> commandDispatch \<Rightarrow> manager \<Rightarrow> commandResult \<times> manager" where
  "buildTerminalResourceCommandResult env parse script commandID dispatch m =
     (let p = cd_payloadJson dispatch; now = unixMilli (tm_now m)
      in if bytesEmpty p
         then (commandErrorResult now commandID terminalExecCodeInvalidPayload ''terminalResource payload is required'', m)
         else case decodeTerminalResource p of
           None \<Rightarrow> (commandErrorResult now commandID terminalExecCodeInvalidPayload
                    ''payload_json is not valid terminalResource payload'', m)
         | Some decoded \<Rightarrow>
             if trimSpace (tr_session_id decoded) = [] \<or> trimSpace (tr_file_path decoded) = []
             then (commandErrorResult now commandID terminalExecCodeInvalidPayload
                     ''terminalResource session_id and file_path are required'', m)
             else case resolveResource env parse script \<lparr>tq_sessionID = tr_session_id decoded,
                    tq_filePath = tr_file_path decoded, tq_action = tr_action decoded\<rparr> m of
               (Inl err, m) \<Rightarrow> (executionErrorResult (unixMilli (tm_now m)) commandID ''terminalResource'' err, m)
             | (Inr r, m) \<Rightarrow> (commandOKResult (unixMilli (tm_now m)) commandID (encodeTerminalResourceResult r), m))"

definition buildDockerCommandResult ::
  "exec_env \<Rightarrow> string \<Rightarrow> (string \<Rightarrow> json option) \<Rightarrow> string \<Rightarrow> commandDispatch \<Rightarrow> manager \<Rightarrow> commandResult \<times> manager" where
  "buildDockerCommandResult env dockerImage parse script dispatch m =
     (let now = unixMilli (tm_now m); commandID = trimSpace (cd_commandId dispatch);
          capability = trimSpace (toLower (cd_capability dispatch))
      in case commandGuard now dispatch of
           Some r \<Rightarrow> (r, m)
         | None \<Rightarrow>
             if capability = workerEchoName then (buildEchoCommandResult now commandID dispatch, m)
             else if capability = pythonExecCapabilityName then buildPythonExecCommandResult env dockerImage commandID dispatch m
             else if capability = terminalExecCapabilityName then buildTerminalExecCommandResult env commandID dispatch m
             else if capability = terminalResourceCapabilityName
             then buildTerminalResourceCommandResult env parse script commandID dispatch m
             else (unsupportedCapability now commandID dispatch, m))"

section \<open>System worker\<close>

definition sysComputerUseName :: string where "sysComputerUseName = ''computeruse''"
definition sysReadImageName :: string where "sysReadImageName = ''readimage''"

definition encodeComputerUseResult :: "computerUseRunResult \<Rightarrow> payload" where
  "encodeComputerUseResult r =
     Document (JObj [(''stdout'', marshalText (ur_stdout r)), (''stderr'', marshalText (ur_stderr r)),
       (''exit_code'', JInt (ur_exitCode r)), (''stdout_truncated'', JBool (ur_stdoutTruncated r)),
       (''stderr_truncated'', JBool (ur_stderrTruncated r))])"

definition encodeReadImageResult :: "readImageRunResult \<Rightarrow> payload" where
  "encodeReadImageResult r =
     Document (JObj ([(''session_id'', marshalText (ir_sessionID r)), (''file_path'', marshalText (ir_filePath r)),
       (''mime_type'', marshalText (ir_mimeType r)), (''size_bytes'', JInt (ir_sizeBytes r))]
       @ omitempty (ir_blob r = []) ''blob'' (JStr (b64Encode (ir_blob r)))))"

text \<open>The machine: the shell, the files as they change, the working directory, the MIME tables, and the
  clock when the command has been executed.\<close>

record sys_env =
  se_shell :: "string list \<Rightarrow> process"
  se_files :: "nat \<Rightarrow> file_system"
  se_cwd :: "string option"
  se_mime :: mime_tables
  se_ctxErr :: "go_error option"
  se_completed :: int

definition buildComputerUseCommandResult ::
  "sys_env \<Rightarrow> computerUseExecutor \<Rightarrow> int \<Rightarrow> string \<Rightarrow> commandDispatch \<Rightarrow> commandResult" where
  "buildComputerUseCommandResult env e now commandID dispatch =
     (let p = cd_payloadJson dispatch
      in if bytesEmpty p
         then commandErrorResult now commandID computerUseCodeInvalidPayload ''computerUse payload is required''
         else case decodeOne ''command'' p of
           None \<Rightarrow> commandErrorResult now commandID computerUseCodeInvalidPayload
                     ''payload_json is not valid computerUse payload''
         | Some command \<Rightarrow>
             if trimSpace command = []
             then commandErrorResult now commandID computerUseCodeInvalidPayload ''computerUse command is required''
             else case snd (executeComputerUse e (se_shell env) command) of
               Inl err \<Rightarrow> executionErrorResult (se_completed env) commandID ''computerUse'' err
             | Inr r \<Rightarrow> commandOKResult (se_completed env) commandID (encodeComputerUseResult r))"

definition decodeReadImage :: "payload \<Rightarrow> readImageRequest option" where
  "decodeReadImage p =
     (case objectEntries p of
        None \<Rightarrow> None
      | Some es \<Rightarrow>
          (case (fieldStr ''session_id'' es, fieldStr ''file_path'' es, fieldStr ''action'' es) of
             (Some s, Some f, Some a) \<Rightarrow> Some \<lparr>iq_sessionID = s, iq_filePath = f, iq_action = a\<rparr>
           | _ \<Rightarrow> None))"

definition buildReadImageCommandResult ::
  "sys_env \<Rightarrow> readImagePathRule list \<Rightarrow> int \<Rightarrow> string \<Rightarrow> commandDispatch \<Rightarrow> commandResult" where
  "buildReadImageCommandResult env rules now commandID dispatch =
     (let p = cd_payloadJson dispatch
      in if bytesEmpty p
         then commandErrorResult now commandID ''invalid_payload'' ''readImage payload is required''
         else case decodeReadImage p of
           None \<Rightarrow> commandErrorResult now commandID ''invalid_payload'' ''payload_json is not valid readImage payload''
         | Some req \<Rightarrow>
             if trimSpace (iq_sessionID req) = [] \<or> trimSpace (iq_filePath req) = []
             then commandErrorResult now commandID ''invalid_payload'' ''readImage session_id and file_path are required''
             else case executeReadImage (se_ctxErr env) (se_cwd env) (se_mime env) (se_files env) rules req of
               Inl err \<Rightarrow> executionErrorResult (se_completed env) commandID ''readImage'' err
             | Inr r \<Rightarrow> commandOKResult (se_completed env) commandID (encodeReadImageResult r))"

definition buildSysCommandResult ::
  "sys_env \<Rightarrow> computerUseExecutor \<Rightarrow> readImagePathRule list \<Rightarrow> int \<Rightarrow> commandDispatch \<Rightarrow> commandResult" where
  "buildSysCommandResult env e rules now dispatch =
     (let commandID = trimSpace (cd_commandId dispatch); capability = trimSpace (toLower (cd_capability dispatch))
      in case commandGuard now dispatch of
           Some r \<Rightarrow> r
         | None \<Rightarrow>
             if capability = sysComputerUseName then buildComputerUseCommandResult env e now commandID dispatch
             else if capability = sysReadImageName then buildReadImageCommandResult env rules now commandID dispatch
             else unsupportedCapability now commandID dispatch)"

section \<open>Every command is answered once, with a payload or an error\<close>

text \<open>The shape of an answer to the command with the given id.\<close>

definition answers :: "string \<Rightarrow> commandResult \<Rightarrow> bool" where
  "answers commandID r \<longleftrightarrow> cr_commandId r = commandID \<and> (bytesEmpty (cr_payloadJson r) \<longleftrightarrow> cr_error r \<noteq> None)"

lemma answers_simps [simp]:
  "answers c (commandErrorResult now c code message)"
  "\<not> bytesEmpty p \<Longrightarrow> answers c (commandOKResult now c p)"
  by (simp_all add: answers_def commandErrorResult_def commandOKResult_def emptyBytes_def bytesEmpty_def)

lemma answers_executionError [simp]: "answers c (executionErrorResult now c name err)"
  by (cases err) (simp_all add: executionErrorResult_def)

lemma answers_unsupported [simp]: "answers c (unsupportedCapability now c d)"
  by (simp add: unsupportedCapability_def)

lemma answers_guard: "commandGuard now d = Some r \<Longrightarrow> answers (trimSpace (cd_commandId d)) r"
  by (auto simp: commandGuard_def Let_def split: if_splits) (simp add: answers_def emptyBytes_def bytesEmpty_def)

lemma encoded_nonempty [simp]:
  "\<not> bytesEmpty (encodePythonResult r1)" "\<not> bytesEmpty (encodeTerminalExecResult r2)"
  "\<not> bytesEmpty (encodeTerminalResourceResult r3)" "\<not> bytesEmpty (encodeComputerUseResult r4)"
  "\<not> bytesEmpty (encodeReadImageResult r5)"
  by (simp_all add: bytesEmpty_def encodePythonResult_def encodeTerminalExecResult_def encodeTerminalResourceResult_def
      encodeComputerUseResult_def encodeReadImageResult_def)

lemma answers_echo: "answers c (buildEchoCommandResult now c d)"
  by (auto simp: buildEchoCommandResult_def Let_def split: option.split)

lemma answers_python: "answers c (fst (buildPythonExecCommandResult env img c d m))"
  by (auto simp: buildPythonExecCommandResult_def Let_def split: option.split sum.split prod.split)

lemma answers_terminal: "answers c (fst (buildTerminalExecCommandResult env c d m))"
  by (auto simp: buildTerminalExecCommandResult_def Let_def split: option.split sum.split prod.split)

lemma answers_resource: "answers c (fst (buildTerminalResourceCommandResult env parse script c d m))"
  by (auto simp: buildTerminalResourceCommandResult_def Let_def split: option.split sum.split prod.split)

lemma answers_computerUse: "answers c (buildComputerUseCommandResult env e now c d)"
  by (auto simp: buildComputerUseCommandResult_def Let_def split: option.split sum.split)

lemma answers_readImage: "answers c (buildReadImageCommandResult env rules now c d)"
  by (auto simp: buildReadImageCommandResult_def Let_def split: option.split sum.split)

lemma answers_docker: "answers (trimSpace (cd_commandId d)) (fst (buildDockerCommandResult env img parse script d m))"
  using answers_guard answers_echo answers_python answers_terminal answers_resource
  by (simp add: buildDockerCommandResult_def Let_def split: option.split)

lemma answers_sys: "answers (trimSpace (cd_commandId d)) (buildSysCommandResult env e rules now d)"
  using answers_guard [of now d] answers_computerUse answers_readImage
  by (simp add: buildSysCommandResult_def Let_def split: option.split)

lemma outcome_of_answer:
  assumes "answers c r"
  shows "co_err (outcomeOfResult wall r) = map_option (\<lambda>(code, message). CommandExecutionError code message) (cr_error r) \<and>
    (cr_error r = None \<longrightarrow> co_payloadJSON (outcomeOfResult wall r) = cr_payloadJson r)"
  using assms by (auto simp: answers_def outcomeOfResult_def Let_def emptyOutcome_def split: option.split)

text \<open>C18: Both workers answer every command frame, whatever its capability, payload and deadline, with exactly one
  result that carries the command's trimmed id and either a payload or an error; so the console's reading of it
  reports exactly the worker's error, or the worker's payload, and never that the result was empty.\<close>

theorem worker_answers_typed:
  "r \<in> {fst (buildDockerCommandResult env img parse script d m), buildSysCommandResult senv e rules now d} \<Longrightarrow>
   cr_commandId r = trimSpace (cd_commandId d) \<and>
   co_err (outcomeOfResult wall r) = map_option (\<lambda>(code, message). CommandExecutionError code message) (cr_error r) \<and>
   (cr_error r = None \<longrightarrow> \<not> bytesEmpty (cr_payloadJson r) \<and> co_payloadJSON (outcomeOfResult wall r) = cr_payloadJson r)"
proof -
  assume "r \<in> {fst (buildDockerCommandResult env img parse script d m), buildSysCommandResult senv e rules now d}"
  then have a: "answers (trimSpace (cd_commandId d)) r" using answers_docker answers_sys by blast
  then show ?thesis using outcome_of_answer [OF a] by (simp add: answers_def)
qed

definition demoSys :: sys_env where
  "demoSys = \<lparr>se_shell = (\<lambda>_. \<lparr>pr_stdout = ''out'', pr_stderr = [], pr_end = Exited 0\<rparr>), se_files = (\<lambda>_. demoFiles ''/img/b.png''),
     se_cwd = None, se_mime = demoMime, se_ctxErr = None, se_completed = 8\<rparr>"

definition demoCommand :: "string \<Rightarrow> json \<Rightarrow> commandDispatch" where
  "demoCommand capability doc = \<lparr>cd_commandId = '' c1 '', cd_capability = capability, cd_payloadJson = Document doc, cd_deadlineUnixMs = 9\<rparr>"

lemma worker_answers_typed_witness:
  "let r = buildSysCommandResult demoSys (newComputerUseExecutor 10 ''exact'' [''ls'']) [] 7
      (demoCommand ''computerUse'' (JObj [(''command'', JStr ''ls'')]))
   in cr_commandId r = ''c1'' \<and> co_err (outcomeOfResult 0 r) = None"
proof -
  let ?d = "demoCommand ''computerUse'' (JObj [(''command'', JStr ''ls'')])"
  let ?r = "buildSysCommandResult demoSys (newComputerUseExecutor 10 ''exact'' [''ls'']) [] 7 ?d"
  have "cr_error ?r = None" "trimSpace (cd_commandId ?d) = ''c1''" unfolding demoSys_def demoCommand_def demoFiles_def demoMime_def by code_simp+
  with worker_answers_typed [of ?r undefined undefined undefined undefined ?d undefined demoSys
      "newComputerUseExecutor 10 ''exact'' [''ls'']" "[]" 7 0] show ?thesis by (simp add: Let_def)
qed

section \<open>Error codes\<close>

definition sysErrorCodes :: "string set" where
  "sysErrorCodes = {''invalid_command_id'', ''deadline_exceeded'', ''unsupported_capability'', ''invalid_payload'',
     ''execution_failed'', ''command_not_allowed'', ''session_not_found'', ''file_not_found'', ''path_is_directory'',
     ''path_not_allowed''}"

lemma sysErrorCodes_simps [simp]:
  "''invalid_command_id'' \<in> sysErrorCodes" "''deadline_exceeded'' \<in> sysErrorCodes" "''unsupported_capability'' \<in> sysErrorCodes"
  "''invalid_payload'' \<in> sysErrorCodes" "''execution_failed'' \<in> sysErrorCodes" "''command_not_allowed'' \<in> sysErrorCodes"
  "''session_not_found'' \<in> sysErrorCodes" "''file_not_found'' \<in> sysErrorCodes" "''path_is_directory'' \<in> sysErrorCodes"
  "''path_not_allowed'' \<in> sysErrorCodes"
  by (simp_all add: sysErrorCodes_def)

definition codedIn :: "string set \<Rightarrow> commandResult \<Rightarrow> bool" where
  "codedIn codes r \<longleftrightarrow> (case cr_error r of None \<Rightarrow> True | Some (code, _) \<Rightarrow> code \<in> codes)"

lemma codedIn_simps [simp]: "codedIn codes (commandOKResult t c p)" "codedIn codes (commandErrorResult t c code msg) \<longleftrightarrow> code \<in> codes"
  by (simp_all add: codedIn_def commandOKResult_def commandErrorResult_def)

lemma codedIn_error:
  assumes "\<And>code msg. err = CodedError code msg \<Longrightarrow> code \<in> codes" "''deadline_exceeded'' \<in> codes" "''execution_failed'' \<in> codes"
  shows "codedIn codes (executionErrorResult t c name err)"
  using assms by (cases err) (simp_all add: executionErrorResult_def wrapsContextError_def)

lemma newWorkerError_codes:
  "newWorkerError ''invalid_payload'' m = CodedError ''invalid_payload'' (trimSpace m)"
  "newWorkerError ''command_not_allowed'' m = CodedError ''command_not_allowed'' (trimSpace m)"
  "newWorkerError ''session_not_found'' m = CodedError ''session_not_found'' (trimSpace m)"
  "newWorkerError ''file_not_found'' m = CodedError ''file_not_found'' (trimSpace m)"
  "newWorkerError ''path_is_directory'' m = CodedError ''path_is_directory'' (trimSpace m)"
  "newWorkerError ''path_not_allowed'' m = CodedError ''path_not_allowed'' (trimSpace m)"
proof -
  have "trimSpace ''invalid_payload'' = ''invalid_payload''" "trimSpace ''command_not_allowed'' = ''command_not_allowed''"
    "trimSpace ''session_not_found'' = ''session_not_found''" "trimSpace ''file_not_found'' = ''file_not_found''"
    "trimSpace ''path_is_directory'' = ''path_is_directory''" "trimSpace ''path_not_allowed'' = ''path_not_allowed''" by code_simp+
  then show "newWorkerError ''invalid_payload'' m = CodedError ''invalid_payload'' (trimSpace m)"
    "newWorkerError ''command_not_allowed'' m = CodedError ''command_not_allowed'' (trimSpace m)"
    "newWorkerError ''session_not_found'' m = CodedError ''session_not_found'' (trimSpace m)"
    "newWorkerError ''file_not_found'' m = CodedError ''file_not_found'' (trimSpace m)"
    "newWorkerError ''path_is_directory'' m = CodedError ''path_is_directory'' (trimSpace m)"
    "newWorkerError ''path_not_allowed'' m = CodedError ''path_not_allowed'' (trimSpace m)"
    by (simp_all add: newWorkerError_def)
qed

lemma computerUse_codes:
  "snd (executeComputerUse e sh raw) = Inl (CodedError code msg) \<Longrightarrow> code = ''invalid_payload'' \<or> code = ''command_not_allowed''"
  by (auto simp: executeComputerUse_def Let_def computerUseCodeInvalidPayload_def newWorkerError_codes
      computerUseCodeCommandNotAllowed_def split: if_splits option.splits run_error.splits)

lemma pathNotAllowed_code: "pathNotAllowed = CodedError ''path_not_allowed'' (trimSpace ''file path is not allowed'')"
  by (simp add: pathNotAllowed_def readImageCodePathNotAllowed_def newWorkerError_codes)

lemma open_codes: "openReadImageFile f p = Inl (CodedError code msg) \<Longrightarrow> code = ''file_not_found'' \<or> code = ''path_is_directory''"
  by (auto simp: openReadImageFile_def newWorkerError_codes split: sum.splits fs_error.splits if_splits)

lemma binding_codes: "ensureReadImagePathBinding cwd h rs p i = Some (CodedError code msg) \<Longrightarrow> code = ''path_not_allowed''"
  by (auto simp: ensureReadImagePathBinding_def pathNotAllowed_code split: sum.splits fs_error.splits bool.splits if_splits)

lemma readImage_codes:
  assumes "executeReadImage x cwd mt h rs req = Inl (CodedError code msg)"
  shows "code \<in> {''invalid_payload'', ''session_not_found'', ''path_not_allowed'', ''file_not_found'', ''path_is_directory''}"
proof (rule ccontr)
  assume n: "\<not> ?thesis"
  obtain p where p: "x = None" "trimSpace (iq_sessionID req) = readImageSessionComputerUse" "trimSpace (iq_filePath req) \<noteq> []"
    "normalizeReadImageAction (iq_action req) \<noteq> []"
    "normalizeReadImagePath cwd (trimSpace (iq_filePath req)) = Some p" "isPathLexicallyAllowed rs p"
    using assms n by (auto simp: executeReadImage_def newWorkerError_codes pathNotAllowed_code split: option.splits if_splits)
  have run: "(case openReadImageFile (h 0) p of Inl e \<Rightarrow> Inl e
     | Inr info \<Rightarrow> (case ensureReadImagePathBinding cwd h rs p info of Some e \<Rightarrow> Inl e
       | None \<Rightarrow> executeReadImage x cwd mt h rs req)) = Inl (CodedError code msg)"
    using assms p by (auto simp: executeReadImage_def split: sum.splits option.splits)
  obtain info where i: "openReadImageFile (h 0) p = Inr info"
    using run n open_codes [of "h 0" p code msg] by (auto split: sum.splits)
  have b: "ensureReadImagePathBinding cwd h rs p info = None"
    using run n i binding_codes [of cwd h rs p info code msg] by (auto split: option.splits)
  show False using assms p i b by (auto simp: executeReadImage_def Let_def split: sum.splits if_splits)
qed

lemma guard_codes: "commandGuard now d = Some r \<Longrightarrow> codedIn sysErrorCodes r"
  by (auto simp: commandGuard_def Let_def split: if_splits) (simp add: codedIn_def)

lemma computerUse_result_codes: "codedIn sysErrorCodes (buildComputerUseCommandResult env e now c d)"
proof -
  have "codedIn sysErrorCodes (executionErrorResult t c n err)"
    if "snd (executeComputerUse e (se_shell env) raw) = Inl err" for t n err raw
    by (rule codedIn_error) (use computerUse_codes that in fastforce)+
  then show ?thesis
    by (simp add: buildComputerUseCommandResult_def Let_def computerUseCodeInvalidPayload_def split: option.split sum.split)
qed

lemma readImage_result_codes: "codedIn sysErrorCodes (buildReadImageCommandResult env rules now c d)"
proof -
  have "codedIn sysErrorCodes (executionErrorResult t c n err)"
    if "executeReadImage (se_ctxErr env) (se_cwd env) (se_mime env) (se_files env) rules req = Inl err" for t n err req
    by (rule codedIn_error) (use readImage_codes that in fastforce)+
  then show ?thesis by (simp add: buildReadImageCommandResult_def Let_def split: option.split sum.split)
qed

text \<open>The codes of the system worker's errors are these ten and no others, so the console's mapping of them to
  HTTP and MCP errors can be total.\<close>

theorem sys_error_codes:
  "case cr_error (buildSysCommandResult env e rules now d) of
     None \<Rightarrow> True
   | Some (code, _) \<Rightarrow> code \<in> {''invalid_command_id'', ''deadline_exceeded'', ''unsupported_capability'', ''invalid_payload'',
       ''execution_failed'', ''command_not_allowed'', ''session_not_found'', ''file_not_found'', ''path_is_directory'',
       ''path_not_allowed''}"
proof -
  have "codedIn sysErrorCodes (buildSysCommandResult env e rules now d)"
    using guard_codes computerUse_result_codes readImage_result_codes
    by (simp add: buildSysCommandResult_def unsupportedCapability_def Let_def split: option.split)
  then show ?thesis by (simp only: codedIn_def sysErrorCodes_def)
qed

end
