(* ===== verification/Isolation.thy ===== *)
theory Isolation
  imports WorkerCommands
begin

text \<open>
  From the console to the container: what a command of one account can reach on the docker worker. The console
  scopes the payload to the account (theory \<open>OwnerScope\<close>), the worker decodes it again and works on the session it
  names (theory \<open>WorkerCommands\<close>); a call that runs undisturbed only ever touches that session and one container.
\<close>

section \<open>A call touches one session and one container\<close>

text \<open>If there is a session \<open>x\<close> its container is \<open>c\<close>, before and after; everything else in the table stays, and docker
  is only called about \<open>c\<close>.\<close>

definition owns :: "string \<Rightarrow> string \<Rightarrow> manager \<Rightarrow> bool" where
  "owns x c m \<longleftrightarrow> (\<forall>s. map_of (tm_sessions m) x = Some s \<longrightarrow> tn_containerName s = c)"

definition touches :: "string \<Rightarrow> string \<Rightarrow> manager \<Rightarrow> manager \<Rightarrow> bool" where
  "touches x c m m' \<longleftrightarrow> owns x c m' \<and> (\<forall>y. y \<noteq> x \<longrightarrow> map_of (tm_sessions m') y = map_of (tm_sessions m) y) \<and>
     (\<exists>added. tm_docker m' = tm_docker m @ added \<and> (\<forall>e \<in> set added. dockerTarget (fst e) = Some c))"

lemma touches_refl: "owns x c m \<Longrightarrow> touches x c m m"
  by (auto simp: touches_def)

lemma touches_trans: "touches x c m m' \<Longrightarrow> touches x c m' m'' \<Longrightarrow> touches x c m m''"
  unfolding touches_def by (elim conjE exE, intro conjI) (blast, metis, force)

lemma touches_docker:
  assumes "owns x c m" "dockerTarget args = Some c" "docker env args m = (r, m')"
  shows "touches x c m m'"
  using assms(1,2) docker_result [OF assms(3)] by (auto simp: touches_def owns_def)

lemma touches_idle: "owns x c m \<Longrightarrow> trimSpace x = x \<Longrightarrow> touches x c m (snd (markSessionIdle x m))"
  by (auto simp: touches_def owns_def markSessionIdle_def Let_def split: option.split)

lemma touches_drop: "owns x c m \<Longrightarrow> trimSpace x = x \<Longrightarrow> touches x c m (dropSession x m)"
  by (auto simp: touches_def owns_def dropSession_def Let_def)

lemma touches_remove:
  assumes "owns x c m" "trimSpace c = c"
  shows "touches x c m (forceRemoveContainer env c m)"
proof (cases "c = []")
  case True
  with assms touches_refl show ?thesis by (simp add: forceRemoveContainer_def)
next
  case False
  obtain r m' where d: "docker env (dockerRemoveArgs c) m = (r, m')" by fastforce
  from touches_docker [OF assms(1) _ d] False assms(2) show ?thesis by (simp add: forceRemoveContainer_def d)
qed

lemma touches_destroy:
  assumes "owns x c m" "trimSpace x = x" "trimSpace c = c" "ee_step env = id"
  shows "touches x c m (destroySession env x m)"
proof (cases "x = [] \<or> map_of (tm_sessions m) x = None")
  case True
  with assms touches_refl show ?thesis by (auto simp: destroySession_def Let_def)
next
  case False
  then obtain s where s: "map_of (tm_sessions m) x = Some s" "x \<noteq> []" by auto
  let ?m = "m\<lparr>tm_sessions := AList.delete x (tm_sessions m)\<rparr>"
  have "touches x c m ?m" "owns x c ?m" by (auto simp: touches_def owns_def)
  moreover have "tn_containerName s = c" using assms(1) s(1) by (simp add: owns_def)
  ultimately show ?thesis using touches_trans [OF _ touches_remove [of x c ?m env]] s assms(2-4)
    by (simp add: destroySession_def Let_def)
qed

lemma touches_owns: "touches x c m m' \<Longrightarrow> owns x c m'"
  by (simp add: touches_def)

lemmas touch_rules = touches_refl touches_idle touches_drop touches_remove touches_destroy

lemma touches_run:
  assumes "owns x c m" "trimSpace x = x" "trimSpace c = c" "ee_step env = id"
  shows "touches x c m (snd (runInSession env command x c created m))"
proof -
  obtain r m1 where d: "docker env (terminalExecDockerExecArgs c command) m = (r, m1)" by fastforce
  note t = touches_docker [OF assms(1) _ d, simplified]
  note o1 = touches_owns [OF t]
  have e: "touches x c m (destroySession env x m1)" "touches x c m (snd (markSessionIdle x m1))"
    using touches_trans [OF t touches_destroy [OF o1 assms(2-4)]] touches_trans [OF t touches_idle [OF o1 assms(2)]] by auto
  obtain l m2 where i: "markSessionIdle x m1 = (l, m2)" by fastforce
  show ?thesis using e by (simp add: runInSession_def d i assms(4) Let_def split: option.split)
qed

lemma touches_create:
  assumes "owns x c m" "trimSpace c = c" "ee_step env = id"
  shows "touches x c m (snd (createAndStartContainer env c m))"
proof -
  obtain r m1 where d: "docker env (terminalExecDockerCreateArgs c (tm_dockerImage m) (tm_memoryLimit m) (tm_cpuLimit m)
      (tm_pidsLimit m)) m = (r, m1)" by fastforce
  note t = touches_docker [OF assms(1) _ d, simplified]
  obtain r2 m2 where d2: "docker env (terminalExecDockerStartArgs c) m1 = (r2, m2)" by fastforce
  note t2 = touches_trans [OF t touches_docker [OF touches_owns [OF t] _ d2, simplified]]
  note t3 = touches_trans [OF t2 touches_remove [OF touches_owns [OF t2] assms(2), of env]]
  show ?thesis using t t2 t3 by (simp add: createAndStartContainer_def d d2 assms(3) split: option.split)
qed

lemma session_names:
  assumes "manager_wf m" "fresh_names env m"
  shows "trimSpace (targetSession env req) = targetSession env req"
  using assms(2) by (auto simp: targetSession_def fresh_names_def)

lemma acquire_touches:
  assumes wf: "manager_wf m" and f: "fresh_names env m" and a: "acquireSession env req lease m = (Inr (x, c, created), m')"
  shows "x = targetSession env req" "trimSpace c = c" "touches x c m m'"
    "map_of (tm_sessions m) x = None \<Longrightarrow> newTerminalExecContainerName (ee_random env) = Inr c"
    "\<And>s. map_of (tm_sessions m) x = Some s \<Longrightarrow> tn_containerName s = c"
proof -
  obtain s where s: "x = targetSession env req" "map_of (tm_sessions m') x = Some s" "tn_containerName s = c" "manager_wf m'"
    using acquire_cases [OF wf f a] by metis
  show "x = targetSession env req" by (rule s(1))
  show "trimSpace c = c" using wf_session(1) [OF s(4,2)] s(3) by (simp add: terminalSession_ok_def)
  have key: "map_of (tm_sessions m) y = Some u \<Longrightarrow> tn_sessionID u = y" for y u
    using wf_session(1) [OF wf] by (simp add: terminalSession_ok_def)
  have "(\<forall>y. y \<noteq> x \<longrightarrow> map_of (tm_sessions m') y = map_of (tm_sessions m) y) \<and> tm_docker m' = tm_docker m"
    using a s(1) key unfolding acquireSession_def
    by (auto simp: Let_def addSession_def targetSession_def split: if_splits sum.splits option.splits)
  then show "touches x c m m'" using s(2,3) by (auto simp: touches_def owns_def)
  show "map_of (tm_sessions m) x = None \<Longrightarrow> newTerminalExecContainerName (ee_random env) = Inr c"
    using a s(1) f unfolding acquireSession_def
    by (auto simp: Let_def targetSession_def fresh_names_def split: if_splits sum.splits option.splits)
  show "map_of (tm_sessions m) x = Some s \<Longrightarrow> tn_containerName s = c" for s
    using a s(1) f key unfolding acquireSession_def
    by (auto simp: Let_def targetSession_def fresh_names_def split: if_splits sum.splits option.splits)
qed

lemma execute_touches:
  assumes wf: "manager_wf m" and f: "fresh_names env m" and q: "ee_step env = id"
  shows "snd (execute env req m) = m \<or>
    (\<exists>c. touches (targetSession env req) c m (snd (execute env req m)) \<and>
       (case map_of (tm_sessions m) (targetSession env req) of
          None \<Rightarrow> newTerminalExecContainerName (ee_random env) = Inr c | Some s \<Rightarrow> tn_containerName s = c))"
proof (cases "trimSpace (rq_command req) = []")
  case True
  then show ?thesis by (simp add: execute_def)
next
  case cmd: False
  show ?thesis
  proof (cases "resolveLeaseDuration (rq_leaseTTLSec req) m")
    case (Inl e)
    with cmd show ?thesis by (simp add: execute_def)
  next
    case (Inr lease)
    obtain res m1 where a: "acquireSession env req (tm_now m + lease) m = (res, m1)" by fastforce
    show ?thesis
    proof (cases res)
      case (Inl e)
      with a have "m1 = m" by (auto simp: acquireSession_def Let_def split: if_splits sum.splits option.splits)
      with cmd Inr a Inl q show ?thesis by (simp add: execute_def)
    next
      case (Inr r)
      obtain x c created where r: "r = (x, c, created)" by (cases r)
      note A = acquire_touches [OF wf f a [unfolded Inr r]]
      have x: "trimSpace x = x" using session_names [OF wf f] A(1) by metis
      have run: "touches x c m n \<Longrightarrow> touches x c m (snd (runInSession env command x c cr n))" for n command cr
        using touches_trans touches_run [OF touches_owns x A(2) q] by blast
      obtain e m2 where c: "createAndStartContainer env c m1 = (e, m2)" by fastforce
      have m2: "touches x c m m2"
        using touches_trans [OF A(3) touches_create [OF touches_owns [OF A(3)] A(2) q]] c by simp
      have "touches x c m (dropSession x m2)" by (rule touches_trans [OF m2 touches_drop [OF touches_owns [OF m2] x]])
      then have "touches x c m (snd (execute env req m))"
        using cmd \<open>resolveLeaseDuration (rq_leaseTTLSec req) m = Inr lease\<close> a Inr r q c run [OF A(3)] run [OF m2]
        by (simp add: execute_def Let_def split: option.split)
      with A show ?thesis by (intro disjI2 exI [of _ c]) (auto split: option.split)
    qed
  qed
qed

lemma resource_touches:
  assumes wf: "manager_wf m" and q: "ee_step env = id"
  shows "snd (resolveResource env parse script req m) = m \<or>
    (\<exists>s. map_of (tm_sessions m) (trimSpace (tq_sessionID req)) = Some s \<and>
       touches (trimSpace (tq_sessionID req)) (tn_containerName s) m (snd (resolveResource env parse script req m)))"
proof (cases "map_of (tm_sessions m) (trimSpace (tq_sessionID req))")
  case None
  then show ?thesis by (simp add: resolveResource_def Let_def)
next
  case (Some s)
  let ?x = "trimSpace (tq_sessionID req)" and ?c = "tn_containerName s"
  show ?thesis
  proof (cases "tn_busy s \<or> trimSpace (tq_filePath req) = [] \<or> normalizeTerminalResourceAction (tq_action req) = [] \<or> ?x = []")
    case True
    with Some show ?thesis by (auto simp: resolveResource_def Let_def)
  next
    case False
    let ?m1 = "m\<lparr>tm_sessions := AList.update ?x (s\<lparr>tn_busy := True\<rparr>) (tm_sessions m)\<rparr>"
    have c: "trimSpace ?c = ?c" using wf_session(1) [OF wf Some] by (simp add: terminalSession_ok_def)
    have t1: "touches ?x ?c m ?m1" by (auto simp: touches_def owns_def)
    obtain r m2 where d: "docker env (terminalExecDockerResourceArgs script ?c (normalizeTerminalResourceAction (tq_action req))
        (trimSpace (tq_filePath req)) (tm_outputLimitBytes m)) ?m1 = (r, m2)" by fastforce
    note t2 = touches_trans [OF t1 touches_docker [OF touches_owns [OF t1] _ d, simplified]]
    note o2 = touches_owns [OF t2]
    have t3: "touches ?x ?c m (destroySession env ?x m2)" "touches ?x ?c m (snd (markSessionIdle ?x m2))"
      using touches_trans [OF t2 touches_destroy [OF o2 _ c q]] touches_trans [OF t2 touches_idle [OF o2]] by auto
    obtain l m3 where i: "markSessionIdle ?x m2 = (l, m3)" by fastforce
    have "touches ?x ?c m (snd (resolveResource env parse script req m))"
      using t3 i d Some False q unfolding resolveResource_def by (simp add: Let_def split: option.split)
    with Some show ?thesis by blast
  qed
qed

section \<open>Accounts\<close>

lemma foreign_sessions_differ:
  assumes "normalizeTaskOwnerID a \<noteq> []" "normalizeTaskOwnerID b \<noteq> []" "normalizeTaskOwnerID a \<noteq> normalizeTaskOwnerID b"
    and "CHR '':'' \<notin> set a" "CHR '':'' \<notin> set b" "trimSpace sid \<noteq> []"
  shows "scopeTerminalSessionID a other \<noteq> scopeTerminalSessionID b sid"
  using unscope_foreign [OF assms(1-5), of other] unscope_scope [OF assms(2,6)] by auto

lemma touches_foreign:
  assumes "touches x c m m'" "x \<noteq> y" "map_of (tm_sessions m) y = Some s" "c \<noteq> tn_containerName s"
  shows "map_of (tm_sessions m') y = Some s \<and>
    (\<exists>added. tm_docker m' = tm_docker m @ added \<and> (\<forall>e \<in> set added. dockerTarget (fst e) \<noteq> Some (tn_containerName s)))"
  using assms unfolding touches_def by (metis option.inject)

lemma execute_foreign:
  assumes wf: "manager_wf m" and f: "fresh_names env m" and q: "ee_step env = id"
    and s: "map_of (tm_sessions m) y = Some s" and y: "trimSpace (rq_sessionID req) \<noteq> y"
  shows "map_of (tm_sessions (snd (execute env req m))) y = Some s \<and>
    (\<exists>added. tm_docker (snd (execute env req m)) = tm_docker m @ added \<and>
       (\<forall>e \<in> set added. dockerTarget (fst e) \<noteq> Some (tn_containerName s)))"
proof -
  have t: "targetSession env req \<noteq> y"
    using f s y by (auto simp: targetSession_def fresh_names_def)
  consider "snd (execute env req m) = m" | c where "touches (targetSession env req) c m (snd (execute env req m))"
      "case map_of (tm_sessions m) (targetSession env req) of
         None \<Rightarrow> newTerminalExecContainerName (ee_random env) = Inr c | Some s \<Rightarrow> tn_containerName s = c"
    using execute_touches [OF wf f q] by blast
  then show ?thesis
  proof cases
    case 1
    with s show ?thesis by simp
  next
    case (2 c)
    have "c \<noteq> tn_containerName s"
    proof (cases "map_of (tm_sessions m) (targetSession env req)")
      case None
      then have "c \<notin> containers m" using 2(2) f by (simp add: fresh_names_def)
      with s show ?thesis unfolding containers_iff by blast
    next
      case (Some u)
      then show ?thesis using 2(2) wf_unique [OF wf Some s] t by auto
    qed
    with touches_foreign [OF 2(1) t s] show ?thesis by blast
  qed
qed

lemma resource_foreign:
  assumes wf: "manager_wf m" and q: "ee_step env = id"
    and s: "map_of (tm_sessions m) y = Some s" and y: "trimSpace (tq_sessionID req) \<noteq> y"
  shows "map_of (tm_sessions (snd (resolveResource env parse script req m))) y = Some s \<and>
    (\<exists>added. tm_docker (snd (resolveResource env parse script req m)) = tm_docker m @ added \<and>
       (\<forall>e \<in> set added. dockerTarget (fst e) \<noteq> Some (tn_containerName s)))"
  using resource_touches [OF wf q, of parse script req]
proof (elim disjE exE conjE)
  fix u assume u: "map_of (tm_sessions m) (trimSpace (tq_sessionID req)) = Some u"
    and t: "touches (trimSpace (tq_sessionID req)) (tn_containerName u) m (snd (resolveResource env parse script req m))"
  from touches_foreign [OF t y s] wf_unique [OF wf u s] y show ?thesis by blast
qed (use s in simp)

text \<open>C10: Isolation from the console to the containers: a command that one account submits for a terminal capability,
  scoped by the console and run by the docker worker without interference, leaves every terminal session of every
  other account exactly as it was, and no docker call it makes is about such a session's container, whatever session
  id, malformed document or capability spelling the account submits.\<close>

theorem tenant_isolation:
  assumes "scopeTaskInputByOwner newID capability a inp = Inr (cd_payloadJson d)"
    and "capability \<in> {taskCapabilityTerminalExec, taskCapabilityTerminalResource}" "trimSpace (toLower (cd_capability d)) = capability"
    and "normalizeTaskOwnerID a \<noteq> []" "normalizeTaskOwnerID b \<noteq> []" "normalizeTaskOwnerID a \<noteq> normalizeTaskOwnerID b"
    and "CHR '':'' \<notin> set a" "CHR '':'' \<notin> set b"
    and "manager_wf m" "fresh_names env m" "ee_step env = id"
    and "map_of (tm_sessions m) (scopeTerminalSessionID b sid) = Some s"
  shows "map_of (tm_sessions (snd (buildDockerCommandResult env img parse script d m))) (scopeTerminalSessionID b sid) = Some s \<and>
    (\<exists>added. tm_docker (snd (buildDockerCommandResult env img parse script d m)) = tm_docker m @ added \<and>
       (\<forall>e \<in> set added. dockerTarget (fst e) \<noteq> Some (tn_containerName s)))"
proof -
  let ?y = "scopeTerminalSessionID b sid" and ?p = "cd_payloadJson d"
  let ?ok = "\<lambda>m'. map_of (tm_sessions m') ?y = Some s \<and> (\<exists>added. tm_docker m' = tm_docker m @ added \<and>
       (\<forall>e \<in> set added. dockerTarget (fst e) \<noteq> Some (tn_containerName s)))"
  have stay: "?ok m" using assms(12) by simp
  have ne: "?y \<noteq> []" using wf_session(1) [OF assms(9,12)] by (simp add: terminalSession_ok_def)
  then have sid: "trimSpace sid \<noteq> []" by (auto simp: scopeTerminalSessionID_def Let_def)
  have names: "terminalSessionIDFromPayload capability ?p \<noteq> ?y"
    using scoped_input_owner [OF assms(1,4)] ne foreign_sessions_differ [OF assms(4-8) sid] by metis
  have ex: "?ok (snd (buildTerminalExecCommandResult env (trimSpace (cd_commandId d)) d m))"
    if "capability = taskCapabilityTerminalExec"
  proof (cases "bytesEmpty ?p \<or> decodeTerminalExec ?p = None")
    case True
    with stay show ?thesis by (auto simp: buildTerminalExecCommandResult_def Let_def)
  next
    case False
    then obtain t where t: "decodeTerminalExec ?p = Some t" "\<not> bytesEmpty ?p" by auto
    then have "trimSpace (te_session_id t) \<noteq> ?y" using names that by (simp add: terminalSessionIDFromPayload_def)
    from execute_foreign [OF assms(9-12), of "\<lparr>rq_command = te_command t, rq_sessionID = te_session_id t,
        rq_createIfMissing = te_create_if_missing t, rq_leaseTTLSec = te_lease_ttl_sec t\<rparr>"] this stay t
    show ?thesis by (simp add: buildTerminalExecCommandResult_def Let_def case_prod_unfold split: sum.split)
  qed
  have re: "?ok (snd (buildTerminalResourceCommandResult env parse script (trimSpace (cd_commandId d)) d m))"
    if "capability = taskCapabilityTerminalResource"
  proof (cases "bytesEmpty ?p \<or> decodeTerminalResource ?p = None")
    case True
    with stay show ?thesis by (auto simp: buildTerminalResourceCommandResult_def Let_def)
  next
    case False
    then obtain t where t: "decodeTerminalResource ?p = Some t" "\<not> bytesEmpty ?p" by auto
    then have "trimSpace (tr_session_id t) \<noteq> ?y"
      using names that by (simp add: terminalSessionIDFromPayload_def taskCapabilityTerminalResource_def taskCapabilityTerminalExec_def)
    from resource_foreign [OF assms(9,11,12), of "\<lparr>tq_sessionID = tr_session_id t, tq_filePath = tr_file_path t,
        tq_action = tr_action t\<rparr>" parse script] this stay t
    show ?thesis by (simp add: buildTerminalResourceCommandResult_def Let_def case_prod_unfold split: sum.split)
  qed
  have n: "taskCapabilityTerminalExec \<noteq> workerEchoName" "taskCapabilityTerminalExec \<noteq> pythonExecCapabilityName"
    "taskCapabilityTerminalExec = terminalExecCapabilityName" "taskCapabilityTerminalResource \<noteq> workerEchoName"
    "taskCapabilityTerminalResource \<noteq> pythonExecCapabilityName" "taskCapabilityTerminalResource \<noteq> terminalExecCapabilityName"
    "taskCapabilityTerminalResource = terminalResourceCapabilityName" by code_simp+
  from assms(2) show ?thesis
  proof (elim insertE emptyE)
    assume c: "capability = taskCapabilityTerminalExec"
    show ?thesis using ex [OF c] stay n assms(3) c by (simp add: buildDockerCommandResult_def Let_def split: option.split)
  next
    assume c: "capability = taskCapabilityTerminalResource"
    show ?thesis using re [OF c] stay n assms(3) c by (simp add: buildDockerCommandResult_def Let_def split: option.split)
  qed
qed

text \<open>Bob's session, and Alice asking for it.\<close>

definition bobsManager :: manager where
  "bobsManager = (newTerminalSessionManager demoConfig 0)\<lparr>tm_sessions := [(''obx:bob:s1'', demoSession False ''obx:bob:s1'')],
     tm_docker := [([''create'', ''--name'', ''c-obx:bob:s1''], runDockerCommandCLI \<lparr>pr_stdout = [], pr_stderr = [], pr_end = Exited 0\<rparr>)]\<rparr>"

lemma bobs_session: "map_of (tm_sessions bobsManager) x = Some s \<longleftrightarrow> x = ''obx:bob:s1'' \<and> s = demoSession False ''obx:bob:s1''"
  by (auto simp: bobsManager_def)

lemma bobs_wf: "manager_wf bobsManager" and bobs_fresh: "fresh_names (terminalEnv dk) bobsManager"
proof -
  have "trimSpace ''obx:bob:s1'' = ''obx:bob:s1''" "trimSpace ''c-obx:bob:s1'' = ''c-obx:bob:s1''" by code_simp+
  then show "manager_wf bobsManager" unfolding manager_wf_def bobs_session
    by (auto simp: bobsManager_def demoSession_def terminalSession_ok_def mentioned_def dockerTarget_def)
  have n: "newTerminalExecContainerName (ee_random (terminalEnv dk)) = Inr ''onlyboxes-terminalexec-0000000000000000''"
    unfolding terminalEnv_def by code_simp
  have "trimSpace (ee_uuid (terminalEnv dk)) = ee_uuid (terminalEnv dk)" unfolding terminalEnv_def by code_simp
  moreover have "map_of (tm_sessions bobsManager) ''u1'' = None" by (simp add: bobsManager_def)
  moreover have "containers bobsManager = {''c-obx:bob:s1''}" by (auto simp: containers_iff bobs_session)
  moreover have "mentioned (tm_docker bobsManager) = {''c-obx:bob:s1''}" by (simp add: bobsManager_def mentioned_def dockerTarget_def)
  ultimately show "fresh_names (terminalEnv dk) bobsManager" unfolding fresh_names_def n by (simp add: terminalEnv_def)
qed

lemma tenant_isolation_witness:
  "map_of (tm_sessions (snd (buildDockerCommandResult (terminalEnv (demoDocker (Exited 0))) [] (\<lambda>_. None) []
      (demoCommand ''terminalExec'' (JObj [(''command'', JStr ''ls''), (''session_id'', JStr ''obx:alice:obx:bob:s1'')])) bobsManager)))
    ''obx:bob:s1'' = Some (demoSession False ''obx:bob:s1'')"
proof -
  let ?d = "demoCommand ''terminalExec'' (JObj [(''command'', JStr ''ls''), (''session_id'', JStr ''obx:alice:obx:bob:s1'')])"
  have f: "scopeTaskInputByOwner (Inr ''n'') taskCapabilityTerminalExec ''alice''
      (Document (JObj [(''command'', JStr ''ls''), (''session_id'', JStr ''obx:bob:s1'')])) = Inr (cd_payloadJson ?d)"
    "trimSpace (toLower (cd_capability ?d)) = taskCapabilityTerminalExec"
    "normalizeTaskOwnerID ''alice'' \<noteq> []" "normalizeTaskOwnerID ''bob'' \<noteq> []" "normalizeTaskOwnerID ''alice'' \<noteq> normalizeTaskOwnerID ''bob''"
    "scopeTerminalSessionID ''bob'' ''s1'' = ''obx:bob:s1''" unfolding demoCommand_def by code_simp+
  show ?thesis
    using tenant_isolation [OF f(1) _ f(2-5) _ _ bobs_wf bobs_fresh, of "demoDocker (Exited 0)" "''s1''" "demoSession False ''obx:bob:s1''"
        "[]" "\<lambda>_. None" "[]"] bobs_session by (simp add: f(6))
qed

end
