(* ===== verification/SysSession.thy ===== *)
theory SysSession
  imports WorkerCommands Connect "HOL-Library.Multiset"
begin

text \<open>
  One session of the system worker: the command slot of \<open>worker-sys/internal/runner/session_client.go\<close>. The receiver
  hands every command to \<open>handleCommandDispatch\<close>; a single slot lets one command run, all others are answered
  \<open>session_busy\<close> at once. The goroutines of the session (receiver, sender, heartbeat, one per accepted command) are
  the rules of a step relation; \<open>ys_received\<close> and \<open>ys_sent\<close> record what crossed the wire.
\<close>

section \<open>State and operations\<close>

definition commandExecSlotCapacity :: nat where "commandExecSlotCapacity = 1"
definition sessionBusyErrorCode :: string where "sessionBusyErrorCode = ''session_busy''"
definition sessionBusyErrorMessage :: string where "sessionBusyErrorMessage = ''session busy''"
definition outboundCapacity :: nat where "outboundCapacity = 64"
definition sessionErrCapacity :: nat where "sessionErrCapacity = 4"

record sys_session =
  ys_slots :: nat
  ys_outbound :: "connectRequest list"
  ys_running :: "commandDispatch list"
  ys_finishing :: "commandResult list"
  ys_releasing :: nat
  ys_ctxErr :: "go_error option"
  ys_errs :: "go_error list"
  ys_receiving :: bool
  ys_received :: "commandDispatch list"
  ys_sent :: "connectRequest list"

definition newSysSession :: sys_session where
  "newSysSession = \<lparr>ys_slots = commandExecSlotCapacity, ys_outbound = [], ys_running = [], ys_finishing = [],
     ys_releasing = 0, ys_ctxErr = None, ys_errs = [], ys_receiving = True, ys_received = [], ys_sent = []\<rparr>"

definition tryAcquireCommandSlot :: "sys_session \<Rightarrow> bool \<times> sys_session" where
  "tryAcquireCommandSlot s = (if ys_slots s = 0 then (False, s) else (True, s\<lparr>ys_slots := ys_slots s - 1\<rparr>))"

definition releaseCommandSlot :: "sys_session \<Rightarrow> sys_session" where
  "releaseCommandSlot s = (if ys_slots s < commandExecSlotCapacity then s\<lparr>ys_slots := ys_slots s + 1\<rparr> else s)"

text \<open>\<open>select\<close> picks any ready case; \<open>pickDone\<close> is its choice when the context is done and there is room.\<close>

definition tryEnqueueRequest :: "bool \<Rightarrow> connectRequest \<Rightarrow> sys_session \<Rightarrow> bool \<times> sys_session" where
  "tryEnqueueRequest pickDone req s =
     (let room = length (ys_outbound s) < outboundCapacity
      in if ys_ctxErr s \<noteq> None \<and> (pickDone \<or> \<not> room) then (False, s)
         else if room then (True, s\<lparr>ys_outbound := ys_outbound s @ [req]\<rparr>) else (False, s))"

definition reportSessionErr :: "go_error \<Rightarrow> sys_session \<Rightarrow> sys_session" where
  "reportSessionErr err s =
     (if length (ys_errs s) < sessionErrCapacity then s\<lparr>ys_errs := ys_errs s @ [err]\<rparr> else s)"

definition buildSessionBusyCommandResult :: "int \<Rightarrow> commandDispatch \<Rightarrow> commandResult" where
  "buildSessionBusyCommandResult now dispatch =
     commandErrorResult now (trimSpace (cd_commandId dispatch)) sessionBusyErrorCode sessionBusyErrorMessage"

text \<open>Whether the receiver goes on, and the session; an accepted command gets a goroutine.\<close>

definition handleCommandDispatch :: "bool \<Rightarrow> int \<Rightarrow> commandDispatch \<Rightarrow> sys_session \<Rightarrow> bool \<times> sys_session" where
  "handleCommandDispatch pickDone now dispatch s =
     (case tryAcquireCommandSlot s of
        (True, s) \<Rightarrow> (True, s\<lparr>ys_running := ys_running s @ [dispatch]\<rparr>)
      | (False, s) \<Rightarrow>
          (case tryEnqueueRequest pickDone (ResultFrame (buildSessionBusyCommandResult now dispatch)) s of
             (True, s) \<Rightarrow> (True, s)
           | (False, s) \<Rightarrow>
               if ys_ctxErr s \<noteq> None then (False, s)
               else (False, reportSessionErr (OtherError ''enqueue session_busy result: outbound queue is full'') s)))"

text \<open>The receiver's handling of a command frame.\<close>

definition receiveDispatch :: "bool \<Rightarrow> int \<Rightarrow> commandDispatch \<Rightarrow> sys_session \<Rightarrow> sys_session" where
  "receiveDispatch pickDone now dispatch s =
     (case handleCommandDispatch pickDone now dispatch (s\<lparr>ys_received := ys_received s @ [dispatch]\<rparr>) of
        (ok, s) \<Rightarrow> s\<lparr>ys_receiving := ok\<rparr>)"

section \<open>Steps\<close>

inductive sys_step :: "sys_session \<Rightarrow> sys_session \<Rightarrow> bool" where
  ss_receive: "ys_receiving s \<Longrightarrow> sys_step s (receiveDispatch pickDone now d s)"
| ss_finish: "ys_running s = a @ d # b \<Longrightarrow>
    sys_step s (s\<lparr>ys_running := a @ b, ys_finishing := ys_finishing s @ [buildSysCommandResult env e rules now d]\<rparr>)"
| ss_enqueue: "ys_finishing s = a @ r # b \<Longrightarrow> length (ys_outbound s) < outboundCapacity \<Longrightarrow>
    sys_step s (s\<lparr>ys_finishing := a @ b, ys_outbound := ys_outbound s @ [ResultFrame r], ys_releasing := ys_releasing s + 1\<rparr>)"
| ss_enqueueCanceled: "ys_finishing s = a @ r # b \<Longrightarrow> ys_ctxErr s \<noteq> None \<Longrightarrow>
    sys_step s (s\<lparr>ys_finishing := a @ b, ys_releasing := ys_releasing s + 1\<rparr>)"
| ss_release: "ys_releasing s > 0 \<Longrightarrow> sys_step s (releaseCommandSlot (s\<lparr>ys_releasing := ys_releasing s - 1\<rparr>))"
| ss_send: "ys_outbound s = q # qs \<Longrightarrow> sys_step s (s\<lparr>ys_outbound := qs, ys_sent := ys_sent s @ [q]\<rparr>)"
| ss_heartbeat: "length (ys_outbound s) < outboundCapacity \<Longrightarrow>
    sys_step s (s\<lparr>ys_outbound := ys_outbound s @ [HeartbeatFrame node sid]\<rparr>)"
| ss_cancel: "sys_step s (s\<lparr>ys_ctxErr := Some e\<rparr>)"

inductive_cases sys_stepE: "sys_step s s'"

section \<open>One command at a time\<close>

text \<open>The slot is in the channel or with exactly one goroutine, in one of its three phases.\<close>

definition slot_inv :: "sys_session \<Rightarrow> bool" where
  "slot_inv s \<longleftrightarrow> ys_slots s + length (ys_running s) + length (ys_finishing s) + ys_releasing s = 1 \<and>
     length (ys_outbound s) \<le> outboundCapacity"

lemma slot_inv_receive: "slot_inv s \<Longrightarrow> slot_inv (receiveDispatch pickDone now d s)"
  by (auto simp: slot_inv_def receiveDispatch_def handleCommandDispatch_def tryAcquireCommandSlot_def tryEnqueueRequest_def
      reportSessionErr_def Let_def simp flip: length_0_conv)

lemma slot_inv_step: "sys_step s s' \<Longrightarrow> slot_inv s \<Longrightarrow> slot_inv s'"
proof (induction rule: sys_step.induct)
  case (ss_receive s pickDone now d)
  then show ?case using slot_inv_receive by blast
next
  case (ss_release s)
  then show ?case by (auto simp: slot_inv_def releaseCommandSlot_def commandExecSlotCapacity_def simp flip: length_0_conv)
qed (auto simp: slot_inv_def)

lemma slot_inv_start: "slot_inv newSysSession"
  by (simp add: slot_inv_def newSysSession_def commandExecSlotCapacity_def)

lemma slot_inv_reachable: "sys_step\<^sup>*\<^sup>* newSysSession s \<Longrightarrow> slot_inv s"
  by (induction rule: rtranclp_induct) (simp_all add: slot_inv_start slot_inv_step)

text \<open>C15: In no interleaving of a system worker's session do two commands run at the same time, a slot is never lost or
  doubled, and a result is handed over before the slot is free again.\<close>

theorem one_command_at_a_time:
  assumes "sys_step\<^sup>*\<^sup>* newSysSession s"
  shows "length (ys_running s) + length (ys_finishing s) + ys_releasing s = 1 - ys_slots s \<and> ys_slots s \<le> 1 \<and>
    length (ys_outbound s) \<le> 64"
  using slot_inv_reachable [OF assms] by (auto simp: slot_inv_def outboundCapacity_def)

section \<open>Every command is answered\<close>

text \<open>The contract of a session with the console, for either worker: as long as the session stands, each step accounts
  for the commands that arrived, by the results that are on their way.\<close>

locale answering =
  fixes step :: "'s \<Rightarrow> 's \<Rightarrow> bool" and start :: 's and stands :: "'s \<Rightarrow> bool"
    and arrived accounted :: "'s \<Rightarrow> string multiset"
  assumes at_start: "accounted start = arrived start"
    and stands_back: "step s s' \<Longrightarrow> stands s' \<Longrightarrow> stands s"
    and keeps: "step s s' \<Longrightarrow> stands s' \<Longrightarrow> accounted s = arrived s \<Longrightarrow> accounted s' = arrived s'"
begin

lemma none_lost: "step\<^sup>*\<^sup>* start s \<Longrightarrow> stands s \<Longrightarrow> accounted s = arrived s"
  by (induction rule: rtranclp_induct) (use at_start stands_back keeps in blast)+

end

text \<open>The ids of the results among frames.\<close>

definition resultIDs :: "connectRequest list \<Rightarrow> string list" where
  "resultIDs fs = concat (map (\<lambda>f. case f of ResultFrame r \<Rightarrow> [cr_commandId r] | _ \<Rightarrow> []) fs)"

lemma resultIDs_simps [simp]: "resultIDs [] = []" "resultIDs (a @ b) = resultIDs a @ resultIDs b"
  "resultIDs (ResultFrame r # fs) = cr_commandId r # resultIDs fs" "resultIDs (HeartbeatFrame n k # fs) = resultIDs fs"
  by (simp_all add: resultIDs_def)

definition dispatchID :: "commandDispatch \<Rightarrow> string" where "dispatchID d = trimSpace (cd_commandId d)"

definition answered :: "sys_session \<Rightarrow> string multiset" where
  "answered s = mset (resultIDs (ys_sent s)) + mset (resultIDs (ys_outbound s)) + mset (map cr_commandId (ys_finishing s)) +
     mset (map dispatchID (ys_running s))"

lemma busy_id [simp]: "cr_commandId (buildSessionBusyCommandResult now d) = dispatchID d"
  by (simp add: buildSessionBusyCommandResult_def commandErrorResult_def dispatchID_def)

lemma sys_result_id [simp]: "cr_commandId (buildSysCommandResult env e rules now d) = dispatchID d"
  using answers_sys [of d env e rules now] by (simp add: answers_def dispatchID_def)

lemma answered_receive:
  assumes "ys_receiving (receiveDispatch pickDone now d s)"
  shows "answered (receiveDispatch pickDone now d s) = add_mset (dispatchID d) (answered s)"
  using assms by (auto simp: answered_def receiveDispatch_def handleCommandDispatch_def tryAcquireCommandSlot_def
      tryEnqueueRequest_def Let_def split: if_splits)

lemma received_receive [simp]: "ys_received (receiveDispatch pickDone now d s) = ys_received s @ [d]"
  "ys_ctxErr (receiveDispatch pickDone now d s) = ys_ctxErr s"
  by (auto simp: receiveDispatch_def handleCommandDispatch_def tryAcquireCommandSlot_def tryEnqueueRequest_def
      reportSessionErr_def Let_def)

text \<open>A session that ended stays ended.\<close>

lemma running_step: "sys_step s s' \<Longrightarrow> ys_receiving s' \<Longrightarrow> ys_ctxErr s' = None \<Longrightarrow> ys_receiving s \<and> ys_ctxErr s = None"
  by (induction rule: sys_step.induct) (auto simp: releaseCommandSlot_def split: if_splits)

lemma answered_step:
  "sys_step s s' \<Longrightarrow> ys_receiving s' \<Longrightarrow> ys_ctxErr s' = None \<Longrightarrow> answered s = mset (map dispatchID (ys_received s)) \<Longrightarrow>
   answered s' = mset (map dispatchID (ys_received s'))"
proof (induction rule: sys_step.induct)
  case (ss_receive s pickDone now d)
  then show ?case using answered_receive by simp
next
  case (ss_send s q qs)
  then show ?case by (cases q) (auto simp: answered_def resultIDs_def)
qed (auto simp: answered_def releaseCommandSlot_def ac_simps)

interpretation sys_answers: answering sys_step newSysSession "\<lambda>s. ys_receiving s \<and> ys_ctxErr s = None"
    "\<lambda>s. mset (map dispatchID (ys_received s))" answered
proof
  show "answered newSysSession = mset (map dispatchID (ys_received newSysSession))"
    by (simp add: answered_def newSysSession_def)
qed (use running_step answered_step in blast)+

text \<open>As long as a session stands, every command frame the worker received has exactly one result, waiting, queued or
  sent, or is the one that runs: none is lost, none is answered twice, whether it ran or met a busy slot.\<close>

theorem every_command_answered_once:
  assumes "sys_step\<^sup>*\<^sup>* newSysSession s" "ys_receiving s" "ys_ctxErr s = None"
  shows "mset (map dispatchID (ys_received s)) =
    mset (resultIDs (ys_sent s @ ys_outbound s)) + mset (map cr_commandId (ys_finishing s)) + mset (map dispatchID (ys_running s))"
  using sys_answers.none_lost [OF assms(1)] assms(2,3) by (simp add: answered_def)

definition demoDispatch :: "string \<Rightarrow> commandDispatch" where
  "demoDispatch x = \<lparr>cd_commandId = x, cd_capability = ''computerUse'', cd_payloadJson = emptyBytes, cd_deadlineUnixMs = 0\<rparr>"

text \<open>A command runs, is answered, and the answer is sent, all before its goroutine gives the slot back.\<close>

definition demoAnswer :: commandResult where
  "demoAnswer = buildSysCommandResult demoSys (newComputerUseExecutor 0 [] []) [] 5 (demoDispatch ''c1'')"

definition demoAnswered :: sys_session where
  "demoAnswered = newSysSession\<lparr>ys_slots := 0, ys_releasing := 1, ys_received := [demoDispatch ''c1''], ys_sent := [ResultFrame demoAnswer]\<rparr>"

lemma demoAnswered_reachable: "sys_step\<^sup>*\<^sup>* newSysSession demoAnswered"
proof -
  let ?s1 = "newSysSession\<lparr>ys_slots := 0, ys_running := [demoDispatch ''c1''], ys_received := [demoDispatch ''c1'']\<rparr>"
  let ?s2 = "newSysSession\<lparr>ys_slots := 0, ys_finishing := [demoAnswer], ys_received := [demoDispatch ''c1'']\<rparr>"
  let ?s3 = "newSysSession\<lparr>ys_slots := 0, ys_outbound := [ResultFrame demoAnswer], ys_releasing := 1, ys_received := [demoDispatch ''c1'']\<rparr>"
  have "receiveDispatch False 0 (demoDispatch ''c1'') newSysSession = ?s1"
    by (simp add: receiveDispatch_def handleCommandDispatch_def tryAcquireCommandSlot_def newSysSession_def commandExecSlotCapacity_def)
  then have 1: "sys_step newSysSession ?s1" using ss_receive [of newSysSession False 0 "demoDispatch ''c1''"]
    by (simp add: newSysSession_def)
  have 2: "sys_step ?s1 ?s2"
    using ss_finish [of ?s1 "[]" "demoDispatch ''c1''" "[]" demoSys "newComputerUseExecutor 0 [] []" "[]" 5]
    by (simp add: newSysSession_def demoAnswer_def)
  have 3: "sys_step ?s2 ?s3" using ss_enqueue [of ?s2 "[]" demoAnswer "[]"] by (simp add: newSysSession_def outboundCapacity_def)
  have 4: "sys_step ?s3 demoAnswered" using ss_send [of ?s3 "ResultFrame demoAnswer" "[]"]
    by (simp add: newSysSession_def demoAnswered_def)
  show ?thesis using 1 2 3 4 by (meson rtranclp.rtrancl_refl rtranclp.rtrancl_into_rtrancl)
qed

lemma one_command_at_a_time_witness: "ys_running demoAnswered = [] \<and> ys_releasing demoAnswered = 1 - ys_slots demoAnswered"
  using one_command_at_a_time [OF demoAnswered_reachable] by (simp add: demoAnswered_def newSysSession_def)

lemma every_command_answered_once_witness:
  "mset (map dispatchID (ys_received demoAnswered)) = mset (resultIDs (ys_sent demoAnswered @ ys_outbound demoAnswered))"
  using every_command_answered_once [OF demoAnswered_reachable]
  by (simp add: demoAnswered_def newSysSession_def)

section \<open>The slot is freed too late\<close>

text \<open>The answer of a command can reach the console before the slot is free: then nothing runs, the console counts
  the worker as idle, and the next command it sends is still answered \<open>session_busy\<close>.\<close>

theorem idle_worker_answers_busy:
  "\<exists>s. sys_step\<^sup>*\<^sup>* newSysSession s \<and> ys_running s = [] \<and> ys_finishing s = [] \<and> ys_outbound s = [] \<and>
     mset (resultIDs (ys_sent s)) = mset (map dispatchID (ys_received s)) \<and>
     ys_outbound (receiveDispatch pickDone now d s) = [ResultFrame (buildSessionBusyCommandResult now d)]"
proof (intro exI conjI)
  show "sys_step\<^sup>*\<^sup>* newSysSession demoAnswered" by (rule demoAnswered_reachable)
qed (simp_all add: demoAnswered_def newSysSession_def demoAnswer_def receiveDispatch_def handleCommandDispatch_def
    tryAcquireCommandSlot_def tryEnqueueRequest_def outboundCapacity_def Let_def)

end
