(* ===== verification/Config.thy ===== *)
theory Config
  imports GoStrings Json
begin

text \<open>
  The configuration from the environment: \<open>internal/config/config.go\<close> of the console, of \<open>worker-docker\<close> and of
  \<open>worker-sys\<close>, whose parsing functions are the same, and \<open>console/internal/tokenlist\<close>. \<open>os.Getenv\<close> is an argument
  (an unset variable is the empty string), and so is \<open>encoding/json\<close>'s parser.
\<close>

type_synonym getenv = "string \<Rightarrow> string"

section \<open>Values\<close>

definition getEnv :: "getenv \<Rightarrow> string \<Rightarrow> string \<Rightarrow> string" where
  "getEnv env key defaultValue = (if env key = [] then defaultValue else env key)"

definition parsePositiveIntEnv :: "getenv \<Rightarrow> string \<Rightarrow> int \<Rightarrow> int" where
  "parsePositiveIntEnv env key defaultValue =
     (if env key = [] then defaultValue
      else case atoi (env key) of None \<Rightarrow> defaultValue | Some parsed \<Rightarrow> if parsed \<le> 0 then defaultValue else parsed)"

definition parsePercentEnv :: "getenv \<Rightarrow> string \<Rightarrow> int \<Rightarrow> int" where
  "parsePercentEnv env key defaultValue =
     (if env key = [] then defaultValue
      else case atoi (env key) of
        None \<Rightarrow> defaultValue | Some parsed \<Rightarrow> if parsed < 0 \<or> parsed > 100 then defaultValue else parsed)"

definition parseBoolEnv :: "getenv \<Rightarrow> string \<Rightarrow> bool \<Rightarrow> bool" where
  "parseBoolEnv env key defaultValue =
     (let value = trimSpace (toLower (env key))
      in if value \<in> {''1'', ''true'', ''yes'', ''on''} then True
         else if value \<in> {''0'', ''false'', ''no'', ''off''} then False else defaultValue)"

definition parseLogLevelEnv :: "getenv \<Rightarrow> string \<Rightarrow> string \<Rightarrow> string" where
  "parseLogLevelEnv env key defaultValue =
     (let value = trimSpace (toLower (env key))
      in if value = [] then defaultValue
         else if value \<in> {''debug'', ''info'', ''warn'', ''error''} then value else defaultValue)"

definition parseLogFormatEnv :: "getenv \<Rightarrow> string \<Rightarrow> string \<Rightarrow> string" where
  "parseLogFormatEnv env key defaultValue =
     (let value = trimSpace (toLower (env key))
      in if value = [] then defaultValue else if value \<in> {''json'', ''text''} then value else defaultValue)"

definition goDiv2 :: "int \<Rightarrow> int" where
  "goDiv2 x = sgn x * (\<bar>x\<bar> div 2)"

definition defaultCallTimeoutSec :: "int \<Rightarrow> int" where
  "defaultCallTimeoutSec heartbeatSec =
     (let heartbeatSec = (if heartbeatSec \<le> 0 then 5 else heartbeatSec)
      in goDiv2 (wrap64 (wrap64 (heartbeatSec * 5) + 1)))"

definition clampInt :: "int \<Rightarrow> int \<Rightarrow> int \<Rightarrow> int" where
  "clampInt value minValue maxValue =
     (if value < minValue then minValue else if value > maxValue then maxValue else value)"

text \<open>\<open>name=value\<close> pairs; a later pair of the same name wins.\<close>

definition parseLabelEntry :: "string \<Rightarrow> (string \<times> string) list \<Rightarrow> (string \<times> string) list" where
  "parseLabelEntry part labels =
     (let entry = trimSpace part
      in if entry = [] then labels
         else case splitTwo (CHR ''='') entry of
           [k, v] \<Rightarrow> if trimSpace k = [] then labels else AList.update (trimSpace k) (trimSpace v) labels
         | _ \<Rightarrow> labels)"

definition parseLabels :: "string \<Rightarrow> (string \<times> string) list" where
  "parseLabels raw = (if trimSpace raw = [] then [] else fold parseLabelEntry (splitOn (CHR '','') raw) [])"

text \<open>Trimmed, without blanks and repetitions.\<close>

fun normalizeTokens :: "string list \<Rightarrow> string list \<Rightarrow> string list" where
  "normalizeTokens seen [] = []"
| "normalizeTokens seen (raw # rest) =
     (let token = trimSpace raw
      in if token = [] \<or> token \<in> set seen then normalizeTokens seen rest
         else token # normalizeTokens (token # seen) rest)"

definition parseCommaSeparated :: "string \<Rightarrow> string list" where
  "parseCommaSeparated value = (if trimSpace value = [] then [] else normalizeTokens [] (splitOn (CHR '','') value))"

text \<open>A JSON array of strings.\<close>

definition decodeStrings :: "(string \<Rightarrow> json option) \<Rightarrow> string \<Rightarrow> string list option" where
  "decodeStrings parse raw =
     (case parse raw of
        Some (JArr xs) \<Rightarrow> those (map (storeStr (Some [])) xs)
      | Some JNull \<Rightarrow> Some []
      | _ \<Rightarrow> None)"

definition parseComputerUseWhitelist :: "(string \<Rightarrow> json option) \<Rightarrow> string \<Rightarrow> string list" where
  "parseComputerUseWhitelist parse raw =
     (if trimSpace raw = [] then []
      else case decodeStrings parse raw of None \<Rightarrow> [] | Some decoded \<Rightarrow> normalizeTokens [] decoded)"

definition parseReadImageAllowedPaths :: "(string \<Rightarrow> json option) \<Rightarrow> string \<Rightarrow> string list" where
  "parseReadImageAllowedPaths parse raw =
     (if trimSpace raw = [] then []
      else case decodeStrings parse raw of None \<Rightarrow> [] | Some decoded \<Rightarrow> normalizeTokens [] decoded)"

definition parseComputerUseWhitelistMode :: "string \<Rightarrow> string" where
  "parseComputerUseWhitelistMode raw =
     (let mode = toLower (trimSpace raw)
      in if mode \<in> {''prefix'', ''exact'', ''allow_all''} then mode else ''exact'')"

section \<open>Configurations\<close>

record workerConfig =
  wc_consoleGRPCTarget :: string
  wc_consoleTLS :: bool
  wc_workerID :: string
  wc_workerSecret :: string
  wc_heartbeatInterval :: gduration
  wc_heartbeatJitter :: int
  wc_callTimeout :: gduration
  wc_nodeName :: string
  wc_executorKind :: string
  wc_version :: string
  wc_labels :: "(string \<times> string) list"
  wc_logLevel :: string
  wc_logFormat :: string
  wc_logAddSource :: bool

record dockerConfig = workerConfig +
  dc_pythonExecDockerImage :: string
  dc_terminalExecDockerImage :: string
  dc_terminalLeaseMinSec :: int
  dc_terminalLeaseMaxSec :: int
  dc_terminalLeaseDefaultSec :: int
  dc_terminalOutputLimitBytes :: int

record sysConfig = workerConfig +
  yc_computerUseOutputLimitByte :: int
  yc_computerUseWhitelistMode :: string
  yc_computerUseWhitelist :: "string list"
  yc_readImageAllowedPaths :: "string list"

record consoleConfig =
  kc_httpAddr :: string
  kc_grpcAddr :: string
  kc_offlineTTL :: gduration
  kc_replayWindow :: gduration
  kc_heartbeatIntervalSec :: int
  kc_dashboardUsername :: string
  kc_dashboardPassword :: string
  kc_dbPath :: string
  kc_dbBusyTimeoutMS :: int
  kc_hashKey :: string
  kc_taskRetentionDays :: int
  kc_enableRegistration :: bool
  kc_logLevel :: string
  kc_logFormat :: string
  kc_logAddSource :: bool

definition seconds :: "int \<Rightarrow> gduration" where "seconds n = wrap64 (n * second)"

text \<open>\<open>buildVersion\<close> is \<open>buildinfo.Version\<close>, set by the linker.\<close>

definition defaultVersion :: "string \<Rightarrow> string" where
  "defaultVersion buildVersion = (if trimSpace buildVersion = [] then ''dev'' else trimSpace buildVersion)"

definition loadDocker :: "getenv \<Rightarrow> string \<Rightarrow> dockerConfig" where
  "loadDocker env buildVersion =
     (let heartbeatSec = parsePositiveIntEnv env ''WORKER_HEARTBEAT_INTERVAL_SEC'' 5;
          callTimeoutSec = parsePositiveIntEnv env ''WORKER_CALL_TIMEOUT_SEC'' (defaultCallTimeoutSec heartbeatSec);
          leaseMin = parsePositiveIntEnv env ''WORKER_TERMINAL_LEASE_MIN_SEC'' 60;
          leaseMax = parsePositiveIntEnv env ''WORKER_TERMINAL_LEASE_MAX_SEC'' 1800;
          leaseMax = (if leaseMax < leaseMin then leaseMin else leaseMax);
          leaseDefault = clampInt (parsePositiveIntEnv env ''WORKER_TERMINAL_LEASE_DEFAULT_SEC'' 60) leaseMin leaseMax
      in \<lparr>wc_consoleGRPCTarget = getEnv env ''WORKER_CONSOLE_GRPC_TARGET'' ''127.0.0.1:50051'',
          wc_consoleTLS = (env ''WORKER_CONSOLE_INSECURE'' \<noteq> ''true''),
          wc_workerID = trimSpace (env ''WORKER_ID''), wc_workerSecret = trimSpace (env ''WORKER_SECRET''),
          wc_heartbeatInterval = seconds heartbeatSec,
          wc_heartbeatJitter = parsePercentEnv env ''WORKER_HEARTBEAT_JITTER_PCT'' 20,
          wc_callTimeout = seconds callTimeoutSec, wc_nodeName = env ''WORKER_NODE_NAME'',
          wc_executorKind = ''docker'', wc_version = getEnv env ''WORKER_VERSION'' (defaultVersion buildVersion),
          wc_labels = parseLabels (env ''WORKER_LABELS''),
          wc_logLevel = parseLogLevelEnv env ''WORKER_LOG_LEVEL'' ''info'',
          wc_logFormat = parseLogFormatEnv env ''WORKER_LOG_FORMAT'' ''json'',
          wc_logAddSource = parseBoolEnv env ''WORKER_LOG_ADD_SOURCE'' False,
          dc_pythonExecDockerImage = getEnv env ''WORKER_PYTHON_EXEC_DOCKER_IMAGE'' ''python:slim'',
          dc_terminalExecDockerImage = getEnv env ''WORKER_TERMINAL_EXEC_DOCKER_IMAGE''
            ''coolfan1024/onlyboxes-default-worker:0.0.3'',
          dc_terminalLeaseMinSec = leaseMin, dc_terminalLeaseMaxSec = leaseMax, dc_terminalLeaseDefaultSec = leaseDefault,
          dc_terminalOutputLimitBytes = parsePositiveIntEnv env ''WORKER_TERMINAL_OUTPUT_LIMIT_BYTES'' (1024 * 1024)\<rparr>)"

definition loadSys :: "(string \<Rightarrow> json option) \<Rightarrow> getenv \<Rightarrow> string \<Rightarrow> sysConfig" where
  "loadSys parse env buildVersion =
     (let heartbeatSec = parsePositiveIntEnv env ''WORKER_HEARTBEAT_INTERVAL_SEC'' 5;
          callTimeoutSec = parsePositiveIntEnv env ''WORKER_CALL_TIMEOUT_SEC'' (defaultCallTimeoutSec heartbeatSec)
      in \<lparr>wc_consoleGRPCTarget = getEnv env ''WORKER_CONSOLE_GRPC_TARGET'' ''127.0.0.1:50051'',
          wc_consoleTLS = (env ''WORKER_CONSOLE_INSECURE'' \<noteq> ''true''),
          wc_workerID = trimSpace (env ''WORKER_ID''), wc_workerSecret = trimSpace (env ''WORKER_SECRET''),
          wc_heartbeatInterval = seconds heartbeatSec,
          wc_heartbeatJitter = parsePercentEnv env ''WORKER_HEARTBEAT_JITTER_PCT'' 20,
          wc_callTimeout = seconds callTimeoutSec, wc_nodeName = env ''WORKER_NODE_NAME'',
          wc_executorKind = ''sys'', wc_version = getEnv env ''WORKER_VERSION'' (defaultVersion buildVersion),
          wc_labels = parseLabels (env ''WORKER_LABELS''),
          wc_logLevel = parseLogLevelEnv env ''WORKER_LOG_LEVEL'' ''info'',
          wc_logFormat = parseLogFormatEnv env ''WORKER_LOG_FORMAT'' ''json'',
          wc_logAddSource = parseBoolEnv env ''WORKER_LOG_ADD_SOURCE'' False,
          yc_computerUseOutputLimitByte = parsePositiveIntEnv env ''WORKER_COMPUTER_USE_OUTPUT_LIMIT_BYTES'' (1024 * 1024),
          yc_computerUseWhitelistMode = parseComputerUseWhitelistMode (env ''WORKER_COMPUTER_USE_COMMAND_WHITELIST_MODE''),
          yc_computerUseWhitelist = parseComputerUseWhitelist parse (env ''WORKER_COMPUTER_USE_COMMAND_WHITELIST''),
          yc_readImageAllowedPaths = parseReadImageAllowedPaths parse (env ''WORKER_READ_IMAGE_ALLOWED_PATHS'')\<rparr>)"

definition loadConsole :: "getenv \<Rightarrow> consoleConfig" where
  "loadConsole env =
     \<lparr>kc_httpAddr = getEnv env ''CONSOLE_HTTP_ADDR'' '':8089'', kc_grpcAddr = getEnv env ''CONSOLE_GRPC_ADDR'' '':50051'',
      kc_offlineTTL = seconds (parsePositiveIntEnv env ''CONSOLE_OFFLINE_TTL_SEC'' 15),
      kc_replayWindow = seconds (parsePositiveIntEnv env ''CONSOLE_REPLAY_WINDOW_SEC'' 60),
      kc_heartbeatIntervalSec = wrap32 (parsePositiveIntEnv env ''CONSOLE_HEARTBEAT_INTERVAL_SEC'' 5),
      kc_dashboardUsername = env ''CONSOLE_DASHBOARD_USERNAME'', kc_dashboardPassword = env ''CONSOLE_DASHBOARD_PASSWORD'',
      kc_dbPath = getEnv env ''CONSOLE_DB_PATH'' ''./db/onlyboxes-console.db'',
      kc_dbBusyTimeoutMS = parsePositiveIntEnv env ''CONSOLE_DB_BUSY_TIMEOUT_MS'' 5000,
      kc_hashKey = env ''CONSOLE_HASH_KEY'',
      kc_taskRetentionDays = parsePositiveIntEnv env ''CONSOLE_TASK_RETENTION_DAYS'' 30,
      kc_enableRegistration = parseBoolEnv env ''CONSOLE_ENABLE_REGISTRATION'' False,
      kc_logLevel = parseLogLevelEnv env ''CONSOLE_LOG_LEVEL'' ''info'',
      kc_logFormat = parseLogFormatEnv env ''CONSOLE_LOG_FORMAT'' ''json'',
      kc_logAddSource = parseBoolEnv env ''CONSOLE_LOG_ADD_SOURCE'' False\<rparr>"

section \<open>Properties\<close>

lemma atoi_range: "atoi s = Some n \<Longrightarrow> - (2 ^ 63) \<le> n \<and> n < 2 ^ 63"
  by (auto simp: atoi_def Let_def split: option.splits if_splits)

lemma parsePositive: "0 < d \<Longrightarrow> d < 2 ^ 63 \<Longrightarrow> 0 < parsePositiveIntEnv env key d \<and> parsePositiveIntEnv env key d < 2 ^ 63"
  using atoi_range [of "env key"] by (auto simp: parsePositiveIntEnv_def split: option.split)

text \<open>The default call timeout is two and a half heartbeat intervals rounded up, as the comment says: the least
  number of seconds that is not less, as long as the interval fits in 60 bits.\<close>

theorem call_timeout_is_ceil:
  assumes "0 < h" "h < 2 ^ 60"
  shows "5 * h \<le> 2 * defaultCallTimeoutSec h \<and> 2 * (defaultCallTimeoutSec h - 1) < 5 * h"
proof -
  have w: "wrap64 (h * 5) = h * 5" "wrap64 (h * 5 + 1) = h * 5 + 1" using assms by (auto intro!: wrap64_id)
  have "defaultCallTimeoutSec h = (h * 5 + 1) div 2" using assms(1) by (simp add: defaultCallTimeoutSec_def goDiv2_def w)
  then show ?thesis by presburger
qed

lemma call_timeout_is_ceil_witness: "25 \<le> 2 * defaultCallTimeoutSec 5 \<and> 2 * (defaultCallTimeoutSec 5 - 1) < (25 :: int)"
  using call_timeout_is_ceil [of 5] by simp

lemma normalizeTokens_spec:
  "normalizeTokens seen xs = filter (\<lambda>t. t \<notin> set seen) (rev (remdups (rev (filter (\<lambda>t. t \<noteq> []) (map trimSpace xs)))))"
proof (induction seen xs rule: normalizeTokens.induct)
  case (2 seen raw rest)
  let ?t = "trimSpace raw" and ?ts = "rev (remdups (rev (filter (\<lambda>t. t \<noteq> []) (map trimSpace rest))))"
  have split: "remdups (ys @ [t]) = remdups (filter (\<lambda>u. u \<noteq> t) ys) @ [t]" for ys and t :: string
    by (induction ys) auto
  have f: "rev (remdups (filter (\<lambda>u. u \<noteq> t) ys)) = filter (\<lambda>u. u \<noteq> t) (rev (remdups ys))" for ys and t :: string
    by (simp add: rev_filter remdups_filter)
  have e: "rev (remdups (rev (?t # filter (\<lambda>t. t \<noteq> []) (map trimSpace rest)))) = ?t # filter (\<lambda>u. u \<noteq> ?t) ?ts"
    by (simp add: split f)
  show ?case
  proof (cases "?t = [] \<or> ?t \<in> set seen")
    case True
    then show ?thesis
    proof
      assume t: "?t \<in> set seen"
      then have "filter (\<lambda>u. u \<notin> set seen) (?t # filter (\<lambda>u. u \<noteq> ?t) ?ts) = filter (\<lambda>u. u \<notin> set seen) ?ts"
        by (auto intro: filter_cong)
      with "2.IH"(1) [OF refl] True t e show ?thesis by (cases "?t = []") (simp_all add: Let_def)
    qed (use "2.IH"(1) [OF refl] in \<open>simp add: Let_def\<close>)
  next
    case False
    have "filter (\<lambda>t. t \<notin> set (?t # seen)) ?ts = filter (\<lambda>t. t \<notin> set seen) (filter (\<lambda>u. u \<noteq> ?t) ?ts)"
      by (auto intro: filter_cong)
    with "2.IH"(2) [OF refl] False e show ?thesis by (simp add: Let_def)
  qed
qed simp

text \<open>White lists, path lists and comma-separated lists come out as the trimmed, non-blank entries, in the order of
  their first occurrences and without repetition: the loop with its \<open>seen\<close> map is a filter and the library's
  \<open>remdups\<close>, run from the other end.\<close>

theorem tokens_normalized:
  "normalizeTokens [] xs = rev (remdups (rev (filter (\<lambda>t. t \<noteq> []) (map trimSpace xs))))"
  by (simp add: normalizeTokens_spec)

lemma lease_bounds:
  fixes env :: getenv and v :: string
  defines "c \<equiv> loadDocker env v"
  shows "0 < dc_terminalLeaseMinSec c" "dc_terminalLeaseMinSec c \<le> dc_terminalLeaseDefaultSec c"
    "dc_terminalLeaseDefaultSec c \<le> dc_terminalLeaseMaxSec c" "0 < dc_terminalOutputLimitBytes c"
  using parsePositive [of 60 env "''WORKER_TERMINAL_LEASE_MIN_SEC''"] parsePositive [of 1048576 env "''WORKER_TERMINAL_OUTPUT_LIMIT_BYTES''"]
  by (simp_all add: c_def loadDocker_def Let_def clampInt_def)

text \<open>Whatever the environment holds, a loaded worker configuration is usable: the lease bounds are ordered and
  positive, output limits are positive, the jitter is a percentage, the mode is one of the three, and no entry of
  the white list is empty (an empty prefix would allow everything).\<close>

theorem worker_config_bounds:
  fixes env :: getenv and v :: string and parse :: "string \<Rightarrow> json option"
  defines "c \<equiv> loadDocker env v" and "y \<equiv> loadSys parse env v"
  shows "0 < dc_terminalLeaseMinSec c \<and> dc_terminalLeaseMinSec c \<le> dc_terminalLeaseDefaultSec c \<and>
    dc_terminalLeaseDefaultSec c \<le> dc_terminalLeaseMaxSec c \<and> 0 < dc_terminalOutputLimitBytes c \<and>
    0 \<le> wc_heartbeatJitter c \<and> wc_heartbeatJitter c \<le> 100 \<and> 0 \<le> wc_heartbeatJitter y \<and> wc_heartbeatJitter y \<le> 100 \<and>
    yc_computerUseWhitelistMode y \<in> {''prefix'', ''exact'', ''allow_all''} \<and> 0 < yc_computerUseOutputLimitByte y \<and>
    [] \<notin> set (yc_computerUseWhitelist y)"
proof -
  have j: "0 \<le> parsePercentEnv env k 20 \<and> parsePercentEnv env k 20 \<le> 100" for k
    by (simp add: parsePercentEnv_def split: option.split)
  have wl: "[] \<notin> set (parseComputerUseWhitelist parse raw)" for raw
    by (auto simp: parseComputerUseWhitelist_def normalizeTokens_spec split: option.split)
  have "0 \<le> wc_heartbeatJitter c \<and> wc_heartbeatJitter c \<le> 100 \<and> 0 \<le> wc_heartbeatJitter y \<and> wc_heartbeatJitter y \<le> 100"
    using j by (simp add: c_def y_def loadDocker_def loadSys_def Let_def)
  moreover have "yc_computerUseWhitelistMode y \<in> {''prefix'', ''exact'', ''allow_all''}"
    by (simp add: y_def loadSys_def parseComputerUseWhitelistMode_def Let_def)
  moreover have "0 < yc_computerUseOutputLimitByte y" "[] \<notin> set (yc_computerUseWhitelist y)"
    using parsePositive [of 1048576 env "''WORKER_COMPUTER_USE_OUTPUT_LIMIT_BYTES''"] wl by (simp_all add: y_def loadSys_def Let_def)
  ultimately show ?thesis using lease_bounds [of env v] by (auto simp: Let_def c_def)
qed

text \<open>The console's heartbeat interval is parsed as a positive 64-bit number and then cut to 32 bits, so a setting
  that passes the check can become zero or negative.\<close>

lemma heartbeat_setting_truncated:
  "kc_heartbeatIntervalSec (loadConsole (\<lambda>k. if k = ''CONSOLE_HEARTBEAT_INTERVAL_SEC'' then ''4294967296'' else [])) = 0 \<and>
   kc_heartbeatIntervalSec (loadConsole (\<lambda>k. if k = ''CONSOLE_HEARTBEAT_INTERVAL_SEC'' then ''2147483648'' else [])) < 0"
proof -
  have "digitValue (CHR ''1'') = Some 1" "digitValue (CHR ''2'') = Some 2" "digitValue (CHR ''3'') = Some 3"
    "digitValue (CHR ''4'') = Some 4" "digitValue (CHR ''6'') = Some 6" "digitValue (CHR ''7'') = Some 7"
    "digitValue (CHR ''8'') = Some 8" "digitValue (CHR ''9'') = Some 9" by code_simp+
  then have a: "atoi ''4294967296'' = Some 4294967296" "atoi ''2147483648'' = Some 2147483648"
    by (simp_all add: atoi_def decimalValue_def Let_def)
  have k: "kc_heartbeatIntervalSec (loadConsole env) = wrap32 (parsePositiveIntEnv env ''CONSOLE_HEARTBEAT_INTERVAL_SEC'' 5)" for env
    unfolding loadConsole_def by (rule consoleConfig.select_convs)
  have p: "parsePositiveIntEnv (\<lambda>k. if k = key then t else []) key 5 = n" if "t \<noteq> []" "atoi t = Some n" "0 < n" for key t n
    using that by (simp add: parsePositiveIntEnv_def)
  have w: "wrap32 4294967296 = 0" "wrap32 2147483648 < 0" by (simp_all add: wrap32_def)
  show ?thesis unfolding k using p [OF _ a(1)] p [OF _ a(2)] w by simp
qed

end
