(* ===== verification/WorkerClient.thy ===== *)
theory WorkerClient
  imports Config WorkerCommands Connect
begin

text \<open>
  The workers' side of the stream: \<open>session_client.go\<close>, \<open>hello_builder.go\<close> and the loop of \<open>runner.go\<close>, for both
  workers. Timers, the network and \<open>select\<close> are the order of events that the operations are given; the random
  number of a jitter is an argument.
\<close>

section \<open>Durations\<close>

definition minHeartbeatInterval :: gduration where "minHeartbeatInterval = second"
definition initialReconnectDelay :: gduration where "initialReconnectDelay = second"
definition maxReconnectDelay :: gduration where "maxReconnectDelay = 15 * second"

definition durationFromServer :: "int \<Rightarrow> gduration \<Rightarrow> gduration" where
  "durationFromServer secs fallback =
     (if secs > 0 then wrap64 (secs * second) else if fallback \<le> 0 then 5 * second else fallback)"

definition goDiv100 :: "int \<Rightarrow> int" where
  "goDiv100 x = sgn x * (\<bar>x\<bar> div 100)"

text \<open>\<open>random\<close> is a number drawn below the given limit, if one could be drawn.\<close>

definition jitterDurationDocker :: "(int \<Rightarrow> int option) \<Rightarrow> gduration \<Rightarrow> int \<Rightarrow> gduration" where
  "jitterDurationDocker random base jitterPct =
     (let base = (if base \<le> 0 then minHeartbeatInterval else base)
      in if jitterPct \<le> 0 then base
         else let maxDelta = goDiv100 (wrap64 (base * jitterPct))
              in if maxDelta \<le> 0 then base
                 else case random (wrap64 (wrap64 (maxDelta * 2) + 1)) of
                   None \<Rightarrow> base
                 | Some r \<Rightarrow>
                     let jittered = wrap64 (base + (r - maxDelta))
                     in if jittered < minHeartbeatInterval then minHeartbeatInterval else jittered)"

definition jitterDurationSys :: "(int \<Rightarrow> int option) \<Rightarrow> gduration \<Rightarrow> int \<Rightarrow> gduration" where
  "jitterDurationSys random base jitterPct =
     (if base \<le> 0 then minHeartbeatInterval
      else
        let floorBase = (if base < minHeartbeatInterval then minHeartbeatInterval else base)
        in if jitterPct \<le> 0 then floorBase
           else let jitterPct = (if jitterPct > 100 then 100 else jitterPct);
                    jitterRange = goDiv100 (wrap64 (base * jitterPct))
                in if jitterRange \<le> 0 then floorBase
                   else case random (wrap64 (wrap64 (jitterRange * 2) + 1)) of
                     None \<Rightarrow> floorBase
                   | Some r \<Rightarrow>
                       let jittered = wrap64 (base + (r - jitterRange))
                       in if jittered < minHeartbeatInterval then minHeartbeatInterval else jittered)"

definition nextReconnectDelay :: "gduration \<Rightarrow> gduration" where
  "nextReconnectDelay current =
     (if current \<le> 0 then initialReconnectDelay
      else let next = wrap64 (current * 2) in if next > maxReconnectDelay then maxReconnectDelay else next)"

text \<open>How long \<open>waitReconnectDelay\<close> waits.\<close>

definition reconnectWait :: "gduration \<Rightarrow> gduration" where
  "reconnectWait delay = (if delay \<le> 0 then initialReconnectDelay else delay)"

section \<open>The hello\<close>

definition echoCapabilityDeclared :: string where "echoCapabilityDeclared = ''echo''"
definition pythonExecCapabilityDeclared :: string where "pythonExecCapabilityDeclared = ''pythonExec''"
definition terminalExecCapabilityDeclared :: string where "terminalExecCapabilityDeclared = ''terminalExec''"
definition terminalResourceCapabilityDeclared :: string where "terminalResourceCapabilityDeclared = ''terminalResource''"
definition sysComputerUseDeclared :: string where "sysComputerUseDeclared = ''computerUse''"
definition sysReadImageDeclared :: string where "sysReadImageDeclared = ''readImage''"
definition defaultWorkerMaxInflight :: int where "defaultWorkerMaxInflight = 4"

definition declare_capability :: "int \<Rightarrow> string \<Rightarrow> capabilityDeclaration option" where
  "declare_capability maxInflight name = Some \<lparr>cap_name = name, cap_maxInflight = maxInflight\<rparr>"

definition helloNodeName :: "string \<Rightarrow> 'a workerConfig_scheme \<Rightarrow> string" where
  "helloNodeName label cfg =
     (if trimSpace (wc_nodeName cfg) = [] then label @ take 8 (wc_workerID cfg) else trimSpace (wc_nodeName cfg))"

definition buildHelloDocker :: "'a workerConfig_scheme \<Rightarrow> connectHello" where
  "buildHelloDocker cfg =
     \<lparr>ch_nodeId = wc_workerID cfg, ch_nodeName = helloNodeName ''worker-docker-'' cfg,
      ch_executorKind = wc_executorKind cfg, ch_labels = wc_labels cfg, ch_version = wc_version cfg,
      ch_capabilities = map (declare_capability defaultWorkerMaxInflight)
        [echoCapabilityDeclared, pythonExecCapabilityDeclared, terminalExecCapabilityDeclared,
         terminalResourceCapabilityDeclared],
      ch_workerSecret = wc_workerSecret cfg\<rparr>"

definition buildHelloSys :: "'a workerConfig_scheme \<Rightarrow> connectHello" where
  "buildHelloSys cfg =
     \<lparr>ch_nodeId = wc_workerID cfg, ch_nodeName = helloNodeName ''worker-sys-'' cfg,
      ch_executorKind = wc_executorKind cfg, ch_labels = wc_labels cfg, ch_version = wc_version cfg,
      ch_capabilities = map (declare_capability 1) [sysComputerUseDeclared, sysReadImageDeclared],
      ch_workerSecret = wc_workerSecret cfg\<rparr>"

text \<open>The first answer of the console: an acknowledgement with a session id.\<close>

definition ackSession :: "connectResponse \<Rightarrow> go_error + string \<times> int" where
  "ackSession resp =
     (case resp of
        ConnectAck sid secs \<Rightarrow>
          if trimSpace sid = [] then Inl (OtherError ''connect_ack.session_id is required'')
          else Inr (trimSpace sid, secs)
      | _ \<Rightarrow> Inl (OtherError ''unexpected first response frame''))"

section \<open>The heartbeat loop\<close>

text \<open>Where the loop waits, and what may happen there; \<open>CtxDone\<close> and \<open>SessionErr\<close> may happen at any wait, except
  that \<open>enqueueRequest\<close> does not listen to the session's errors.\<close>

datatype hb_phase = WaitTimer | WaitQueue | WaitAck

datatype hb_event = TimerFires | Queued | AckTimeout | AckArrives int | CtxDone go_error | SessionErr go_error

record heartbeat =
  hb_phase :: hb_phase
  hb_interval :: gduration
  hb_timeouts :: nat
  hb_sent :: nat

definition heartbeatStart :: "gduration \<Rightarrow> heartbeat" where
  "heartbeatStart interval = \<lparr>hb_phase = WaitTimer, hb_interval = interval, hb_timeouts = 0, hb_sent = 0\<rparr>"

text \<open>The error the loop returns, or the next wait; an event the loop does not listen to there is \<open>None\<close>.\<close>

fun heartbeatEvent :: "hb_event \<Rightarrow> heartbeat \<Rightarrow> (go_error + heartbeat) option" where
  "heartbeatEvent (CtxDone e) h = Some (Inl e)"
| "heartbeatEvent (SessionErr e) h = (if hb_phase h = WaitQueue then None else Some (Inl e))"
| "heartbeatEvent TimerFires h = (if hb_phase h = WaitTimer then Some (Inr (h\<lparr>hb_phase := WaitQueue\<rparr>)) else None)"
| "heartbeatEvent Queued h =
     (if hb_phase h = WaitQueue then Some (Inr (h\<lparr>hb_phase := WaitAck, hb_sent := hb_sent h + 1\<rparr>)) else None)"
| "heartbeatEvent AckTimeout h =
     (if hb_phase h \<noteq> WaitAck then None
      else if hb_timeouts h + 1 \<ge> 2 then Some (Inl CtxDeadlineExceeded)
      else Some (Inr (h\<lparr>hb_phase := WaitTimer, hb_timeouts := hb_timeouts h + 1\<rparr>)))"
| "heartbeatEvent (AckArrives secs) h =
     (if hb_phase h \<noteq> WaitAck then None
      else Some (Inr (h\<lparr>hb_phase := WaitTimer, hb_timeouts := 0, hb_interval := durationFromServer secs (hb_interval h)\<rparr>)))"

text \<open>The loop over a script of events: what it returned, or where it still waits.\<close>

primrec heartbeatLoop :: "hb_event list \<Rightarrow> heartbeat \<Rightarrow> (go_error + heartbeat) option" where
  "heartbeatLoop [] h = Some (Inr h)"
| "heartbeatLoop (e # es) h =
     (case heartbeatEvent e h of
        None \<Rightarrow> None
      | Some (Inl err) \<Rightarrow> (if es = [] then Some (Inl err) else None)
      | Some (Inr h) \<Rightarrow> heartbeatLoop es h)"

section \<open>The reconnect loop\<close>

text \<open>One round of \<open>Run\<close>: whether the context is done before it, how the session ended (\<open>None\<close> for \<open>nil\<close>), whether
  the context is done after it, and how the wait ended.\<close>

record run_round =
  rn_ctxBefore :: "go_error option"
  rn_session :: "go_error option"
  rn_ctxAfter :: "go_error option"
  rn_wait :: "go_error option"

text \<open>The waits of the rounds, and what \<open>Run\<close> returned, \<open>None\<close> while it goes on; a returned \<open>nil\<close> is \<open>Some None\<close>.\<close>

fun runLoop :: "gduration \<Rightarrow> run_round list \<Rightarrow> gduration list \<times> go_error option option" where
  "runLoop reconnectDelay [] = ([], None)"
| "runLoop reconnectDelay (r # rounds) =
     (case rn_ctxBefore r of
        Some e \<Rightarrow> ([], Some (Some e))
      | None \<Rightarrow>
          (case rn_session r of
             None \<Rightarrow> ([], Some None)
           | Some err \<Rightarrow>
               (case rn_ctxAfter r of
                  Some e \<Rightarrow> ([], Some (Some e))
                | None \<Rightarrow>
                    let delay = (if statusCode err = Some FailedPrecondition then initialReconnectDelay else reconnectDelay)
                    in case rn_wait r of
                         Some e \<Rightarrow> ([reconnectWait delay], Some (Some e))
                       | None \<Rightarrow>
                           (case runLoop (nextReconnectDelay delay) rounds of
                              (waits, res) \<Rightarrow> (reconnectWait delay # waits, res)))))"

definition runWorker :: "'a workerConfig_scheme \<Rightarrow> run_round list \<Rightarrow> gduration list \<times> go_error option option" where
  "runWorker cfg rounds =
     (if trimSpace (wc_workerID cfg) = [] then ([], Some (Some (OtherError ''WORKER_ID is required'')))
      else if trimSpace (wc_workerSecret cfg) = [] then ([], Some (Some (OtherError ''WORKER_SECRET is required'')))
      else runLoop initialReconnectDelay rounds)"

section \<open>Properties of the durations\<close>

text \<open>The two workers' jitter functions, written differently, are the same on every heartbeat interval of a second
  or more and every percentage, whatever the random source does.\<close>

theorem jitter_same:
  assumes "second \<le> base" "jitterPct \<le> 100"
  shows "jitterDurationDocker random base jitterPct = jitterDurationSys random base jitterPct"
  using assms unfolding jitterDurationDocker_def jitterDurationSys_def Let_def minHeartbeatInterval_def
  by (auto simp: second_def split: option.split)

lemma jitter_same_witness: "jitterDurationDocker (\<lambda>n. Some (n - 1)) (5 * second) 20 = jitterDurationSys (\<lambda>n. Some (n - 1)) (5 * second) 20"
  by (rule jitter_same) (simp_all add: second_def)

lemma goDiv100_pos: "0 \<le> x \<Longrightarrow> goDiv100 x = x div 100"
  by (cases "x = 0") (simp_all add: goDiv100_def)

text \<open>A jittered interval stays within the percentage of the interval, and never falls below one second.\<close>

theorem jitter_bounds:
  assumes "second \<le> base" "base < 2 ^ 55" "0 \<le> jitterPct" "jitterPct \<le> 100"
    and "\<And>n r. 0 < n \<Longrightarrow> random n = Some r \<Longrightarrow> 0 \<le> r \<and> r < n"
  shows "max second (base - base * jitterPct div 100) \<le> jitterDurationDocker random base jitterPct \<and>
    jitterDurationDocker random base jitterPct \<le> base + base * jitterPct div 100"
proof -
  let ?d = "base * jitterPct div 100"
  have pos: "0 \<le> base * jitterPct" "0 < base" using assms(1,3) by (simp_all add: second_def)
  have m: "base * jitterPct \<le> base * 100" using assms(4) pos(2) by (intro mult_left_mono) auto
  have "base * 100 < 2 ^ 62" using assms(2) by simp
  with m have le: "base * jitterPct < 2 ^ 62" by (rule le_less_trans)
  have d: "0 \<le> ?d" "?d \<le> base" using m pos(1) by presburger+
  have w: "wrap64 (base * jitterPct) = base * jitterPct" using le pos by (intro wrap64_id) auto
  have g: "goDiv100 (base * jitterPct) = ?d" by (rule goDiv100_pos [OF pos(1)])
  have w2: "wrap64 (?d * 2) = ?d * 2" "wrap64 (?d * 2 + 1) = ?d * 2 + 1" using d assms(2) by (auto intro!: wrap64_id)
  have r: "0 \<le> r \<and> r \<le> ?d * 2" if "random (?d * 2 + 1) = Some r" for r using assms(5) [OF _ that] d by auto
  have w3: "wrap64 (base + (r - ?d)) = base + (r - ?d)" if "random (?d * 2 + 1) = Some r" for r
    using r [OF that] d assms(2) pos by (intro wrap64_id) auto
  show ?thesis
  proof (cases "jitterPct \<le> 0 \<or> ?d \<le> 0 \<or> random (?d * 2 + 1) = None")
    case True
    then have "jitterDurationDocker random base jitterPct = base"
      using pos by (auto simp: jitterDurationDocker_def Let_def w g w2)
    with d assms(1) show ?thesis by simp
  next
    case False
    then obtain s where s: "random (?d * 2 + 1) = Some s" by auto
    have "jitterDurationDocker random base jitterPct = max second (base + (s - ?d))"
      using False pos s w3 [OF s] by (simp add: jitterDurationDocker_def Let_def w g w2 minHeartbeatInterval_def)
    with r [OF s] d assms(1) show ?thesis by auto
  qed
qed

lemma jitter_bounds_witness:
  "4 * second \<le> jitterDurationDocker (\<lambda>n. if 0 < n then Some 0 else None) (5 * second) 20"
  using jitter_bounds [of "5 * second" 20 "\<lambda>n. if 0 < n then Some 0 else None"] by (simp add: second_def)

section \<open>Properties of the heartbeats\<close>

text \<open>How the heartbeats sent so far were answered.\<close>

definition ackOutcomes :: "hb_event list \<Rightarrow> hb_event list" where
  "ackOutcomes es = filter (\<lambda>e. e = AckTimeout \<or> (\<exists>n. e = AckArrives n)) es"

definition quietEvent :: "hb_event \<Rightarrow> bool" where
  "quietEvent e \<longleftrightarrow> (case e of CtxDone _ \<Rightarrow> False | SessionErr _ \<Rightarrow> False | _ \<Rightarrow> True)"

text \<open>No two misses in a row.\<close>

definition noDoubleMiss :: "hb_event list \<Rightarrow> bool" where
  "noDoubleMiss past \<longleftrightarrow> (\<nexists>p. past = p @ [AckTimeout, AckTimeout])"

text \<open>The counter is the number of misses at the end of what happened so far.\<close>

definition missCount :: "hb_event list \<Rightarrow> nat" where
  "missCount past = (if past \<noteq> [] \<and> last past = AckTimeout then 1 else 0)"

lemma heartbeat_step:
  assumes "heartbeatEvent e h = Some r" "quietEvent e" "hb_timeouts h = missCount past" "noDoubleMiss past"
  shows "case r of
      Inl err \<Rightarrow> err = CtxDeadlineExceeded \<and> \<not> noDoubleMiss (past @ ackOutcomes [e])
    | Inr h' \<Rightarrow> hb_timeouts h' = missCount (past @ ackOutcomes [e]) \<and> noDoubleMiss (past @ ackOutcomes [e])"
proof (cases e)
  case AckTimeout
  show ?thesis
  proof (cases "hb_timeouts h = 0")
    case True
    then have "past = [] \<or> last past \<noteq> AckTimeout" using assms(3) by (simp add: missCount_def split: if_splits)
    then have "noDoubleMiss (past @ [AckTimeout])"
      by (auto simp: noDoubleMiss_def append_eq_append_conv2 append_eq_Cons_conv)
    with AckTimeout True assms(1) show ?thesis by (auto simp: ackOutcomes_def missCount_def split: if_splits)
  next
    case False
    then have l: "past \<noteq> []" "last past = AckTimeout" using assms(3) by (simp_all add: missCount_def split: if_splits)
    then have "past @ [AckTimeout] = butlast past @ [AckTimeout, AckTimeout]" using append_butlast_last_id [OF l(1)] by simp
    then have "\<not> noDoubleMiss (past @ [AckTimeout])" unfolding noDoubleMiss_def by blast
    with AckTimeout False assms(1) show ?thesis by (auto simp: ackOutcomes_def split: if_splits)
  qed
next
  case (AckArrives n)
  then show ?thesis using assms(1) by (auto simp: ackOutcomes_def missCount_def noDoubleMiss_def split: if_splits)
qed (use assms in \<open>auto simp: ackOutcomes_def quietEvent_def split: if_splits\<close>)

lemma heartbeat_counter:
  "heartbeatLoop es h = Some res \<Longrightarrow> list_all quietEvent es \<Longrightarrow> hb_timeouts h = missCount past \<Longrightarrow> noDoubleMiss past \<Longrightarrow>
   case res of
      Inl err \<Rightarrow> err = CtxDeadlineExceeded \<and> \<not> noDoubleMiss (past @ ackOutcomes es)
    | Inr h' \<Rightarrow> hb_timeouts h' = missCount (past @ ackOutcomes es) \<and> noDoubleMiss (past @ ackOutcomes es)"
proof (induction es arbitrary: h past)
  case (Cons e es)
  obtain r where r: "heartbeatEvent e h = Some r" using Cons.prems(1) by (cases "heartbeatEvent e h") auto
  have q: "quietEvent e" "list_all quietEvent es" using Cons.prems(2) by auto
  have cat: "(past @ ackOutcomes [e]) @ ackOutcomes es = past @ ackOutcomes (e # es)" by (simp add: ackOutcomes_def)
  note st = heartbeat_step [OF r q(1) Cons.prems(3,4)]
  show ?case
  proof (cases r)
    case (Inl err)
    then have "es = []" "res = Inl err" using Cons.prems(1) r by (auto split: if_splits)
    with st Inl show ?thesis unfolding cat [symmetric] by (simp add: ackOutcomes_def)
  next
    case (Inr h2)
    have "heartbeatLoop es h2 = Some res" using Cons.prems(1) r Inr by simp
    from Cons.IH [OF this q(2), of "past @ ackOutcomes [e]"] st Inr show ?thesis unfolding cat [symmetric] by simp
  qed
qed (auto simp: ackOutcomes_def)

text \<open>While the connection stands, the heartbeat loop gives up exactly when two heartbeats in a row have gone
  unanswered; one missed answer followed by an answer is forgiven, however often that happens.\<close>

theorem heartbeat_gives_up:
  assumes "heartbeatLoop es (heartbeatStart interval) = Some res" "list_all quietEvent es"
  shows "case res of
      Inl err \<Rightarrow> err = CtxDeadlineExceeded \<and> (\<exists>p. ackOutcomes es = p @ [AckTimeout, AckTimeout])
    | Inr h \<Rightarrow> hb_timeouts h \<le> 1 \<and> (\<nexists>p. ackOutcomes es = p @ [AckTimeout, AckTimeout])"
  using heartbeat_counter [OF assms, of "[]"]
  by (auto simp: heartbeatStart_def missCount_def noDoubleMiss_def split: sum.splits if_splits)

lemma heartbeat_gives_up_witness:
  "\<exists>p. ackOutcomes [TimerFires, Queued, AckTimeout, TimerFires, Queued, AckArrives 5, TimerFires, Queued, AckTimeout, TimerFires,
     Queued, AckTimeout] = p @ [AckTimeout, AckTimeout]"
proof -
  let ?es = "[TimerFires, Queued, AckTimeout, TimerFires, Queued, AckArrives 5, TimerFires, Queued, AckTimeout, TimerFires,
     Queued, AckTimeout]"
  have "heartbeatLoop ?es (heartbeatStart second) = Some (Inl CtxDeadlineExceeded)"
    by (simp add: heartbeatStart_def)
  from heartbeat_gives_up [OF this] show ?thesis by (simp add: quietEvent_def)
qed

section \<open>Properties of the reconnect loop\<close>

text \<open>The wait before the \<open>k\<close>-th reconnect in a row.\<close>

definition backoff :: "nat \<Rightarrow> gduration" where "backoff k = min maxReconnectDelay (2 ^ k * second)"

lemma next_backoff: "nextReconnectDelay (backoff k) = backoff (Suc k)"
proof -
  have p: "(1 :: int) \<le> 2 ^ k" by simp
  have b: "0 < backoff k" "backoff k \<le> 15 * second" using p by (auto simp: backoff_def maxReconnectDelay_def second_def min_def)
  have "wrap64 (backoff k * 2) = backoff k * 2" using b by (intro wrap64_id) (auto simp: second_def)
  with b show ?thesis using p
    by (auto simp: nextReconnectDelay_def Let_def backoff_def maxReconnectDelay_def second_def min_def)
qed

definition interrupted :: "run_round \<Rightarrow> bool" where
  "interrupted r \<longleftrightarrow> rn_ctxBefore r = None \<and> rn_ctxAfter r = None \<and> rn_wait r = None \<and>
     (case rn_session r of None \<Rightarrow> False | Some err \<Rightarrow> statusCode err \<noteq> Some FailedPrecondition)"

lemma runLoop_backoff:
  "list_all interrupted rounds \<Longrightarrow> runLoop (backoff k) rounds = (map (\<lambda>i. backoff (k + i)) [0..<length rounds], None)"
proof (induction rounds arbitrary: k)
  case (Cons r rounds)
  have w: "reconnectWait (backoff k) = backoff k"
    using next_backoff by (auto simp: reconnectWait_def backoff_def maxReconnectDelay_def second_def min_def)
  have "map (\<lambda>i. backoff (k + i)) [0..<length (r # rounds)] = backoff k # map (\<lambda>i. backoff (Suc k + i)) [0..<length rounds]"
    by (simp add: upt_conv_Cons map_Suc_upt [symmetric] comp_def del: upt_Suc)
  with Cons w show ?case by (auto simp: interrupted_def next_backoff Let_def split: option.splits)
qed simp

text \<open>A worker whose sessions keep failing waits one second, two, four, eight and then fifteen seconds between its
  attempts, and never gives up by itself. The counter is never reset by a session that worked: only a replaced session
  (\<open>FailedPrecondition\<close>) starts again at one second.\<close>

theorem reconnect_backoff:
  assumes "trimSpace (wc_workerID cfg) \<noteq> []" "trimSpace (wc_workerSecret cfg) \<noteq> []" "list_all interrupted rounds"
  shows "runWorker cfg rounds = (map (\<lambda>i. min (15 * second) (2 ^ i * second)) [0..<length rounds], None)"
proof -
  have "initialReconnectDelay = backoff 0" by (simp add: initialReconnectDelay_def backoff_def maxReconnectDelay_def second_def)
  with assms runLoop_backoff [OF assms(3), of 0] show ?thesis by (simp add: runWorker_def backoff_def maxReconnectDelay_def)
qed

definition demoRound :: run_round where
  "demoRound = \<lparr>rn_ctxBefore = None, rn_session = Some (OtherError ''EOF''), rn_ctxAfter = None, rn_wait = None\<rparr>"

definition demoWorkerEnv :: getenv where
  "demoWorkerEnv k = (if k = ''WORKER_ID'' then ''w1'' else if k = ''WORKER_SECRET'' then ''s'' else [])"

lemma demoWorker: "trimSpace (wc_workerID (loadDocker demoWorkerEnv [])) = ''w1''" "trimSpace (wc_workerSecret (loadDocker demoWorkerEnv [])) = ''s''"
proof -
  have "trimSpace ''w1'' = ''w1''" "trimSpace ''s'' = ''s''" by code_simp+
  then show "trimSpace (wc_workerID (loadDocker demoWorkerEnv [])) = ''w1''" "trimSpace (wc_workerSecret (loadDocker demoWorkerEnv [])) = ''s''"
    by (simp_all add: loadDocker_def demoWorkerEnv_def Let_def)
qed

lemma reconnect_backoff_witness:
  "fst (runWorker (loadDocker demoWorkerEnv []) (replicate 6 demoRound)) =
     map (\<lambda>n. n * second) [1, 2, 4, 8, 15, 15]"
proof -
  have "runWorker (loadDocker demoWorkerEnv []) (replicate 6 demoRound) =
      (map (\<lambda>i. min (15 * second) (2 ^ i * second)) [0..<length (replicate 6 demoRound)], None)"
    by (rule reconnect_backoff)
      (auto simp: demoWorker list_all_iff interrupted_def demoRound_def statusCode_def simp del: replicate.simps)
  then show ?thesis by (simp add: upt_rec second_def del: replicate.simps)
qed

section \<open>The console accepts the workers' hellos\<close>

text \<open>The hello of a system worker always passes the console's check of its capabilities, for a stored worker of any
  type and any configuration, and the console changes nothing in it; and the console accepts the node id of every
  worker whose id is not blank and has at most 128 bytes.\<close>

theorem worker_hello_accepted:
  "fst (resolveHelloByWorkerType (buildHelloSys cfg) s) = Inr (buildHelloSys cfg) \<and>
   (validateHello (buildHelloSys cfg) = None \<longleftrightarrow> trimSpace (wc_workerID cfg) \<noteq> [] \<and> length (wc_workerID cfg) \<le> 128) \<and>
   (validateHello (buildHelloDocker cfg) = None \<longleftrightarrow> trimSpace (wc_workerID cfg) \<noteq> [] \<and> length (wc_workerID cfg) \<le> 128)"
proof -
  have n: "normalizeCapability ''computerUse'' = computerUseCapabilityName" "normalizeCapability ''readImage'' = readImageCapabilityName"
    "computerUseCapabilityName \<noteq> readImageCapabilityName" by code_simp+
  have c: "ch_capabilities (buildHelloSys cfg) =
      [Some \<lparr>cap_name = ''computerUse'', cap_maxInflight = 1\<rparr>, Some \<lparr>cap_name = ''readImage'', cap_maxInflight = 1\<rparr>]"
    by (simp add: buildHelloSys_def declare_capability_def sysComputerUseDeclared_def sysReadImageDeclared_def)
  have "scanSysCapabilities (ch_capabilities (buildHelloSys cfg)) False False = Some (True, True)" using n by (simp add: c)
  moreover have "(buildHelloSys cfg)\<lparr>ch_capabilities := [Some \<lparr>cap_name = computerUseCapabilityDeclared, cap_maxInflight = 1\<rparr>,
      Some \<lparr>cap_name = readImageCapabilityDeclared, cap_maxInflight = 1\<rparr>]\<rparr> = buildHelloSys cfg"
    by (simp add: buildHelloSys_def declare_capability_def sysComputerUseDeclared_def sysReadImageDeclared_def
        computerUseCapabilityDeclared_def readImageCapabilityDeclared_def)
  ultimately have "fst (resolveHelloByWorkerType (buildHelloSys cfg) s) = Inr (buildHelloSys cfg)"
    by (simp add: resolveHelloByWorkerType_def split: prod.split)
  then show ?thesis
    by (auto simp: validateHello_def validateNodeID_def buildHelloSys_def buildHelloDocker_def maxNodeIDLength_def)
qed

end
