(* ===== verification/DockerSession.thy ===== *)
theory DockerSession
  imports SysSession WorkerClient
begin

text \<open>
  One session of the docker worker, \<open>runSession\<close> of \<open>worker-docker/internal/runner/session_client.go\<close> once the console
  has acknowledged it: the receiver, the sender, the heartbeat loop and a goroutine for each command share a queue of 64
  frames, 16 acknowledgements and 4 errors. There is no slot: every command that arrives runs. The goroutines are the
  rules of a step relation; what the commands do to the containers is the subject of \<open>TerminalProperties\<close>, and here a
  command may meet any state of them.
\<close>

section \<open>State and operations\<close>

definition heartbeatAckCapacity :: nat where "heartbeatAckCapacity = 16"

text \<open>\<open>dk_sending\<close> is the frame that \<open>stream.Send\<close> has, \<open>dk_ackWaiting\<close> the acknowledgement the receiver wants to hand on,
  and \<open>dk_loop\<close> the heartbeat loop or what it returned.\<close>

record docker_session =
  dk_outbound :: "connectRequest list"
  dk_sender :: bool
  dk_sending :: "connectRequest option"
  dk_receiver :: bool
  dk_ackWaiting :: "int option"
  dk_acks :: "int list"
  dk_running :: "commandDispatch list"
  dk_finishing :: "commandResult list"
  dk_loop :: "go_error + heartbeat"
  dk_errs :: "go_error list"
  dk_ctxErr :: "go_error option"
  dk_received :: "commandDispatch list"
  dk_sent :: "connectRequest list"

definition newDockerSession :: "gduration \<Rightarrow> docker_session" where
  "newDockerSession heartbeatInterval = \<lparr>dk_outbound = [], dk_sender = True, dk_sending = None, dk_receiver = True,
     dk_ackWaiting = None, dk_acks = [], dk_running = [], dk_finishing = [], dk_loop = Inr (heartbeatStart heartbeatInterval),
     dk_errs = [], dk_ctxErr = None, dk_received = [], dk_sent = []\<rparr>"

definition room :: "docker_session \<Rightarrow> bool" where
  "room s \<longleftrightarrow> length (dk_outbound s) < outboundCapacity"

definition reportErr :: "go_error \<Rightarrow> docker_session \<Rightarrow> docker_session" where
  "reportErr err s = (if length (dk_errs s) < sessionErrCapacity then s\<lparr>dk_errs := dk_errs s @ [err]\<rparr> else s)"

text \<open>What the receiver does with a frame; a command gets a goroutine.\<close>

definition receiveFrame :: "connectResponse \<Rightarrow> docker_session \<Rightarrow> docker_session" where
  "receiveFrame resp s = (case resp of
     HeartbeatAck secs \<Rightarrow> s\<lparr>dk_ackWaiting := Some secs\<rparr>
   | CommandDispatch d \<Rightarrow> s\<lparr>dk_received := dk_received s @ [d], dk_running := dk_running s @ [d]\<rparr>
   | ConnectAck _ _ \<Rightarrow> (reportErr (OtherError ''unexpected response frame'') s)\<lparr>dk_receiver := False\<rparr>)"

text \<open>Whether an event of the heartbeat loop can happen, and what it takes from the channels or puts in.\<close>

fun loopEffect :: "string \<Rightarrow> string \<Rightarrow> hb_event \<Rightarrow> docker_session \<Rightarrow> docker_session option" where
  "loopEffect node sid Queued s = (if room s then Some (s\<lparr>dk_outbound := dk_outbound s @ [HeartbeatFrame node sid]\<rparr>) else None)"
| "loopEffect node sid (AckArrives secs) s =
     (case dk_acks s of [] \<Rightarrow> None | a # as \<Rightarrow> if a = secs then Some (s\<lparr>dk_acks := as\<rparr>) else None)"
| "loopEffect node sid (CtxDone e) s = (if dk_ctxErr s = Some e then Some s else None)"
| "loopEffect node sid (SessionErr e) s =
     (case dk_errs s of [] \<Rightarrow> None | x # xs \<Rightarrow> if x = e then Some (s\<lparr>dk_errs := xs\<rparr>) else None)"
| "loopEffect node sid TimerFires s = Some s"
| "loopEffect node sid AckTimeout s = Some s"

text \<open>When the loop returns, \<open>runSession\<close> cancels the context of the session.\<close>

definition setLoop :: "go_error + heartbeat \<Rightarrow> docker_session \<Rightarrow> docker_session" where
  "setLoop res s = (case res of
     Inr h \<Rightarrow> s\<lparr>dk_loop := Inr h\<rparr>
   | Inl e \<Rightarrow> s\<lparr>dk_loop := Inl e, dk_ctxErr := (if dk_ctxErr s = None then Some CtxCanceled else dk_ctxErr s)\<rparr>)"

section \<open>Steps\<close>

inductive docker_step :: "docker_session \<Rightarrow> docker_session \<Rightarrow> bool" where
  dk_receive: "dk_receiver s \<Longrightarrow> dk_ackWaiting s = None \<Longrightarrow> docker_step s (receiveFrame frame s)"
| dk_receiveFails: "dk_receiver s \<Longrightarrow> dk_ackWaiting s = None \<Longrightarrow> docker_step s ((reportErr e s)\<lparr>dk_receiver := False\<rparr>)"
| dk_ack: "dk_ackWaiting s = Some secs \<Longrightarrow> length (dk_acks s) < heartbeatAckCapacity \<Longrightarrow>
    docker_step s (s\<lparr>dk_ackWaiting := None, dk_acks := dk_acks s @ [secs]\<rparr>)"
| dk_ackCanceled: "dk_ackWaiting s = Some secs \<Longrightarrow> dk_ctxErr s \<noteq> None \<Longrightarrow>
    docker_step s (s\<lparr>dk_ackWaiting := None, dk_receiver := False\<rparr>)"
| dk_execute: "dk_running s = a @ d # b \<Longrightarrow> r = fst (buildDockerCommandResult env img parse script d m) \<Longrightarrow>
    docker_step s (s\<lparr>dk_running := a @ b, dk_finishing := dk_finishing s @ [r]\<rparr>)"
| dk_enqueue: "dk_finishing s = a @ r # b \<Longrightarrow> room s \<Longrightarrow>
    docker_step s (s\<lparr>dk_finishing := a @ b, dk_outbound := dk_outbound s @ [ResultFrame r]\<rparr>)"
| dk_enqueueCanceled: "dk_finishing s = a @ r # b \<Longrightarrow> dk_ctxErr s \<noteq> None \<Longrightarrow> docker_step s (s\<lparr>dk_finishing := a @ b\<rparr>)"
| dk_take: "dk_sender s \<Longrightarrow> dk_sending s = None \<Longrightarrow> dk_outbound s = q # qs \<Longrightarrow>
    docker_step s (s\<lparr>dk_outbound := qs, dk_sending := Some q\<rparr>)"
| dk_send: "dk_sending s = Some q \<Longrightarrow> docker_step s (s\<lparr>dk_sending := None, dk_sent := dk_sent s @ [q]\<rparr>)"
| dk_sendFails: "dk_sending s = Some q \<Longrightarrow> docker_step s ((reportErr e s)\<lparr>dk_sending := None, dk_sender := False\<rparr>)"
| dk_senderStops: "dk_sender s \<Longrightarrow> dk_sending s = None \<Longrightarrow> dk_ctxErr s \<noteq> None \<Longrightarrow> docker_step s (s\<lparr>dk_sender := False\<rparr>)"
| dk_heartbeat: "dk_loop s = Inr h \<Longrightarrow> loopEffect node sid ev s = Some s' \<Longrightarrow> heartbeatEvent ev h = Some res \<Longrightarrow>
    docker_step s (setLoop res s')"

text \<open>The context that \<open>Run\<close> was given may end at any time.\<close>

inductive docker_run_step :: "docker_session \<Rightarrow> docker_session \<Rightarrow> bool" where
  dr_step: "docker_step s s' \<Longrightarrow> docker_run_step s s'"
| dr_cancel: "dk_ctxErr s = None \<Longrightarrow> docker_run_step s (s\<lparr>dk_ctxErr := Some e\<rparr>)"

section \<open>The log of a command\<close>

definition goBool :: "bool \<Rightarrow> string" where "goBool b = (if b then ''true'' else ''false'')"

text \<open>\<open>len(payload)\<close> is an argument, as payloads are documents here.\<close>

definition commandDispatchSummaryForLog :: "nat \<Rightarrow> string \<Rightarrow> payload \<Rightarrow> string" where
  "commandDispatchSummaryForLog payloadLen capability p =
     (let parseFailed = ''payload_len='' @ itoa (int payloadLen) @ '' summary=parse_failed'';
          capability = trimSpace (toLower capability)
      in if capability = workerEchoName
         then (case decodeOne ''message'' p of
                 Some message \<Rightarrow>
                   if trimSpace message = [] then parseFailed else ''message_len='' @ itoa (int (length message))
               | None \<Rightarrow> parseFailed)
         else if capability = pythonExecCapabilityName
         then (case decodeOne ''code'' p of
                 Some code \<Rightarrow> if trimSpace code = [] then parseFailed else ''code_len='' @ itoa (int (length code))
               | None \<Rightarrow> parseFailed)
         else if capability = terminalExecCapabilityName
         then (case decodeTerminalExec p of
                 Some decoded \<Rightarrow>
                   if trimSpace (te_command decoded) = [] then parseFailed
                   else ''command_len='' @ itoa (int (length (te_command decoded))) @
                     '' session_id_present='' @ goBool (trimSpace (te_session_id decoded) \<noteq> []) @
                     '' create_if_missing='' @ goBool (te_create_if_missing decoded) @
                     '' lease_ttl_sec='' @ (case te_lease_ttl_sec decoded of None \<Rightarrow> ''default'' | Some n \<Rightarrow> itoa n)
               | None \<Rightarrow> parseFailed)
         else if capability = terminalResourceCapabilityName
         then (case decodeTerminalResource p of
                 Some decoded \<Rightarrow>
                   let sessionPresent = trimSpace (tr_session_id decoded) \<noteq> []; path = trimSpace (tr_file_path decoded);
                       action = trimSpace (toLower (tr_action decoded));
                       actionSummary = (if action = [] then ''default''
                         else if action \<in> {''validate'', ''read''} then action else ''invalid'')
                   in if \<not> sessionPresent \<or> path = [] then parseFailed
                      else ''action='' @ actionSummary @ '' session_id_present='' @ goBool sessionPresent @
                        '' file_path_len='' @ itoa (int (length path))
               | None \<Rightarrow> parseFailed)
         else ''payload_len='' @ itoa (int payloadLen) @ '' summary=unsupported_capability'')"

section \<open>Every command is answered\<close>

definition onTheWay :: "docker_session \<Rightarrow> connectRequest list" where
  "onTheWay s = dk_sent s @ (case dk_sending s of None \<Rightarrow> [] | Some q \<Rightarrow> [q]) @ dk_outbound s"

definition docker_answered :: "docker_session \<Rightarrow> string multiset" where
  "docker_answered s = mset (resultIDs (onTheWay s)) + mset (map cr_commandId (dk_finishing s)) + mset (map dispatchID (dk_running s))"

lemma docker_result_id [simp]: "cr_commandId (fst (buildDockerCommandResult env img parse script d m)) = dispatchID d"
  using answers_docker [of d env img parse script m] by (simp add: answers_def dispatchID_def)

lemma reportErr_fields [simp]:
  "dk_outbound (reportErr e s) = dk_outbound s" "dk_sending (reportErr e s) = dk_sending s" "dk_sent (reportErr e s) = dk_sent s"
  "dk_running (reportErr e s) = dk_running s" "dk_finishing (reportErr e s) = dk_finishing s" "dk_loop (reportErr e s) = dk_loop s"
  "dk_received (reportErr e s) = dk_received s" "dk_ctxErr (reportErr e s) = dk_ctxErr s" "dk_sender (reportErr e s) = dk_sender s"
  "dk_receiver (reportErr e s) = dk_receiver s" "dk_ackWaiting (reportErr e s) = dk_ackWaiting s" "dk_acks (reportErr e s) = dk_acks s"
  by (simp_all add: reportErr_def)

lemma loopEffect_cases:
  assumes "loopEffect node sid ev s = Some s'"
  obtains "s' = s" | "room s" "ev = Queued" "s' = s\<lparr>dk_outbound := dk_outbound s @ [HeartbeatFrame node sid]\<rparr>"
  | as where "s' = s\<lparr>dk_acks := as\<rparr>" | xs where "s' = s\<lparr>dk_errs := xs\<rparr>"
  using assms by (cases ev) (auto split: if_splits list.splits)

lemma setLoop_fields [simp]:
  "dk_outbound (setLoop r s) = dk_outbound s" "dk_sending (setLoop r s) = dk_sending s" "dk_sent (setLoop r s) = dk_sent s"
  "dk_running (setLoop r s) = dk_running s" "dk_finishing (setLoop r s) = dk_finishing s" "dk_sender (setLoop r s) = dk_sender s"
  "dk_received (setLoop r s) = dk_received s" "dk_loop (setLoop r s) = r" "dk_receiver (setLoop r s) = dk_receiver s"
  by (simp_all add: setLoop_def split: sum.split)

lemma docker_stands_back: "docker_run_step s s' \<Longrightarrow> dk_sender s' \<and> dk_ctxErr s' = None \<Longrightarrow> dk_sender s \<and> dk_ctxErr s = None"
proof (induction rule: docker_run_step.induct)
  case (dr_step s s')
  then show ?case
  proof (induction rule: docker_step.induct)
    case (dk_receive s frame)
    then show ?case by (auto simp: receiveFrame_def split: connectResponse.splits)
  next
    case (dk_heartbeat s h node sid ev s' res)
    from dk_heartbeat(2) show ?case
      by (cases rule: loopEffect_cases) (use dk_heartbeat(4) in \<open>auto simp: setLoop_def split: sum.splits if_splits\<close>)
  qed auto
qed simp

lemma docker_keeps:
  "docker_run_step s s' \<Longrightarrow> dk_sender s' \<and> dk_ctxErr s' = None \<Longrightarrow> docker_answered s = mset (map dispatchID (dk_received s)) \<Longrightarrow>
   docker_answered s' = mset (map dispatchID (dk_received s'))"
proof (induction rule: docker_run_step.induct)
  case (dr_step s s')
  then show ?case
  proof (induction rule: docker_step.induct)
    case (dk_receive s frame)
    then show ?case by (auto simp: receiveFrame_def docker_answered_def onTheWay_def split: connectResponse.splits)
  next
    case (dk_take s q qs)
    then show ?case by (cases q) (auto simp: docker_answered_def onTheWay_def)
  next
    case (dk_send s q)
    then show ?case by (cases q) (auto simp: docker_answered_def onTheWay_def)
  next
    case (dk_heartbeat s h node sid ev s' res)
    from dk_heartbeat(2) show ?case
      by (cases rule: loopEffect_cases) (use dk_heartbeat(5) in \<open>auto simp: docker_answered_def onTheWay_def\<close>)
  qed (auto simp: docker_answered_def onTheWay_def ac_simps split: option.split)
qed simp

interpretation docker_answers: answering docker_run_step "newDockerSession interval" "\<lambda>s. dk_sender s \<and> dk_ctxErr s = None"
    "\<lambda>s. mset (map dispatchID (dk_received s))" docker_answered
proof
  show "docker_answered (newDockerSession interval) = mset (map dispatchID (dk_received (newDockerSession interval)))"
    by (simp add: docker_answered_def onTheWay_def newDockerSession_def)
qed (use docker_stands_back docker_keeps in blast)+


section \<open>A command from its frame to the queue\<close>

lemma command_queued:
  assumes "dk_receiver s" "dk_ackWaiting s = None" "room s"
  shows "docker_step\<^sup>*\<^sup>* s (s\<lparr>dk_received := dk_received s @ [d],
    dk_outbound := dk_outbound s @ [ResultFrame (fst (buildDockerCommandResult env img parse script d m))]\<rparr>)"
proof -
  let ?r = "fst (buildDockerCommandResult env img parse script d m)"
  let ?s1 = "s\<lparr>dk_received := dk_received s @ [d], dk_running := dk_running s @ [d]\<rparr>"
  let ?s2 = "s\<lparr>dk_received := dk_received s @ [d], dk_finishing := dk_finishing s @ [?r]\<rparr>"
  let ?s3 = "s\<lparr>dk_received := dk_received s @ [d], dk_outbound := dk_outbound s @ [ResultFrame ?r]\<rparr>"
  have "docker_step s ?s1" using dk_receive [OF assms(1,2), of "CommandDispatch d"] by (simp add: receiveFrame_def)
  moreover have "docker_step ?s1 ?s2" using dk_execute [of ?s1 "dk_running s" d "[]" ?r env img parse script m] by simp
  moreover have "docker_step ?s2 ?s3" using dk_enqueue [of ?s2 "dk_finishing s" ?r "[]"] assms(3) by (simp add: room_def)
  ultimately show ?thesis by (meson rtranclp.rtrancl_refl rtranclp.rtrancl_into_rtrancl)
qed

lemma commands_queued:
  assumes "dk_receiver s" "dk_ackWaiting s = None"
  shows "length (dk_outbound s) + n \<le> outboundCapacity \<Longrightarrow>
    docker_step\<^sup>*\<^sup>* s (s\<lparr>dk_received := dk_received s @ replicate n d,
      dk_outbound := dk_outbound s @ replicate n (ResultFrame (fst (buildDockerCommandResult env img parse script d m)))\<rparr>)"
proof (induction n)
  case (Suc n)
  let ?q = "ResultFrame (fst (buildDockerCommandResult env img parse script d m))"
  let ?s = "s\<lparr>dk_received := dk_received s @ replicate n d, dk_outbound := dk_outbound s @ replicate n ?q\<rparr>"
  have "docker_step\<^sup>*\<^sup>* ?s (?s\<lparr>dk_received := dk_received ?s @ [d], dk_outbound := dk_outbound ?s @ [?q]\<rparr>)"
    by (rule command_queued) (use assms Suc.prems in \<open>simp_all add: room_def\<close>)
  then have "docker_step\<^sup>*\<^sup>* ?s (s\<lparr>dk_received := dk_received s @ replicate (Suc n) d,
      dk_outbound := dk_outbound s @ replicate (Suc n) ?q\<rparr>)"
    by (simp add: replicate_append_same [symmetric])
  with Suc.IH Suc.prems show ?case by simp
qed simp

lemma runs_step: "docker_step\<^sup>*\<^sup>* s t \<Longrightarrow> docker_run_step\<^sup>*\<^sup>* s t"
  by (induction rule: rtranclp_induct) (auto intro: rtranclp.rtrancl_into_rtrancl dr_step)

definition demoQueued :: docker_session where
  "demoQueued = (newDockerSession second)\<lparr>dk_received := [demoDispatch '' c1 ''],
     dk_outbound := [ResultFrame (fst (buildDockerCommandResult undefined [] undefined [] (demoDispatch '' c1 '') undefined))]\<rparr>"

lemma demoQueued_reachable: "docker_step\<^sup>*\<^sup>* (newDockerSession second) demoQueued"
  using command_queued [where s = "newDockerSession second" and d = "demoDispatch '' c1 ''" and env = undefined and img = "[]" and parse = undefined and script = "[]" and m = undefined]
  by (simp add: newDockerSession_def demoQueued_def room_def outboundCapacity_def)


section \<open>When a session ends\<close>

lemma loop_returns:
  assumes "dk_loop s = Inr h" "hb_phase h \<noteq> WaitQueue" "dk_errs s = e # es"
  shows "docker_step s (setLoop (Inl e) (s\<lparr>dk_errs := es\<rparr>))"
  by (rule dk_heartbeat [OF assms(1), of undefined undefined "SessionErr e"]) (use assms(2,3) in simp_all)

text \<open>A session whose receiver or sender has reported an error can end by itself, as long as the heartbeat loop is not
  waiting for room in a full queue: the loop returns the error, at the latest once its heartbeat is queued.\<close>

theorem session_can_end:
  assumes "dk_loop s = Inr h" "dk_errs s = e # es" "hb_phase h \<noteq> WaitQueue \<or> room s"
  shows "\<exists>t. docker_step\<^sup>*\<^sup>* s t \<and> dk_loop t = Inl e \<and> dk_ctxErr t \<noteq> None"
proof -
  have ret: "\<exists>t. docker_step\<^sup>*\<^sup>* s t \<and> dk_loop t = Inl e \<and> dk_ctxErr t \<noteq> None"
    if "dk_loop s = Inr h" "hb_phase h \<noteq> WaitQueue" "dk_errs s = e # es" for s h
    by (rule exI, rule conjI, rule r_into_rtranclp [where r = docker_step, OF loop_returns [OF that]])
      (simp add: setLoop_def)
  show ?thesis
  proof (cases "hb_phase h = WaitQueue")
    case True
    let ?h = "h\<lparr>hb_phase := WaitAck, hb_sent := hb_sent h + 1\<rparr>"
    let ?s = "setLoop (Inr ?h) (s\<lparr>dk_outbound := dk_outbound s @ [HeartbeatFrame undefined undefined]\<rparr>)"
    have st: "docker_step s ?s"
      by (rule dk_heartbeat [OF assms(1), of undefined undefined Queued]) (use True assms(3) in simp_all)
    have "dk_errs ?s = e # es" using assms(2) by (simp add: setLoop_def)
    then obtain t where "docker_step\<^sup>*\<^sup>* ?s t" "dk_loop t = Inl e" "dk_ctxErr t \<noteq> None"
      using ret [of ?s ?h] by auto
    with st show ?thesis by (meson converse_rtranclp_into_rtranclp)
  next
    case False
    with ret [OF assms(1) _ assms(2)] show ?thesis by blast
  qed
qed

section \<open>When a session does not end\<close>

text \<open>The sender is gone, the queue is full, and the heartbeat loop waits for room without listening to the errors.\<close>

definition hanging :: "docker_session \<Rightarrow> bool" where
  "hanging s \<longleftrightarrow> \<not> dk_sender s \<and> dk_sending s = None \<and> \<not> room s \<and> dk_ctxErr s = None \<and>
     (\<exists>h. dk_loop s = Inr h \<and> hb_phase h = WaitQueue)"

lemma hanging_step: "docker_step s s' \<Longrightarrow> hanging s \<Longrightarrow> hanging s'"
proof (induction rule: docker_step.induct)
  case (dk_receive s frame)
  then show ?case by (auto simp: receiveFrame_def hanging_def room_def split: connectResponse.splits)
next
  case (dk_heartbeat s h node sid ev s' res)
  then have "hb_phase h = WaitQueue" "\<not> room s" "dk_ctxErr s = None" by (auto simp: hanging_def)
  with dk_heartbeat(2,3) have False by (cases ev) auto
  then show ?case ..
qed (auto simp: hanging_def room_def)

lemma stall:
  assumes "dk_receiver s" "dk_ackWaiting s = None" "dk_outbound s = []" "dk_sending s = Some q" "dk_ctxErr s = None"
    and "dk_loop s = Inr h" "hb_phase h = WaitQueue" "dk_errs s = []"
  shows "\<exists>t. docker_step\<^sup>*\<^sup>* s t \<and> dk_errs t = [e] \<and> hanging t"
proof -
  obtain ds qs where ds: "docker_step\<^sup>*\<^sup>* s (s\<lparr>dk_received := ds, dk_outbound := qs\<rparr>)" and qs: "length qs = outboundCapacity"
    using commands_queued [OF assms(1,2), of outboundCapacity] assms(3) by force
  let ?s = "s\<lparr>dk_received := ds, dk_outbound := qs\<rparr>"
  have "docker_step ?s ((reportErr e ?s)\<lparr>dk_sending := None, dk_sender := False\<rparr>)" (is "docker_step _ ?t")
    by (rule dk_sendFails) (simp add: assms(4))
  with ds have "docker_step\<^sup>*\<^sup>* s ?t" by (rule rtranclp.rtrancl_into_rtrancl)
  moreover have "dk_errs ?t = [e]" by (simp add: reportErr_def assms(8) sessionErrCapacity_def)
  moreover have "hanging ?t" using assms(5-7) qs by (simp add: hanging_def room_def)
  ultimately show ?thesis by blast
qed

lemma sending_reachable:
  "\<exists>s q h. docker_step\<^sup>*\<^sup>* (newDockerSession interval) s \<and> dk_receiver s \<and> dk_ackWaiting s = None \<and> dk_outbound s = [] \<and>
     dk_sending s = Some q \<and> dk_ctxErr s = None \<and> dk_loop s = Inr h \<and> hb_phase h = WaitQueue \<and> dk_errs s = []"
proof -
  let ?s0 = "newDockerSession interval"
  obtain ds q where 1: "docker_step\<^sup>*\<^sup>* ?s0 (?s0\<lparr>dk_received := ds, dk_outbound := [q]\<rparr>)"
    using command_queued [of ?s0] by (force simp: newDockerSession_def room_def outboundCapacity_def)
  let ?s1 = "?s0\<lparr>dk_received := ds, dk_outbound := [q]\<rparr>"
  let ?s2 = "?s1\<lparr>dk_outbound := [], dk_sending := Some q\<rparr>"
  have 2: "docker_step ?s1 ?s2" by (rule dk_take) (simp_all add: newDockerSession_def)
  have 3: "docker_step ?s2 (setLoop (Inr ((heartbeatStart interval)\<lparr>hb_phase := WaitQueue\<rparr>)) ?s2)" (is "docker_step _ ?s3")
    by (rule dk_heartbeat [of _ "heartbeatStart interval" undefined undefined TimerFires])
      (simp_all add: newDockerSession_def heartbeatStart_def)
  from 1 2 3 have "docker_step\<^sup>*\<^sup>* ?s0 ?s3" by (meson rtranclp.rtrancl_into_rtrancl)
  then show ?thesis by (rule_tac x = ?s3 in exI) (simp add: setLoop_def newDockerSession_def)
qed

text \<open>Such a state is reached when the connection stalls: with 64 results behind the frame that is being sent and the
  heartbeat timer gone off, the failure of the send ends the sender and reports the error, but nobody takes it. From
  there the session hangs, whatever its goroutines do, until the process is told to stop; \<open>Run\<close> does not reconnect.\<close>

theorem session_hangs:
  "\<exists>s. docker_step\<^sup>*\<^sup>* (newDockerSession interval) s \<and> dk_errs s = [OtherError ''stream send failed''] \<and>
     (\<forall>t. docker_step\<^sup>*\<^sup>* s t \<longrightarrow> hanging t)"
proof -
  obtain s where s: "docker_step\<^sup>*\<^sup>* (newDockerSession interval) s" "dk_errs s = [OtherError ''stream send failed'']" "hanging s"
    using sending_reachable [of interval] stall by (meson rtranclp_trans)
  have "hanging t" if "docker_step\<^sup>*\<^sup>* s t" for t
    using that by (induction rule: rtranclp_induct) (use s(3) hanging_step in blast)+
  with s show ?thesis by blast
qed

section \<open>What the log does not say\<close>

text \<open>The command line stays out of the log: another of the same length leaves the same line.\<close>

lemma log_hides_command:
  assumes "decodeTerminalExec p = Some x" "decodeTerminalExec q = Some (x\<lparr>te_command := c\<rparr>)"
    and "length c = length (te_command x)" "trimSpace c = [] \<longleftrightarrow> trimSpace (te_command x) = []"
    and "trimSpace (toLower capability) = terminalExecCapabilityName"
  shows "commandDispatchSummaryForLog n capability p = commandDispatchSummaryForLog n capability q"
  using assms
  by (simp add: commandDispatchSummaryForLog_def Let_def workerEchoName_def pythonExecCapabilityName_def
      terminalExecCapabilityName_def)

end
