(* ===== verification/TaskHandlers.thy ===== *)
theory TaskHandlers
  imports Tokens TaskProperties OwnerScope
begin

text \<open>
  The command and task part of the HTTP API: \<open>command_handler.go\<close> and \<open>task_handler.go\<close> under
  \<open>console/internal/httpapi\<close>. A handler gets the owner that the token check left in the request and the decoded body
  (\<open>None\<close> when it does not bind), and calls the task engine. \<open>None\<close> as the answer is a submission that waits for ever;
  the second component of an answer is the goroutine that a submission starts.
\<close>

section \<open>Requests and responses\<close>

definition defaultEchoTimeoutMS :: int where "defaultEchoTimeoutMS = 5000"
definition minEchoTimeoutMS :: int where "minEchoTimeoutMS = 1"
definition maxEchoTimeoutMS :: int where "maxEchoTimeoutMS = 60000"
definition defaultTaskWaitMS :: int where "defaultTaskWaitMS = 1500"
definition defaultTaskTimeoutMS :: int where "defaultTaskTimeoutMS = 60000"
definition maxTaskWaitMS :: int where "maxTaskWaitMS = 60000"
definition maxTaskTimeoutMS :: int where "maxTaskTimeoutMS = 600000"
definition terminalExecCapability :: string where "terminalExecCapability = ''terminalExec''"
definition computerUseCapability :: string where "computerUseCapability = ''computerUse''"

record echoCommandRequest =
  eq_message :: string
  eq_timeoutMS :: "int option"

record terminalCommandRequest =
  xq_command :: string
  xq_sessionID :: string
  xq_createIfMissing :: bool
  xq_leaseTTLSec :: "int option"
  xq_timeoutMS :: "int option"
  xq_requestID :: string

record computerUseCommandRequest =
  uq_command :: string
  uq_timeoutMS :: "int option"
  uq_requestID :: string

record taskSubmission =
  hq_capability :: string
  hq_input :: payload
  hq_mode :: string
  hq_waitMS :: "int option"
  hq_timeoutMS :: "int option"
  hq_requestID :: string

record terminalCommandResponse =
  xr_sessionID :: string
  xr_created :: bool
  xr_stdout :: string
  xr_stderr :: string
  xr_exitCode :: int
  xr_stdoutTruncated :: bool
  xr_stderrTruncated :: bool
  xr_leaseExpiresUnixMS :: int

record computerUseCommandResponse =
  yr_stdout :: string
  yr_stderr :: string
  yr_exitCode :: int
  yr_stdoutTruncated :: bool
  yr_stderrTruncated :: bool

text \<open>\<open>json.Unmarshal\<close> of a task's result into the response.\<close>

definition decodeTerminalResponse :: "payload \<Rightarrow> terminalCommandResponse option" where
  "decodeTerminalResponse p =
     (case objectEntries p of
        None \<Rightarrow> None
      | Some es \<Rightarrow>
          (case (fieldStr ''session_id'' es, fieldBool ''created'' es, fieldStr ''stdout'' es, fieldStr ''stderr'' es,
                 fieldInt ''exit_code'' es, fieldBool ''stdout_truncated'' es, fieldBool ''stderr_truncated'' es,
                 fieldInt ''lease_expires_unix_ms'' es) of
             (Some sid, Some c, Some out, Some err, Some code, Some ot, Some et, Some lease) \<Rightarrow>
               Some \<lparr>xr_sessionID = sid, xr_created = c, xr_stdout = out, xr_stderr = err, xr_exitCode = code,
                 xr_stdoutTruncated = ot, xr_stderrTruncated = et, xr_leaseExpiresUnixMS = lease\<rparr>
           | _ \<Rightarrow> None))"

definition decodeComputerUseResponse :: "payload \<Rightarrow> computerUseCommandResponse option" where
  "decodeComputerUseResponse p =
     (case objectEntries p of
        None \<Rightarrow> None
      | Some es \<Rightarrow>
          (case (fieldStr ''stdout'' es, fieldStr ''stderr'' es, fieldInt ''exit_code'' es,
                 fieldBool ''stdout_truncated'' es, fieldBool ''stderr_truncated'' es) of
             (Some out, Some err, Some code, Some ot, Some et) \<Rightarrow>
               Some \<lparr>yr_stdout = out, yr_stderr = err, yr_exitCode = code, yr_stdoutTruncated = ot, yr_stderrTruncated = et\<rparr>
           | _ \<Rightarrow> None))"

text \<open>The payloads the handlers submit; the strings come from a decoded body and are valid UTF-8.\<close>

definition terminalExecPayload :: "string \<Rightarrow> string \<Rightarrow> bool \<Rightarrow> int option \<Rightarrow> payload" where
  "terminalExecPayload command sessionID createIfMissing leaseTTLSec =
     Document (JObj
       ([(''command'', JStr command)]
        @ omitempty (sessionID = []) ''session_id'' (JStr sessionID)
        @ omitempty (\<not> createIfMissing) ''create_if_missing'' (JBool createIfMissing)
        @ (case leaseTTLSec of None \<Rightarrow> [] | Some n \<Rightarrow> [(''lease_ttl_sec'', JInt n)])))"

definition computerUsePayload :: "string \<Rightarrow> payload" where
  "computerUsePayload command = Document (JObj [(''command'', JStr command)])"

text \<open>An optional number of milliseconds.\<close>

definition orDefault :: "int \<Rightarrow> int option \<Rightarrow> int" where
  "orDefault z v = (case v of None \<Rightarrow> z | Some n \<Rightarrow> n)"

definition milliseconds :: "int \<Rightarrow> gduration" where "milliseconds n = wrap64 (n * millisecond)"

section \<open>Errors as status codes\<close>

definition writeTaskSubmitError :: "go_error \<Rightarrow> 'b reply" where
  "writeTaskSubmitError err = (case err of
     ErrTaskRequestInProgress \<Rightarrow> Problem 409 ''task request already in progress''
   | ErrNoCapabilityWorker \<Rightarrow> Problem 503 ''no online worker supports requested capability''
   | ErrNoWorkerCapacity \<Rightarrow> Problem 429 ''no online worker capacity for requested capability''
   | CommandExecutionError c m \<Rightarrow> Problem 502 (commandExecutionErrorString c m)
   | CtxDeadlineExceeded \<Rightarrow> Problem 504 ''task timed out''
   | StatusError InvalidArgument m \<Rightarrow> Problem 400 m
   | _ \<Rightarrow> Problem 502 ''failed to submit task'')"

definition mapTerminalTaskFailure :: "taskSnapshot \<Rightarrow> nat \<times> string" where
  "mapTerminalTaskFailure t =
     (let code = trimSpace (ts_errorCode t);
          message = (if trimSpace (ts_errorMessage t) = [] then ''terminal command failed'' else trimSpace (ts_errorMessage t))
      in if code = ''session_not_found'' then (404, message)
         else if code = ''session_busy'' then (409, message)
         else if code = ''no_worker'' then (503, ''no online worker supports requested capability'')
         else if code = ''no_capacity'' then (429, ''no online worker capacity for requested capability'')
         else if code = ''invalid_payload'' then (400, message)
         else if code = ''timeout'' \<or> code = ''deadline_exceeded'' then (504, message)
         else (502, message))"

definition mapComputerUseTaskFailure :: "taskSnapshot \<Rightarrow> nat \<times> string" where
  "mapComputerUseTaskFailure t =
     (let code = trimSpace (ts_errorCode t);
          message = (if trimSpace (ts_errorMessage t) = [] then ''computerUse command failed'' else trimSpace (ts_errorMessage t))
      in if code = ''no_worker'' then (503, ''no online worker supports requested capability'')
         else if code = ''no_capacity'' then (429, ''no online worker capacity for requested capability'')
         else if code = ''session_busy'' then (409, message)
         else if code = ''invalid_payload'' then (400, message)
         else if code = ''timeout'' \<or> code = ''deadline_exceeded'' then (504, message)
         else (502, message))"

definition mapTaskTerminalStatusToHTTP :: "taskSnapshot \<Rightarrow> nat" where
  "mapTaskTerminalStatusToHTTP t = (case ts_status t of
     Succeeded \<Rightarrow> 200 | Timeout \<Rightarrow> 504 | Canceled \<Rightarrow> 409
   | Failed \<Rightarrow> if ts_errorCode t = ''no_capacity'' then 429 else if ts_errorCode t = ''no_worker'' then 503 else 502
   | _ \<Rightarrow> 200)"

text \<open>The end of the two command handlers, from the submission's result on.\<close>

definition commandReply ::
  "(payload \<Rightarrow> 'b option) \<Rightarrow> string \<Rightarrow> (taskSnapshot \<Rightarrow> nat \<times> string) \<Rightarrow> go_error + submitTaskResult \<Rightarrow> 'b reply" where
  "commandReply decode name failure res = (case res of
     Inl err \<Rightarrow> writeTaskSubmitError err
   | Inr r \<Rightarrow>
       if \<not> sr_completed r then Problem 504 ''task timed out''
       else case ts_status (sr_task r) of
         Succeeded \<Rightarrow>
           (case decode (ts_resultJSON (sr_task r)) of
              None \<Rightarrow> Problem 502 (''invalid '' @ name @ '' result payload'') | Some v \<Rightarrow> Reply 200 v)
       | Timeout \<Rightarrow> Problem 504 ''task timed out''
       | Canceled \<Rightarrow> Problem 409 ''task canceled''
       | Failed \<Rightarrow> (case failure (sr_task r) of (statusCode, message) \<Rightarrow> Problem statusCode message)
       | _ \<Rightarrow> Problem 502 ''unexpected task status'')"

section \<open>Command handlers\<close>

definition echoCommand ::
  "dispatch_env \<Rightarrow> echoCommandRequest option \<Rightarrow> service \<Rightarrow> (string reply \<times> service) option" where
  "echoCommand env body s = (case body of
     None \<Rightarrow> Some (Problem 400 ''invalid request body'', s)
   | Some req \<Rightarrow>
       let timeoutMS = orDefault defaultEchoTimeoutMS (eq_timeoutMS req)
       in if trimSpace (eq_message req) = [] then Some (Problem 400 ''message is required'', s)
          else if timeoutMS < minEchoTimeoutMS \<or> timeoutMS > maxEchoTimeoutMS
          then Some (Problem 400 ''timeout_ms must be between 1 and 60000'', s)
          else map_option (\<lambda>(res, s). (case res of
              Inr result \<Rightarrow> Reply 200 result
            | Inl ErrNoWorkerCapacity \<Rightarrow> Problem 429 ''no online worker capacity for requested capability''
            | Inl ErrNoEchoWorker \<Rightarrow> Problem 503 ''no online worker supports echo''
            | Inl ErrEchoTimeout \<Rightarrow> Problem 504 ''echo command timed out''
            | Inl (CommandExecutionError c m) \<Rightarrow> Problem 502 (commandExecutionErrorString c m)
            | Inl CtxDeadlineExceeded \<Rightarrow> Problem 504 ''echo command timed out''
            | Inl _ \<Rightarrow> Problem 502 ''failed to execute echo command'', s))
            (dispatchEcho env (eq_message req) (milliseconds timeoutMS) s))"

type_synonym 'b handled_task = "(('b reply \<times> launch option) \<times> service) option"

text \<open>A reply without a submission, and a submission whose result is made a reply.\<close>

definition refuseTask :: "'b reply \<Rightarrow> service \<Rightarrow> 'b handled_task" where
  "refuseTask r s = Some ((r, None), s)"

definition replyTask :: "(go_error + submitTaskResult \<Rightarrow> 'b reply) \<Rightarrow> submit_answer option \<Rightarrow> 'b handled_task" where
  "replyTask f answer = map_option (\<lambda>((res, l), s). ((f res, l), s)) answer"

definition terminalSubmission :: "string \<Rightarrow> terminalCommandRequest \<Rightarrow> submitTaskRequest" where
  "terminalSubmission ownerID req =
     \<lparr>rq_capability = terminalExecCapability,
      rq_inputJSON = terminalExecPayload (xq_command req) (trimSpace (xq_sessionID req)) (xq_createIfMissing req) (xq_leaseTTLSec req),
      rq_mode = ''sync'', rq_wait = 0, rq_timeout = milliseconds (orDefault defaultTaskTimeoutMS (xq_timeoutMS req)),
      rq_requestID = trimSpace (xq_requestID req), rq_ownerID = ownerID\<rparr>"

definition terminalCommand ::
  "submit_env \<Rightarrow> string option \<Rightarrow> terminalCommandRequest option \<Rightarrow> service \<Rightarrow> terminalCommandResponse handled_task" where
  "terminalCommand env owner body s = (case requireRequestOwnerID owner of
     Inl r \<Rightarrow> refuseTask r s
   | Inr ownerID \<Rightarrow>
       (case body of
          None \<Rightarrow> refuseTask (Problem 400 ''invalid request body'') s
        | Some req \<Rightarrow>
            let timeoutMS = orDefault defaultTaskTimeoutMS (xq_timeoutMS req)
            in if trimSpace (xq_command req) = [] then refuseTask (Problem 400 ''command is required'') s
               else if timeoutMS < 1 \<or> timeoutMS > maxTaskTimeoutMS
               then refuseTask (Problem 400 ''timeout_ms must be between 1 and 600000'') s
               else replyTask (commandReply decodeTerminalResponse ''terminalExec'' mapTerminalTaskFailure)
                      (submitTask env (terminalSubmission ownerID req) s)))"

definition computerUseSubmission :: "string \<Rightarrow> computerUseCommandRequest \<Rightarrow> submitTaskRequest" where
  "computerUseSubmission ownerID req =
     \<lparr>rq_capability = computerUseCapability, rq_inputJSON = computerUsePayload (uq_command req), rq_mode = ''sync'',
      rq_wait = 0, rq_timeout = milliseconds (orDefault defaultTaskTimeoutMS (uq_timeoutMS req)),
      rq_requestID = trimSpace (uq_requestID req), rq_ownerID = ownerID\<rparr>"

definition computerUseCommand ::
  "submit_env \<Rightarrow> string option \<Rightarrow> computerUseCommandRequest option \<Rightarrow> service \<Rightarrow> computerUseCommandResponse handled_task" where
  "computerUseCommand env owner body s = (case requireRequestOwnerID owner of
     Inl r \<Rightarrow> refuseTask r s
   | Inr ownerID \<Rightarrow>
       (case body of
          None \<Rightarrow> refuseTask (Problem 400 ''invalid request body'') s
        | Some req \<Rightarrow>
            let timeoutMS = orDefault defaultTaskTimeoutMS (uq_timeoutMS req)
            in if trimSpace (uq_command req) = [] then refuseTask (Problem 400 ''command is required'') s
               else if timeoutMS < 1 \<or> timeoutMS > maxTaskTimeoutMS
               then refuseTask (Problem 400 ''timeout_ms must be between 1 and 600000'') s
               else replyTask (commandReply decodeComputerUseResponse ''computerUse'' mapComputerUseTaskFailure)
                      (submitTask env (computerUseSubmission ownerID req) s)))"

section \<open>Task handlers\<close>

text \<open>\<open>url.PathEscape\<close>.\<close>

definition pathSafe :: "char \<Rightarrow> bool" where
  "pathSafe c \<longleftrightarrow>
     (let n = of_char c :: nat
      in n \<in> {48..57} \<union> {65..90} \<union> {97..122} \<or> c \<in> set ''-_.~$&+=:@'')"

definition pathEscape :: "string \<Rightarrow> string" where
  "pathEscape s = concat (map (\<lambda>c. if pathSafe c then [c]
     else [CHR ''%'', ''0123456789ABCDEF'' ! (of_char c div 16), ''0123456789ABCDEF'' ! (of_char c mod 16)]) s)"

definition taskStatusURL :: "string \<Rightarrow> string" where
  "taskStatusURL taskID = ''/api/v1/tasks/'' @ pathEscape taskID"

text \<open>A snapshot as sent: with an error body when there is a code or a message, and the status URL of an unfinished one.\<close>

record taskResponse =
  th_snapshot :: taskSnapshot
  th_error :: "(string \<times> string) option"
  th_statusURL :: string

definition buildTaskResponse :: "taskSnapshot \<Rightarrow> taskResponse" where
  "buildTaskResponse t =
     \<lparr>th_snapshot = t,
      th_error = (if trimSpace (ts_errorCode t) \<noteq> [] \<or> trimSpace (ts_errorMessage t) \<noteq> []
                  then Some (ts_errorCode t, ts_errorMessage t) else None),
      th_statusURL = []\<rparr>"

text \<open>The parsed mode is what is submitted.\<close>

definition taskModeName :: "taskMode option \<Rightarrow> string" where
  "taskModeName m = (case m of
     Some TaskModeSync \<Rightarrow> ''sync'' | Some TaskModeAsync \<Rightarrow> ''async'' | Some TaskModeAuto \<Rightarrow> ''auto'' | None \<Rightarrow> [])"

definition taskSubmissionOf :: "string \<Rightarrow> taskSubmission \<Rightarrow> submitTaskRequest" where
  "taskSubmissionOf ownerID req =
     \<lparr>rq_capability = hq_capability req, rq_inputJSON = hq_input req, rq_mode = taskModeName (parseTaskMode (hq_mode req)),
      rq_wait = milliseconds (orDefault defaultTaskWaitMS (hq_waitMS req)),
      rq_timeout = milliseconds (orDefault defaultTaskTimeoutMS (hq_timeoutMS req)),
      rq_requestID = trimSpace (hq_requestID req), rq_ownerID = ownerID\<rparr>"

definition submitReply :: "go_error + submitTaskResult \<Rightarrow> taskResponse reply" where
  "submitReply res = (case res of
     Inl err \<Rightarrow> writeTaskSubmitError err
   | Inr r \<Rightarrow>
       if sr_completed r then Reply (mapTaskTerminalStatusToHTTP (sr_task r)) (buildTaskResponse (sr_task r))
       else Reply 202 ((buildTaskResponse (sr_task r))\<lparr>th_statusURL := taskStatusURL (ts_taskID (sr_task r))\<rparr>))"

definition submitTaskHandler ::
  "submit_env \<Rightarrow> string option \<Rightarrow> taskSubmission option \<Rightarrow> service \<Rightarrow> taskResponse handled_task" where
  "submitTaskHandler env owner body s = (case requireRequestOwnerID owner of
     Inl r \<Rightarrow> refuseTask r s
   | Inr ownerID \<Rightarrow>
       (case body of
          None \<Rightarrow> refuseTask (Problem 400 ''invalid request body'') s
        | Some req \<Rightarrow>
            let waitMS = orDefault defaultTaskWaitMS (hq_waitMS req);
                timeoutMS = orDefault defaultTaskTimeoutMS (hq_timeoutMS req)
            in if waitMS \<le> 0 \<or> waitMS > maxTaskWaitMS
               then refuseTask (Problem 400 ''wait_ms must be between 1 and 60000'') s
               else if timeoutMS \<le> 0 \<or> timeoutMS > maxTaskTimeoutMS
               then refuseTask (Problem 400 ''timeout_ms must be between 1 and 600000'') s
               else if parseTaskMode (hq_mode req) = None
               then refuseTask (Problem 400 ''mode must be one of sync|async|auto'') s
               else replyTask submitReply (submitTask env (taskSubmissionOf ownerID req) s)))"

definition getTaskHandler :: "string option \<Rightarrow> string \<Rightarrow> service \<Rightarrow> taskResponse reply \<times> service" where
  "getTaskHandler owner param s = (case requireRequestOwnerID owner of
     Inl r \<Rightarrow> (r, s)
   | Inr ownerID \<Rightarrow>
       (case getTask (trimSpace param) ownerID s of
          (None, s) \<Rightarrow> (Problem 404 ''task not found'', s)
        | (Some t, s) \<Rightarrow> (Reply 200 (buildTaskResponse t), s)))"

definition cancelTaskHandler ::
  "(service \<Rightarrow> service) \<Rightarrow> string option \<Rightarrow> string \<Rightarrow> service \<Rightarrow> taskResponse reply \<times> service" where
  "cancelTaskHandler i owner param s = (case requireRequestOwnerID owner of
     Inl r \<Rightarrow> (r, s)
   | Inr ownerID \<Rightarrow>
       (case cancelTask i (trimSpace param) ownerID s of
          (Inl (ErrTaskNotFound, _), s) \<Rightarrow> (Problem 404 ''task not found'', s)
        | (Inl (ErrTaskTerminal, Some t), s) \<Rightarrow> (Reply 409 (buildTaskResponse t), s)
        | (Inl _, s) \<Rightarrow> (Problem 500 ''failed to cancel task'', s)
        | (Inr t, s) \<Rightarrow> (Reply 200 (buildTaskResponse t), s)))"

end
