(* ===== verification/McpTools.thy ===== *)
theory McpTools
  imports TaskHandlers Base64
begin

text \<open>
  The tools of the MCP server: \<open>mcp_tool_handlers.go\<close>, \<open>mcp_errors.go\<close> and \<open>mcp_resource_registry.go\<close> under
  \<open>console/internal/httpapi\<close>. A tool gets the owner in the request's context and its decoded input; its answer is an
  error or the output, the goroutines its submissions started, and the service. The schemas and descriptions of
  \<open>mcp_tool_specs.go\<close> are data for the protocol library, which checks inputs against them before a tool is called.
\<close>

section \<open>Errors\<close>

text \<open>A JSON-RPC error for invalid parameters, and the plain errors that a tool reports as its result.\<close>

datatype mcp_error = InvalidParams string | ToolError string

definition invalidParamsError :: "string \<Rightarrow> mcp_error" where
  "invalidParamsError message = InvalidParams (if trimSpace message = [] then ''invalid params'' else trimSpace message)"

definition mapMCPToolEchoError :: "go_error \<Rightarrow> mcp_error" where
  "mapMCPToolEchoError err = ToolError (case err of
     ErrNoWorkerCapacity \<Rightarrow> ''no online worker capacity for requested capability''
   | ErrNoEchoWorker \<Rightarrow> ''no online worker supports echo''
   | ErrEchoTimeout \<Rightarrow> ''echo command timed out''
   | CommandExecutionError c m \<Rightarrow> commandExecutionErrorString c m
   | CtxDeadlineExceeded \<Rightarrow> ''echo command timed out''
   | _ \<Rightarrow> ''failed to execute echo command'')"

definition mapMCPToolTaskSubmitError :: "go_error \<Rightarrow> mcp_error" where
  "mapMCPToolTaskSubmitError err = ToolError (case err of
     ErrTaskRequestInProgress \<Rightarrow> ''task request already in progress''
   | ErrNoCapabilityWorker \<Rightarrow> ''no online worker supports requested capability''
   | ErrNoWorkerCapacity \<Rightarrow> ''no online worker capacity for requested capability''
   | CommandExecutionError c m \<Rightarrow> commandExecutionErrorString c m
   | CtxDeadlineExceeded \<Rightarrow> ''task timed out''
   | StatusError InvalidArgument m \<Rightarrow> m
   | _ \<Rightarrow> ''failed to submit task'')"

definition formatTaskFailureError :: "taskSnapshot \<Rightarrow> mcp_error" where
  "formatTaskFailureError t =
     (let errorCode = trimSpace (ts_errorCode t); errorMessage = trimSpace (ts_errorMessage t)
      in ToolError (if errorCode \<noteq> [] \<and> errorMessage \<noteq> [] then errorCode @ '': '' @ errorMessage
         else if errorMessage \<noteq> [] then errorMessage
         else if errorCode \<noteq> [] then errorCode else ''task failed''))"

section \<open>Inputs and outputs\<close>

record mcpTerminalExecToolInput =
  mt_command :: string
  mt_sessionID :: string
  mt_createIfMissing :: bool
  mt_leaseTTLSec :: "int option"
  mt_timeoutMS :: "int option"

record mcpReadImageToolInput =
  mi_sessionID :: string
  mi_filePath :: string
  mi_timeoutMS :: "int option"

record mcpPythonExecToolOutput =
  mo_output :: string
  mo_stderr :: string
  mo_exitCode :: int

record mcpTerminalResourceResult =
  mr_sessionID :: string
  mr_filePath :: string
  mr_mimeType :: string
  mr_sizeBytes :: int
  mr_blob :: string

text \<open>A \<open>[]byte\<close> field is base64 in a JSON string.\<close>

fun storeBytes :: "string option \<Rightarrow> json \<Rightarrow> string option" where
  "storeBytes None _ = None"
| "storeBytes (Some _) (JStr t) = b64Decode t"
| "storeBytes (Some _) JNull = Some []"
| "storeBytes (Some _) _ = None"

definition decodePythonOutput :: "payload \<Rightarrow> mcpPythonExecToolOutput option" where
  "decodePythonOutput p =
     (case objectEntries p of
        None \<Rightarrow> None
      | Some es \<Rightarrow>
          (case (fieldStr ''output'' es, fieldStr ''stderr'' es, fieldInt ''exit_code'' es) of
             (Some out, Some err, Some code) \<Rightarrow> Some \<lparr>mo_output = out, mo_stderr = err, mo_exitCode = code\<rparr>
           | _ \<Rightarrow> None))"

definition decodeResourceResult :: "payload \<Rightarrow> mcpTerminalResourceResult option" where
  "decodeResourceResult p =
     (case objectEntries p of
        None \<Rightarrow> None
      | Some es \<Rightarrow>
          (case (fieldStr ''session_id'' es, fieldStr ''file_path'' es, fieldStr ''mime_type'' es, fieldInt ''size_bytes'' es,
                 decodeField storeBytes [] ''blob'' es) of
             (Some sid, Some f, Some m, Some n, Some b) \<Rightarrow>
               Some \<lparr>mr_sessionID = sid, mr_filePath = f, mr_mimeType = m, mr_sizeBytes = n, mr_blob = b\<rparr>
           | _ \<Rightarrow> None))"

definition mcpTerminalResourcePayload :: "string \<Rightarrow> string \<Rightarrow> string \<Rightarrow> payload" where
  "mcpTerminalResourcePayload sessionID filePath action =
     Document (JObj ([(''session_id'', JStr sessionID), (''file_path'', JStr filePath)]
       @ omitempty (action = []) ''action'' (JStr action)))"

section \<open>Tools\<close>

type_synonym 'b tool_answer = "(((mcp_error + 'b) \<times> launch list) \<times> service) option"

definition refuseTool :: "mcp_error \<Rightarrow> service \<Rightarrow> 'b tool_answer" where
  "refuseTool e s = Some ((Inl e, []), s)"

text \<open>The end of the tools that submit one task; the text for an unexpected status leaves out the status.\<close>

definition taskToolResult :: "(payload \<Rightarrow> 'b option) \<Rightarrow> string \<Rightarrow> go_error + submitTaskResult \<Rightarrow> mcp_error + 'b" where
  "taskToolResult decode name res = (case res of
     Inl err \<Rightarrow> Inl (mapMCPToolTaskSubmitError err)
   | Inr r \<Rightarrow>
       if \<not> sr_completed r then Inl (ToolError (name @ '' task did not complete''))
       else case ts_status (sr_task r) of
         Succeeded \<Rightarrow>
           (case decode (ts_resultJSON (sr_task r)) of
              None \<Rightarrow> Inl (ToolError (''invalid '' @ name @ '' result payload'')) | Some v \<Rightarrow> Inr v)
       | Timeout \<Rightarrow> Inl (ToolError ''task timed out'')
       | Canceled \<Rightarrow> Inl (ToolError ''task canceled'')
       | Failed \<Rightarrow> Inl (formatTaskFailureError (sr_task r))
       | _ \<Rightarrow> Inl (ToolError ''unexpected task status''))"

definition runTool :: "(go_error + submitTaskResult \<Rightarrow> mcp_error + 'b) \<Rightarrow> submit_answer option \<Rightarrow> 'b tool_answer" where
  "runTool f answer = map_option (\<lambda>((res, l), s). ((f res, case l of None \<Rightarrow> [] | Some l \<Rightarrow> [l]), s)) answer"

definition toolSubmission :: "string \<Rightarrow> payload \<Rightarrow> int \<Rightarrow> string \<Rightarrow> string \<Rightarrow> submitTaskRequest" where
  "toolSubmission capability inputJSON timeoutMS requestID ownerID =
     \<lparr>rq_capability = capability, rq_inputJSON = inputJSON, rq_mode = ''sync'', rq_wait = 0,
      rq_timeout = milliseconds timeoutMS, rq_requestID = requestID, rq_ownerID = ownerID\<rparr>"

definition badTimeout :: "int \<Rightarrow> bool" where
  "badTimeout timeoutMS \<longleftrightarrow> timeoutMS < 1 \<or> timeoutMS > maxTaskTimeoutMS"

definition handleMCPEchoTool ::
  "dispatch_env \<Rightarrow> string \<Rightarrow> int option \<Rightarrow> service \<Rightarrow> ((mcp_error + string) \<times> service) option" where
  "handleMCPEchoTool env message timeout s =
     (let timeoutMS = orDefault defaultEchoTimeoutMS timeout
      in if trimSpace message = [] then Some (Inl (invalidParamsError ''message is required''), s)
         else if timeoutMS < minEchoTimeoutMS \<or> timeoutMS > maxEchoTimeoutMS
         then Some (Inl (invalidParamsError ''timeout_ms must be between 1 and 60000''), s)
         else map_option (\<lambda>(res, s). (case res of Inl err \<Rightarrow> Inl (mapMCPToolEchoError err) | Inr m \<Rightarrow> Inr m, s))
                (dispatchEcho env message (milliseconds timeoutMS) s))"

definition handleMCPPythonExecTool ::
  "submit_env \<Rightarrow> string option \<Rightarrow> string \<Rightarrow> int option \<Rightarrow> service \<Rightarrow> mcpPythonExecToolOutput tool_answer" where
  "handleMCPPythonExecTool env owner code timeout s =
     (let timeoutMS = orDefault defaultTaskTimeoutMS timeout
      in if trimSpace code = [] then refuseTool (invalidParamsError ''code is required'') s
         else if badTimeout timeoutMS then refuseTool (invalidParamsError ''timeout_ms must be between 1 and 600000'') s
         else case owner of
           None \<Rightarrow> refuseTool (ToolError ''request owner is required'') s
         | Some ownerID \<Rightarrow>
             runTool (taskToolResult decodePythonOutput ''pythonExec'')
               (submitTask env (toolSubmission ''pythonExec'' (Document (JObj [(''code'', JStr code)])) timeoutMS [] ownerID) s))"

definition handleMCPTerminalExecTool ::
  "submit_env \<Rightarrow> string option \<Rightarrow> mcpTerminalExecToolInput \<Rightarrow> service \<Rightarrow> terminalCommandResponse tool_answer" where
  "handleMCPTerminalExecTool env owner input s =
     (let timeoutMS = orDefault defaultTaskTimeoutMS (mt_timeoutMS input)
      in if trimSpace (mt_command input) = [] then refuseTool (invalidParamsError ''command is required'') s
         else if (case mt_leaseTTLSec input of None \<Rightarrow> False | Some n \<Rightarrow> n < 1)
         then refuseTool (invalidParamsError ''lease_ttl_sec must be positive'') s
         else if badTimeout timeoutMS then refuseTool (invalidParamsError ''timeout_ms must be between 1 and 600000'') s
         else case owner of
           None \<Rightarrow> refuseTool (ToolError ''request owner is required'') s
         | Some ownerID \<Rightarrow>
             runTool (taskToolResult decodeTerminalResponse ''terminalExec'')
               (submitTask env (toolSubmission terminalExecCapability (terminalExecPayload (mt_command input)
                  (trimSpace (mt_sessionID input)) (mt_createIfMissing input) (mt_leaseTTLSec input)) timeoutMS [] ownerID) s))"

definition handleMCPComputerUseTool ::
  "submit_env \<Rightarrow> string option \<Rightarrow> computerUseCommandRequest \<Rightarrow> service \<Rightarrow> computerUseCommandResponse tool_answer" where
  "handleMCPComputerUseTool env owner input s =
     (let timeoutMS = orDefault defaultTaskTimeoutMS (uq_timeoutMS input)
      in if trimSpace (uq_command input) = [] then refuseTool (invalidParamsError ''command is required'') s
         else if badTimeout timeoutMS then refuseTool (invalidParamsError ''timeout_ms must be between 1 and 600000'') s
         else case owner of
           None \<Rightarrow> refuseTool (ToolError ''request owner is required'') s
         | Some ownerID \<Rightarrow>
             runTool (taskToolResult decodeComputerUseResponse ''computerUse'')
               (submitTask env (toolSubmission computerUseCapability (computerUsePayload (uq_command input)) timeoutMS
                  (trimSpace (uq_requestID input)) ownerID) s))"

section \<open>Reading images\<close>

definition terminalResourceCapability :: string where "terminalResourceCapability = ''terminalResource''"
definition readImageCapability :: string where "readImageCapability = ''readImage''"
definition computerUseSessionID :: string where "computerUseSessionID = ''computerUse''"

definition callResourceCapability ::
  "submit_env \<Rightarrow> string option \<Rightarrow> string \<Rightarrow> payload \<Rightarrow> int \<Rightarrow> service \<Rightarrow> mcpTerminalResourceResult tool_answer" where
  "callResourceCapability env owner capability inputJSON timeoutMS s =
     (let capabilityName = trimSpace capability; timeoutMS = (if timeoutMS \<le> 0 then defaultTaskTimeoutMS else timeoutMS)
      in if capabilityName = [] then refuseTool (ToolError ''resource capability is required'') s
         else case owner of
           None \<Rightarrow> refuseTool (ToolError ''request owner is required'') s
         | Some ownerID \<Rightarrow>
             runTool (taskToolResult decodeResourceResult capabilityName)
               (submitTask env (toolSubmission capabilityName inputJSON timeoutMS [] ownerID) s))"

definition normalizeMIME :: "string \<Rightarrow> string" where
  "normalizeMIME mimeType = (if trimSpace mimeType = [] then ''application/octet-stream'' else trimSpace mimeType)"

definition isImageMIME :: "string \<Rightarrow> bool" where
  "isImageMIME mimeType \<longleftrightarrow> prefix ''image/'' (toLower (trimSpace mimeType))"

datatype mcp_content = TextContent string | ImageContent string string

definition notAnImage :: "string \<Rightarrow> mcp_content" where
  "notAnImage mimeType = TextContent (''unsupported mime type: '' @ mimeType @ ''; expected image/*'')"

text \<open>Two submissions, each with what happens around it: one to look at the file, one to read it.\<close>

definition handleMCPReadImageTool ::
  "submit_env \<Rightarrow> submit_env \<Rightarrow> string option \<Rightarrow> mcpReadImageToolInput \<Rightarrow> service \<Rightarrow> mcp_content tool_answer" where
  "handleMCPReadImageTool env1 env2 owner input s =
     (let sessionID = trimSpace (mi_sessionID input); filePath = trimSpace (mi_filePath input);
          timeoutMS = orDefault defaultTaskTimeoutMS (mi_timeoutMS input);
          capability = (if sessionID = computerUseSessionID then readImageCapability else terminalResourceCapability)
      in if sessionID = [] then refuseTool (invalidParamsError ''session_id is required'') s
         else if filePath = [] then refuseTool (invalidParamsError ''file_path is required'') s
         else if badTimeout timeoutMS then refuseTool (invalidParamsError ''timeout_ms must be between 1 and 600000'') s
         else case callResourceCapability env1 owner capability (mcpTerminalResourcePayload sessionID filePath ''validate'') timeoutMS s of
           None \<Rightarrow> None
         | Some ((Inl e, ls), s) \<Rightarrow> Some ((Inl e, ls), s)
         | Some ((Inr validated, ls), s) \<Rightarrow>
             if \<not> isImageMIME (normalizeMIME (mr_mimeType validated))
             then Some ((Inr (notAnImage (normalizeMIME (mr_mimeType validated))), ls), s)
             else case callResourceCapability env2 owner capability (mcpTerminalResourcePayload sessionID filePath ''read'') timeoutMS s of
               None \<Rightarrow> None
             | Some ((Inl e, ls'), s) \<Rightarrow> Some ((Inl e, ls @ ls'), s)
             | Some ((Inr res, ls'), s) \<Rightarrow>
                 let m = normalizeMIME (mr_mimeType res)
                 in Some ((Inr (if isImageMIME m then ImageContent m (mr_blob res) else notAnImage m), ls @ ls'), s))"

end
