(* ===== verification/McpServer.thy ===== *)
theory McpServer
  imports McpTools
begin

text \<open>
  The MCP server of \<open>mcp_handler.go\<close> and the schemas of \<open>mcp_tool_specs.go\<close> under \<open>console/internal/httpapi\<close>. The
  protocol library is a parameter: which tool call a request carries, and whether the arguments meet a schema. It
  decodes the arguments into the tool's input struct; its own answers (an unknown tool, refused arguments, the other
  methods of the protocol) are one value here.
\<close>

section \<open>Schemas\<close>

text \<open>The schemas say \<open>type: object\<close> and \<open>additionalProperties: false\<close>; titles, descriptions and defaults are left out,
  the defaults being those the tools use for a missing field.\<close>

datatype schema_type = SchemaString | SchemaBoolean | SchemaInteger "int option" "int option"

record tool_schema =
  sch_required :: "string list"
  sch_properties :: "(string \<times> schema_type) list"

definition minMCPTaskTimeoutMS :: int where "minMCPTaskTimeoutMS = 1"
definition minMCPTerminalLeaseSec :: int where "minMCPTerminalLeaseSec = 1"
definition maxMCPTerminalLeaseSec :: int where "maxMCPTerminalLeaseSec = 86400"

definition mcpEchoInputSchema :: tool_schema where
  "mcpEchoInputSchema = \<lparr>sch_required = [''message''],
     sch_properties = [(''message'', SchemaString),
       (''timeout_ms'', SchemaInteger (Some minEchoTimeoutMS) (Some maxEchoTimeoutMS))]\<rparr>"

definition mcpEchoOutputSchema :: tool_schema where
  "mcpEchoOutputSchema = \<lparr>sch_required = [''message''], sch_properties = [(''message'', SchemaString)]\<rparr>"

definition mcpPythonExecInputSchema :: tool_schema where
  "mcpPythonExecInputSchema = \<lparr>sch_required = [''code''],
     sch_properties = [(''code'', SchemaString),
       (''timeout_ms'', SchemaInteger (Some minMCPTaskTimeoutMS) (Some maxTaskTimeoutMS))]\<rparr>"

definition mcpPythonExecOutputSchema :: tool_schema where
  "mcpPythonExecOutputSchema = \<lparr>sch_required = [''output'', ''stderr'', ''exit_code''],
     sch_properties = [(''output'', SchemaString), (''stderr'', SchemaString), (''exit_code'', SchemaInteger None None)]\<rparr>"

definition mcpTerminalExecInputSchema :: tool_schema where
  "mcpTerminalExecInputSchema = \<lparr>sch_required = [''command''],
     sch_properties = [(''command'', SchemaString), (''session_id'', SchemaString), (''create_if_missing'', SchemaBoolean),
       (''lease_ttl_sec'', SchemaInteger (Some minMCPTerminalLeaseSec) (Some maxMCPTerminalLeaseSec)),
       (''timeout_ms'', SchemaInteger (Some minMCPTaskTimeoutMS) (Some maxTaskTimeoutMS))]\<rparr>"

definition mcpTerminalExecOutputSchema :: tool_schema where
  "mcpTerminalExecOutputSchema =
     \<lparr>sch_required = [''session_id'', ''created'', ''stdout'', ''stderr'', ''exit_code'', ''stdout_truncated'',
        ''stderr_truncated'', ''lease_expires_unix_ms''],
      sch_properties = [(''session_id'', SchemaString), (''created'', SchemaBoolean), (''stdout'', SchemaString),
        (''stderr'', SchemaString), (''exit_code'', SchemaInteger None None), (''stdout_truncated'', SchemaBoolean),
        (''stderr_truncated'', SchemaBoolean), (''lease_expires_unix_ms'', SchemaInteger None None)]\<rparr>"

definition mcpComputerUseInputSchema :: tool_schema where
  "mcpComputerUseInputSchema = \<lparr>sch_required = [''command''],
     sch_properties = [(''command'', SchemaString),
       (''timeout_ms'', SchemaInteger (Some minMCPTaskTimeoutMS) (Some maxTaskTimeoutMS)), (''request_id'', SchemaString)]\<rparr>"

definition mcpComputerUseOutputSchema :: tool_schema where
  "mcpComputerUseOutputSchema =
     \<lparr>sch_required = [''stdout'', ''stderr'', ''exit_code'', ''stdout_truncated'', ''stderr_truncated''],
      sch_properties = [(''stdout'', SchemaString), (''stderr'', SchemaString), (''exit_code'', SchemaInteger None None),
        (''stdout_truncated'', SchemaBoolean), (''stderr_truncated'', SchemaBoolean)]\<rparr>"

definition mcpReadImageInputSchema :: tool_schema where
  "mcpReadImageInputSchema = \<lparr>sch_required = [''session_id'', ''file_path''],
     sch_properties = [(''session_id'', SchemaString), (''file_path'', SchemaString),
       (''timeout_ms'', SchemaInteger (Some minMCPTaskTimeoutMS) (Some maxTaskTimeoutMS))]\<rparr>"

section \<open>Inputs\<close>

text \<open>The arguments decoded into the input structs.\<close>

definition decodeEchoToolInput :: "payload \<Rightarrow> echoCommandRequest option" where
  "decodeEchoToolInput p = Option.bind (objectEntries p) (\<lambda>es.
     case (fieldStr ''message'' es, fieldIntPtr ''timeout_ms'' es) of
       (Some m, Some t) \<Rightarrow> Some \<lparr>eq_message = m, eq_timeoutMS = t\<rparr> | _ \<Rightarrow> None)"

definition decodePythonToolInput :: "payload \<Rightarrow> (string \<times> int option) option" where
  "decodePythonToolInput p = Option.bind (objectEntries p) (\<lambda>es.
     case (fieldStr ''code'' es, fieldIntPtr ''timeout_ms'' es) of (Some c, Some t) \<Rightarrow> Some (c, t) | _ \<Rightarrow> None)"

definition decodeTerminalToolInput :: "payload \<Rightarrow> mcpTerminalExecToolInput option" where
  "decodeTerminalToolInput p = Option.bind (objectEntries p) (\<lambda>es.
     case (fieldStr ''command'' es, fieldStr ''session_id'' es, fieldBool ''create_if_missing'' es,
           fieldIntPtr ''lease_ttl_sec'' es, fieldIntPtr ''timeout_ms'' es) of
       (Some c, Some sid, Some b, Some l, Some t) \<Rightarrow>
         Some \<lparr>mt_command = c, mt_sessionID = sid, mt_createIfMissing = b, mt_leaseTTLSec = l, mt_timeoutMS = t\<rparr>
     | _ \<Rightarrow> None)"

definition decodeComputerUseInput :: "payload \<Rightarrow> computerUseCommandRequest option" where
  "decodeComputerUseInput p = Option.bind (objectEntries p) (\<lambda>es.
     case (fieldStr ''command'' es, fieldIntPtr ''timeout_ms'' es, fieldStr ''request_id'' es) of
       (Some c, Some t, Some r) \<Rightarrow> Some \<lparr>uq_command = c, uq_timeoutMS = t, uq_requestID = r\<rparr> | _ \<Rightarrow> None)"

definition decodeReadImageToolInput :: "payload \<Rightarrow> mcpReadImageToolInput option" where
  "decodeReadImageToolInput p = Option.bind (objectEntries p) (\<lambda>es.
     case (fieldStr ''session_id'' es, fieldStr ''file_path'' es, fieldIntPtr ''timeout_ms'' es) of
       (Some sid, Some f, Some t) \<Rightarrow> Some \<lparr>mi_sessionID = sid, mi_filePath = f, mi_timeoutMS = t\<rparr> | _ \<Rightarrow> None)"

section \<open>The server\<close>

text \<open>The library: the tool call in a request (the tool's name and the arguments), and the check against a schema.\<close>

record mcp_sdk =
  sdk_call :: "payload \<Rightarrow> (string \<times> json) option"
  sdk_accepts :: "tool_schema \<Rightarrow> json \<Rightarrow> bool"

datatype mcp_output =
    EchoOutput string | PythonOutput mcpPythonExecToolOutput | TerminalOutput terminalCommandResponse
  | ComputerUseOutput computerUseCommandResponse | ContentOutput mcp_content

datatype mcp_reply = LibraryAnswer | ToolFailure mcp_error | ToolOutput mcp_output

type_synonym mcp_answer = "((mcp_reply \<times> launch list) \<times> service) option"

definition toolReply :: "('b \<Rightarrow> mcp_output) \<Rightarrow> mcp_error + 'b \<Rightarrow> mcp_reply" where
  "toolReply f r = (case r of Inl e \<Rightarrow> ToolFailure e | Inr v \<Rightarrow> ToolOutput (f v))"

definition toolAnswer :: "('b \<Rightarrow> mcp_output) \<Rightarrow> 'b tool_answer \<Rightarrow> mcp_answer" where
  "toolAnswer f a = map_option (\<lambda>((r, ls), s). ((toolReply f r, ls), s)) a"

text \<open>A tool is called with the input that its schema admits and its struct decodes.\<close>

definition addTool ::
  "mcp_sdk \<Rightarrow> tool_schema \<Rightarrow> (payload \<Rightarrow> 'i option) \<Rightarrow> ('i \<Rightarrow> service \<Rightarrow> mcp_answer) \<Rightarrow> json \<Rightarrow> service \<Rightarrow> mcp_answer" where
  "addTool sdk schema decode tool args s =
     (if \<not> sdk_accepts sdk schema args then Some ((LibraryAnswer, []), s)
      else case decode (Document args) of None \<Rightarrow> Some ((LibraryAnswer, []), s) | Some input \<Rightarrow> tool input s)"

record mcp_env =
  me_sdk :: mcp_sdk
  me_dispatch :: dispatch_env
  me_submit :: submit_env
  me_submitRead :: submit_env

definition mcpTool :: "mcp_env \<Rightarrow> string option \<Rightarrow> string \<Rightarrow> json \<Rightarrow> service \<Rightarrow> mcp_answer" where
  "mcpTool env owner name =
     (if name = ''echo'' then addTool (me_sdk env) mcpEchoInputSchema decodeEchoToolInput
        (\<lambda>input s. map_option (\<lambda>(r, s). ((toolReply EchoOutput r, []), s))
           (handleMCPEchoTool (me_dispatch env) (eq_message input) (eq_timeoutMS input) s))
      else if name = ''pythonExec'' then addTool (me_sdk env) mcpPythonExecInputSchema decodePythonToolInput
        (\<lambda>(code, timeout) s. toolAnswer PythonOutput (handleMCPPythonExecTool (me_submit env) owner code timeout s))
      else if name = ''terminalExec'' then addTool (me_sdk env) mcpTerminalExecInputSchema decodeTerminalToolInput
        (\<lambda>input s. toolAnswer TerminalOutput (handleMCPTerminalExecTool (me_submit env) owner input s))
      else if name = ''computerUse'' then addTool (me_sdk env) mcpComputerUseInputSchema decodeComputerUseInput
        (\<lambda>input s. toolAnswer ComputerUseOutput (handleMCPComputerUseTool (me_submit env) owner input s))
      else if name = ''readImage'' then addTool (me_sdk env) mcpReadImageInputSchema decodeReadImageToolInput
        (\<lambda>input s. toolAnswer ContentOutput (handleMCPReadImageTool (me_submit env) (me_submitRead env) owner input s))
      else (\<lambda>_ s. Some ((LibraryAnswer, []), s)))"

definition mcpHandler :: "mcp_env \<Rightarrow> string option \<Rightarrow> payload \<Rightarrow> service \<Rightarrow> mcp_answer" where
  "mcpHandler env owner body s =
     (case sdk_call (me_sdk env) body of
        None \<Rightarrow> Some ((LibraryAnswer, []), s)
      | Some (name, args) \<Rightarrow> mcpTool env owner name args s)"

end
