(* ===== verification/WorkerHandlers.thy ===== *)
theory WorkerHandlers
  imports Tokens Provisioning Dispatch GoStrings
begin

text \<open>
  The worker part of the HTTP API: \<open>worker_handler.go\<close> and \<open>worker_stats.go\<close> under \<open>console/internal/httpapi\<close>. A handler
  gets the session account of the request (\<open>None\<close> where no dashboard authentication is installed), the query
  parameters or the decoded body, and answers with a reply. The state is that of the registry service; \<open>Bare 500\<close> is
  what gin's \<open>Recovery\<close> answers to a panic.
\<close>

section \<open>Addresses\<close>

text \<open>\<open>net.SplitHostPort\<close> and \<open>net.JoinHostPort\<close>.\<close>

definition splitHostPort :: "string \<Rightarrow> (string \<times> string) option" where
  "splitHostPort hostport =
     (if CHR '':'' \<notin> set hostport then None
      else
        let port = rev (takeWhile (\<lambda>c. c \<noteq> CHR '':'') (rev hostport));
            front = take (length hostport - length port - 1) hostport
        in if take 1 hostport = ''[''
           then let inner = takeWhile (\<lambda>c. c \<noteq> CHR '']'') (tl hostport)
                in if front \<noteq> ''['' @ inner @ '']'' \<or> CHR ''['' \<in> set (tl hostport) \<or> CHR '']'' \<in> set port then None
                   else Some (inner, port)
           else if CHR '':'' \<in> set front \<or> CHR ''['' \<in> set hostport \<or> CHR '']'' \<in> set hostport then None
           else Some (front, port))"

definition joinHostPort :: "string \<Rightarrow> string \<Rightarrow> string" where
  "joinHostPort host port =
     (if CHR '':'' \<in> set host then ''['' @ host @ '']:'' @ port else host @ '':'' @ port)"

definition defaultWorkerGRPCHost :: string where "defaultWorkerGRPCHost = ''127.0.0.1''"
definition defaultWorkerGRPCPort :: string where "defaultWorkerGRPCPort = ''50051''"
definition startupCommandHeartbeatInterval :: int where "startupCommandHeartbeatInterval = 5"
definition startupCommandHeartbeatJitter :: int where "startupCommandHeartbeatJitter = 20"

definition isWildcardHost :: "string \<Rightarrow> bool" where
  "isWildcardHost host \<longleftrightarrow> trimSpace host \<in> {[], ''0.0.0.0'', ''::''}"

definition parseAddrHostPort :: "string \<Rightarrow> string \<times> string" where
  "parseAddrHostPort addr =
     (if addr = [] then ([], [])
      else if prefix '':'' addr then ([], tl addr)
      else case splitHostPort addr of
        Some (host, port) \<Rightarrow> (trimSpace host, trimSpace port)
      | None \<Rightarrow> if atoi addr \<noteq> None then ([], addr) else ([], []))"

text \<open>The \<open>Host\<close> of the request.\<close>

definition parseRequestHost :: "string \<Rightarrow> string" where
  "parseRequestHost reqHost =
     (let rawHost = trimSpace reqHost
      in if rawHost = [] then []
         else case splitHostPort rawHost of
           Some (host, _) \<Rightarrow> trimSpace host
         | None \<Rightarrow>
             if prefix ''['' rawHost \<and> CHR '']'' \<in> set rawHost
             then trimSpace (hd (splitTwo (CHR '']'') (tl rawHost))) else rawHost)"

definition resolveWorkerGRPCTarget :: "string \<Rightarrow> string \<Rightarrow> string" where
  "resolveWorkerGRPCTarget consoleGRPCAddr reqHost =
     (case parseAddrHostPort (trimSpace consoleGRPCAddr) of
        (host, port) \<Rightarrow>
          let port = (if port = [] then defaultWorkerGRPCPort else port);
              host = (if host = [] \<or> isWildcardHost host then parseRequestHost reqHost else host);
              host = (if host = [] \<or> isWildcardHost host then defaultWorkerGRPCHost else host)
          in joinHostPort host port)"

definition buildWorkerStartupCommand :: "string \<Rightarrow> string \<Rightarrow> string \<Rightarrow> string \<Rightarrow> string" where
  "buildWorkerStartupCommand consoleGRPCAddr reqHost nodeID workerSecret =
     ''WORKER_CONSOLE_GRPC_TARGET='' @ resolveWorkerGRPCTarget consoleGRPCAddr reqHost @ '' WORKER_ID='' @ nodeID @
     '' WORKER_SECRET='' @ workerSecret @ '' WORKER_HEARTBEAT_INTERVAL_SEC='' @ itoa startupCommandHeartbeatInterval @
     '' WORKER_HEARTBEAT_JITTER_PCT='' @ itoa startupCommandHeartbeatJitter @ '' ./path-to-binary''"

section \<open>Requests\<close>

text \<open>The query parameters of the URL; \<open>c.Query\<close> takes a missing one for empty.\<close>

type_synonym query_params = "string \<Rightarrow> string option"

definition parsePositiveIntQuery :: "query_params \<Rightarrow> string \<Rightarrow> int \<Rightarrow> int option" where
  "parsePositiveIntQuery q key defaultValue =
     (case q key of
        None \<Rightarrow> Some defaultValue
      | Some raw \<Rightarrow>
          if raw = [] then Some defaultValue
          else case atoi raw of None \<Rightarrow> None | Some v \<Rightarrow> if v \<le> 0 then None else Some v)"

definition parseWorkerStatus :: "string \<Rightarrow> workerStatus option" where
  "parseWorkerStatus s =
     (if s = ''all'' then Some StatusAll else if s = ''online'' then Some StatusOnline
      else if s = ''offline'' then Some StatusOffline else None)"

text \<open>Owner and whether the request may see everything.\<close>

definition resolveWorkerAccessScope :: "sessionAccount option \<Rightarrow> (string \<times> bool) option" where
  "resolveWorkerAccessScope acct =
     (case acct of
        Some account \<Rightarrow>
          if trimSpace (sa_accountID account) = [] then None
          else Some (trimSpace (sa_accountID account), sa_isAdmin account)
      | None \<Rightarrow> Some (''system'', True))"

record worker_handler =
  wh_offlineTTL :: gduration
  wh_consoleGRPCAddr :: string

section \<open>Listing\<close>

record workerItem =
  wi_nodeID :: string
  wi_nodeName :: string
  wi_executorKind :: string
  wi_capabilities :: "(string \<times> int) list"
  wi_labels :: "(string \<times> string) list"
  wi_version :: string
  wi_status :: workerStatus
  wi_registeredAt :: gtime
  wi_lastSeenAt :: gtime

record listWorkersResponse =
  lw_items :: "workerItem list"
  lw_total :: int
  lw_page :: int
  lw_pageSize :: int

definition workerItemOf :: "workerView \<Rightarrow> workerItem" where
  "workerItemOf v =
     \<lparr>wi_nodeID = v_nodeID v, wi_nodeName = v_nodeName v, wi_executorKind = v_executorKind v,
      wi_capabilities = v_capabilities v, wi_labels = v_labels v, wi_version = v_version v, wi_status = v_status v,
      wi_registeredAt = v_registeredAt v, wi_lastSeenAt = v_lastSeenAt v\<rparr>"

definition listWorkers ::
  "worker_handler \<Rightarrow> sessionAccount option \<Rightarrow> query_params \<Rightarrow> service \<Rightarrow> listWorkersResponse reply \<times> service" where
  "listWorkers h acct q s =
     (case resolveWorkerAccessScope acct of
        None \<Rightarrow> (Problem 401 ''authentication required'', s)
      | Some (ownerID, isAdmin) \<Rightarrow>
      case parsePositiveIntQuery q ''page'' 1 of
        None \<Rightarrow> (Problem 400 ''page must be a positive integer'', s)
      | Some page \<Rightarrow>
      case parsePositiveIntQuery q ''page_size'' 20 of
        None \<Rightarrow> (Problem 400 ''page_size must be a positive integer'', s)
      | Some pageSize \<Rightarrow>
          let pageSize = (if pageSize > maxPageSize then maxPageSize else pageSize)
          in case parseWorkerStatus (case q ''status'' of None \<Rightarrow> ''all'' | Some t \<Rightarrow> t) of
               None \<Rightarrow> (Problem 400 ''status must be one of all|online|offline'', s)
             | Some status \<Rightarrow>
                 (case onStore (if isAdmin then listScoped status page pageSize (sv_now s) (wh_offlineTTL h) [] []
                                else listScoped status page pageSize (sv_now s) (wh_offlineTTL h) ownerID workerTypeSys) s of
                    (None, s) \<Rightarrow> (Bare 500, s)
                  | (Some (workers, count), s) \<Rightarrow>
                      (Reply 200 \<lparr>lw_items = map workerItemOf workers, lw_total = count, lw_page = page,
                         lw_pageSize = pageSize\<rparr>, s)))"

section \<open>Creating and deleting\<close>

record workerStartupCommandResponse =
  sc_nodeID :: string
  sc_type :: string
  sc_command :: string

text \<open>The body is the requested type, \<open>None\<close> when it does not decode.\<close>

definition createWorker ::
  "worker_handler \<Rightarrow> (go_error + string \<times> string) list \<Rightarrow> string \<Rightarrow> sessionAccount option \<Rightarrow> string option \<Rightarrow>
   service \<Rightarrow> workerStartupCommandResponse reply \<times> service" where
  "createWorker h rnd reqHost acct body s =
     (case resolveWorkerAccessScope acct of
        None \<Rightarrow> (Problem 401 ''authentication required'', s)
      | Some (ownerID, isAdmin) \<Rightarrow>
      case body of
        None \<Rightarrow> (Problem 400 ''invalid request body'', s)
      | Some rawType \<Rightarrow>
          let workerType = trimSpace (toLower rawType)
          in if workerType \<noteq> workerTypeNormal \<and> workerType \<noteq> workerTypeSys
             then (Problem 400 ''type must be one of normal|worker-sys'', s)
             else if \<not> isAdmin \<and> workerType = workerTypeNormal
             then (Problem 403 ''only admin can create normal worker'', s)
             else case createProvisionedWorkerForOwner rnd ownerID workerType (sv_now s) (wh_offlineTTL h) s of
               (Inl e, s) \<Rightarrow>
                 (if e = ErrWorkerSysAlreadyExists
                  then (Problem 409 ''worker-sys already exists for current account'', s)
                  else if e = ErrInvalidWorkerType
                  then (Problem 400 ''type must be one of normal|worker-sys'', s)
                  else (Problem 500 ''failed to create worker'', s))
             | (Inr (nodeID, workerSecret), s) \<Rightarrow>
                 (Reply 201 \<lparr>sc_nodeID = nodeID, sc_type = workerType,
                    sc_command = buildWorkerStartupCommand (wh_consoleGRPCAddr h) reqHost nodeID workerSecret\<rparr>, s))"

text \<open>The owner's check before a deletion: whether the worker may be deleted.\<close>

definition ownsWorker :: "string \<Rightarrow> workerView option \<Rightarrow> bool" where
  "ownsWorker ownerID w =
     (case w of
        None \<Rightarrow> False
      | Some worker \<Rightarrow>
          trimSpace (labelValueOf labelOwnerIDKey (v_labels worker)) = ownerID \<and>
          trimSpace (toLower (labelValueOf labelWorkerTypeKey (v_labels worker))) = workerTypeSys)"

text \<open>\<open>i\<close> is what other goroutines do between the check and the deletion and inside it.\<close>

definition deleteWorker ::
  "(service \<Rightarrow> service) \<Rightarrow> worker_handler \<Rightarrow> sessionAccount option \<Rightarrow> string \<Rightarrow> service \<Rightarrow> unit reply \<times> service option" where
  "deleteWorker i h acct param s =
     (case resolveWorkerAccessScope acct of
        None \<Rightarrow> (Problem 401 ''authentication required'', Some s)
      | Some (ownerID, isAdmin) \<Rightarrow>
          let nodeID = trimSpace param
          in if nodeID = [] then (Problem 400 ''node_id is required'', Some s)
             else
               let checked = (if isAdmin then (True, s)
                              else case onStore (getByNodeID nodeID (sv_now s) (wh_offlineTTL h)) s of
                                (w, s) \<Rightarrow> if ownsWorker ownerID w then (True, i s) else (False, s))
               in if \<not> fst checked then (Problem 404 ''worker not found'', Some (snd checked))
                  else case deleteProvisionedWorker i nodeID (snd checked) of
                    (False, s) \<Rightarrow> (Problem 404 ''worker not found'', s)
                  | (True, None) \<Rightarrow> (Bare 500, None)
                  | (True, Some s) \<Rightarrow> (Bare 204, Some s))"

definition getWorkerStartupCommand :: "string \<Rightarrow> unit reply" where
  "getWorkerStartupCommand param =
     (if trimSpace param = [] then Problem 400 ''node_id is required''
      else Problem 410 ''worker secret is returned only when creating the worker; delete and recreate to get a new startup command'')"

section \<open>Statistics\<close>

definition defaultStaleAfterSec :: int where "defaultStaleAfterSec = 30"

record workerStatsResponse =
  wr_stats :: workerStats
  wr_staleAfterSec :: int
  wr_generatedAt :: gtime

definition workerStatsHandler ::
  "worker_handler \<Rightarrow> sessionAccount option \<Rightarrow> query_params \<Rightarrow> service \<Rightarrow> workerStatsResponse reply \<times> service" where
  "workerStatsHandler h acct q s =
     (case resolveWorkerAccessScope acct of
        None \<Rightarrow> (Problem 401 ''authentication required'', s)
      | Some (ownerID, isAdmin) \<Rightarrow>
      case parsePositiveIntQuery q ''stale_after_sec'' defaultStaleAfterSec of
        None \<Rightarrow> (Problem 400 ''stale_after_sec must be a positive integer'', s)
      | Some staleAfterSec \<Rightarrow>
          let now = sv_now s; staleAfter = wrap64 (staleAfterSec * second)
          in case onStore (if isAdmin then statsScoped now (wh_offlineTTL h) staleAfter [] []
                           else statsScoped now (wh_offlineTTL h) staleAfter ownerID workerTypeSys) s of
               (stats, s) \<Rightarrow>
                 (Reply 200 \<lparr>wr_stats = stats, wr_staleAfterSec = staleAfterSec, wr_generatedAt = now\<rparr>, s))"

record workerInflightResponse =
  wf_workers :: "(string \<times> (string \<times> int \<times> int) list) list"
  wf_generatedAt :: gtime

definition workerInflight :: "sessionAccount option \<Rightarrow> service \<Rightarrow> workerInflightResponse reply \<times> service" where
  "workerInflight acct s =
     (case resolveWorkerAccessScope acct of
        None \<Rightarrow> (Problem 401 ''authentication required'', s)
      | Some (ownerID, isAdmin) \<Rightarrow>
          let snapshots = inflightStats s
          in case (if isAdmin then ([], s) else onStore (listNodeIDsByOwnerAndType ownerID workerTypeSys) s) of
               (ids, s) \<Rightarrow>
                 let allowed = map trimSpace ids
                 in (Reply 200 \<lparr>wf_workers = filter (\<lambda>(nodeID, _). isAdmin \<or> trimSpace nodeID \<in> set allowed) snapshots,
                       wf_generatedAt = sv_now s\<rparr>, s))"


section \<open>Whose workers a request reaches\<close>

lemma listFilteredViews_matches:
  "v \<in> set (fst (listFilteredViews status now ttl owner kind d)) \<Longrightarrow> viewMatches status owner kind v"
  by (auto simp: listFilteredViews_def split: prod.splits sum.splits)

lemma paginate_subset: "paginate page pageSize xs = Some (ys, n) \<Longrightarrow> set ys \<subseteq> set xs"
  by (auto simp: paginate_def go_slice_def Let_def split: if_splits dest: in_set_takeD in_set_dropD)

lemma listScoped_matches:
  assumes "listScoped status page pageSize now ttl owner kind d = (Some (ws, n), d')" "v \<in> set ws"
  shows "viewMatches status owner kind v"
proof -
  obtain xs where xs: "listFilteredViews status now ttl owner kind d = (xs, d')" "paginate page pageSize xs = Some (ws, n)"
    using assms(1) by (auto simp: listScoped_def split: prod.splits)
  with assms(2) paginate_subset [OF xs(2)] listFilteredViews_matches [of v status now ttl owner kind d]
  show ?thesis by auto
qed

lemma normalize_sys [simp]: "normalizeWorkerType workerTypeSys = workerTypeSys" "workerTypeSys \<noteq> []"
  "normalizeProvisioningWorkerType workerTypeSys = workerTypeSys" "workerTypeNormal \<noteq> workerTypeSys"
  by code_simp+

lemma viewMatches_own:
  "viewMatches status owner workerTypeSys v \<Longrightarrow> trimSpace owner \<noteq> [] \<Longrightarrow>
   trimSpace (labelValueOf labelOwnerIDKey (v_labels v)) = trimSpace owner \<and> resolveWorkerType (v_labels v) = workerTypeSys"
  by (simp add: viewMatches_def)

text \<open>A query that only reads changes nothing but the script of failures.\<close>

lemma dbRun_reads:
  assumes "\<And>e. snd (f e) = e"
  obtains fs where "snd (dbRun f d) = d\<lparr>db_faults := fs\<rparr>"
proof (cases "db_faults d")
  case Nil
  then have "snd (dbRun f d) = d\<lparr>db_faults := db_faults d\<rparr>" by (simp add: assms)
  then show ?thesis by (rule that)
next
  case (Cons x fs)
  then have "snd (dbRun f d) = d\<lparr>db_faults := fs\<rparr>" by (cases x) (simp_all add: dbRun_def assms)
  then show ?thesis by (rule that)
qed

lemma andThen_reads:
  assumes "\<And>e. \<exists>fs. snd (q e) = e\<lparr>db_faults := fs\<rparr>" "\<And>x e. \<exists>fs. snd (k x e) = e\<lparr>db_faults := fs\<rparr>"
  shows "\<exists>fs. snd (andThen q k d) = d\<lparr>db_faults := fs\<rparr>"
proof (cases "q d")
  case (Pair r d1)
  with assms(1) [of d] obtain fs where fs: "d1 = d\<lparr>db_faults := fs\<rparr>" by auto
  show ?thesis
  proof (cases r)
    case (Inr x)
    from assms(2) [of x d1] obtain gs where "snd (k x d1) = d1\<lparr>db_faults := gs\<rparr>" by blast
    with fs Pair Inr show ?thesis by (auto simp: andThen_def)
  qed (use fs Pair in \<open>auto simp: andThen_def\<close>)
qed

lemma getByNodeID_reads: "\<exists>fs. snd (getByNodeID nodeID now ttl d) = d\<lparr>db_faults := fs\<rparr>"
proof (cases "trimSpace nodeID = []")
  case True
  then have "snd (getByNodeID nodeID now ttl d) = d\<lparr>db_faults := db_faults d\<rparr>" by (simp add: getByNodeID_def)
  then show ?thesis ..
next
  case False
  let ?n = "trimSpace nodeID"
  let ?q = "andThen (getWorkerNodeByID ?n) (\<lambda>node.
      andThen (listWorkerCapabilitiesByNode ?n) (\<lambda>capabilityRows.
      andThen (listWorkerLabelsByNode ?n) (\<lambda>labelRows d.
        (Inr (nodeView now ttl capabilityRows (rowsToLabels labelRows) node), d))))"
  have q: "\<exists>fs. snd (getWorkerNodeByID ?n e) = e\<lparr>db_faults := fs\<rparr>"
    "\<exists>fs. snd (listWorkerCapabilitiesByNode ?n e) = e\<lparr>db_faults := fs\<rparr>"
    "\<exists>fs. snd (listWorkerLabelsByNode ?n e) = e\<lparr>db_faults := fs\<rparr>" for e
    unfolding getWorkerNodeByID_def listWorkerCapabilitiesByNode_def listWorkerLabelsByNode_def
    by (rule dbRun_reads [of _ e]; auto split: option.split)+
  have id: "\<exists>fs. snd (Inr v, e) = e\<lparr>db_faults := fs\<rparr>" for v :: workerView and e :: db
    by (rule exI [of _ "db_faults e"]) simp
  have "\<exists>fs. snd (?q d) = d\<lparr>db_faults := fs\<rparr>"
    by (rule andThen_reads [OF q(1) andThen_reads [OF q(2) andThen_reads [OF q(3) id]]])
  moreover have "snd (getByNodeID nodeID now ttl d) = snd (?q d)"
    using False by (simp add: getByNodeID_def Let_def split: prod.split sum.split)
  ultimately show ?thesis by simp
qed


lemma scope_own: "\<not> sa_isAdmin a \<Longrightarrow> resolveWorkerAccessScope (Some a) =
   (if trimSpace (sa_accountID a) = [] then None else Some (trimSpace (sa_accountID a), False))"
  by (simp add: resolveWorkerAccessScope_def)

lemma listWorkers_own:
  assumes "\<not> sa_isAdmin a" "listWorkers h (Some a) q s = (Reply c r, s')" "w \<in> set (lw_items r)"
  shows "trimSpace (labelValueOf labelOwnerIDKey (wi_labels w)) = trimSpace (sa_accountID a) \<and>
    resolveWorkerType (wi_labels w) = workerTypeSys"
proof -
  let ?ow = "trimSpace (sa_accountID a)"
  obtain status page pageSz ws n s1 where ow: "?ow \<noteq> []"
    and l: "onStore (listScoped status page pageSz (sv_now s) (wh_offlineTTL h) ?ow workerTypeSys) s = (Some (ws, n), s1)"
    and r: "lw_items r = map workerItemOf ws"
    using assms(1,2) by (auto simp: listWorkers_def scope_own Let_def split: if_splits option.splits prod.splits)
  obtain d' where "listScoped status page pageSz (sv_now s) (wh_offlineTTL h) ?ow workerTypeSys (sv_db s) = (Some (ws, n), d')"
    using l by (auto simp: onStore_def split: prod.splits)
  note m = listScoped_matches [OF this]
  from assms(3) r obtain v where v: "v \<in> set ws" "w = workerItemOf v" by auto
  from viewMatches_own [OF m [OF v(1)]] ow v(2) show ?thesis by (simp add: workerItemOf_def)
qed

lemma createWorker_own:
  assumes "\<not> sa_isAdmin a" "createWorker h rnd host (Some a) body s = (Reply c r, s')"
  shows "sc_type r = workerTypeSys \<and>
    (trimSpace (sa_accountID a), trimSpace (sc_nodeID r)) \<in> (\<lambda>m. (m_owner_id m, m_node_id m)) ` set (db_claims (sv_db s'))"
proof -
  obtain i x where c: "createProvisionedWorkerForOwner rnd (trimSpace (sa_accountID a)) workerTypeSys (sv_now s) (wh_offlineTTL h) s
      = (Inr (i, x), s')" and r: "sc_nodeID r = i" "sc_type r = workerTypeSys"
    using assms by (auto simp: createWorker_def scope_own Let_def split: if_splits option.splits prod.splits sum.splits)
  from createProvisioned_sys(1) [OF c _ refl] r show ?thesis by (auto intro: rev_image_eqI)
qed

lemma nodesByOwner_rows:
  assumes "n \<in> set (nodesByOwnerAndType owner kind d)"
  shows "nodeExists n d \<and> (\<exists>l \<in> set (db_labels d). l_node_id l = n \<and> l_label_key l = labelOwnerIDKey \<and> l_label_value l = owner)"
  using assms by (auto simp: nodesByOwnerAndType_def nodeExists_def)

lemma workerInflight_own:
  assumes "\<not> sa_isAdmin a" "workerInflight (Some a) s = (Reply c r, s')" "(n, caps) \<in> set (wf_workers r)"
  shows "trimSpace n \<in> trimSpace ` set (nodesByOwnerAndType (trimSpace (sa_accountID a)) workerTypeSys (sv_db s))"
proof -
  let ?ow = "trimSpace (sa_accountID a)"
  obtain ids s1 where ow: "?ow \<noteq> []" and l: "onStore (listNodeIDsByOwnerAndType ?ow workerTypeSys) s = (ids, s1)"
    and w: "wf_workers r = filter (\<lambda>(nodeID, _). trimSpace nodeID \<in> set (map trimSpace ids)) (inflightStats s)"
    using assms(1,2) by (auto simp: workerInflight_def scope_own Let_def split: if_splits prod.splits)
  have "set ids \<subseteq> set (nodesByOwnerAndType ?ow workerTypeSys (sv_db s))"
  proof (cases "db_faults (sv_db s)")
    case Nil
    with l ow show ?thesis
      by (auto simp: onStore_def listNodeIDsByOwnerAndType_def listWorkerNodeIDsByOwnerAndType_def orEmpty_def split: prod.splits)
  next
    case (Cons x fs)
    with l ow show ?thesis
      by (cases x) (auto simp: onStore_def listNodeIDsByOwnerAndType_def listWorkerNodeIDsByOwnerAndType_def orEmpty_def
          dbRun_def nodesByOwnerAndType_def split: prod.splits)
  qed
  with w assms(3) show ?thesis by auto
qed

lemma deleteWorker_own:
  assumes "\<not> sa_isAdmin a" "trimSpace (sa_accountID a) \<noteq> []"
    and "\<not> ownsWorker (trimSpace (sa_accountID a)) (fst (getByNodeID (trimSpace n) (sv_now s) (wh_offlineTTL h) (sv_db s)))"
  shows "\<exists>fs. snd (deleteWorker i h (Some a) n s) = Some (s\<lparr>sv_db := (sv_db s)\<lparr>db_faults := fs\<rparr>\<rparr>)"
proof (cases "trimSpace n = []")
  case True
  with assms(1,2) have "snd (deleteWorker i h (Some a) n s) = Some (s\<lparr>sv_db := (sv_db s)\<lparr>db_faults := db_faults (sv_db s)\<rparr>\<rparr>)"
    by (simp add: deleteWorker_def scope_own)
  then show ?thesis ..
next
  case False
  obtain fs where fs: "snd (getByNodeID (trimSpace n) (sv_now s) (wh_offlineTTL h) (sv_db s)) = (sv_db s)\<lparr>db_faults := fs\<rparr>"
    using getByNodeID_reads by blast
  obtain w where "getByNodeID (trimSpace n) (sv_now s) (wh_offlineTTL h) (sv_db s) = (w, (sv_db s)\<lparr>db_faults := fs\<rparr>)"
    using fs by (metis prod.collapse)
  with False assms have "snd (deleteWorker i h (Some a) n s) = Some (s\<lparr>sv_db := (sv_db s)\<lparr>db_faults := fs\<rparr>\<rparr>)"
    by (simp add: deleteWorker_def scope_own onStore_def Let_def)
  then show ?thesis ..
qed


text \<open>C25: What an account that is no administrator reaches through the worker part of the API is its own: the listing shows
  only system workers labelled with the account, the in-flight numbers only sessions of such workers, a worker it
  creates is a system worker claimed for it, and a deletion changes nothing at all unless the worker just read from the
  registry is its own system worker, whatever other requests do afterwards.\<close>

theorem own_workers_only:
  fixes a :: sessionAccount
  defines "owner \<equiv> trimSpace (sa_accountID a)"
  assumes "\<not> sa_isAdmin a"
  shows "(case fst (listWorkers h (Some a) q s) of
      Reply _ r \<Rightarrow> list_all (\<lambda>w. trimSpace (labelValueOf labelOwnerIDKey (wi_labels w)) = owner \<and>
        resolveWorkerType (wi_labels w) = workerTypeSys) (lw_items r)
    | _ \<Rightarrow> True) \<and>
    (case fst (workerInflight (Some a) s) of
      Reply _ r \<Rightarrow> list_all (\<lambda>(n, _). trimSpace n \<in> trimSpace ` set (nodesByOwnerAndType owner workerTypeSys (sv_db s))) (wf_workers r)
    | _ \<Rightarrow> True) \<and>
    (case createWorker h rnd host (Some a) body s of
      (Reply _ r, s') \<Rightarrow> sc_type r = workerTypeSys \<and>
        (owner, trimSpace (sc_nodeID r)) \<in> (\<lambda>m. (m_owner_id m, m_node_id m)) ` set (db_claims (sv_db s'))
    | _ \<Rightarrow> True) \<and>
    (ownsWorker owner (fst (getByNodeID (trimSpace n) (sv_now s) (wh_offlineTTL h) (sv_db s))) \<or>
     (\<exists>fs. snd (deleteWorker i h (Some a) n s) = Some (s\<lparr>sv_db := (sv_db s)\<lparr>db_faults := fs\<rparr>\<rparr>)))"
proof (intro conjI)
  note d = owner_def
  show "case fst (listWorkers h (Some a) q s) of
      Reply _ r \<Rightarrow> list_all (\<lambda>w. trimSpace (labelValueOf labelOwnerIDKey (wi_labels w)) = owner \<and>
        resolveWorkerType (wi_labels w) = workerTypeSys) (lw_items r)
    | _ \<Rightarrow> True"
    using listWorkers_own [OF assms(2), of h q s] by (cases "listWorkers h (Some a) q s") (auto simp: d list_all_iff split: reply.split)
  show "case fst (workerInflight (Some a) s) of
      Reply _ r \<Rightarrow> list_all (\<lambda>(n, _). trimSpace n \<in> trimSpace ` set (nodesByOwnerAndType owner workerTypeSys (sv_db s))) (wf_workers r)
    | _ \<Rightarrow> True"
    using workerInflight_own [OF assms(2), of s]
    by (cases "workerInflight (Some a) s") (auto simp: d list_all_iff split: reply.split)
  show "case createWorker h rnd host (Some a) body s of
      (Reply _ r, s') \<Rightarrow> sc_type r = workerTypeSys \<and>
        (owner, trimSpace (sc_nodeID r)) \<in> (\<lambda>m. (m_owner_id m, m_node_id m)) ` set (db_claims (sv_db s'))
    | _ \<Rightarrow> True"
    using createWorker_own [OF assms(2), of h rnd host body s]
    by (cases "createWorker h rnd host (Some a) body s") (auto simp: d split: reply.split)
  show "ownsWorker owner (fst (getByNodeID (trimSpace n) (sv_now s) (wh_offlineTTL h) (sv_db s))) \<or>
     (\<exists>fs. snd (deleteWorker i h (Some a) n s) = Some (s\<lparr>sv_db := (sv_db s)\<lparr>db_faults := fs\<rparr>\<rparr>))"
  proof (cases "owner = []")
    case True
    then have "snd (deleteWorker i h (Some a) n s) = Some (s\<lparr>sv_db := (sv_db s)\<lparr>db_faults := db_faults (sv_db s)\<rparr>\<rparr>)"
      by (simp add: deleteWorker_def resolveWorkerAccessScope_def d)
    then show ?thesis by blast
  next
    case False
    with deleteWorker_own [OF assms(2), of n s h i] show ?thesis by (auto simp: d)
  qed
qed

definition demoHandler :: worker_handler where
  "demoHandler = \<lparr>wh_offlineTTL = 15 * second, wh_consoleGRPCAddr = '':50051''\<rparr>"

definition demoAlice :: sessionAccount where
  "demoAlice = \<lparr>sa_accountID = ''alice'', sa_username = ''alice'', sa_isAdmin = False\<rparr>"

text \<open>Bob's system worker n1, which Alice asks to delete.\<close>

definition demoBobs :: service where
  "demoBobs = snd (createProvisionedWorkerForOwner [Inr (''n1'', ''k1'')] ''bob'' ''worker-sys'' 5 0 demoFresh)"

lemma own_workers_only_witness:
  "\<exists>fs. snd (deleteWorker id demoHandler (Some demoAlice) ''n1'' demoBobs) = Some (demoBobs\<lparr>sv_db := (sv_db demoBobs)\<lparr>db_faults := fs\<rparr>\<rparr>)"
proof -
  have "\<not> ownsWorker (trimSpace (sa_accountID demoAlice)) (fst (getByNodeID (trimSpace ''n1'') (sv_now demoBobs) (wh_offlineTTL demoHandler) (sv_db demoBobs)))"
    by code_simp
  moreover have "\<not> sa_isAdmin demoAlice" by (simp add: demoAlice_def)
  ultimately show ?thesis
    using own_workers_only [of demoAlice demoHandler "\<lambda>_. None" demoBobs "[]" "[]" None "''n1''" id] by blast
qed


section \<open>The address in the startup command\<close>

lemma takeWhile_sep: "c \<notin> set p \<Longrightarrow> takeWhile (\<lambda>x. x \<noteq> c) (p @ c # r) = p"
  by (induction p) auto

text \<open>A host and a port that need no escaping.\<close>

definition plainHost :: "string \<Rightarrow> bool" where
  "plainHost host \<longleftrightarrow> host \<noteq> [] \<and> list_all (\<lambda>c. plain_byte c \<and> c \<noteq> CHR ''['' \<and> c \<noteq> CHR '']'') host"

definition plainPort :: "string \<Rightarrow> bool" where
  "plainPort port \<longleftrightarrow> port \<noteq> [] \<and> list_all (\<lambda>c. plain_byte c \<and> c \<notin> {CHR '':'', CHR ''['', CHR '']''}) port"

lemma hostport_roundtrip:
  assumes "CHR ''['' \<notin> set host" "CHR '']'' \<notin> set host" "set port \<inter> {CHR '':'', CHR ''['', CHR '']''} = {}"
  shows "splitHostPort (joinHostPort host port) = Some (host, port)"
proof (cases "CHR '':'' \<in> set host")
  case True
  let ?s = "''['' @ host @ '']:'' @ port"
  have "takeWhile (\<lambda>c. c \<noteq> CHR '':'') (rev ?s) = rev port"
    using assms(3) takeWhile_sep [of "CHR '':''" "rev port" "CHR '']'' # rev host @ ''[''"] by simp
  moreover have "takeWhile (\<lambda>c. c \<noteq> CHR '']'') (tl ?s) = host"
    using assms(2) takeWhile_sep [of "CHR '']''" host "'':'' @ port"] by simp
  ultimately have "splitHostPort ?s = Some (host, port)"
    using assms unfolding splitHostPort_def Let_def by auto
  with True show ?thesis by (simp add: joinHostPort_def)
next
  case False
  let ?s = "host @ '':'' @ port"
  have "takeWhile (\<lambda>c. c \<noteq> CHR '':'') (rev ?s) = rev port"
    using assms(3) takeWhile_sep [of "CHR '':''" "rev port" "rev host"] by simp
  moreover have "take 1 ?s \<noteq> ''[''" using assms(1) by (cases host) auto
  ultimately have "splitHostPort ?s = Some (host, port)"
    using assms False unfolding splitHostPort_def Let_def by auto
  with False show ?thesis by (simp add: joinHostPort_def)
qed

lemma plain_trim: "list_all plain_byte s \<Longrightarrow> trimSpace s = s"
  by (cases "s = []") (auto simp: list_all_iff intro!: trimmed_id trimmed_plain_ends)

lemma plain_brackets: "plain_byte (CHR ''['')" "plain_byte (CHR '']'')" "plain_byte (CHR '':'')"
  by code_simp+

lemma plain_parts:
  "plainHost h \<Longrightarrow> trimSpace h = h" "plainPort p \<Longrightarrow> trimSpace p = p"
  "plainHost h \<Longrightarrow> plainPort p \<Longrightarrow> trimSpace (joinHostPort h p) = joinHostPort h p"
  by (rule plain_trim; auto simp: plainHost_def plainPort_def joinHostPort_def plain_brackets elim: list.pred_mono_strong)+

text \<open>The address that a new worker is told to connect to always has a port and a host that is not a wildcard address,
  whatever the console listens on and whatever host the request names; a console that listens on a definite host and
  port, IPv6 included, is named exactly as configured, and the text splits into that host and port again.\<close>

theorem startup_target:
  shows "(\<exists>host port. resolveWorkerGRPCTarget addr reqHost = joinHostPort host port \<and> \<not> isWildcardHost host \<and> port \<noteq> []) \<and>
    (plainHost h \<and> plainPort p \<and> \<not> isWildcardHost h \<longrightarrow>
      resolveWorkerGRPCTarget (joinHostPort h p) reqHost = joinHostPort h p \<and> splitHostPort (joinHostPort h p) = Some (h, p))"
proof (intro conjI impI)
  obtain h0 p0 where hp: "parseAddrHostPort (trimSpace addr) = (h0, p0)" by (cases "parseAddrHostPort (trimSpace addr)")
  let ?port = "if p0 = [] then defaultWorkerGRPCPort else p0"
  let ?h1 = "if h0 = [] \<or> isWildcardHost h0 then parseRequestHost reqHost else h0"
  let ?host = "if ?h1 = [] \<or> isWildcardHost ?h1 then defaultWorkerGRPCHost else ?h1"
  have "resolveWorkerGRPCTarget addr reqHost = joinHostPort ?host ?port" by (simp add: resolveWorkerGRPCTarget_def hp Let_def)
  moreover have "\<not> isWildcardHost defaultWorkerGRPCHost" "defaultWorkerGRPCPort \<noteq> []" by code_simp+
  ultimately show "\<exists>host port. resolveWorkerGRPCTarget addr reqHost = joinHostPort host port \<and> \<not> isWildcardHost host \<and> port \<noteq> []"
    by (intro exI [of _ ?host] exI [of _ ?port]) auto
next
  assume a: "plainHost h \<and> plainPort p \<and> \<not> isWildcardHost h"
  then have rt: "splitHostPort (joinHostPort h p) = Some (h, p)"
    by (intro hostport_roundtrip) (auto simp: plainHost_def plainPort_def list_all_iff)
  then show "splitHostPort (joinHostPort h p) = Some (h, p)" .
  have "joinHostPort h p \<noteq> []" by (simp add: joinHostPort_def)
  moreover have "\<not> prefix '':'' (joinHostPort h p)" using a by (cases h) (auto simp: joinHostPort_def plainHost_def)
  ultimately have "parseAddrHostPort (trimSpace (joinHostPort h p)) = (h, p)"
    using a rt by (simp add: parseAddrHostPort_def plain_parts)
  then show "resolveWorkerGRPCTarget (joinHostPort h p) reqHost = joinHostPort h p"
    using a by (simp add: resolveWorkerGRPCTarget_def plainHost_def plainPort_def)
qed

lemma startup_target_witness:
  "resolveWorkerGRPCTarget (joinHostPort ''::1'' ''50051'') ''console.example:8089'' = ''[::1]:50051''"
proof -
  have "plainHost ''::1'' \<and> plainPort ''50051'' \<and> \<not> isWildcardHost ''::1''" by code_simp
  with startup_target [of _ "''console.example:8089''" "''::1''" "''50051''"]
  have "resolveWorkerGRPCTarget (joinHostPort ''::1'' ''50051'') ''console.example:8089'' = joinHostPort ''::1'' ''50051''" by blast
  then show ?thesis by (simp add: joinHostPort_def)
qed

section \<open>Large page numbers\<close>

text \<open>The page number of the query is any positive 64-bit number, so that the start index can overflow; the listing then
  panics and gin answers 500, where the page is just empty for every smaller number.\<close>

lemma list_page_panics:
  assumes "q ''page'' = Some ''9223372036854775807''" "q ''page_size'' = None" "q ''status'' = None"
    and "resolveWorkerAccessScope acct = Some scope"
  shows "fst (listWorkers h acct q s) = Bare 500"
proof -
  have "digitValue (CHR ''9'') = Some 9" "digitValue (CHR ''2'') = Some 2" "digitValue (CHR ''3'') = Some 3"
    "digitValue (CHR ''7'') = Some 7" "digitValue (CHR ''0'') = Some 0" "digitValue (CHR ''6'') = Some 6"
    "digitValue (CHR ''8'') = Some 8" "digitValue (CHR ''5'') = Some 5" "digitValue (CHR ''4'') = Some 4" by code_simp+
  then have a: "atoi ''9223372036854775807'' = Some (2 ^ 63 - 1)" by (simp add: atoi_def decimalValue_def Let_def)
  have p: "paginate (2 ^ 63 - 1) 20 xs = None" for xs :: "workerView list"
  proof -
    have "wrap64 (wrap64 (2 ^ 63 - 1 - 1) * 20) = - 40" "wrap64 (- 40 + 20) = - 20" by (simp_all add: wrap64_def)
    then show ?thesis by (simp add: paginate_def Let_def go_slice_def)
  qed
  then have l: "fst (listScoped status (2 ^ 63 - 1) 20 now ttl owner kind d) = None" for status now ttl owner kind d
    by (simp add: listScoped_def split: prod.split)
  obtain owner isAdmin where "scope = (owner, isAdmin)" by (cases scope)
  with assms a l show ?thesis
    by (simp add: listWorkers_def parsePositiveIntQuery_def parseWorkerStatus_def maxPageSize_def onStore_def case_prod_unfold
        Let_def)
qed

end
