(* ===== verification/Router.thy ===== *)
theory Router
  imports McpServer WorkerHandlers AccountProperties
begin

text \<open>
  The router of the console, \<open>NewRouter\<close> in \<open>console/internal/httpapi/worker_handler.go\<close>, and with it the console's HTTP
  side as one function: the routes with their guards, the binding of request bodies, and the handlers of all the files
  of \<open>httpapi\<close> over one state. Matching a path with the routes is gin's; a request comes with the endpoint it found and
  the value of the path's parameter.
\<close>

section \<open>Routes\<close>

datatype endpoint =
    McpEndpoint
  | CommandsEcho | CommandsTerminal | CommandsComputerUse | TasksCreate | TasksGet | TasksCancel
  | ConsoleLogin | ConsoleLogout | ConsoleSession | ConsolePassword
  | TokensList | TokensCreate | TokensDelete | TokensValue | ConsoleRegister
  | WorkersList | WorkersStats | WorkersInflight | WorkersCreate | WorkersDelete | WorkersStartupCommand
  | AccountsList | AccountsDelete
  | WebFile

text \<open>No guard, \<open>RequireToken\<close>, \<open>RequireAuth\<close>, and \<open>RequireAuth\<close> followed by \<open>RequireAdmin\<close>.\<close>

datatype guard = NoGuard | TokenGuard | SessionGuard | AdminGuard

text \<open>The method \<open>ANY\<close> stands for all of them.\<close>

definition execRoutes :: "(string \<times> string \<times> guard \<times> endpoint) list" where
  "execRoutes =
     [(''ANY'', ''/mcp'', TokenGuard, McpEndpoint),
      (''POST'', ''/api/v1/commands/echo'', TokenGuard, CommandsEcho),
      (''POST'', ''/api/v1/commands/terminal'', TokenGuard, CommandsTerminal),
      (''POST'', ''/api/v1/commands/computer-use'', TokenGuard, CommandsComputerUse),
      (''POST'', ''/api/v1/tasks'', TokenGuard, TasksCreate),
      (''GET'', ''/api/v1/tasks/:task_id'', TokenGuard, TasksGet),
      (''POST'', ''/api/v1/tasks/:task_id/cancel'', TokenGuard, TasksCancel)]"

definition consoleRoutes :: "(string \<times> string \<times> guard \<times> endpoint) list" where
  "consoleRoutes =
     [(''POST'', ''/api/v1/console/login'', NoGuard, ConsoleLogin),
      (''POST'', ''/api/v1/console/logout'', NoGuard, ConsoleLogout),
      (''GET'', ''/api/v1/console/session'', SessionGuard, ConsoleSession),
      (''POST'', ''/api/v1/console/password'', SessionGuard, ConsolePassword),
      (''GET'', ''/api/v1/console/tokens'', SessionGuard, TokensList),
      (''POST'', ''/api/v1/console/tokens'', SessionGuard, TokensCreate),
      (''DELETE'', ''/api/v1/console/tokens/:token_id'', SessionGuard, TokensDelete),
      (''GET'', ''/api/v1/console/tokens/:token_id/value'', SessionGuard, TokensValue),
      (''POST'', ''/api/v1/console/register'', AdminGuard, ConsoleRegister),
      (''GET'', ''/api/v1/workers'', SessionGuard, WorkersList),
      (''GET'', ''/api/v1/workers/stats'', SessionGuard, WorkersStats),
      (''GET'', ''/api/v1/workers/inflight'', SessionGuard, WorkersInflight),
      (''POST'', ''/api/v1/workers'', SessionGuard, WorkersCreate),
      (''DELETE'', ''/api/v1/workers/:node_id'', SessionGuard, WorkersDelete),
      (''GET'', ''/api/v1/workers/:node_id/startup-command'', SessionGuard, WorkersStartupCommand),
      (''GET'', ''/api/v1/console/accounts'', AdminGuard, AccountsList),
      (''DELETE'', ''/api/v1/console/accounts/:account_id'', AdminGuard, AccountsDelete)]"

text \<open>The worker routes of a router that is built without console accounts; they have no guard.\<close>

definition openWorkerRoutes :: "(string \<times> string \<times> guard \<times> endpoint) list" where
  "openWorkerRoutes =
     [(''GET'', ''/api/v1/workers'', NoGuard, WorkersList),
      (''GET'', ''/api/v1/workers/stats'', NoGuard, WorkersStats),
      (''GET'', ''/api/v1/workers/inflight'', NoGuard, WorkersInflight),
      (''POST'', ''/api/v1/workers'', NoGuard, WorkersCreate),
      (''DELETE'', ''/api/v1/workers/:node_id'', NoGuard, WorkersDelete)]"

text \<open>\<open>registerEmbeddedWebRoutes\<close>; every other path is answered 404.\<close>

definition registerEmbeddedWebRoutes :: "(string \<times> string \<times> guard \<times> endpoint) list" where
  "registerEmbeddedWebRoutes =
     [(''GET'', ''/'', NoGuard, WebFile), (''HEAD'', ''/'', NoGuard, WebFile), (''GET'', ''/favicon.ico'', NoGuard, WebFile),
      (''GET'', ''/onlyboxes.avif'', NoGuard, WebFile), (''GET'', ''/assets/*filepath'', NoGuard, WebFile)]"

text \<open>The console always passes its accounts to \<open>NewRouter\<close>; the argument says whether there are any.\<close>

definition newRouter :: "bool \<Rightarrow> (string \<times> string \<times> guard \<times> endpoint) list" where
  "newRouter hasConsole = execRoutes @ (if hasConsole then consoleRoutes else openWorkerRoutes) @ registerEmbeddedWebRoutes"

definition guardOf :: "bool \<Rightarrow> endpoint \<Rightarrow> guard option" where
  "guardOf hasConsole e = map_option (\<lambda>(_, _, g, _). g) (List.find (\<lambda>(_, _, _, e'). e' = e) (newRouter hasConsole))"

section \<open>Request bodies\<close>

text \<open>\<open>ShouldBindJSON\<close> into the request structs. A \<open>*string\<close> field, and \<open>json.RawMessage\<close>, which takes any value as it
  is.\<close>

fun storeStrPtr :: "string option option \<Rightarrow> json \<Rightarrow> string option option" where
  "storeStrPtr None _ = None"
| "storeStrPtr (Some _) (JStr t) = Some (Some t)"
| "storeStrPtr (Some _) JNull = Some None"
| "storeStrPtr (Some _) _ = None"

fun storeRaw :: "payload option \<Rightarrow> json \<Rightarrow> payload option" where
  "storeRaw None _ = None"
| "storeRaw (Some _) j = Some (Document j)"

definition bindTerminalCommand :: "payload \<Rightarrow> terminalCommandRequest option" where
  "bindTerminalCommand p = Option.bind (objectEntries p) (\<lambda>es.
     case (fieldStr ''command'' es, fieldStr ''session_id'' es, fieldBool ''create_if_missing'' es,
           fieldIntPtr ''lease_ttl_sec'' es, fieldIntPtr ''timeout_ms'' es, fieldStr ''request_id'' es) of
       (Some c, Some sid, Some b, Some l, Some t, Some r) \<Rightarrow>
         Some \<lparr>xq_command = c, xq_sessionID = sid, xq_createIfMissing = b, xq_leaseTTLSec = l, xq_timeoutMS = t,
           xq_requestID = r\<rparr>
     | _ \<Rightarrow> None)"

definition bindTaskSubmission :: "payload \<Rightarrow> taskSubmission option" where
  "bindTaskSubmission p = Option.bind (objectEntries p) (\<lambda>es.
     case (fieldStr ''capability'' es, decodeField storeRaw emptyBytes ''input'' es, fieldStr ''mode'' es,
           fieldIntPtr ''wait_ms'' es, fieldIntPtr ''timeout_ms'' es, fieldStr ''request_id'' es) of
       (Some c, Some i, Some m, Some w, Some t, Some r) \<Rightarrow>
         Some \<lparr>hq_capability = c, hq_input = i, hq_mode = m, hq_waitMS = w, hq_timeoutMS = t, hq_requestID = r\<rparr>
     | _ \<Rightarrow> None)"

definition bindLogin :: "payload \<Rightarrow> loginRequest option" where
  "bindLogin p = Option.bind (objectEntries p) (\<lambda>es.
     case (fieldStr ''username'' es, fieldStr ''password'' es) of
       (Some u, Some w) \<Rightarrow> Some \<lparr>lr_username = u, lr_password = w\<rparr> | _ \<Rightarrow> None)"

definition bindChangePassword :: "payload \<Rightarrow> changePasswordRequest option" where
  "bindChangePassword p = Option.bind (objectEntries p) (\<lambda>es.
     case (fieldStr ''current_password'' es, fieldStr ''new_password'' es) of
       (Some u, Some w) \<Rightarrow> Some \<lparr>cp_currentPassword = u, cp_newPassword = w\<rparr> | _ \<Rightarrow> None)"

definition bindCreateToken :: "payload \<Rightarrow> (string \<times> string option) option" where
  "bindCreateToken p = Option.bind (objectEntries p) (\<lambda>es.
     case (fieldStr ''name'' es, decodeField storeStrPtr None ''token'' es) of
       (Some n, Some t) \<Rightarrow> Some (n, t) | _ \<Rightarrow> None)"

definition bindCreateWorker :: "payload \<Rightarrow> string option" where
  "bindCreateWorker p = Option.bind (objectEntries p) (fieldStr ''type'')"

section \<open>State, requests and answers\<close>

text \<open>The database and the clock are shared by the registry service and the console's accounts.\<close>

record server =
  srv_service :: service
  srv_sessions :: "(string \<times> accountSessionState) list"
  srv_registrationEnabled :: bool
  srv_handler :: worker_handler
  srv_hasConsole :: bool

definition consoleOf :: "server \<Rightarrow> console" where
  "consoleOf srv = \<lparr>cn_db = sv_db (srv_service srv), cn_registrationEnabled = srv_registrationEnabled srv,
     cn_sessions = srv_sessions srv, cn_now = sv_now (srv_service srv)\<rparr>"

definition putConsole :: "console \<Rightarrow> server \<Rightarrow> server" where
  "putConsole c srv = srv\<lparr>srv_service := (srv_service srv)\<lparr>sv_db := cn_db c, sv_now := cn_now c\<rparr>,
     srv_sessions := cn_sessions c\<rparr>"

record http_request =
  hr_endpoint :: "endpoint option"
  hr_param :: string
  hr_authorization :: string
  hr_cookie :: "string option"
  hr_host :: string
  hr_query :: query_params
  hr_body :: payload

text \<open>What surrounds one request: the parameters of the model, the random numbers and ids it draws, and what other
  goroutines do between its steps.\<close>

record request_env =
  qe_hash :: "string \<Rightarrow> string"
  qe_bcrypt :: bcrypt
  qe_random :: random
  qe_accountRandom :: "random list"
  qe_tokenRandom :: "(random \<times> random) list"
  qe_workerRandom :: "(go_error + string \<times> string) list"
  qe_mcp :: mcp_env
  qe_between :: "server \<Rightarrow> server"
  qe_serviceStep :: "service \<Rightarrow> service"
  qe_consoleStep :: "console \<Rightarrow> console"
  qe_dbStep :: "db \<Rightarrow> db"

datatype http_body =
    NoBody | McpBody mcp_reply | EchoBody string | TerminalBody terminalCommandResponse
  | ComputerUseBody computerUseCommandResponse | TaskBody taskResponse | SessionBody sessionAccount bool
  | AccountBody createdAccount | AccountsBody "accountListItem list" int int int | TokensBody "trustedTokenItem list"
  | TokenBody trustedTokenRecord | WorkersBody listWorkersResponse | WorkerBody workerStartupCommandResponse
  | StatsBody workerStatsResponse | InflightBody workerInflightResponse | FileBody

text \<open>The reply with what becomes of the session cookie, and the goroutines started; \<open>None\<close> is a request that is never
  answered, or one that stops the process.\<close>

type_synonym http_answer = "(((http_body reply \<times> cookie) \<times> launch list) \<times> server) option"

definition onServiceOf :: "('b \<Rightarrow> http_body) \<Rightarrow> (service \<Rightarrow> 'b reply \<times> service) \<Rightarrow> server \<Rightarrow> http_answer" where
  "onServiceOf f h srv =
     (case h (srv_service srv) of
        (r, s) \<Rightarrow> Some (((map_reply f r, CookieUnchanged), []), srv\<lparr>srv_service := s\<rparr>))"

definition onTasksOf :: "('b \<Rightarrow> http_body) \<Rightarrow> (service \<Rightarrow> 'b handled_task) \<Rightarrow> server \<Rightarrow> http_answer" where
  "onTasksOf f h srv = map_option
     (\<lambda>((r, l), s). (((map_reply f r, CookieUnchanged), case l of None \<Rightarrow> [] | Some l \<Rightarrow> [l]), srv\<lparr>srv_service := s\<rparr>))
     (h (srv_service srv))"

definition onConsoleOf :: "('b \<Rightarrow> http_body) \<Rightarrow> (console \<Rightarrow> 'b handled) \<Rightarrow> server \<Rightarrow> http_answer" where
  "onConsoleOf f h srv =
     (case h (consoleOf srv) of ((r, ck), c) \<Rightarrow> Some (((map_reply f r, ck), []), putConsole c srv))"

section \<open>Serving a request\<close>

text \<open>The handlers, behind the guards: with the owner that \<open>RequireToken\<close> or the account that \<open>RequireAuth\<close> left in
  the request.\<close>

definition handleEndpoint ::
  "request_env \<Rightarrow> http_request \<Rightarrow> string option \<Rightarrow> sessionAccount option \<Rightarrow> endpoint \<Rightarrow> server \<Rightarrow> http_answer" where
  "handleEndpoint env req owner acct e srv =
     (let p = hr_param req; q = hr_query req; body = hr_body req; h = srv_handler srv; m = qe_mcp env
      in case e of
        McpEndpoint \<Rightarrow> map_option (\<lambda>((r, ls), s). (((Reply 200 (McpBody r), CookieUnchanged), ls), srv\<lparr>srv_service := s\<rparr>))
          (mcpHandler m owner body (srv_service srv))
      | CommandsEcho \<Rightarrow> map_option (\<lambda>(r, s). (((map_reply EchoBody r, CookieUnchanged), []), srv\<lparr>srv_service := s\<rparr>))
          (echoCommand (me_dispatch m) (decodeEchoToolInput body) (srv_service srv))
      | CommandsTerminal \<Rightarrow> onTasksOf TerminalBody (terminalCommand (me_submit m) owner (bindTerminalCommand body)) srv
      | CommandsComputerUse \<Rightarrow> onTasksOf ComputerUseBody (computerUseCommand (me_submit m) owner (decodeComputerUseInput body)) srv
      | TasksCreate \<Rightarrow> onTasksOf TaskBody (submitTaskHandler (me_submit m) owner (bindTaskSubmission body)) srv
      | TasksGet \<Rightarrow> onServiceOf TaskBody (getTaskHandler owner p) srv
      | TasksCancel \<Rightarrow> onServiceOf TaskBody (cancelTaskHandler (qe_serviceStep env) owner p) srv
      | ConsoleLogin \<Rightarrow> onConsoleOf (\<lambda>(a, b). SessionBody a b) (login (qe_consoleStep env) (qe_bcrypt env) (qe_random env) (bindLogin body)) srv
      | ConsoleLogout \<Rightarrow> onConsoleOf (\<lambda>_. NoBody) (logout (hr_cookie req)) srv
      | ConsoleSession \<Rightarrow> onConsoleOf (\<lambda>(a, b). SessionBody a b) (session acct) srv
      | ConsolePassword \<Rightarrow> onConsoleOf (\<lambda>_. NoBody)
          (changePassword (qe_consoleStep env) (qe_bcrypt env) (qe_random env) acct (bindChangePassword body)) srv
      | TokensList \<Rightarrow> onConsoleOf TokensBody (listTokens acct) srv
      | TokensCreate \<Rightarrow> onConsoleOf TokenBody
          (createToken (qe_dbStep env) (qe_hash env) (qe_tokenRandom env) acct (bindCreateToken body)) srv
      | TokensDelete \<Rightarrow> onConsoleOf (\<lambda>_. NoBody) (deleteToken acct p) srv
      | TokensValue \<Rightarrow> onServiceOf (\<lambda>_. NoBody) (Pair (getTokenValue p)) srv
      | ConsoleRegister \<Rightarrow> onConsoleOf AccountBody
          (register (qe_dbStep env) (qe_bcrypt env) (qe_accountRandom env) acct (bindLogin body)) srv
      | WorkersList \<Rightarrow> onServiceOf WorkersBody (listWorkers h acct q) srv
      | WorkersStats \<Rightarrow> onServiceOf StatsBody (workerStatsHandler h acct q) srv
      | WorkersInflight \<Rightarrow> onServiceOf InflightBody (workerInflight acct) srv
      | WorkersCreate \<Rightarrow> onServiceOf WorkerBody (createWorker h (qe_workerRandom env) (hr_host req) acct (bindCreateWorker body)) srv
      | WorkersDelete \<Rightarrow>
          (case deleteWorker (qe_serviceStep env) h acct p (srv_service srv) of
             (_, None) \<Rightarrow> None
           | (r, Some s) \<Rightarrow> Some (((map_reply (\<lambda>_. NoBody) r, CookieUnchanged), []), srv\<lparr>srv_service := s\<rparr>))
      | WorkersStartupCommand \<Rightarrow> onServiceOf (\<lambda>_. NoBody) (Pair (getWorkerStartupCommand p)) srv
      | AccountsList \<Rightarrow> onConsoleOf (\<lambda>(items, n, pg, k). AccountsBody items n pg k)
          (listAccounts (parsePositiveIntQuery q ''page'' 1) (parsePositiveIntQuery q ''page_size'' 20)) srv
      | AccountsDelete \<Rightarrow> onConsoleOf (\<lambda>_. NoBody) (deleteAccount (qe_consoleStep env) acct p) srv
      | WebFile \<Rightarrow> Some (((Reply 200 FileBody, CookieUnchanged), []), srv))"

text \<open>A guard refuses the request, or lets it go on with the owner or the account; other requests run in between.\<close>

definition guardRequest ::
  "request_env \<Rightarrow> http_request \<Rightarrow> guard \<Rightarrow> server \<Rightarrow>
   ((http_body reply \<times> cookie) + string option \<times> sessionAccount option) \<times> server" where
  "guardRequest env req g srv = (case g of
     NoGuard \<Rightarrow> (Inr (None, None), srv)
   | TokenGuard \<Rightarrow>
       (case requireToken (qe_hash env) (hr_authorization req) (consoleOf srv) of
          (Inl r, c) \<Rightarrow> (Inl (r, CookieUnchanged), putConsole c srv)
        | (Inr owner, c) \<Rightarrow> (Inr (owner, None), putConsole c srv))
   | SessionGuard \<Rightarrow>
       (case requireAuth (hr_cookie req) (consoleOf srv) of
          (Inl r, c) \<Rightarrow> (Inl r, putConsole c srv)
        | (Inr acct, c) \<Rightarrow> (Inr (None, acct), putConsole c srv))
   | AdminGuard \<Rightarrow>
       (case requireAuth (hr_cookie req) (consoleOf srv) of
          (Inl r, c) \<Rightarrow> (Inl r, putConsole c srv)
        | (Inr acct, c) \<Rightarrow>
            (case requireAdmin acct of
               Inl r \<Rightarrow> (Inl r, putConsole c srv)
             | Inr _ \<Rightarrow> (Inr (None, acct), putConsole c srv))))"

definition serveRequest :: "request_env \<Rightarrow> http_request \<Rightarrow> server \<Rightarrow> http_answer" where
  "serveRequest env req srv =
     (case Option.bind (hr_endpoint req) (\<lambda>e. map_option (Pair e) (guardOf (srv_hasConsole srv) e)) of
        None \<Rightarrow> Some (((Bare 404, CookieUnchanged), []), srv)
      | Some (e, g) \<Rightarrow>
          (case guardRequest env req g srv of
             (Inl r, srv) \<Rightarrow> Some ((r, []), srv)
           | (Inr (owner, acct), srv) \<Rightarrow> handleEndpoint env req owner acct e (qe_between env srv)))"

end
