(* ===== verification/HttpProperties.thy ===== *)
theory HttpProperties
  imports Router
begin

text \<open>
  What the HTTP side of the console guarantees: a request acts for the account of its token and nobody else, without a
  token or a session it changes nothing, and what a handler lets through the task engine accepts.
\<close>

section \<open>For whom a request acts\<close>

text \<open>A started goroutine acts for the account: it runs under its id and asks for no terminal session but one of it.\<close>

definition actsFor :: "string \<Rightarrow> launch \<Rightarrow> bool" where
  "actsFor ow l \<longleftrightarrow> ow \<noteq> [] \<and> ln_ownerID l = ow \<and>
     (let sid = terminalSessionIDFromPayload (ln_capability l) (ln_inputJSON l)
      in sid = [] \<or> prefix (taskOwnerScopePrefix @ '':'' @ ow @ '':'') sid)"

lemma created_launch: "createTask env v s = Some ((r, Some l), s') \<Longrightarrow> l = launchOf (ln_taskID l) v"
  by (erule createTask_cases) (auto simp: launchOf_def dest: resolveExisting_launch)

lemma submitted:
  assumes "submitTask env req s = Some ((r, Some l), s')"
  obtains v where "validateSubmit (su_sessionID env) req = Inr v" "l = launchOf (ln_taskID l) v"
  using assms by (rule submitTask_cases) (auto dest: resolveExisting_launch created_launch)

lemma validated_owner:
  assumes "validateSubmit newID req = Inr v"
  shows "vr_ownerID v = normalizeTaskOwnerID (rq_ownerID req)" "normalizeTaskOwnerID (rq_ownerID req) \<noteq> []"
    "\<exists>inp. scopeTaskInputByOwner newID (vr_capability v) (normalizeTaskOwnerID (rq_ownerID req)) inp = Inr (vr_inputJSON v)"
  using assms by (auto simp: validateSubmit_def Let_def split: if_splits option.splits sum.splits)

lemma submit_acts:
  assumes "submitTask env req s = Some ((r, Some l), s')"
  shows "actsFor (normalizeTaskOwnerID (rq_ownerID req)) l"
proof -
  let ?ow = "normalizeTaskOwnerID (rq_ownerID req)"
  obtain v where v: "validateSubmit (su_sessionID env) req = Inr v" "l = launchOf (ln_taskID l) v"
    by (rule submitted [OF assms])
  note o = validated_owner [OF v(1)]
  obtain inp where "scopeTaskInputByOwner (su_sessionID env) (vr_capability v) ?ow inp = Inr (vr_inputJSON v)"
    using o(3) by blast
  from scoped_input_owner [OF this] o(2)
  have "terminalSessionIDFromPayload (vr_capability v) (vr_inputJSON v) = [] \<or>
      prefix (taskOwnerScopePrefix @ '':'' @ ?ow @ '':'') (terminalSessionIDFromPayload (vr_capability v) (vr_inputJSON v))"
    by (auto simp: scope_nonblank(1))
  moreover have "ln_ownerID l = vr_ownerID v" "ln_capability l = vr_capability v" "ln_inputJSON l = vr_inputJSON v"
    using v(2) by (metis launch.simps launchOf_def)+
  ultimately show ?thesis using o(1,2) by (simp add: actsFor_def Let_def)
qed

text \<open>The handlers and the tools submit for the owner of the request, and without one they submit nothing.\<close>

lemma replyTask_launch: "replyTask f a = Some ((r, Some l), s') \<Longrightarrow> \<exists>x. a = Some ((x, Some l), s')"
  by (auto simp: replyTask_def)

lemma refuse_launch [simp]: "refuseTask r s = Some ((r', Some l), s') \<longleftrightarrow> False"
  by (simp add: refuseTask_def)

lemma runTool_launch: "runTool f a = Some ((r, ls), s') \<Longrightarrow> l \<in> set ls \<Longrightarrow> \<exists>x. a = Some ((x, Some l), s')"
  by (auto simp: runTool_def split: option.splits)

lemma refuseTool_launch: "refuseTool e s = Some ((r, ls), s') \<Longrightarrow> ls = []"
  by (auto simp: refuseTool_def)

lemmas launches_for = submit_acts [THEN conjI [OF refl], folded normalizeTaskOwnerID_def]

lemma handlers_launch:
  "terminalCommand env owner b1 s = Some ((r1, Some l), s') \<Longrightarrow> \<exists>ow. owner = Some ow \<and> actsFor (trimSpace ow) l"
  "computerUseCommand env owner b2 s = Some ((r2, Some l), s') \<Longrightarrow> \<exists>ow. owner = Some ow \<and> actsFor (trimSpace ow) l"
  "submitTaskHandler env owner b3 s = Some ((r3, Some l), s') \<Longrightarrow> \<exists>ow. owner = Some ow \<and> actsFor (trimSpace ow) l"
  by (auto simp: terminalCommand_def computerUseCommand_def submitTaskHandler_def requireRequestOwnerID_def Let_def
      terminalSubmission_def computerUseSubmission_def taskSubmissionOf_def normalizeTaskOwnerID_def
      split: option.splits if_splits dest!: replyTask_launch submit_acts)

lemma tools_launch:
  "handleMCPPythonExecTool env owner code t s = Some ((r1, ls), s') \<Longrightarrow> l \<in> set ls \<Longrightarrow> \<exists>ow. owner = Some ow \<and> actsFor (trimSpace ow) l"
  "handleMCPTerminalExecTool env owner i1 s = Some ((r2, ls), s') \<Longrightarrow> l \<in> set ls \<Longrightarrow> \<exists>ow. owner = Some ow \<and> actsFor (trimSpace ow) l"
  "handleMCPComputerUseTool env owner i2 s = Some ((r3, ls), s') \<Longrightarrow> l \<in> set ls \<Longrightarrow> \<exists>ow. owner = Some ow \<and> actsFor (trimSpace ow) l"
  "callResourceCapability env owner c p n s = Some ((r4, ls), s') \<Longrightarrow> l \<in> set ls \<Longrightarrow> \<exists>ow. owner = Some ow \<and> actsFor (trimSpace ow) l"
  by (auto simp: handleMCPPythonExecTool_def handleMCPTerminalExecTool_def handleMCPComputerUseTool_def
      callResourceCapability_def Let_def toolSubmission_def normalizeTaskOwnerID_def
      split: option.splits if_splits dest: refuseTool_launch dest!: runTool_launch submit_acts)

lemma readImage_launch:
  "handleMCPReadImageTool e1 e2 owner inp s = Some ((r, ls), s') \<Longrightarrow> l \<in> set ls \<Longrightarrow> \<exists>ow. owner = Some ow \<and> actsFor (trimSpace ow) l"
  unfolding handleMCPReadImageTool_def Let_def
  by (auto split: if_splits option.splits prod.splits sum.splits dest: refuseTool_launch tools_launch(4))

lemma toolAnswer_launch: "toolAnswer f a = Some ((r, ls), s') \<Longrightarrow> \<exists>x. a = Some ((x, ls), s')"
  by (auto simp: toolAnswer_def)

lemma addTool_launch:
  assumes "addTool sdk sch dec tool args s = Some ((r, ls), s')" "l \<in> set ls"
  shows "\<exists>input. tool input s = Some ((r, ls), s')"
  using assms by (auto simp: addTool_def split: if_splits option.splits)

lemma mcp_launch:
  assumes "mcpHandler m owner body s = Some ((r, ls), s')" "l \<in> set ls"
  shows "\<exists>ow. owner = Some ow \<and> actsFor (trimSpace ow) l"
  using assms
  by (auto simp: mcpHandler_def mcpTool_def split: option.splits if_splits
      dest!: addTool_launch toolAnswer_launch dest: tools_launch readImage_launch)

lemma onTasks_launch: "onTasksOf f h srv = Some ((r, ls), srv') \<Longrightarrow> l \<in> set ls \<Longrightarrow> \<exists>x s'. h (srv_service srv) = Some ((x, Some l), s')"
  by (auto simp: onTasksOf_def split: option.splits)

lemma no_launches: "onServiceOf f h srv = Some ((r, ls), srv') \<Longrightarrow> ls = []" "onConsoleOf f' h' srv = Some ((r, ls), srv') \<Longrightarrow> ls = []"
  by (auto simp: onServiceOf_def onConsoleOf_def split: prod.splits)

lemma endpoint_launch:
  assumes "handleEndpoint env req owner acct e srv = Some ((r, ls), srv')" "l \<in> set ls"
  shows "\<exists>ow. owner = Some ow \<and> actsFor (trimSpace ow) l"
  using assms unfolding handleEndpoint_def Let_def
  by (cases e) (auto dest: no_launches mcp_launch handlers_launch split: option.splits prod.splits dest!: onTasks_launch)

lemma serve_cases:
  assumes "serveRequest env req srv = Some ((r, ls), srv')"
  obtains (nothing) "r = (Bare 404, CookieUnchanged)" "ls = []" "srv' = srv"
  | (refused) e g where "hr_endpoint req = Some e" "guardOf (srv_hasConsole srv) e = Some g" "guardRequest env req g srv = (Inl r, srv')" "ls = []"
  | (handled) e g owner acct srv1 where "hr_endpoint req = Some e" "guardOf (srv_hasConsole srv) e = Some g"
      "guardRequest env req g srv = (Inr (owner, acct), srv1)"
      "handleEndpoint env req owner acct e (qe_between env srv1) = Some ((r, ls), srv')"
  using assms by (auto simp: serveRequest_def split: option.splits prod.splits sum.splits bind_splits)

lemma guard_owner:
  assumes "guardRequest env req g srv = (Inr (Some ow, acct), srv1)"
  shows "g = TokenGuard \<and> acct = None \<and>
    fst (requireToken (qe_hash env) (hr_authorization req) (consoleOf srv)) = (Inr (Some ow) :: http_body reply + string option)"
  using assms by (cases g) (auto simp: guardRequest_def split: prod.splits sum.splits)

text \<open>C22: Whatever request the console serves, a goroutine that it starts runs for the account of an access token: the
  request carried a bearer token whose hash was stored when the token was checked, and the task belongs to the account
  of that row and names no terminal session but one of that account, also when the body asks for another owner's session
  and whatever other requests did in between. A request that only has a dashboard session starts nothing.\<close>

theorem launches_for_token_account:
  assumes "serveRequest env req srv = Some ((r, ls), srv')" and "l \<in> set ls"
  shows "\<exists>tok k. parseBearerToken (hr_authorization req) = Some tok \<and> k \<in> set (db_tokens (sv_db (srv_service srv))) \<and>
    k_token_hash k = qe_hash env (trimSpace tok) \<and> actsFor (trimSpace (k_account_id k)) l"
  using assms(1)
proof (cases rule: serve_cases)
  case (handled e g owner acct srv1)
  from endpoint_launch [OF handled(4) assms(2)] obtain ow where ow: "owner = Some ow" "actsFor (trimSpace ow) l" by blast
  with guard_owner handled(3)
  have "fst (requireToken (qe_hash env) (hr_authorization req) (consoleOf srv)) = (Inr (Some ow) :: http_body reply + string option)"
    by blast
  then obtain tok k where "parseBearerToken (hr_authorization req) = Some tok" "k \<in> set (db_tokens (cn_db (consoleOf srv)))"
      "k_token_hash k = qe_hash env (trimSpace tok)" "ow = trimSpace (k_account_id k)"
    by (rule requireToken_owner)
  with ow(2) show ?thesis by (auto simp: consoleOf_def)
qed (use assms(2) in simp_all)

definition demoMcpEnv :: mcp_env where
  "demoMcpEnv = \<lparr>me_sdk = \<lparr>sdk_call = (\<lambda>_. None), sdk_accepts = (\<lambda>_ _. True)\<rparr>, me_dispatch = demoEnv,
     me_submit = demoSubmitEnv, me_submitRead = demoSubmitEnv\<rparr>"

definition demoHttpEnv :: request_env where
  "demoHttpEnv = \<lparr>qe_hash = Cons (CHR ''h''), qe_bcrypt = demoBcrypt, qe_random = Inr [7], qe_accountRandom = [], qe_tokenRandom = [],
     qe_workerRandom = [], qe_mcp = demoMcpEnv, qe_between = id, qe_serviceStep = id, qe_consoleStep = id, qe_dbStep = id\<rparr>"

definition demoServer :: server where
  "demoServer = \<lparr>srv_service = demoTasks\<lparr>sv_db := (sv_db demoTasks)\<lparr>db_tokens := [\<lparr>k_token_id = ''tok_1'', k_account_id = ''alice'',
       k_name = ''ci'', k_name_key = ''ci'', k_token_hash = ''hobx_1'', k_token_masked = ''obx_***'', k_generated = 1, k_created_at = 0,
       k_updated_at = 0\<rparr>]\<rparr>\<rparr>,
     srv_sessions = [(''s2'', \<lparr>ss_account = sessionOf (demoAccount ''acc_2'' ''bob'' 0), ss_expiresAt = 10000 * second\<rparr>)],
     srv_registrationEnabled = True, srv_handler = \<lparr>wh_offlineTTL = 15 * second, wh_consoleGRPCAddr = '':50051''\<rparr>, srv_hasConsole = True\<rparr>"

definition demoHttp :: "endpoint \<Rightarrow> string \<Rightarrow> string \<Rightarrow> string option \<Rightarrow> payload \<Rightarrow> http_request" where
  "demoHttp e p auth ck body = \<lparr>hr_endpoint = Some e, hr_param = p, hr_authorization = auth, hr_cookie = ck,
     hr_host = ''obx.example'', hr_query = (\<lambda>_. None), hr_body = body\<rparr>"

definition demoPost :: http_request where
  "demoPost = demoHttp TasksCreate [] ''Bearer obx_1'' None (Document (JObj [(''capability'', JStr ''echo''),
     (''input'', JObj [(''message'', JStr ''hi'')]), (''mode'', JStr ''async''), (''request_id'', JStr ''r2'')]))"

theorem launches_for_token_account_witness:
  "\<exists>r l srv'. serveRequest demoHttpEnv demoPost demoServer = Some ((r, [l]), srv') \<and> actsFor ''alice'' l"
proof -
  have "case serveRequest demoHttpEnv demoPost demoServer of None \<Rightarrow> False | Some ((r, ls), srv') \<Rightarrow> length ls = 1"
    by code_simp
  then obtain r l srv' where x: "serveRequest demoHttpEnv demoPost demoServer = Some ((r, [l]), srv')"
    by (cases "serveRequest demoHttpEnv demoPost demoServer") (auto simp: length_Suc_conv)
  from launches_for_token_account [OF x, of l] obtain k where
    "k \<in> set (db_tokens (sv_db (srv_service demoServer)))" "actsFor (trimSpace (k_account_id k)) l" by auto
  moreover have "\<forall>k \<in> set (db_tokens (sv_db (srv_service demoServer))). trimSpace (k_account_id k) = ''alice''" by code_simp
  ultimately show ?thesis using x by auto
qed

section \<open>Requests without credentials\<close>

text \<open>The state up to scripted failures of the database and expired sessions.\<close>

lemma lookup_unknown:
  assumes "\<forall>k \<in> set (db_tokens d). k_token_hash k \<noteq> hash (trimSpace tok)"
  shows "\<exists>fs. lookupTrustedToken hash tok d = (None, d\<lparr>db_faults := fs\<rparr>)"
proof -
  obtain x d' where q: "getTrustedTokenByHash (hash (trimSpace tok)) d = (x, d')" by (cases "getTrustedTokenByHash (hash (trimSpace tok)) d")
  have "\<exists>fs. snd (getTrustedTokenByHash (hash (trimSpace tok)) d) = d\<lparr>db_faults := fs\<rparr>"
    unfolding getTrustedTokenByHash_def getTokenWhere_def
    by (rule dbRun_reads [of _ d]; auto split: option.split)
  moreover have "\<exists>e. x = Inl e"
    using q assms unfolding getTrustedTokenByHash_def getTokenWhere_def
    by (auto elim!: dbRun_cases split: option.splits simp: find_Some_iff)
  ultimately show ?thesis using q by (auto simp: lookupTrustedToken_def)
qed

lemma requireToken_stranger:
  assumes "\<And>tok. parseBearerToken header = Some tok \<Longrightarrow> \<forall>k \<in> set (db_tokens (cn_db c)). k_token_hash k \<noteq> hash (trimSpace tok)"
  shows "\<exists>fs. requireToken hash header c = (Inl (Problem 401 ''invalid or missing token''), c\<lparr>cn_db := (cn_db c)\<lparr>db_faults := fs\<rparr>\<rparr>)"
proof (cases "parseBearerToken header")
  case None
  then have "requireToken hash header c = (Inl (Problem 401 ''invalid or missing token''),
      c\<lparr>cn_db := (cn_db c)\<lparr>db_faults := db_faults (cn_db c)\<rparr>\<rparr>)" by (simp add: requireToken_def)
  then show ?thesis ..
next
  case (Some tok)
  obtain fs where "lookupTrustedToken hash tok (cn_db c) = (None, (cn_db c)\<lparr>db_faults := fs\<rparr>)"
    using lookup_unknown [of "cn_db c" hash tok] assms [OF Some] by blast
  with Some have "requireToken hash header c =
      (Inl (Problem 401 ''invalid or missing token''), c\<lparr>cn_db := (cn_db c)\<lparr>db_faults := fs\<rparr>\<rparr>)"
    by (simp add: requireToken_def onDB_def)
  then show ?thesis ..
qed

lemma requireAuth_stranger:
  assumes "\<And>sid st. ck = Some sid \<Longrightarrow> map_of (cn_sessions c) sid = Some st \<Longrightarrow> ss_expiresAt st \<le> cn_now c"
  shows "\<exists>k ss. requireAuth ck c = (Inl (Problem 401 ''authentication required'', k), c\<lparr>cn_sessions := ss\<rparr>) \<and>
    (\<forall>x. ck \<noteq> Some x \<longrightarrow> map_of ss x = map_of (cn_sessions c) x)"
proof (cases "\<exists>sid st. ck = Some sid \<and> trimSpace sid \<noteq> [] \<and> map_of (cn_sessions c) sid = Some st")
  case True
  then obtain sid st where x: "ck = Some sid" "trimSpace sid \<noteq> []" "map_of (cn_sessions c) sid = Some st" by blast
  with assms [OF x(1,3)] have "requireAuth ck c = (Inl (Problem 401 ''authentication required'', CookieCleared),
      c\<lparr>cn_sessions := AList.delete sid (cn_sessions c)\<rparr>)"
    by (simp add: requireAuth_def sessionState_def not_less)
  with x show ?thesis by (intro exI conjI) (auto simp: delete_conv')
next
  case False
  then have "\<exists>k. requireAuth ck c = (Inl (Problem 401 ''authentication required'', k), c\<lparr>cn_sessions := cn_sessions c\<rparr>)"
    by (cases ck) (auto simp: requireAuth_def sessionState_def split: option.split)
  then show ?thesis by blast
qed

text \<open>Every other endpoint is behind a guard.\<close>

lemma guarded:
  assumes "guardOf True e = Some g" "e \<notin> {ConsoleLogin, ConsoleLogout, WebFile}"
  shows "g \<in> {TokenGuard, SessionGuard, AdminGuard}"
proof -
  have "list_all (\<lambda>(_, _, g, e). e \<in> {ConsoleLogin, ConsoleLogout, WebFile} \<or> g \<in> {TokenGuard, SessionGuard, AdminGuard})
      (newRouter True)" by code_simp
  with assms show ?thesis
    by (auto simp: guardOf_def find_Some_iff list_all_iff dest!: nth_mem)
qed

lemma routed: "guardOf True e \<noteq> None"
proof -
  have "e \<in> set (map (\<lambda>(_, _, _, e). e) (newRouter True))"
    by (cases e) (simp_all add: newRouter_def execRoutes_def consoleRoutes_def registerEmbeddedWebRoutes_def)
  then show ?thesis by (auto simp: guardOf_def find_None_iff)
qed

text \<open>C23: A request without credentials changes nothing where the console has accounts: when no stored token has the hash of its bearer token and its
  cookie names no session that has not expired, every endpoint but the login, the logout and the files of the web console
  answers 401, starts nothing and leaves the service as it was, a database failure apart that the lookup met, and the
  sessions of everybody else too.\<close>

theorem stranger_changes_nothing:
  assumes "\<And>tok. parseBearerToken (hr_authorization req) = Some tok \<Longrightarrow>
      \<forall>k \<in> set (db_tokens (sv_db (srv_service srv))). k_token_hash k \<noteq> qe_hash env (trimSpace tok)"
    and "\<And>sid st. hr_cookie req = Some sid \<Longrightarrow> map_of (srv_sessions srv) sid = Some st \<Longrightarrow> ss_expiresAt st \<le> sv_now (srv_service srv)"
    and "hr_endpoint req = Some e" and "e \<notin> {ConsoleLogin, ConsoleLogout, WebFile}" and "srv_hasConsole srv"
  shows "\<exists>m ck fs ss. serveRequest env req srv = Some (((Problem 401 m, ck), []),
      srv\<lparr>srv_service := (srv_service srv)\<lparr>sv_db := (sv_db (srv_service srv))\<lparr>db_faults := fs\<rparr>\<rparr>, srv_sessions := ss\<rparr>) \<and>
    (\<forall>x. hr_cookie req \<noteq> Some x \<longrightarrow> map_of ss x = map_of (srv_sessions srv) x)"
proof -
  let ?c = "consoleOf srv"
  obtain fs where t: "requireToken (qe_hash env) (hr_authorization req) ?c =
      (Inl (Problem 401 ''invalid or missing token'' :: http_body reply), ?c\<lparr>cn_db := (cn_db ?c)\<lparr>db_faults := fs\<rparr>\<rparr>)"
    using requireToken_stranger [of "hr_authorization req" ?c "qe_hash env"] assms(1) by (auto simp: consoleOf_def)
  obtain k ss where a: "requireAuth (hr_cookie req) ?c = (Inl (Problem 401 ''authentication required'' :: http_body reply, k), ?c\<lparr>cn_sessions := ss\<rparr>)"
    and ss: "\<forall>x. hr_cookie req \<noteq> Some x \<longrightarrow> map_of ss x = map_of (srv_sessions srv) x"
    using requireAuth_stranger [of "hr_cookie req" ?c] assms(2) by (auto simp: consoleOf_def)
  consider "guardOf True e = Some TokenGuard" | "guardOf True e = Some SessionGuard" | "guardOf True e = Some AdminGuard"
    using guarded [OF _ assms(4)] routed [of e] by auto
  then show ?thesis
  proof cases
    case 1
    with t assms(3,5) show ?thesis
      by (intro exI [of _ "srv_sessions srv"] exI) (auto simp: serveRequest_def guardRequest_def putConsole_def consoleOf_def)
  next
    case 2
    with a assms(3,5) ss show ?thesis
      by (intro exI [of _ ss] exI [of _ "db_faults (sv_db (srv_service srv))"] exI)
        (auto simp: serveRequest_def guardRequest_def putConsole_def consoleOf_def)
  next
    case 3
    with a assms(3,5) ss show ?thesis
      by (intro exI [of _ ss] exI [of _ "db_faults (sv_db (srv_service srv))"] exI)
        (auto simp: serveRequest_def guardRequest_def putConsole_def consoleOf_def)
  qed
qed

theorem stranger_changes_nothing_witness:
  "\<exists>m ck srv'. serveRequest demoHttpEnv (demoHttp WorkersDelete ''n1'' ''Bearer obx_2'' (Some ''s9'') emptyBytes) demoServer =
     Some (((Problem 401 m, ck), []), srv') \<and> map_of (srv_sessions srv') ''s2'' = map_of (srv_sessions demoServer) ''s2''"
proof -
  let ?req = "demoHttp WorkersDelete ''n1'' ''Bearer obx_2'' (Some ''s9'') emptyBytes"
  have "parseBearerToken (hr_authorization ?req) = Some ''obx_2''" "trimSpace ''obx_2'' = ''obx_2''" by code_simp+
  moreover have "\<forall>k \<in> set (db_tokens (sv_db (srv_service demoServer))). k_token_hash k \<noteq> qe_hash demoHttpEnv ''obx_2''" by code_simp
  ultimately have t: "\<And>tok. parseBearerToken (hr_authorization ?req) = Some tok \<Longrightarrow>
      \<forall>k \<in> set (db_tokens (sv_db (srv_service demoServer))). k_token_hash k \<noteq> qe_hash demoHttpEnv (trimSpace tok)" by auto
  have "map_of (srv_sessions demoServer) ''s9'' = None" by code_simp
  moreover have "hr_cookie ?req = Some ''s9''" "hr_endpoint ?req = Some WorkersDelete" "srv_hasConsole demoServer"
    by (simp_all add: demoHttp_def demoServer_def)
  moreover have "map_of ss ''s2'' = map_of (srv_sessions demoServer) ''s2''"
    if "\<forall>x. hr_cookie ?req \<noteq> Some x \<longrightarrow> map_of ss x = map_of (srv_sessions demoServer) x" for ss
    using that by (simp add: demoHttp_def)
  ultimately show ?thesis
    using stranger_changes_nothing [of ?req demoServer demoHttpEnv WorkersDelete, OF t] by fastforce
qed

section \<open>Tasks of others\<close>

lemma getTask_hidden: "fst (getTask tid ow s) = None \<Longrightarrow> trimSpace p = tid \<Longrightarrow>
   getTaskHandler (Some ow) p s = (Problem 404 ''task not found'', snd (getTask tid ow s))"
  by (cases "getTask tid ow s") (simp add: getTaskHandler_def requireRequestOwnerID_def)

lemma cancelTask_hidden: "fst (cancelTask i tid ow s) = Inl (ErrTaskNotFound, None) \<Longrightarrow> trimSpace p = tid \<Longrightarrow>
   cancelTaskHandler i (Some ow) p s = (Problem 404 ''task not found'', snd (cancelTask i tid ow s))"
  by (cases "cancelTask i tid ow s") (simp add: cancelTaskHandler_def requireRequestOwnerID_def)

text \<open>C26: A task is hidden from every other account: when the account of the request's token owns no task of the id,
  whether because there is no such task or because it is somebody else's, reading it and canceling it get the same
  answer, 404, and the task table, the runtime records and the reservations stay as they were when the handler ran.\<close>

theorem foreign_task_hidden:
  assumes "requireToken (qe_hash env) (hr_authorization req) (consoleOf srv) = (Inr (Some ow) :: http_body reply + string option, c)"
    and "hr_endpoint req = Some e" and "e = TasksGet \<or> e = TasksCancel"
    and "s = srv_service (qe_between env (putConsole c srv))"
    and "\<forall>r \<in> set (db_tasks (sv_db s)). t_task_id r = trimSpace (hr_param req) \<longrightarrow> t_owner_id r \<noteq> normalizeTaskOwnerID ow"
  shows "\<exists>srv'. serveRequest env req srv = Some (((Problem 404 ''task not found'', CookieUnchanged), []), srv') \<and>
    taskView (srv_service srv') = taskView s"
proof -
  let ?t = "trimSpace (hr_param req)"
  have "guardOf b e = Some TokenGuard" for b using assms(3) by (auto simp: guardOf_def newRouter_def execRoutes_def)
  with assms(1,2) have serve: "serveRequest env req srv = handleEndpoint env req (Some ow) None e (qe_between env (putConsole c srv))"
    by (simp add: serveRequest_def guardRequest_def)
  have f: "\<forall>r \<in> set (db_tasks (sv_db s)). t_task_id r = trimSpace ?t \<longrightarrow> t_owner_id r \<noteq> normalizeTaskOwnerID ow"
    using assms(5) by simp
  note h = foreign_owner [OF f, of "qe_serviceStep env"]
  show ?thesis
    using h assms(3,4) unfolding serve
    by (auto simp: handleEndpoint_def Let_def onServiceOf_def getTask_hidden [OF _ refl] cancelTask_hidden [OF _ refl])
qed

theorem foreign_task_hidden_witness:
  "\<exists>srv'. serveRequest (demoHttpEnv\<lparr>qe_between := \<lambda>srv. srv\<lparr>srv_service := demoTasks\<lparr>sv_db := (sv_db demoTasks)\<lparr>db_tasks :=
       [demoTaskRow\<lparr>t_owner_id := ''bob''\<rparr>]\<rparr>\<rparr>\<rparr>\<rparr>)
     (demoHttp TasksCancel ''t1'' ''Bearer obx_1'' None emptyBytes) demoServer =
     Some (((Problem 404 ''task not found'', CookieUnchanged), []), srv')"
proof -
  let ?s = "demoTasks\<lparr>sv_db := (sv_db demoTasks)\<lparr>db_tasks := [demoTaskRow\<lparr>t_owner_id := ''bob''\<rparr>]\<rparr>\<rparr>"
  let ?env = "demoHttpEnv\<lparr>qe_between := \<lambda>srv. srv\<lparr>srv_service := ?s\<rparr>\<rparr>"
  let ?req = "demoHttp TasksCancel ''t1'' ''Bearer obx_1'' None emptyBytes"
  have "fst (requireToken (qe_hash ?env) (hr_authorization ?req) (consoleOf demoServer)) = (Inr (Some ''alice'') :: http_body reply + string option)"
    by code_simp
  then obtain c where c: "requireToken (qe_hash ?env) (hr_authorization ?req) (consoleOf demoServer) =
      (Inr (Some ''alice'') :: http_body reply + string option, c)" by (metis prod.collapse)
  have "\<forall>r \<in> set (db_tasks (sv_db ?s)). t_task_id r = trimSpace (hr_param ?req) \<longrightarrow> t_owner_id r \<noteq> normalizeTaskOwnerID ''alice''"
    by code_simp
  with foreign_task_hidden [OF c _ _ refl, of TasksCancel] show ?thesis by (auto simp: demoHttp_def)
qed

section \<open>Images\<close>

text \<open>The answer of a task that the engine reports as succeeded.\<close>

lemma resource_answer:
  assumes "callResourceCapability env owner c p t s = Some ((Inr res, ls), s')" "\<not> badTimeout t" "trimSpace c = c"
  shows "\<exists>ow a l. owner = Some ow \<and> submitTask env (toolSubmission c p t [] ow) s = Some ((Inr a, l), s') \<and> sr_completed a \<and>
    ts_status (sr_task a) = Succeeded \<and> decodeResourceResult (ts_resultJSON (sr_task a)) = Some res"
  using assms
  by (auto simp: callResourceCapability_def badTimeout_def refuseTool_def runTool_def taskToolResult_def Let_def
      split: option.splits sum.splits if_splits task_status.splits)

lemma resource_names [simp]: "trimSpace readImageCapability = readImageCapability"
  "trimSpace terminalResourceCapability = terminalResourceCapability"
  by code_simp+

text \<open>C27: The image tool returns as image content only images: the bytes and the type are those of the result of a task
  that ran for the request's own account, read the file named in the request with the capability that the session id
  selects and succeeded, and the type was an image's before the file was read and is one in the result.\<close>

theorem only_images_returned:
  fixes inp :: mcpReadImageToolInput
  defines "sid \<equiv> trimSpace (mi_sessionID inp)"
  defines "cap \<equiv> if sid = computerUseSessionID then readImageCapability else terminalResourceCapability"
  defines "t \<equiv> orDefault defaultTaskTimeoutMS (mi_timeoutMS inp)"
  assumes "handleMCPReadImageTool env1 env2 owner inp s = Some ((Inr (ImageContent m d), ls), s')"
  shows "isImageMIME m \<and> sid \<noteq> [] \<and> 1 \<le> t \<and> t \<le> maxTaskTimeoutMS \<and>
    (\<exists>ow a l1 s1 v b l2 res. owner = Some ow \<and>
      submitTask env1 (toolSubmission cap (mcpTerminalResourcePayload sid (trimSpace (mi_filePath inp)) ''validate'') t [] ow) s =
        Some ((Inr a, l1), s1) \<and>
      ts_status (sr_task a) = Succeeded \<and> decodeResourceResult (ts_resultJSON (sr_task a)) = Some v \<and>
      isImageMIME (normalizeMIME (mr_mimeType v)) \<and>
      submitTask env2 (toolSubmission cap (mcpTerminalResourcePayload sid (trimSpace (mi_filePath inp)) ''read'') t [] ow) s1 =
        Some ((Inr b, l2), s') \<and>
      ts_status (sr_task b) = Succeeded \<and> decodeResourceResult (ts_resultJSON (sr_task b)) = Some res \<and>
      m = normalizeMIME (mr_mimeType res) \<and> d = mr_blob res)"
proof -
  have guards: "sid \<noteq> []" "trimSpace (mi_filePath inp) \<noteq> []" "\<not> badTimeout t"
    using assms(4) by (auto simp: handleMCPReadImageTool_def sid_def t_def refuseTool_def Let_def split: if_splits)
  obtain v ls1 s1 where v: "callResourceCapability env1 owner cap
      (mcpTerminalResourcePayload sid (trimSpace (mi_filePath inp)) ''validate'') t s = Some ((Inr v, ls1), s1)"
    using assms(4) guards by (auto simp: handleMCPReadImageTool_def sid_def cap_def t_def Let_def split: option.splits sum.splits)
  have im: "isImageMIME (normalizeMIME (mr_mimeType v))"
    using assms(4) guards v by (auto simp: handleMCPReadImageTool_def sid_def cap_def t_def Let_def notAnImage_def split: if_splits)
  obtain res ls2 where r: "callResourceCapability env2 owner cap
      (mcpTerminalResourcePayload sid (trimSpace (mi_filePath inp)) ''read'') t s1 = Some ((Inr res, ls2), s')"
      "m = normalizeMIME (mr_mimeType res)" "d = mr_blob res" "isImageMIME m"
    using assms(4) guards v im
    by (auto simp: handleMCPReadImageTool_def sid_def cap_def t_def Let_def notAnImage_def split: option.splits sum.splits if_splits)
  have "trimSpace cap = cap" by (simp add: cap_def)
  from resource_answer [OF v guards(3) this] resource_answer [OF r(1) guards(3) this] guards im r(2-4) show ?thesis
    unfolding badTimeout_def by (metis option.inject linorder_not_less)
qed

section \<open>Bounds\<close>

lemma milliseconds_exact: "0 \<le> n \<Longrightarrow> n \<le> maxTaskTimeoutMS \<Longrightarrow> milliseconds n = n * millisecond"
  by (simp add: milliseconds_def maxTaskTimeoutMS_def duration_defs wrap64_def)

lemma scope_total:
  "trimSpace x \<noteq> [] \<Longrightarrow> \<exists>scoped. scopeTaskInputByOwner (Inr x) c ow p = Inr scoped"
  by (simp add: scopeTaskInputByOwner_def Let_def split: option.split)

definition imageResult :: payload where
  "imageResult = Document (JObj [(''mime_type'', JStr ''image/png''), (''size_bytes'', JInt 0)])"

definition imageService :: service where
  "imageService = demoService\<lparr>sv_db := demoDB\<lparr>db_caps := [\<lparr>c_node_id = ''n1'', c_capability_name = ''terminalResource'', c_max_inflight = 2\<rparr>]\<rparr>,
     sv_heap := [newActiveSession ''n1'' ''s1'' (Some (demoHello\<lparr>ch_capabilities := [Some \<lparr>cap_name = ''terminalResource'', cap_maxInflight = 2\<rparr>]\<rparr>))]\<rparr>"

definition imageEnv :: "string \<Rightarrow> submit_env" where
  "imageEnv tid = \<lparr>su_step = id, su_sessionID = Inr ''sid'', su_taskID = Inr tid,
     su_wait = \<lparr>we_step = (\<lambda>s. snd (finishTask id tid Succeeded imageResult [] [] (sv_now s) s)), we_ctx = None, we_timer = True, we_pick = 0\<rparr>\<rparr>"

theorem only_images_returned_witness:
  "\<exists>ls s'. handleMCPReadImageTool (imageEnv ''t1'') (imageEnv ''t2'') (Some ''alice'')
      \<lparr>mi_sessionID = ''s1'', mi_filePath = ''/work/a.png'', mi_timeoutMS = None\<rparr> imageService =
      Some ((Inr (ImageContent ''image/png'' []), ls), s') \<and> isImageMIME ''image/png''"
proof -
  let ?r = "handleMCPReadImageTool (imageEnv ''t1'') (imageEnv ''t2'') (Some ''alice'')
      \<lparr>mi_sessionID = ''s1'', mi_filePath = ''/work/a.png'', mi_timeoutMS = None\<rparr> imageService"
  have "map_option (fst \<circ> fst) ?r = Some (Inr (ImageContent ''image/png'' []))" by code_simp
  then obtain ls s' where r: "?r = Some ((Inr (ImageContent ''image/png'' []), ls), s')" by (auto simp: o_def)
  with only_images_returned [OF r] show ?thesis by blast
qed

lemma validate_ok:
  assumes "normalizeCapability (rq_capability q) \<noteq> []" "trimSpace (rq_ownerID q) \<noteq> []" "parseTaskMode (rq_mode q) = Some m"
    and "bytesEmpty (rq_inputJSON q) \<or> jsonValid (rq_inputJSON q)" "trimSpace x \<noteq> []"
    and "0 < rq_timeout q" "rq_timeout q \<le> maxTaskTimeout" "0 \<le> rq_wait q" "rq_wait q \<le> maxTaskWait"
  shows "\<exists>v. validateSubmit (Inr x) q = Inr v \<and> vr_capability v = normalizeCapability (rq_capability q) \<and>
    vr_ownerID v = trimSpace (rq_ownerID q) \<and> vr_mode v = m \<and> vr_timeout v = rq_timeout q \<and>
    vr_wait v = (let w = (if rq_wait q = 0 then defaultTaskWait else rq_wait q) in if m = TaskModeAuto then min w (rq_timeout q) else w)"
proof -
  let ?inp = "if bytesEmpty (rq_inputJSON q) then Document (JObj []) else rq_inputJSON q"
  obtain scoped where s: "scopeTaskInputByOwner (Inr x) (normalizeCapability (rq_capability q)) (normalizeTaskOwnerID (rq_ownerID q)) ?inp = Inr scoped"
    using scope_total [OF assms(5)] by blast
  have "jsonValid ?inp" using assms(4) by auto
  moreover have "defaultTaskWait \<le> maxTaskWait" by (simp add: defaultTaskWait_def maxTaskWait_def duration_defs)
  ultimately show ?thesis
    using assms s by (auto simp: validateSubmit_def Let_def normalizeTaskOwnerID_def min_def)
qed

lemma in_range: "1 \<le> n \<Longrightarrow> n \<le> maxTaskTimeoutMS \<Longrightarrow> 0 < milliseconds n \<and> milliseconds n \<le> maxTaskTimeout"
  "1 \<le> n \<Longrightarrow> n \<le> maxTaskWaitMS \<Longrightarrow> 0 < milliseconds n \<and> milliseconds n \<le> maxTaskWait"
  using milliseconds_exact [of n]
  by (simp_all add: maxTaskTimeoutMS_def maxTaskTimeout_def maxTaskWaitMS_def maxTaskWait_def duration_defs)

lemma capability_names: "normalizeCapability terminalExecCapability = taskCapabilityTerminalExec" "taskCapabilityTerminalExec \<noteq> []"
  "normalizeCapability computerUseCapability = ''computeruse''" "parseTaskMode ''sync'' = Some TaskModeSync"
  by code_simp+

lemma mode_name: "parseTaskMode (taskModeName (Some m)) = Some m"
proof -
  have "parseTaskMode (taskModeName (Some TaskModeSync)) = Some TaskModeSync"
    "parseTaskMode (taskModeName (Some TaskModeAsync)) = Some TaskModeAsync"
    "parseTaskMode (taskModeName (Some TaskModeAuto)) = Some TaskModeAuto" by code_simp+
  then show ?thesis by (cases m) simp_all
qed



section \<open>A request id of another task\<close>

text \<open>A finished Python run of the account, stored under the request id \<open>r1\<close>.\<close>

definition pythonDone :: task_row where
  "pythonDone = demoTaskRow\<lparr>t_capability := ''pythonexec'', t_status := Succeeded, t_completed_at := 6, t_expires_at := 600006,
     t_result_json := Document (JObj [(''output'', JStr ''42''), (''exit_code'', JInt 3)])\<rparr>"

definition pythonServer :: server where
  "pythonServer = demoServer\<lparr>srv_service := (srv_service demoServer)\<lparr>sv_db := (sv_db (srv_service demoServer))\<lparr>db_tasks := [pythonDone]\<rparr>\<rparr>\<rparr>"

definition reusedRequest :: http_request where
  "reusedRequest = demoHttp CommandsTerminal [] ''Bearer obx_1'' None
     (Document (JObj [(''command'', JStr ''rm -rf build''), (''request_id'', JStr ''r1'')]))"


section \<open>Schemas and handlers\<close>

text \<open>What JSON Schema says of an object that meets a schema: every key is a property of it and the value has its type;
  an integer may also be written with a fraction of zero.\<close>

fun meetsType :: "schema_type \<Rightarrow> json \<Rightarrow> bool" where
  "meetsType SchemaString v = (case v of JStr _ \<Rightarrow> True | _ \<Rightarrow> False)"
| "meetsType SchemaBoolean v = (case v of JBool _ \<Rightarrow> True | _ \<Rightarrow> False)"
| "meetsType (SchemaInteger lo hi) v = (case v of
     JInt n \<Rightarrow> (case lo of None \<Rightarrow> True | Some a \<Rightarrow> a \<le> n) \<and> (case hi of None \<Rightarrow> True | Some b \<Rightarrow> n \<le> b)
   | JReal _ \<Rightarrow> True | _ \<Rightarrow> False)"

definition meetsSchema :: "tool_schema \<Rightarrow> json \<Rightarrow> bool" where
  "meetsSchema sch v = (case v of
     JObj es \<Rightarrow> set (sch_required sch) \<subseteq> fst ` set es \<and>
       (\<forall>k \<in> fst ` set es. case map_of (sch_properties sch) k of
          None \<Rightarrow> False | Some ty \<Rightarrow> (case map_of (rev es) k of None \<Rightarrow> False | Some w \<Rightarrow> meetsType ty w))
   | _ \<Rightarrow> False)"

text \<open>A decoded integer is the last entry of its key.\<close>

lemma decoded_last:
  assumes "\<forall>k \<in> fst ` set es. equalFold k name \<longrightarrow> k = name" "fieldIntPtr name es = Some (Some n)"
  shows "map_of (rev es) name = Some (JInt n)"
  using assms
proof (induction es rule: rev_induct)
  case (snoc e es)
  obtain k v where e: "e = (k, v)" by (cases e)
  have st: "fieldIntPtr name (es @ [(k, v)]) = (if equalFold k name then storeIntPtr (fieldIntPtr name es) v else fieldIntPtr name es)"
    by (simp add: decodeField_def)
  show ?case
  proof (cases "equalFold k name")
    case True
    with snoc.prems(2) st e have "storeIntPtr (fieldIntPtr name es) v = Some (Some n)" by simp
    then have "v = JInt n" by (cases "(fieldIntPtr name es, v)" rule: storeIntPtr.cases) (auto split: if_splits)
    with True snoc.prems(1) e show ?thesis by auto
  next
    case False
    then have "k \<noteq> name" by auto
    with False snoc st e show ?thesis by auto
  qed
qed (simp add: decodeField_def)

lemma schema_bounds:
  assumes "meetsSchema sch (JObj es)" "map_of (sch_properties sch) name = Some (SchemaInteger (Some lo) (Some hi))"
    and "list_all (\<lambda>(k, _). equalFold k name \<longrightarrow> k = name) (sch_properties sch)"
    and "fieldIntPtr name es = Some (Some n)"
  shows "lo \<le> n \<and> n \<le> hi"
proof -
  have k: "k \<in> fst ` set (sch_properties sch)" if "k \<in> fst ` set es" for k
    using assms(1) that by (force simp: meetsSchema_def split: option.splits dest: map_of_SomeD)
  have "\<forall>k \<in> fst ` set es. equalFold k name \<longrightarrow> k = name"
    using k assms(3) by (fastforce simp: list_all_iff)
  from decoded_last [OF this assms(4)] have l: "map_of (rev es) name = Some (JInt n)" .
  then have "name \<in> fst ` set es" by (force dest: map_of_SomeD)
  with assms(1) have "case map_of (sch_properties sch) name of
          None \<Rightarrow> False | Some ty \<Rightarrow> (case map_of (rev es) name of None \<Rightarrow> False | Some w \<Rightarrow> meetsType ty w)"
    unfolding meetsSchema_def json.case by blast
  with assms(2) l show ?thesis by simp
qed

lemma schema_keys:
  "list_all (\<lambda>(k, _). equalFold k ''timeout_ms'' \<longrightarrow> k = ''timeout_ms'') (sch_properties mcpEchoInputSchema)"
  "list_all (\<lambda>(k, _). equalFold k ''timeout_ms'' \<longrightarrow> k = ''timeout_ms'') (sch_properties mcpPythonExecInputSchema)"
  "list_all (\<lambda>(k, _). equalFold k ''timeout_ms'' \<longrightarrow> k = ''timeout_ms'') (sch_properties mcpTerminalExecInputSchema)"
  "list_all (\<lambda>(k, _). equalFold k ''lease_ttl_sec'' \<longrightarrow> k = ''lease_ttl_sec'') (sch_properties mcpTerminalExecInputSchema)"
  "list_all (\<lambda>(k, _). equalFold k ''timeout_ms'' \<longrightarrow> k = ''timeout_ms'') (sch_properties mcpComputerUseInputSchema)"
  "list_all (\<lambda>(k, _). equalFold k ''timeout_ms'' \<longrightarrow> k = ''timeout_ms'') (sch_properties mcpReadImageInputSchema)"
  by code_simp+

text \<open>The timeout that a tool is called with, by the schema's bounds, and the default within them.\<close>

lemma schema_timeout:
  assumes "meetsSchema sch (JObj es)" "map_of (sch_properties sch) ''timeout_ms'' = Some (SchemaInteger (Some lo) (Some hi))"
    and "list_all (\<lambda>(k, _). equalFold k ''timeout_ms'' \<longrightarrow> k = ''timeout_ms'') (sch_properties sch)"
    and "fieldIntPtr ''timeout_ms'' es = Some t" "lo \<le> z" "z \<le> hi"
  shows "lo \<le> orDefault z t \<and> orDefault z t \<le> hi"
  using schema_bounds [OF assms(1-3)] assms(4-6) by (cases t) (simp_all add: orDefault_def)

lemma toolReply_invalid: "toolReply f r = ToolFailure (InvalidParams m) \<Longrightarrow> r = Inl (InvalidParams m)"
  by (cases r) (simp_all add: toolReply_def)

lemma toolAnswer_invalid: "toolAnswer f a = Some ((ToolFailure (InvalidParams m), ls), s') \<Longrightarrow> a = Some ((Inl (InvalidParams m), ls), s')"
  by (auto simp: toolAnswer_def dest!: toolReply_invalid [OF sym] toolReply_invalid)

lemma taskResult_not_invalid: "taskToolResult dec name res \<noteq> Inl (InvalidParams m)"
  by (auto simp: taskToolResult_def mapMCPToolTaskSubmitError_def formatTaskFailureError_def Let_def
      split: sum.splits option.splits task_status.splits if_splits)

lemma runTool_not_invalid: "runTool (taskToolResult dec name) a \<noteq> Some ((Inl (InvalidParams m), ls), s')"
  using taskResult_not_invalid by (auto simp: runTool_def)

lemma invalid_text: "invalidParamsError t = InvalidParams m \<Longrightarrow> trimSpace t = t \<Longrightarrow> t \<noteq> [] \<Longrightarrow> m = t"
  by (simp add: invalidParamsError_def)

lemma invalid_messages: "invalidParamsError ''message is required'' = InvalidParams ''message is required''"
  "invalidParamsError ''code is required'' = InvalidParams ''code is required''"
  "invalidParamsError ''command is required'' = InvalidParams ''command is required''"
  "invalidParamsError ''session_id is required'' = InvalidParams ''session_id is required''"
  "invalidParamsError ''file_path is required'' = InvalidParams ''file_path is required''"
  by code_simp+

lemma echo_invalid:
  assumes "handleMCPEchoTool env msg t s = Some (Inl (InvalidParams m), s')"
    "minEchoTimeoutMS \<le> orDefault defaultEchoTimeoutMS t \<and> orDefault defaultEchoTimeoutMS t \<le> maxEchoTimeoutMS"
  shows "m = ''message is required''"
  using assms
  by (auto simp: handleMCPEchoTool_def Let_def invalid_messages mapMCPToolEchoError_def split: if_splits option.splits sum.splits)
    (metis sum.exhaust)

lemma tools_invalid:
  "handleMCPPythonExecTool env owner code t s = Some ((Inl (InvalidParams m), ls), s') \<Longrightarrow>
     \<not> badTimeout (orDefault defaultTaskTimeoutMS t) \<Longrightarrow> m = ''code is required''"
  "handleMCPTerminalExecTool env owner i1 s = Some ((Inl (InvalidParams m), ls), s') \<Longrightarrow>
     \<not> badTimeout (orDefault defaultTaskTimeoutMS (mt_timeoutMS i1)) \<Longrightarrow> (\<And>n. mt_leaseTTLSec i1 = Some n \<Longrightarrow> 1 \<le> n) \<Longrightarrow>
     m = ''command is required''"
  "handleMCPComputerUseTool env owner i2 s = Some ((Inl (InvalidParams m), ls), s') \<Longrightarrow>
     \<not> badTimeout (orDefault defaultTaskTimeoutMS (uq_timeoutMS i2)) \<Longrightarrow> m = ''command is required''"
  by (auto simp: handleMCPPythonExecTool_def handleMCPTerminalExecTool_def handleMCPComputerUseTool_def Let_def
      refuseTool_def invalid_messages runTool_not_invalid split: if_splits option.splits)

lemma resource_not_invalid: "callResourceCapability env owner c p t s \<noteq> Some ((Inl (InvalidParams m), ls), s')"
  by (auto simp: callResourceCapability_def refuseTool_def runTool_not_invalid Let_def split: option.split)

lemma readImage_invalid:
  "handleMCPReadImageTool e1 e2 owner i s = Some ((Inl (InvalidParams m), ls), s') \<Longrightarrow>
     \<not> badTimeout (orDefault defaultTaskTimeoutMS (mi_timeoutMS i)) \<Longrightarrow> m = ''session_id is required'' \<or> m = ''file_path is required''"
  by (auto simp: handleMCPReadImageTool_def Let_def refuseTool_def invalid_messages resource_not_invalid
      split: if_splits option.splits prod.splits sum.splits)

lemma default_bounds: "minEchoTimeoutMS \<le> defaultEchoTimeoutMS" "defaultEchoTimeoutMS \<le> maxEchoTimeoutMS"
    "minMCPTaskTimeoutMS \<le> defaultTaskTimeoutMS" "defaultTaskTimeoutMS \<le> maxTaskTimeoutMS"
  by (simp_all add: minEchoTimeoutMS_def defaultEchoTimeoutMS_def maxEchoTimeoutMS_def minMCPTaskTimeoutMS_def
      defaultTaskTimeoutMS_def maxTaskTimeoutMS_def)

lemma schema_not_bad:
  assumes "meetsSchema sch (JObj es)" "list_all (\<lambda>(k, _). equalFold k ''timeout_ms'' \<longrightarrow> k = ''timeout_ms'') (sch_properties sch)"
    "map_of (sch_properties sch) ''timeout_ms'' = Some (SchemaInteger (Some minMCPTaskTimeoutMS) (Some maxTaskTimeoutMS))"
    "fieldIntPtr ''timeout_ms'' es = Some t"
  shows "\<not> badTimeout (orDefault defaultTaskTimeoutMS t)"
  using schema_timeout [OF assms(1,3,2,4) default_bounds(3,4)] by (simp add: badTimeout_def minMCPTaskTimeoutMS_def)

lemma echo_schema:
  assumes "meetsSchema mcpEchoInputSchema (JObj es)" "decodeEchoToolInput (Document (JObj es)) = Some input"
    "handleMCPEchoTool env (eq_message input) (eq_timeoutMS input) s = Some (Inl (InvalidParams m), s')"
  shows "m = ''message is required''"
proof -
  have "fieldIntPtr ''timeout_ms'' es = Some (eq_timeoutMS input)"
    using assms(2) by (auto simp: decodeEchoToolInput_def split: option.splits)
  from schema_timeout [OF assms(1) _ schema_keys(1) this default_bounds(1,2)] echo_invalid [OF assms(3)] show ?thesis
    by (simp add: mcpEchoInputSchema_def)
qed

lemma python_schema:
  assumes "meetsSchema mcpPythonExecInputSchema (JObj es)" "decodePythonToolInput (Document (JObj es)) = Some (c, t)"
    "handleMCPPythonExecTool env owner c t s = Some ((Inl (InvalidParams m), ls), s')"
  shows "m = ''code is required''"
proof -
  have "fieldIntPtr ''timeout_ms'' es = Some t"
    using assms(2) by (auto simp: decodePythonToolInput_def split: option.splits)
  from schema_not_bad [OF assms(1) schema_keys(2) _ this] tools_invalid(1) [OF assms(3)] show ?thesis
    by (simp add: mcpPythonExecInputSchema_def)
qed

lemma terminal_schema:
  assumes "meetsSchema mcpTerminalExecInputSchema (JObj es)" "decodeTerminalToolInput (Document (JObj es)) = Some i"
    "handleMCPTerminalExecTool env owner i s = Some ((Inl (InvalidParams m), ls), s')"
  shows "m = ''command is required''"
proof -
  have f: "fieldIntPtr ''timeout_ms'' es = Some (mt_timeoutMS i)" "fieldIntPtr ''lease_ttl_sec'' es = Some (mt_leaseTTLSec i)"
    using assms(2) by (auto simp: decodeTerminalToolInput_def split: option.splits)
  have "1 \<le> n" if "mt_leaseTTLSec i = Some n" for n
    using schema_bounds [OF assms(1) _ schema_keys(4), of minMCPTerminalLeaseSec maxMCPTerminalLeaseSec n] f(2) that
    by (simp add: mcpTerminalExecInputSchema_def minMCPTerminalLeaseSec_def)
  with schema_not_bad [OF assms(1) schema_keys(3) _ f(1)] tools_invalid(2) [OF assms(3)] show ?thesis
    by (simp add: mcpTerminalExecInputSchema_def)
qed

lemma computerUse_schema:
  assumes "meetsSchema mcpComputerUseInputSchema (JObj es)" "decodeComputerUseInput (Document (JObj es)) = Some i"
    "handleMCPComputerUseTool env owner i s = Some ((Inl (InvalidParams m), ls), s')"
  shows "m = ''command is required''"
proof -
  have "fieldIntPtr ''timeout_ms'' es = Some (uq_timeoutMS i)"
    using assms(2) by (auto simp: decodeComputerUseInput_def split: option.splits)
  from schema_not_bad [OF assms(1) schema_keys(5) _ this] tools_invalid(3) [OF assms(3)] show ?thesis
    by (simp add: mcpComputerUseInputSchema_def)
qed

lemma readImage_schema:
  assumes "meetsSchema mcpReadImageInputSchema (JObj es)" "decodeReadImageToolInput (Document (JObj es)) = Some i"
    "handleMCPReadImageTool e1 e2 owner i s = Some ((Inl (InvalidParams m), ls), s')"
  shows "m = ''session_id is required'' \<or> m = ''file_path is required''"
proof -
  have "fieldIntPtr ''timeout_ms'' es = Some (mi_timeoutMS i)"
    using assms(2) by (auto simp: decodeReadImageToolInput_def split: option.splits)
  from schema_not_bad [OF assms(1) schema_keys(6) _ this] readImage_invalid [OF assms(3)] show ?thesis
    by (simp add: mcpReadImageInputSchema_def)
qed

lemma schema_call:
  assumes "addTool sdk sch dec tool args s = Some ((ToolFailure (InvalidParams m), ls), s')"
    and "\<And>sch j. sdk_accepts sdk sch j \<Longrightarrow> meetsSchema sch j"
  shows "\<exists>es input. meetsSchema sch (JObj es) \<and> dec (Document (JObj es)) = Some input \<and>
    tool input s = Some ((ToolFailure (InvalidParams m), ls), s')"
proof -
  obtain input where i: "sdk_accepts sdk sch args" "dec (Document args) = Some input"
      "tool input s = Some ((ToolFailure (InvalidParams m), ls), s')"
    using assms(1) by (auto simp: addTool_def split: if_splits option.splits)
  moreover obtain es where "args = JObj es" using assms(2) [OF i(1)] by (cases args) (simp_all add: meetsSchema_def)
  ultimately show ?thesis using assms(2) by blast
qed

text \<open>The schemas and the tools agree on the bounds: when the library only calls a tool with arguments that meet its
  schema, no tool ever refuses a timeout or a lease of a call, and the one refusal of its own that is left is that of a
  text that is blank.\<close>

theorem schemas_match_tools:
  assumes "\<And>sch j. sdk_accepts (me_sdk env) sch j \<Longrightarrow> meetsSchema sch j"
    and "mcpTool env owner name args s = Some ((ToolFailure (InvalidParams m), ls), s')"
  shows "m \<in> {''message is required'', ''code is required'', ''command is required'', ''session_id is required'',
    ''file_path is required''}"
proof -
  note call = schema_call [OF _ assms(1)] and inv = toolReply_invalid toolAnswer_invalid
  have echo: "\<exists>s'. handleMCPEchoTool (me_dispatch env) (eq_message i) (eq_timeoutMS i) s = Some (Inl (InvalidParams m), s')"
    if "map_option (\<lambda>(r, s). ((toolReply EchoOutput r, []), s)) (handleMCPEchoTool (me_dispatch env) (eq_message i) (eq_timeoutMS i) s) =
      Some ((ToolFailure (InvalidParams m), ls), s')" for i
    using that by (auto dest: toolReply_invalid)
  consider "name = ''echo''" | "name = ''pythonExec''" | "name = ''terminalExec''" | "name = ''computerUse''" | "name = ''readImage''"
    using assms(2) by (auto simp: mcpTool_def split: if_splits)
  then have "m = ''message is required'' \<or> m = ''code is required'' \<or> m = ''command is required'' \<or>
      m = ''session_id is required'' \<or> m = ''file_path is required''"
  proof cases
    case 1
    from assms(2) have "addTool (me_sdk env) mcpEchoInputSchema decodeEchoToolInput (\<lambda>input s. map_option (\<lambda>(r, s).
        ((toolReply EchoOutput r, []), s)) (handleMCPEchoTool (me_dispatch env) (eq_message input) (eq_timeoutMS input) s)) args s =
        Some ((ToolFailure (InvalidParams m), ls), s')" unfolding mcpTool_def 1 by simp
    from call [OF this] obtain es i where i: "meetsSchema mcpEchoInputSchema (JObj es)" "decodeEchoToolInput (Document (JObj es)) = Some i"
        "map_option (\<lambda>(r, s). ((toolReply EchoOutput r, []), s)) (handleMCPEchoTool (me_dispatch env) (eq_message i) (eq_timeoutMS i) s) =
          Some ((ToolFailure (InvalidParams m), ls), s')" by blast
    from echo_schema [OF i(1,2)] echo [OF i(3)] show ?thesis by blast
  next
    case 2
    with call [where sch = mcpPythonExecInputSchema and dec = decodePythonToolInput] assms(2) show ?thesis
      unfolding mcpTool_def by (force dest: toolAnswer_invalid python_schema)
  next
    case 3
    with call [where sch = mcpTerminalExecInputSchema and dec = decodeTerminalToolInput] assms(2) show ?thesis
      unfolding mcpTool_def by (force dest: toolAnswer_invalid terminal_schema)
  next
    case 4
    with call [where sch = mcpComputerUseInputSchema and dec = decodeComputerUseInput] assms(2) show ?thesis
      unfolding mcpTool_def by (force dest: toolAnswer_invalid computerUse_schema)
  next
    case 5
    with call [where sch = mcpReadImageInputSchema and dec = decodeReadImageToolInput] assms(2) show ?thesis
      unfolding mcpTool_def by (force dest: toolAnswer_invalid readImage_schema)
  qed
  then show ?thesis by simp
qed

theorem schemas_match_tools_witness:
  "\<exists>ls s'. mcpTool (demoMcpEnv\<lparr>me_sdk := \<lparr>sdk_call = (\<lambda>_. None), sdk_accepts = meetsSchema\<rparr>\<rparr>) (Some ''alice'') ''pythonExec''
     (JObj [(''code'', JStr '' ''), (''timeout_ms'', JInt 600000)]) demoTasks =
     Some ((ToolFailure (InvalidParams ''code is required''), ls), s')"
proof -
  let ?env = "demoMcpEnv\<lparr>me_sdk := \<lparr>sdk_call = (\<lambda>_. None), sdk_accepts = meetsSchema\<rparr>\<rparr>"
  let ?args = "JObj [(''code'', JStr '' ''), (''timeout_ms'', JInt 600000)]"
  have "meetsSchema mcpPythonExecInputSchema ?args" "trimSpace '' '' = []"
    "decodePythonToolInput (Document ?args) = Some ('' '', Some 600000)" by code_simp+
  then obtain t where "mcpTool ?env (Some ''alice'') ''pythonExec'' ?args demoTasks = Some ((ToolFailure (invalidParamsError t), []), demoTasks)"
      "t = ''code is required''"
    by (auto simp: mcpTool_def addTool_def handleMCPPythonExecTool_def refuseTool_def toolAnswer_def toolReply_def Let_def)
  then obtain m where r: "mcpTool ?env (Some ''alice'') ''pythonExec'' ?args demoTasks = Some ((ToolFailure (InvalidParams m), []), demoTasks)"
      "InvalidParams m = invalidParamsError ''code is required''" by (metis invalidParamsError_def)
  have "m \<in> {''message is required'', ''code is required'', ''command is required'', ''session_id is required'',
    ''file_path is required''}" by (rule schemas_match_tools [OF _ r(1)]) simp
  with r show ?thesis using invalid_messages(2) by auto
qed

end
