(* ===== verification/Dashboard.thy ===== *)
theory Dashboard
  imports HttpProperties
begin

text \<open>
  Who a dashboard request acts for: sessions always belong to accounts with an id and a name, so that what \<open>RequireAuth\<close>
  lets through never reaches a handler without an account.
\<close>

section \<open>Dashboard requests act for an account\<close>

text \<open>A session that \<open>RequireAuth\<close> takes for an account; without one in the request the worker handlers would answer as
  the administrator \<open>system\<close>.\<close>

definition named :: "sessionAccount \<Rightarrow> bool" where
  "named a \<longleftrightarrow> trimSpace (sa_accountID a) \<noteq> [] \<and> trimSpace (sa_username a) \<noteq> []"

definition sessions_named :: "console \<Rightarrow> bool" where
  "sessions_named c \<longleftrightarrow> (\<forall>(_, st) \<in> set (cn_sessions c). named (ss_account st))"

lemma named_account: "setRequestSessionAccount a = x \<Longrightarrow> named a \<Longrightarrow> \<exists>b. x = Some b \<and> named b"
  by (auto simp: setRequestSessionAccount_def named_def Let_def)

lemma named_sessionOf: "trimSpace (a_account_id a) \<noteq> [] \<Longrightarrow> trimSpace (a_username a) \<noteq> [] \<Longrightarrow> named (sessionOf a)"
  by (simp add: named_def sessionOf_def)

lemma onDB_sessions: "onDB q c = (r, c') \<Longrightarrow> sessions_named c' = sessions_named c"
  "sessions_named (snd (onDB q c)) = sessions_named c"
  by (auto simp: onDB_def sessions_named_def split: prod.splits)

lemma in_update: "x \<in> set (AList.update k v m) \<Longrightarrow> x = (k, v) \<or> x \<in> set m"
  by (induction m) (auto split: if_splits)

lemma in_delete: "x \<in> set (AList.delete k m) \<Longrightarrow> x \<in> set m"
  by (auto simp: AList.delete_eq)

lemma delete_named:
  "sessions_named c \<Longrightarrow> sessions_named (deleteSession sid c)"
  "sessions_named c \<Longrightarrow> sessions_named (deleteSessionsByAccountID a c)"
  by (auto simp: sessions_named_def deleteSession_def deleteSessionsByAccountID_def Let_def delete_where_def
      fold_delete_filter split: if_splits dest: in_delete)

lemma createSession_named: "createSession rnd a c = (r, c') \<Longrightarrow> named a \<Longrightarrow> sessions_named c \<Longrightarrow> sessions_named c'"
  by (auto simp: createSession_def sessions_named_def Let_def dest!: in_update split: sum.splits)

lemma requireAuth_named:
  assumes "requireAuth ck c = (r, c')" "sessions_named c"
  shows "sessions_named c'" "r = Inr acct \<Longrightarrow> \<exists>a. acct = Some a \<and> named a"
  using assms
  by (auto simp: requireAuth_def sessionState_def sessions_named_def split: option.splits if_splits
      dest!: map_of_SomeD in_delete intro: named_account [OF refl])

lemma authRoute_named:
  fixes h :: "sessionAccount option \<Rightarrow> console \<Rightarrow> 'b handled"
  assumes "\<And>a c. named a \<Longrightarrow> sessions_named c \<Longrightarrow> accounts_named (cn_db c) \<Longrightarrow> sessions_named (snd (h (Some a) c))"
    and "sessions_named c" "accounts_named (cn_db c)"
  shows "sessions_named (snd (authRoute ck h c))"
proof -
  obtain r :: "('b reply \<times> cookie) + sessionAccount option" and c' where r: "requireAuth ck c = (r, c')"
    by (cases "requireAuth ck c :: (('b reply \<times> cookie) + sessionAccount option) \<times> console")
  have "cn_db c' = cn_db c"
    using r by (auto simp: requireAuth_def sessionState_def split: option.splits if_splits)
  with requireAuth_named [OF r assms(2)] assms(1) [of _ c'] assms(3) r show ?thesis
    by (cases r) (auto simp: authRoute_def)
qed

lemma adminRoute_named:
  assumes "\<And>a c. named a \<Longrightarrow> sessions_named c \<Longrightarrow> accounts_named (cn_db c) \<Longrightarrow> sessions_named (snd (h (Some a) c))"
    and "sessions_named c" "accounts_named (cn_db c)"
  shows "sessions_named (snd (adminRoute ck h c))"
  unfolding adminRoute_def by (rule authRoute_named [OF _ assms(2,3)]) (auto simp: requireAdmin_def assms(1))

lemma login_named:
  assumes "sessions_named c" "accounts_named (cn_db c)"
  shows "sessions_named (snd (login id bc rnd body c))"
proof (cases body)
  case (Some req)
  obtain x c1 where l: "lookupAccount (lr_username req) c = (x, c1)" by (cases "lookupAccount (lr_username req) c")
  have c1: "sessions_named c1"
    using l assms(1) by (auto simp: lookupAccount_def onDB_sessions split: sum.splits prod.splits if_splits)
  have "named (sessionOf a)" if "x = Some a" for a
    using lookupAccount_Some [OF l [unfolded that]] assms(2)
    by (auto intro!: named_sessionOf simp: accounts_named_def)
  with l c1 Some show ?thesis
    by (auto simp: login_def split: option.split prod.split sum.split dest: createSession_named)
qed (use assms in \<open>simp add: login_def\<close>)

lemma changePassword_named:
  assumes "named a" "sessions_named c" "accounts_named (cn_db c)"
  shows "sessions_named (snd (changePassword id bc rnd (Some a) body c))"
proof -
  have gone: "sessions_named (snd (accountGone a t))" if "sessions_named t" for t
    using delete_named(2) [OF that] by (simp add: accountGone_def)
  have renew: "sessions_named (snd (renewSession rnd r t))" if "named (sessionOf r)" "sessions_named t" for r t
    using delete_named(2) [OF that(2)] that(1)
    by (auto simp: renewSession_def split: prod.split sum.split dest: createSession_named)
  have row: "named (sessionOf r)" if "onDB (getAccountByID (trimSpace (sa_accountID a))) c = (Inr r, c')" for r c'
    using that getAccountByID_Inr [of "trimSpace (sa_accountID a)" "cn_db c" r] assms(1,3)
    by (fastforce simp: onDB_def accounts_named_def named_def intro!: named_sessionOf split: prod.splits)
  show ?thesis
    using assms(2) by (auto simp: changePassword_def withAccount_def Let_def split: option.split prod.split sum.split
        simp: onDB_sessions intro!: gone renew row)
qed

text \<open>The other handlers leave the sessions alone or end some.\<close>

lemma others_named:
  assumes "sessions_named c"
  shows "sessions_named (snd (logout ck c))" "sessions_named (snd (session acct c))" "sessions_named (snd (register id bc rnds acct lb c))"
    "sessions_named (snd (listAccounts pg sz c))" "sessions_named (snd (deleteAccount id acct p c))"
    "sessions_named (snd (listTokens acct c))" "sessions_named (snd (createToken id hash trnds acct tb c))"
    "sessions_named (snd (deleteToken acct p c))" "sessions_named (snd (requireToken hash header c))"
  using assms
  by (auto simp: logout_def session_def register_def listAccounts_def deleteAccount_def listTokens_def createToken_def
      deleteToken_def requireToken_def withAccount_def Let_def delete_named onDB_sessions
      split: option.split prod.split sum.split)

lemma requests_named:
  assumes "request_step\<^sup>*\<^sup>* s s'" "accounts_named (cn_db s)" "sessions_named s"
  shows "accounts_named (cn_db s') \<and> sessions_named s'"
  using assms(1)
proof (induction rule: rtranclp_induct)
  case (step t u)
  have db: "accounts_named (cn_db u)"
    by (rule request_invariants(3) [OF r_into_rtranclp [where r = request_step, OF step(2)]]) (use step.IH in \<open>auto simp: accounts_named_def\<close>)
  from step(2) have "sessions_named u"
    by cases (use step.IH in \<open>auto intro!: authRoute_named adminRoute_named login_named changePassword_named others_named
      simp: sessions_named_def [of "_\<lparr>cn_now := _\<rparr>"] sessions_named_def [of "_\<lparr>cn_db := _\<rparr>"] sessions_named_def [symmetric]\<close>)
  with db show ?case ..
qed (use assms in simp)

text \<open>C24: No request reaches the dashboard as the fallback administrator: over any run of console requests from a state
  whose accounts and sessions have names, whatever a request with a session cookie is let through to, the handler sees
  the account of that session, and what the worker handlers take for its rights is that account's own.\<close>

theorem dashboard_acts_for_account:
  assumes "request_step\<^sup>*\<^sup>* s (consoleOf srv)" and "accounts_named (cn_db s)" and "sessions_named s"
    and "guardRequest env req g srv = (Inr (owner, acct), srv')" and "g = SessionGuard \<or> g = AdminGuard"
  shows "\<exists>sid st a. hr_cookie req = Some sid \<and> (sid, st) \<in> set (srv_sessions srv) \<and> sv_now (srv_service srv) < ss_expiresAt st \<and>
    acct = Some a \<and> sa_accountID a = trimSpace (sa_accountID (ss_account st)) \<and> sa_isAdmin a = sa_isAdmin (ss_account st) \<and>
    resolveWorkerAccessScope acct = Some (sa_accountID a, sa_isAdmin a) \<and> (g = AdminGuard \<longrightarrow> sa_isAdmin a)"
proof -
  have n: "sessions_named (consoleOf srv)" using requests_named [OF assms(1-3)] ..
  obtain c where r: "requireAuth (hr_cookie req) (consoleOf srv) = (Inr acct :: (http_body reply \<times> cookie) + _, c)"
    and ad: "g = AdminGuard \<longrightarrow> (\<exists>b. requireAdmin acct = (Inr b :: (http_body reply \<times> cookie) + _))"
    using assms(4,5) by (auto simp: guardRequest_def split: prod.splits sum.splits)
  obtain a where a: "acct = Some a" "named a" using requireAuth_named(2) [OF r n refl] by blast
  from r a obtain sid st where s: "hr_cookie req = Some sid" "map_of (srv_sessions srv) sid = Some st"
      "sv_now (srv_service srv) < ss_expiresAt st" "setRequestSessionAccount (ss_account st) = Some a"
    by (auto simp: requireAuth_def sessionState_def consoleOf_def split: option.splits if_splits)
  then have "sa_accountID a = trimSpace (sa_accountID (ss_account st))" "sa_isAdmin a = sa_isAdmin (ss_account st)"
    by (auto simp: setRequestSessionAccount_def Let_def split: if_splits)
  with s a ad show ?thesis
    by (auto simp: resolveWorkerAccessScope_def named_def requireAdmin_def dest: map_of_SomeD split: if_splits)
qed

theorem dashboard_acts_for_account_witness:
  "\<exists>acct srv'. guardRequest demoHttpEnv (demoHttp WorkersList [] [] (Some ''s2'') emptyBytes) SessionGuard demoServer =
     (Inr (None, acct), srv') \<and> resolveWorkerAccessScope acct = Some (''acc_2'', False)"
proof -
  let ?req = "demoHttp WorkersList [] [] (Some ''s2'') emptyBytes"
  let ?a = "sessionOf (demoAccount ''acc_2'' ''bob'' 0)"
  have "fst (guardRequest demoHttpEnv ?req SessionGuard demoServer) = Inr (None, Some ?a)" by code_simp
  then obtain srv' where g: "guardRequest demoHttpEnv ?req SessionGuard demoServer = (Inr (None, Some ?a), srv')"
    by (metis prod.collapse)
  have "accounts_named (cn_db (consoleOf demoServer))" "sessions_named (consoleOf demoServer)"
    "sa_accountID ?a = ''acc_2''" "\<not> sa_isAdmin ?a" by code_simp+
  with dashboard_acts_for_account [OF rtranclp.rtrancl_refl _ _ g] g show ?thesis by auto
qed

end
