(* ===== verification/Startup.thy ===== *)
theory Startup
  imports Dashboard Config
begin

text \<open>
  How the console comes up: \<open>persistence.Open\<close> with its recovery after a restart, and the part of \<open>main\<close> in
  \<open>console/cmd/console/main.go\<close> that builds the server from the configuration; then the two loops that prune in the
  background. No other goroutine runs before the server stands, so nothing happens between the steps. The result is the
  state from which the other theories start their runs.

  Making the directory, opening the file, the pragmas and the migrations are outside: they fail or not as \<open>se_opening\<close>
  says, and the tables are those that the migrations leave. \<open>se_mac\<close> is HMAC-SHA-256 in hex, by key and value.
\<close>

section \<open>Opening the database\<close>

record startup_env =
  se_mac :: "string \<Rightarrow> string \<Rightarrow> string"
  se_opening :: "go_error option"
  se_bcrypt :: bcrypt
  se_nameRandom :: random
  se_secretRandom :: random
  se_accountRandom :: "random list"
  se_now :: gtime

definition newHasher :: "(string \<Rightarrow> string \<Rightarrow> string) \<Rightarrow> string \<Rightarrow> go_error + (string \<Rightarrow> string)" where
  "newHasher mac key =
     (if trimSpace key = [] then Inl (OtherError ''CONSOLE_HASH_KEY is required'') else Inr (mac (trimSpace key)))"

definition defaultTaskRetentionD :: int where "defaultTaskRetentionD = 30"

text \<open>\<open>time.Duration(days) * 24 * time.Hour\<close>: the product is one of 64 bits.\<close>

definition retentionOfDays :: "int \<Rightarrow> gduration" where
  "retentionOfDays days = wrap64 (days * 24 * hour)"

definition openDB :: "startup_env \<Rightarrow> string \<Rightarrow> int \<Rightarrow> (string \<Rightarrow> string) query" where
  "openDB env hashKey taskRetentionDay d =
     (let taskRetentionDays = (if taskRetentionDay \<le> 0 then defaultTaskRetentionD else taskRetentionDay)
      in case newHasher (se_mac env) hashKey of
           Inl e \<Rightarrow> (Inl e, d)
         | Inr hasher \<Rightarrow>
             (case se_opening env of
                Some e \<Rightarrow> (Inl e, d)
              | None \<Rightarrow>
                  let nowMS = unixMilli (se_now env);
                      retentionMS = durMillis (retentionOfDays taskRetentionDays);
                      expiresMS = wrap64 (nowMS + retentionMS)
                  in case markNonTerminalTasksFailedOnStartup nowMS nowMS expiresMS d of
                       (Inl _, d) \<Rightarrow> (Inl (OtherError ''startup recovery tasks''), d)
                     | (Inr _, d) \<Rightarrow>
                         (case clearAllWorkerSessions d of
                            (Inl _, d) \<Rightarrow> (Inl (OtherError ''startup recovery sessions''), d)
                          | (Inr _, d) \<Rightarrow> (Inr hasher, d))))"

section \<open>The server\<close>

definition durSeconds :: "gduration \<Rightarrow> int" where
  "durSeconds d = sgn d * (\<bar>d\<bar> div second)"

definition newWorkerHandler :: "gduration \<Rightarrow> string \<Rightarrow> worker_handler" where
  "newWorkerHandler ttl consoleGRPCAddr = \<lparr>wh_offlineTTL = ttl, wh_consoleGRPCAddr = trimSpace consoleGRPCAddr\<rparr>"

text \<open>\<open>main\<close> up to the router. What ends in \<open>fatal\<close>, which stops the process, is its message. The constructors of the store,
  the two authenticators and the router fail only without their arguments, which are all there.\<close>

definition startConsole ::
  "startup_env \<Rightarrow> consoleConfig \<Rightarrow> db \<Rightarrow> (string + server \<times> adminAccountInitResult) \<times> db" where
  "startConsole env cfg d =
     (case openDB env (kc_hashKey cfg) (kc_taskRetentionDays cfg) d of
        (Inl _, d) \<Rightarrow> (Inl ''failed to initialize persistence'', d)
      | (Inr hasher, d) \<Rightarrow>
          (case initializeAdminAccount (\<lambda>d. d) (se_bcrypt env) (se_nameRandom env) (se_secretRandom env) (se_accountRandom env)
             (se_now env) (kc_dashboardUsername cfg) (kc_dashboardPassword cfg) d of
             (Inl _, d) \<Rightarrow> (Inl ''failed to initialize admin account'', d)
           | (Inr adminAccount, d) \<Rightarrow>
               (case listCredentialHashes d of
                  (initialCredentialHashes, d) \<Rightarrow>
                    let s = newRegistryService d initialCredentialHashes (kc_heartbeatIntervalSec cfg)
                          (wrap32 (durSeconds (kc_offlineTTL cfg))) (se_now env);
                        s = setHasher (Some hasher) s;
                        s = setTaskRetention (retentionOfDays (kc_taskRetentionDays cfg)) s
                    in (Inr (\<lparr>srv_service = s, srv_sessions = [], srv_registrationEnabled = kc_enableRegistration cfg,
                          srv_handler = newWorkerHandler (kc_offlineTTL cfg) (kc_grpcAddr cfg), srv_hasConsole = True\<rparr>,
                        adminAccount), d))))"

section \<open>The background loops\<close>

definition offlinePrunerTick :: "gtime \<Rightarrow> gduration \<Rightarrow> service \<Rightarrow> service" where
  "offlinePrunerTick now ttl s = snd (onStore (pruneOffline now ttl) s)"

definition taskPrunerTick :: "gtime \<Rightarrow> service \<Rightarrow> service" where
  "taskPrunerTick now s = snd (pruneExpiredTasksCount now s)"

inductive pruner_step :: "gduration \<Rightarrow> service \<Rightarrow> service \<Rightarrow> bool" for ttl :: gduration where
  prune_offline: "pruner_step ttl s (offlinePrunerTick now ttl s)"
| prune_tasks: "pruner_step ttl s (taskPrunerTick now s)"

section \<open>What the recovery leaves\<close>

lemma restart_ran:
  assumes "markNonTerminalTasksFailedOnStartup u c e d = (Inr n, d')"
  obtains fs where "d' = d\<lparr>db_faults := fs, db_tasks := updateWhere taskUnfinished (restartUpdate u c e) (db_tasks d)\<rparr>"
  using assms unfolding markNonTerminalTasksFailedOnStartup_def by (cases rule: dbRun_cases) auto

lemma clear_ran:
  assumes "clearAllWorkerSessions d = (Inr n, d')"
  obtains fs where "d' = d\<lparr>db_faults := fs,
    db_nodes := updateWhere (\<lambda>n. n_session_id n \<noteq> []) (n_session_id_update (\<lambda>_. [])) (db_nodes d)\<rparr>"
  using assms unfolding clearAllWorkerSessions_def by (cases rule: dbRun_cases) auto

text \<open>What the recovery does to the tables: rows keep their keys, unfinished tasks fail, no worker has a session.\<close>

definition recovered :: "db \<Rightarrow> db \<Rightarrow> bool" where
  "recovered d d' \<longleftrightarrow> 
     (\<exists>u c e. db_tasks d' = updateWhere taskUnfinished (restartUpdate u c e) (db_tasks d)) \<and>
     db_nodes d' = updateWhere (\<lambda>n. n_session_id n \<noteq> []) (n_session_id_update (\<lambda>_. [])) (db_nodes d) \<and>
     db_caps d' = db_caps d \<and> db_labels d' = db_labels d \<and> db_creds d' = db_creds d \<and> db_claims d' = db_claims d \<and>
     db_accounts d' = db_accounts d \<and> db_tokens d' = db_tokens d"

lemma openDB_recovers:
  assumes "openDB env key days d = (Inr hasher, d')"
  shows "recovered d d'" "hasher = se_mac env (trimSpace key)" "trimSpace key \<noteq> []"
  using assms
  by (auto simp: openDB_def newHasher_def Let_def recovered_def
      split: sum.splits option.splits if_splits prod.splits elim!: restart_ran clear_ran) blast+

lemma restarted_terminal: "taskUnfinished r \<Longrightarrow> isTaskTerminal (t_status (restartUpdate u c e r))"
  by (simp add: restartUpdate_def)

lemma recovered_tables:
  assumes "recovered d d'"
  shows "\<forall>r \<in> set (db_tasks d'). isTaskTerminal (t_status r)"
    "map t_task_id (db_tasks d') = map t_task_id (db_tasks d)"
    "\<forall>r \<in> set (db_tasks d). isTaskTerminal (t_status r) \<longrightarrow> r \<in> set (db_tasks d')"
    "\<forall>n \<in> set (db_nodes d'). n_session_id n = []"
    "db_accounts d' = db_accounts d" "db_tokens d' = db_tokens d" "workers_wf d \<Longrightarrow> workers_wf d'"
proof -
  obtain u c e where t: "db_tasks d' = updateWhere taskUnfinished (restartUpdate u c e) (db_tasks d)"
    using assms by (auto simp: recovered_def)
  note n = assms [unfolded recovered_def]
  show "\<forall>r \<in> set (db_tasks d'). isTaskTerminal (t_status r)"
    by (auto simp: t in_updateWhere restarted_terminal taskUnfinished_iff)
  show "map t_task_id (db_tasks d') = map t_task_id (db_tasks d)"
    by (simp add: t restartUpdate_def)
  show "\<forall>r \<in> set (db_tasks d). isTaskTerminal (t_status r) \<longrightarrow> r \<in> set (db_tasks d')"
    by (force simp: t in_updateWhere taskUnfinished_iff)
  show "\<forall>n \<in> set (db_nodes d'). n_session_id n = []" using n by (auto simp: in_updateWhere)
  show "db_accounts d' = db_accounts d" "db_tokens d' = db_tokens d" using n by simp_all
  show "workers_wf d'" if "workers_wf d"
    using that n by (simp add: workers_wf_def map_key_where)
qed

section \<open>The administrator\<close>

text \<open>Setting up the administrator only adds accounts, each an administrator with a name and keys of its own.\<close>

definition grown :: "db \<Rightarrow> db \<Rightarrow> bool" where
  "grown d d' \<longleftrightarrow> 
     (\<exists>rows. db_accounts d' = db_accounts d @ rows \<and>
        (\<forall>a \<in> set rows. a_is_admin a = 1 \<and> trimSpace (a_username a) \<noteq> [])) \<and>
     (accounts_wf d \<longrightarrow> accounts_wf d') \<and> db_tasks d' = db_tasks d \<and> db_tokens d' = db_tokens d \<and>
     db_nodes d' = db_nodes d \<and> db_caps d' = db_caps d \<and> db_labels d' = db_labels d \<and> db_creds d' = db_creds d \<and>
     db_claims d' = db_claims d"

lemma grown_faults: "grown d (d\<lparr>db_faults := fs\<rparr>)"
  by (auto simp: grown_def accounts_wf_def)

lemma grown_trans: "grown a b \<Longrightarrow> grown b c \<Longrightarrow> grown a c"
  unfolding grown_def by auto

lemma grown_refl [simp]: "grown d d"
  using grown_faults [of d "db_faults d"] by simp

lemma grown_rows: "grown d d' \<Longrightarrow> a \<in> set (db_accounts d) \<Longrightarrow> a \<in> set (db_accounts d')"
  by (auto simp: grown_def)

lemma insert_admin:
  assumes "insertAccount row d = (r, d')" and "a_is_admin row = 1" "trimSpace (a_username row) \<noteq> []"
  shows "grown d d'" "r = Inr () \<Longrightarrow> row \<in> set (db_accounts d')"
proof -
  have s: "d' = snd (insertAccount row d)" using assms(1) by simp
  have wf: "accounts_wf d \<Longrightarrow> accounts_wf d'"
    unfolding s insertAccount_def by (rule dbRun_preserves) (auto simp: accounts_wf_def)
  from assms(1) show "grown d d'" unfolding insertAccount_def
    by (cases rule: dbRun_cases) (use wf assms(2,3) in \<open>auto simp: grown_faults grown_def split: if_splits\<close>)
  from assms(1) show "row \<in> set (db_accounts d')" if "r = Inr ()" using that unfolding insertAccount_def
    by (cases rule: dbRun_cases) (auto split: if_splits)
qed

lemma read_grown: "getAccountWhere P d = (r, d') \<Longrightarrow> grown d d'"
  unfolding getAccountWhere_def by (elim dbRun_cases) (auto simp: grown_faults)

lemma classify_grown: "classifyAccountInsertConflict i k d = (r, d') \<Longrightarrow> grown d d'"
  unfolding classifyAccountInsertConflict_def getAccountByID_def getAccountByUsernameKey_def
  by (auto split: prod.splits sum.splits if_splits dest!: read_grown intro: grown_trans)

lemma attempts_admin:
  assumes "\<And>x. a_is_admin (row x) = 1 \<and> trimSpace (a_username (row x)) \<noteq> []"
  shows "createAttempts (\<lambda>d. d) rnds row d = (r, d') \<Longrightarrow>
    grown d d' \<and> (\<forall>x. r = Inr x \<longrightarrow> row x \<in> set (db_accounts d'))"
proof (induction rnds arbitrary: d)
  case Nil
  then show ?case by auto
next
  case (Cons rnd rest)
  have ins: "insertAccount (row x) e = (y, e') \<Longrightarrow> grown e e' \<and> (y = Inr () \<longrightarrow> row x \<in> set (db_accounts e'))" for x e y e'
    using insert_admin [of "row x" e y e'] assms by auto
  from Cons.prems show ?case
    by (auto split: prod.splits sum.splits if_splits accountInsertConflict.splits
        dest!: ins classify_grown Cons.IH intro: grown_trans)
qed

lemma create_admin:
  assumes "createAccountWithRetry (\<lambda>d. d) bc rnd wall input d = (r, d')" and "ci_isAdmin input"
  shows "grown d d'" "r = Inr c \<Longrightarrow> \<exists>a \<in> set (db_accounts d'). a_is_admin a = 1 \<and> a_account_id a = cr_accountID c"
proof -
  have at: "createAttempts (\<lambda>d. d) R row d = (y, e) \<Longrightarrow> (\<forall>x. a_is_admin (row x) = 1 \<and> trimSpace (a_username (row x)) \<noteq> []) \<Longrightarrow>
      grown d e \<and> (\<forall>x. y = Inr x \<longrightarrow> row x \<in> set (db_accounts e))" for R row y e
    using attempts_admin [of row R d y e] by auto
  show "grown d d'" using assms
    by (auto simp: createAccountWithRetry_def normalizeAccountUsername_def boolToInt64_def Let_def
        split: sum.splits prod.splits if_splits dest!: at)
  show "\<exists>a \<in> set (db_accounts d'). a_is_admin a = 1 \<and> a_account_id a = cr_accountID c" if "r = Inr c"
    using assms that
    by (auto simp: createAccountWithRetry_def normalizeAccountUsername_def boolToInt64_def Let_def
        split: sum.splits prod.splits if_splits dest!: at) force+
qed

lemma startAdmin_pos:
  assumes "countAdminAccounts d = (Inr n, d')" "0 < n"
  shows "\<exists>a \<in> set (db_accounts d'). a_is_admin a = 1"
  using assms unfolding countAdminAccounts_def
  by (cases rule: dbRun_cases) (auto simp: countWhere_def filter_empty_conv)

lemma read_admin:
  "countAdminAccounts d = (r, d') \<Longrightarrow> grown d d'"
  "getFirstAdminAccount d = (r', d') \<Longrightarrow> grown d d'"
  unfolding countAdminAccounts_def getFirstAdminAccount_def by (erule dbRun_cases; auto simp: grown_faults)+

lemma initialize_admin:
  assumes "initializeAdminAccount (\<lambda>d. d) bc nr sr rnds wall u p d = (Inr result, d')"
  shows "grown d d'" "\<exists>a \<in> set (db_accounts d'). a_is_admin a = 1"
proof -
  obtain adminCount d1 where c: "countAdminAccounts d = (Inr adminCount, d1)"
    using assms by (auto simp: initializeAdminAccount_def split: prod.splits sum.splits)
  have "grown d1 d' \<and> (\<exists>a \<in> set (db_accounts d'). a_is_admin a = 1)"
  proof (cases "adminCount > 0")
    case True
    then obtain a where f: "getFirstAdminAccount d1 = (Inr a, d')"
      using assms c by (auto simp: initializeAdminAccount_def split: prod.splits sum.splits)
    have "grown d1 d'" by (rule read_admin(2) [OF f])
    with startAdmin_pos [OF c True] show ?thesis by (blast intro: grown_rows)
  next
    case False
    then obtain uname pw created where "createAccountWithRetry (\<lambda>d. d) bc rnds wall
        \<lparr>ci_username = uname, ci_password = pw, ci_isAdmin = True, ci_now = wall\<rparr> d1 = (Inr created, d')"
      using assms c by (auto simp: initializeAdminAccount_def split: prod.splits sum.splits)
    from create_admin [OF this] show ?thesis by auto
  qed
  with read_admin(1) [OF c] show "grown d d'" "\<exists>a \<in> set (db_accounts d'). a_is_admin a = 1"
    by (auto intro: grown_trans)
qed

lemma listHashes_grown: "grown d (snd (listCredentialHashes d))"
  unfolding store_ops_snd(4) listWorkerCredentials_def
  by (rule dbRun_preserves) (simp_all add: grown_faults)

section \<open>The state a console starts in\<close>

lemma newService_fields:
  "sv_db (setTaskRetention r (setHasher h (newRegistryService d c hb ttl now))) = d"
  "sv_sessions (setTaskRetention r (setHasher h (newRegistryService d c hb ttl now))) = []"
  "sv_heap (setTaskRetention r (setHasher h (newRegistryService d c hb ttl now))) = []"
  "sv_tasks (setTaskRetention r (setHasher h (newRegistryService d c hb ttl now))) = []"
  "sv_hasher (setTaskRetention r (setHasher h (newRegistryService d c hb ttl now))) = h"
  "sv_credentials (setTaskRetention r (setHasher h (newRegistryService d c hb ttl now))) =
     sv_credentials (newRegistryService d c hb ttl now)"
  by (simp_all add: setTaskRetention_def setHasher_def newRegistryService_def)

lemma startConsole_parts:
  assumes "startConsole env cfg d = (Inr (srv, admin), d')"
  obtains d1 where "recovered d d1" "grown d1 d'" "\<exists>a \<in> set (db_accounts d'). a_is_admin a = 1"
    "sv_db (srv_service srv) = d'" "sv_sessions (srv_service srv) = []" "sv_tasks (srv_service srv) = []"
    "sv_hasher (srv_service srv) = Some (se_mac env (trimSpace (kc_hashKey cfg)))" "trimSpace (kc_hashKey cfg) \<noteq> []"
    "srv_sessions srv = []" "srv_hasConsole srv"
proof -
  obtain hasher d1 where o: "openDB env (kc_hashKey cfg) (kc_taskRetentionDays cfg) d = (Inr hasher, d1)"
    using assms by (auto simp: startConsole_def split: prod.splits sum.splits)
  obtain d2 where a: "initializeAdminAccount (\<lambda>d. d) (se_bcrypt env) (se_nameRandom env) (se_secretRandom env)
      (se_accountRandom env) (se_now env) (kc_dashboardUsername cfg) (kc_dashboardPassword cfg) d1 = (Inr admin, d2)"
    using assms o by (auto simp: startConsole_def Let_def split: prod.splits sum.splits)
  obtain hashes where l: "listCredentialHashes d2 = (hashes, d')"
    using assms o a by (auto simp: startConsole_def Let_def split: prod.splits sum.splits)
  have srv: "srv = \<lparr>srv_service = setTaskRetention (retentionOfDays (kc_taskRetentionDays cfg)) (setHasher (Some hasher)
       (newRegistryService d' hashes (kc_heartbeatIntervalSec cfg) (wrap32 (durSeconds (kc_offlineTTL cfg))) (se_now env))),
     srv_sessions = [], srv_registrationEnabled = kc_enableRegistration cfg,
     srv_handler = newWorkerHandler (kc_offlineTTL cfg) (kc_grpcAddr cfg), srv_hasConsole = True\<rparr>"
    using assms o a l by (simp add: startConsole_def Let_def)
  have g: "grown d2 d'" using listHashes_grown [of d2] l by simp
  show ?thesis
    by (rule that [of d1])
      (use openDB_recovers [OF o] initialize_admin [OF a] g in \<open>auto simp: srv newService_fields intro: grown_trans grown_rows\<close>)
qed

lemma grown_named: "grown d d' \<Longrightarrow> accounts_named d \<Longrightarrow> accounts_named d'"
  by (auto simp: grown_def accounts_named_def)

lemma grown_workers: "grown d d' \<Longrightarrow> workers_wf d' = workers_wf d"
  by (simp add: grown_def workers_wf_def)

lemma admin_kept:
  assumes "request_step\<^sup>*\<^sup>* s c" and "\<exists>a \<in> set (db_accounts (cn_db s)). a_is_admin a = 1"
  shows "\<exists>a \<in> set (db_accounts (cn_db c)). a_is_admin a \<noteq> 0"
proof -
  have rows: "adminRows d \<noteq> [] \<longleftrightarrow> (\<exists>a \<in> set (db_accounts d). a_is_admin a \<noteq> 0)" for d
    by (auto simp: adminRows_def filter_empty_conv)
  have "adminRows (cn_db c) = adminRows (cn_db s)"
    by (rule request_invariants(2) [OF assms(1) refl]) (simp add: adminRows_def)
  moreover have "adminRows (cn_db s) \<noteq> []" using assms(2) unfolding rows by (metis zero_neq_one)
  ultimately show ?thesis using rows [of "cn_db c"] by simp
qed

text \<open>C39: A console that comes up is recovered, guarded and administered. Whatever an earlier process left in the
  database and whichever queries fail on the way, once the server stands every task in the table has ended, those that
  had ended before are as they were, no worker has a session and no request a session or a task record; credentials are
  checked with the configured key, which is not blank; the keys of the tables are as sound as they were. And through any
  run of requests from there on, there is an administrator, keys stay unique, and every account and session has a name.\<close>

theorem console_starts:
  assumes "startConsole env cfg d = (Inr (srv, admin), d')"
    and "accounts_wf d" "accounts_named d" "workers_wf d"
    and "request_step\<^sup>*\<^sup>* (consoleOf srv) c"
  shows "sv_db (srv_service srv) = d' \<and>
    (\<forall>r \<in> set (db_tasks d'). isTaskTerminal (t_status r)) \<and> map t_task_id (db_tasks d') = map t_task_id (db_tasks d) \<and>
    (\<forall>r \<in> set (db_tasks d). isTaskTerminal (t_status r) \<longrightarrow> r \<in> set (db_tasks d')) \<and>
    (\<forall>n \<in> set (db_nodes d'). n_session_id n = []) \<and>
    sv_sessions (srv_service srv) = [] \<and> sv_tasks (srv_service srv) = [] \<and> srv_sessions srv = [] \<and> srv_hasConsole srv \<and>
    sv_hasher (srv_service srv) = Some (se_mac env (trimSpace (kc_hashKey cfg))) \<and> trimSpace (kc_hashKey cfg) \<noteq> [] \<and>
    workers_wf d' \<and> (\<exists>a \<in> set (db_accounts (cn_db c)). a_is_admin a \<noteq> 0) \<and>
    accounts_wf (cn_db c) \<and> accounts_named (cn_db c) \<and> sessions_named c"
proof -
  from assms(1) obtain d1 where r: "recovered d d1" and g: "grown d1 d'" and ad: "\<exists>a \<in> set (db_accounts d'). a_is_admin a = 1"
    and srv: "sv_db (srv_service srv) = d'" "sv_sessions (srv_service srv) = []" "sv_tasks (srv_service srv) = []"
      "sv_hasher (srv_service srv) = Some (se_mac env (trimSpace (kc_hashKey cfg)))" "trimSpace (kc_hashKey cfg) \<noteq> []"
      "srv_sessions srv = []" "srv_hasConsole srv"
    by (rule startConsole_parts)
  note t = recovered_tables [OF r]
  have tabs: "db_tasks d' = db_tasks d1" "db_nodes d' = db_nodes d1" using g by (simp_all add: grown_def)
  have db: "cn_db (consoleOf srv) = d'" by (simp add: consoleOf_def srv)
  have "accounts_named d1" "accounts_wf d1" using assms(2,3) t(5,6) by (simp_all add: accounts_named_def accounts_wf_def)
  with g have nm: "accounts_named d'" "accounts_wf d'" using grown_named by (auto simp: grown_def)
  have ss: "sessions_named (consoleOf srv)" by (simp add: sessions_named_def consoleOf_def srv)
  have run: "accounts_named (cn_db c) \<and> sessions_named c" using requests_named [OF assms(5) _ ss] nm db by simp
  have "accounts_wf (cn_db c)" by (rule request_invariants(1) [OF assms(5)]) (use nm db in \<open>simp_all add: accounts_wf_def\<close>)
  moreover have "\<exists>a \<in> set (db_accounts (cn_db c)). a_is_admin a \<noteq> 0"
    by (rule admin_kept [OF assms(5)]) (use ad db in simp)
  moreover have "workers_wf d'" using t(7) [OF assms(4)] grown_workers [OF g] by simp
  ultimately show ?thesis using t(1-4) srv run by (simp only: tabs) simp
qed

definition demoStart :: startup_env where
  "demoStart = \<lparr>se_mac = (\<lambda>k v. k @ v), se_opening = None, se_bcrypt = demoBcrypt, se_nameRandom = Inl ErrNoRows,
     se_secretRandom = Inl ErrNoRows, se_accountRandom = [Inr [7]], se_now = 9000 * second\<rparr>"

definition demoConfig :: consoleConfig where
  "demoConfig = loadConsole (\<lambda>k. if k = ''CONSOLE_HASH_KEY'' then '' key '' else
     if k = ''CONSOLE_DASHBOARD_USERNAME'' then ''root'' else if k = ''CONSOLE_DASHBOARD_PASSWORD'' then ''secret'' else [])"

definition demoLeft :: db where
  "demoLeft = demoDB\<lparr>db_tasks := [demoTaskRow\<lparr>t_status := Running\<rparr>]\<rparr>"

theorem console_starts_witness:
  "\<exists>srv admin d'. startConsole demoStart demoConfig demoLeft = (Inr (srv, admin), d') \<and>
     map (\<lambda>r. (t_task_id r, isTaskTerminal (t_status r))) (db_tasks d') = [(''t1'', True)] \<and>
     (\<exists>a \<in> set (db_accounts d'). a_is_admin a \<noteq> 0) \<and> sv_hasher (srv_service srv) = Some (\<lambda>v. ''key'' @ v)"
proof -
  let ?r = "startConsole demoStart demoConfig demoLeft"
  have "case fst ?r of Inl _ \<Rightarrow> False | Inr _ \<Rightarrow> True" by code_simp
  then obtain srv admin d' where r: "?r = (Inr (srv, admin), d')"
    by (cases ?r) (auto split: sum.splits)
  have wf: "accounts_wf demoLeft" "accounts_named demoLeft" "workers_wf demoLeft" by code_simp+
  note s = console_starts [OF r wf rtranclp.rtrancl_refl]
  have k: "trimSpace (kc_hashKey demoConfig) = ''key''" by code_simp
  have "map t_task_id (db_tasks d') = [''t1'']" using s by (simp add: demoLeft_def demoTaskRow_def)
  then have "map (\<lambda>r. (t_task_id r, isTaskTerminal (t_status r))) (db_tasks d') = [(''t1'', True)]"
    using s by (cases "db_tasks d'") auto
  moreover have "cn_db (consoleOf srv) = d'" using s by (simp add: consoleOf_def)
  ultimately show ?thesis using r s k by (auto simp: demoStart_def)
qed

section \<open>The retention\<close>

text \<open>Up to 106751 days the retention is what the setting says. From the next day on the product leaves 64 bits: the
  service ignores the negative number and keeps its default of ten minutes, and the recovery gives interrupted tasks an
  expiry in the past.\<close>

lemma retention_exact: "0 < days \<Longrightarrow> days \<le> 106751 \<Longrightarrow> retentionOfDays days = days * 24 * hour"
  unfolding retentionOfDays_def by (rule wrap64_id) (simp_all add: duration_defs)

lemma retention_overflow:
  "retentionOfDays 106752 < 0" "setTaskRetention (retentionOfDays 106752) s = s"
  "durMillis (retentionOfDays 106752) < 0"
proof -
  have r: "retentionOfDays 106752 = - 9223371273709551616" by code_simp
  show "retentionOfDays 106752 < 0" "setTaskRetention (retentionOfDays 106752) s = s" by (simp_all add: r setTaskRetention_def)
  show "durMillis (retentionOfDays 106752) < 0" by (simp add: r durMillis_def)
qed

section \<open>What the background loops leave alone\<close>

lemma offline_ran: "\<exists>fs. sv_db (offlinePrunerTick now ttl s) \<in>
    {(sv_db s)\<lparr>db_faults := fs\<rparr>, deleteNodesCascade (\<lambda>n. n_provisioned n = 0 \<and> n_last_seen_at n < unixMilli (now - ttl))
       ((sv_db s)\<lparr>db_faults := fs\<rparr>)}"
proof -
  obtain r d' where q: "deleteOfflineRuntimeWorkers (unixMilli (now - ttl)) (sv_db s) = (r, d')" by fastforce
  then have e: "sv_db (offlinePrunerTick now ttl s) = d'"
    by (cases r) (simp_all add: offlinePrunerTick_def pruneOffline_def orEmpty_def onStore_def)
  from q show ?thesis unfolding e deleteOfflineRuntimeWorkers_def by (cases rule: dbRun_cases) auto
qed

lemma task_tick_ran: "\<exists>fs. sv_db (taskPrunerTick now s) \<in> {(sv_db s)\<lparr>db_faults := fs\<rparr>,
    (sv_db s)\<lparr>db_faults := fs, db_tasks := deleteRows (taskExpired (unixMilli now)) (db_tasks (sv_db s))\<rparr>}"
proof -
  obtain r d' where q: "queryDeleteExpiredTerminalTasks (unixMilli now) (sv_db s) = (r, d')" by fastforce
  then have e: "sv_db (taskPrunerTick now s) = d'"
    by (cases r) (simp_all add: taskPrunerTick_def pruneExpiredTasksCount_def onStore_def)
  from q show ?thesis unfolding e queryDeleteExpiredTerminalTasks_def by (cases rule: dbRun_cases) auto
qed

text \<open>However often and whenever the loops run: workers made by the dashboard stay, as do unfinished tasks, accounts and
  tokens, and the keys of the worker tables stay sound.\<close>

theorem pruners_keep:
  assumes "(pruner_step ttl)\<^sup>*\<^sup>* s s'" "workers_wf (sv_db s)"
  shows "(\<forall>n \<in> set (db_nodes (sv_db s)). n_provisioned n \<noteq> 0 \<longrightarrow> n \<in> set (db_nodes (sv_db s'))) \<and>
    (\<forall>r \<in> set (db_tasks (sv_db s)). taskUnfinished r \<longrightarrow> r \<in> set (db_tasks (sv_db s'))) \<and>
    db_accounts (sv_db s') = db_accounts (sv_db s) \<and> db_tokens (sv_db s') = db_tokens (sv_db s) \<and> workers_wf (sv_db s')"
  using assms(1)
proof (induction rule: rtranclp_induct)
  case (step t u)
  from step(2) have "(\<forall>n \<in> set (db_nodes (sv_db t)). n_provisioned n \<noteq> 0 \<longrightarrow> n \<in> set (db_nodes (sv_db u))) \<and>
    (\<forall>r \<in> set (db_tasks (sv_db t)). taskUnfinished r \<longrightarrow> r \<in> set (db_tasks (sv_db u))) \<and>
    db_accounts (sv_db u) = db_accounts (sv_db t) \<and> db_tokens (sv_db u) = db_tokens (sv_db t) \<and>
    (workers_wf (sv_db t) \<longrightarrow> workers_wf (sv_db u))"
  proof cases
    case (prune_offline now)
    have c: "db_nodes (deleteNodesCascade P d) = deleteRows P (db_nodes d)" "db_tasks (deleteNodesCascade P d) = db_tasks d"
      "db_accounts (deleteNodesCascade P d) = db_accounts d" "db_tokens (deleteNodesCascade P d) = db_tokens d" for P d
      by (simp_all add: deleteNodesCascade_def Let_def)
    from offline_ran [of now ttl t] show ?thesis by (auto simp: prune_offline c intro!: workers_wf_cascade)
  next
    case (prune_tasks now)
    have w: "workers_wf (d\<lparr>db_faults := fs, db_tasks := ts\<rparr>) = workers_wf d" for d fs ts by (simp add: workers_wf_def)
    from task_tick_ran [of now t] show ?thesis
      by (auto simp: prune_tasks taskExpired_def taskUnfinished_def w)
  qed
  with step.IH show ?case by auto
qed (use assms(2) in simp)

end
